(* ===== verification/HkPrelude.thy ===== *)
theory HkPrelude
  imports Main "HOL-Library.Word"
begin

text \<open>
  Shared vocabulary of the development: the machine integer types of
  \<^verbatim>\<open>hk/types.h\<close>, the outcome of a computation that may call \<^verbatim>\<open>HK_ABORT\<close>, and the
  generic lemmas on words, lists and outcomes that the component theories use.
\<close>

unbundle bit_operations_syntax

section \<open>Machine integers\<close>

type_synonym u8 = "8 word"
type_synonym u16 = "16 word"
type_synonym u32 = "32 word"
type_synonym u64 = "64 word"

section \<open>Outcomes\<close>

text \<open>
  \<^verbatim>\<open>HK_ABORT\<close>, \<^verbatim>\<open>HK_ABORT_UNLESS\<close> and \<^verbatim>\<open>HK_ASSERT\<close> end the process. A function that may
  reach one of them returns a sum: \<open>Inl\<close> the abort message, \<open>Inr\<close> the value.  \<open>Undefined\<close> is for an
  access outside an array that the code does not check.
\<close>

datatype fault = Abort string | Undefined string

type_synonym 'a run = "fault + 'a"

definition bindR :: "'e + 'a \<Rightarrow> ('a \<Rightarrow> 'e + 'b) \<Rightarrow> 'e + 'b" where
  "bindR m f = (case m of Inl e \<Rightarrow> Inl e | Inr x \<Rightarrow> f x)"

definition abort_unless :: "bool \<Rightarrow> string \<Rightarrow> 'a run \<Rightarrow> 'a run" where
  "abort_unless c msg k = (if c then k else Inl (Abort msg))"

lemma bindR_simps [simp]:
  "bindR (Inl e) f = Inl e"
  "bindR (Inr x) f = f x"
  by (simp_all add: bindR_def)

lemma bindR_eq_Inr [simp]:
  "bindR m f = Inr y \<longleftrightarrow> (\<exists>x. m = Inr x \<and> f x = Inr y)"
  by (cases m) simp_all

lemma bindR_assoc: "bindR (bindR m f) g = bindR m (\<lambda>x. bindR (f x) g)"
  by (cases m) simp_all

lemma abort_unless_simps [simp]:
  "abort_unless True msg k = k"
  "abort_unless False msg k = Inl (Abort msg)"
  by (simp_all add: abort_unless_def)

lemma abort_unless_eq_Inr [simp]:
  "abort_unless c msg k = Inr y \<longleftrightarrow> c \<and> k = Inr y"
  by (simp add: abort_unless_def)

section \<open>Words\<close>

named_theorems word_field \<open>rules that compute bit fields of words\<close>

lemma mask_eq_push_bit_minus: "(mask n :: 'a::len word) = push_bit n 1 - 1"
  by (simp add: mask_eq_decr_exp push_bit_eq_mult)

lemma unat_mask_word: "n \<le> LENGTH('a) \<Longrightarrow> unat (mask n :: 'a::len word) = 2 ^ n - 1"
proof -
  assume n: "n \<le> LENGTH('a)"
  have "uint (mask n :: 'a word) = mask n"
    using n by (simp only: uint_mask_eq min_absorb2)
  then have "uint (mask n :: 'a word) = 2 ^ n - 1"
    by (simp only: mask_eq_exp_minus_1)
  then show ?thesis by (simp add: nat_diff_distrib nat_power_eq flip: nat_uint_eq)
qed

lemma and_mask_eq_iff_unat:
  "(w :: 'a::len word) AND mask n = w \<longleftrightarrow> unat w < 2 ^ n"
  by (metis mask_eq_iff of_nat_less_iff of_nat_numeral of_nat_power uint_nat)

lemma unat_and_mask: "unat ((w :: 'a::len word) AND mask n) = unat w mod 2 ^ n"
  by (simp only: take_bit_eq_mask [symmetric] unsigned_take_bit_eq) (simp only: take_bit_eq_mod)

lemma and_not_mask_eq_minus:
  "(w :: 'a::len word) AND NOT (mask n) = w - (w AND mask n)"
proof -
  have "w - (w AND mask n) = w AND NOT (w AND mask n)"
    by (rule disjunctive_diff_eq_and_not) (auto intro!: bit_eqI simp: bit_simps)
  also have "\<dots> = w AND NOT (mask n)"
    by (auto intro!: bit_eqI simp: bit_simps)
  finally show ?thesis by simp
qed

lemma unat_and_not_mask: "unat ((w :: 'a::len word) AND NOT (mask n)) = unat w - unat w mod 2 ^ n"
proof -
  have "w AND mask n \<le> w" by (rule word_and_le2)
  then show ?thesis
    by (simp only: and_not_mask_eq_minus unat_sub unat_and_mask)
qed

section \<open>Bytes\<close>

lemma u8_high: "8 \<le> i \<Longrightarrow> \<not> bit (b :: u8) i"
  by (auto dest: bit_imp_le_length)

lemma less_4E: "j < 4 \<Longrightarrow> (j = 0 \<Longrightarrow> P) \<Longrightarrow> (j = 1 \<Longrightarrow> P) \<Longrightarrow> (j = 2 \<Longrightarrow> P) \<Longrightarrow> (j = (3 :: nat) \<Longrightarrow> P) \<Longrightarrow> P"
  by linarith

lemma less_8E: "j < 8 \<Longrightarrow> (j < 4 \<Longrightarrow> P) \<Longrightarrow> (j = 4 \<Longrightarrow> P) \<Longrightarrow> (j = 5 \<Longrightarrow> P) \<Longrightarrow> (j = 6 \<Longrightarrow> P) \<Longrightarrow>
    (j = (7 :: nat) \<Longrightarrow> P) \<Longrightarrow> P"
  by linarith

end
