(* ===== verification/BitMath.thy ===== *)
theory BitMath
  imports HkPrelude
begin

text \<open>
  The integer helpers of \<^verbatim>\<open>hk/prim/traits/Integer.h\<close> and the bit routines of
  \<^verbatim>\<open>hk/util/Math.h\<close>: bit masks, alignment, representability of immediates, the field
  builder \<^verbatim>\<open>IntBuilder\<close> the assembler is written with, sign extension and the
  wildcard patterns the instruction classifier uses.  The pointer width is 64.
\<close>

section \<open>Masks and widths (Integer.h)\<close>

definition hk_bit :: "nat \<Rightarrow> u64" where
  "hk_bit n = push_bit n 1"

definition hk_bits :: "nat \<Rightarrow> u64" where
  "hk_bits n = (if n = 64 then - 1 else hk_bit n - 1)"

definition cPageSize :: u64 where
  "cPageSize = 4096"

definition isRepresentable :: "nat \<Rightarrow> u64 \<Rightarrow> nat \<Rightarrow> bool" where
  "isRepresentable width v numShift =
     list_ex (\<lambda>i. v AND push_bit (i * width) (hk_bits width) = v) [0..<numShift]"

partial_function (option) calcSmallestWidth_loop :: "nat \<Rightarrow> u64 \<Rightarrow> int option" where
  "calcSmallestWidth_loop curWidth maxv =
     (if curWidth \<noteq> 64
      then (if isRepresentable curWidth maxv 1 then Some (int curWidth)
            else calcSmallestWidth_loop (curWidth * 2) maxv)
      else Some (- 1))"

definition calcSmallestWidth :: "u64 \<Rightarrow> int option" where
  "calcSmallestWidth maxv = calcSmallestWidth_loop 8 maxv"

definition alignUp :: "u64 \<Rightarrow> u64 \<Rightarrow> u64" where
  "alignUp v alignment = (v + (alignment - 1)) AND NOT (alignment - 1)"

definition alignDown :: "u64 \<Rightarrow> u64 \<Rightarrow> u64" where
  "alignDown v alignment = v AND NOT (alignment - 1)"

definition alignUpPage :: "u64 \<Rightarrow> u64" where
  "alignUpPage v = alignUp v cPageSize"

definition alignDownPage :: "u64 \<Rightarrow> u64" where
  "alignDownPage v = alignDown v cPageSize"

definition isAligned :: "u64 \<Rightarrow> u64 \<Rightarrow> bool" where
  "isAligned v alignment \<longleftrightarrow> alignDown v alignment = v"

definition isAlignedPage :: "u64 \<Rightarrow> bool" where
  "isAlignedPage v \<longleftrightarrow> alignDown v cPageSize = v"

section \<open>Bit routines (Math.h)\<close>

text \<open>
  \<^verbatim>\<open>IntBuilder::set\<close> shifts the value into place and keeps the bits from
  \<open>lowerIdx\<close> to \<open>upperIdx\<close>, computing the mask at 64 bits.  A chain of calls is
  the list of its arguments in source order.
\<close>

definition ib_set :: "nat \<Rightarrow> nat \<Rightarrow> 'a::len word \<Rightarrow> 'a word \<Rightarrow> 'a word" where
  "ib_set upperIdx lowerIdx v mValue =
     mValue OR ucast ((ucast (push_bit lowerIdx v) :: u64) AND
       (push_bit (upperIdx + 1) 1 - push_bit lowerIdx 1))"

definition ib_build :: "(nat \<times> nat \<times> 'a::len word) list \<Rightarrow> 'a word" where
  "ib_build fields = fold (\<lambda>(u, l, v). ib_set u l v) fields 0"

function countSetBits :: "'a::len word \<Rightarrow> nat" where
  "countSetBits n = (if n = 0 then 0 else unat (n AND 1) + countSetBits (drop_bit 1 n))"
  by pat_completeness auto
termination
proof (relation "measure unat", simp)
  fix n :: "'a word"
  assume "n \<noteq> 0"
  then have "0 < unat n" by (simp add: unat_gt_0)
  then show "(drop_bit 1 n, n) \<in> measure unat"
    by (simp only: in_measure unat_drop_bit_eq) (simp only: drop_bit_eq_div, simp)
qed

declare countSetBits.simps [simp del]

text \<open>
  The loop compares the lowest element of \<open>value\<close> with the pattern before it shifts,
  so the top element is shifted in and never compared.  With \<open>elemSize = 0\<close> the loop
  variable never advances and the code does not return: the value is \<open>None\<close>.
\<close>

function isRepeatingBitPattern_loop :: "nat \<Rightarrow> nat \<Rightarrow> 'a::len word \<Rightarrow> 'a word \<Rightarrow> bool" where
  "isRepeatingBitPattern_loop i elemSize pattern v =
     (if elemSize = 0 \<or> LENGTH('a) \<le> i then True
      else if v AND (push_bit elemSize 1 - 1) \<noteq> pattern then False
      else isRepeatingBitPattern_loop (i + elemSize) elemSize pattern (drop_bit elemSize v))"
  by pat_completeness auto
termination
  by (relation "measure (\<lambda>(i, e, p, v). LENGTH('a) - i)") auto

declare isRepeatingBitPattern_loop.simps [simp del]

definition isRepeatingBitPattern :: "'a::len word \<Rightarrow> nat \<Rightarrow> bool option" where
  "isRepeatingBitPattern v elemSize =
     (if elemSize = LENGTH('a) then Some True
      else if elemSize = 0 then None
      else Some (isRepeatingBitPattern_loop elemSize elemSize
        (v AND (push_bit elemSize 1 - 1)) v))"

function countTrailingOnes_loop :: "nat \<Rightarrow> 'a::len word \<Rightarrow> nat" where
  "countTrailingOnes_loop count v =
     (if v AND 1 \<noteq> 0 \<and> count < LENGTH('a)
      then countTrailingOnes_loop (Suc count) (drop_bit 1 v) else count)"
  by pat_completeness auto
termination
  by (relation "measure (\<lambda>(c, v). LENGTH('a) - c)") auto

declare countTrailingOnes_loop.simps [simp del]

definition countTrailingOnes :: "'a::len word \<Rightarrow> nat" where
  "countTrailingOnes v = countTrailingOnes_loop 0 v"

text \<open>The loop of \<^verbatim>\<open>countLeadingZeros\<close> runs \<open>i\<close> from \<open>width - 1\<close> down to 0.\<close>

fun countLeadingZeros :: "'a::len word \<Rightarrow> nat \<Rightarrow> nat" where
  "countLeadingZeros v 0 = 0"
| "countLeadingZeros v (Suc i) =
     (if v AND push_bit i 1 = 0 then Suc (countLeadingZeros v i) else 0)"

fun calcHighestSetBit_loop :: "'a::len word \<Rightarrow> nat \<Rightarrow> int" where
  "calcHighestSetBit_loop v 0 = - 1"
| "calcHighestSetBit_loop v (Suc i) =
     (if v AND push_bit i 1 \<noteq> 0 then int i else calcHighestSetBit_loop v i)"

definition calcHighestSetBit :: "'a::len word \<Rightarrow> int" where
  "calcHighestSetBit v = calcHighestSetBit_loop v LENGTH('a)"

definition ror :: "'a::len word \<Rightarrow> nat \<Rightarrow> nat \<Rightarrow> 'a word" where
  "ror v shift width =
     (let shift = shift mod width in
      if shift = 0 then v
      else let msk = push_bit width 1 - 1; v = v AND msk in
        (drop_bit shift v OR push_bit (width - shift) v) AND msk)"

definition signExtend :: "'a::len word \<Rightarrow> nat \<Rightarrow> 'a word" where
  "signExtend v width = (let msk = push_bit (width - 1) 1 in (v XOR msk) - msk)"

section \<open>Wildcard patterns (Math.h)\<close>

text \<open>The patterns are used at the instruction width, 32.\<close>

record wildcard =
  wc_mask :: u32
  wc_bits :: "u32 list"

definition wc_test :: "wildcard \<Rightarrow> u32 \<Rightarrow> bool" where
  "wc_test w v = list_ex (\<lambda>b. v AND wc_mask w = b) (wc_bits w)"

text \<open>
  The pattern constructor walks the text from its last character (bit 0) to its first;
  \<open>None\<close> stands for the compile-time error of a bad character or a pattern that is
  longer than the type.
\<close>

fun wc_parse :: "nat \<Rightarrow> string \<Rightarrow> u32 \<times> u32 \<Rightarrow> (u32 \<times> u32) option" where
  "wc_parse i [] (m, b) = Some (m, b)"
| "wc_parse i (c # cs) (m, b) =
     (if c = CHR ''?'' then wc_parse (Suc i) cs (m AND NOT (push_bit i 1), b)
      else if c = CHR ''1'' then wc_parse (Suc i) cs (m, b OR push_bit i 1)
      else if c = CHR ''0'' then wc_parse (Suc i) cs (m, b)
      else None)"

definition wc_of_string :: "string \<Rightarrow> wildcard option" where
  "wc_of_string expr =
     (if length expr > 32 then None
      else map_option (\<lambda>(m, b). \<lparr>wc_mask = m, wc_bits = [b]\<rparr>)
        (wc_parse 0 (rev expr) (ucast (hk_bits (length expr)), 0)))"

definition wc_or :: "wildcard \<Rightarrow> wildcard \<Rightarrow> wildcard" where
  "wc_or l r = \<lparr>wc_mask = wc_mask l AND wc_mask r, wc_bits = wc_bits l @ wc_bits r\<rparr>"


section \<open>Masks and alignment: laws\<close>

lemma hk_bits_eq_mask: "n \<le> 64 \<Longrightarrow> hk_bits n = mask n"
  by (auto simp: hk_bits_def hk_bit_def mask_eq_push_bit_minus minus_1_eq_mask)

lemma isRepresentable_one:
  "width \<le> 64 \<Longrightarrow> isRepresentable width v 1 \<longleftrightarrow> unat v < 2 ^ width"
  by (simp add: isRepresentable_def hk_bits_eq_mask and_mask_eq_iff_unat)

lemma push_bit_mask_and_eq_iff:
  "(v :: 'a::len word) AND push_bit k (mask n) = v \<longleftrightarrow>
     (\<forall>i < LENGTH('a). bit v i \<longrightarrow> k \<le> i \<and> i < k + n)"
  by (auto simp: bit_eq_iff bit_simps less_diff_conv2 add.commute)

lemma isRepresentable_iff:
  assumes "width \<le> 64"
  shows "isRepresentable width v numShift \<longleftrightarrow>
    (\<exists>i<numShift. \<forall>n<64. bit v n \<longrightarrow> i * width \<le> n \<and> n < i * width + width)"
  using assms
  by (simp add: isRepresentable_def hk_bits_eq_mask push_bit_mask_and_eq_iff list_ex_iff Bex_def)

lemma power_minus_one_mask: "(2 :: 'a::len word) ^ k - 1 = mask k"
  by (simp add: mask_eq_decr_exp)

lemma unat_alignDown: "unat (alignDown v (2 ^ k)) = unat v - unat v mod 2 ^ k"
  by (simp add: alignDown_def power_minus_one_mask unat_and_not_mask)

lemma alignDown_dvd: "2 ^ k dvd unat (alignDown v (2 ^ k))"
  by (simp add: unat_alignDown dvd_minus_mod)

lemma alignDown_le: "alignDown v a \<le> v"
  by (simp add: alignDown_def word_and_le2)

lemma isAligned_iff: "isAligned v (2 ^ k) \<longleftrightarrow> 2 ^ k dvd unat v"
proof -
  have "isAligned v (2 ^ k) \<longleftrightarrow> unat v - unat v mod 2 ^ k = unat v"
    by (metis isAligned_def unat_alignDown word_unat_eq_iff)
  also have "\<dots> \<longleftrightarrow> 2 ^ k dvd unat v"
    by (metis diff_is_0_eq' diff_zero dvd_eq_mod_eq_0 dvd_minus_mod gr0I mod_less_eq_dividend
        diff_less less_irrefl mod_eq_0_iff_dvd zero_less_iff_neq_zero mod_0)
  finally show ?thesis .
qed

lemma alignUp_eq_alignDown: "alignUp v a = alignDown (v + (a - 1)) a"
  by (simp add: alignUp_def alignDown_def)

lemma unat_alignUp:
  assumes "unat v + (2 ^ k - 1) < 2 ^ 64" and "k < 64"
  shows "unat (alignUp v (2 ^ k)) = (unat v + (2 ^ k - 1)) - (unat v + (2 ^ k - 1)) mod 2 ^ k"
proof -
  have m: "unat ((2 ^ k - 1) :: u64) = 2 ^ k - 1"
    using assms(2) by (simp only: power_minus_one_mask) (simp add: unat_mask_word)
  have "unat (v + (2 ^ k - 1)) = unat v + (2 ^ k - 1)"
    using assms(1) by (subst unat_add_lem [THEN iffD1]) (simp_all only: m, simp_all)
  then show ?thesis by (simp only: alignUp_eq_alignDown unat_alignDown)
qed

lemma alignUp_bounds:
  assumes "unat v + (2 ^ k - 1) < 2 ^ 64" and "k < 64"
  shows "2 ^ k dvd unat (alignUp v (2 ^ k))"
    and "unat v \<le> unat (alignUp v (2 ^ k))"
    and "unat (alignUp v (2 ^ k)) < unat v + 2 ^ k"
proof -
  let ?x = "unat v + (2 ^ k - 1)"
  have p: "(0::nat) < 2 ^ k" by simp
  have e: "unat (alignUp v (2 ^ k)) = ?x - ?x mod 2 ^ k"
    using assms by (rule unat_alignUp)
  have lt: "?x mod 2 ^ k < 2 ^ k" using p by (rule mod_less_divisor)
  show "2 ^ k dvd unat (alignUp v (2 ^ k))" unfolding e by (rule dvd_minus_mod)
  show "unat v \<le> unat (alignUp v (2 ^ k))" unfolding e using lt by linarith
  show "unat (alignUp v (2 ^ k)) < unat v + 2 ^ k" unfolding e using p by linarith
qed

section \<open>The field builder: laws\<close>

text \<open>The field of bits \<open>hi\<close> down to \<open>lo\<close>, as the architecture manual writes it.\<close>

definition field :: "nat \<Rightarrow> nat \<Rightarrow> 'a::len word \<Rightarrow> 'a word" where
  "field hi lo w = drop_bit lo w AND mask (Suc hi - lo)"

lemma bit_field:
  "bit (field hi lo (w :: 'a::len word)) n \<longleftrightarrow> lo + n \<le> hi \<and> lo \<le> hi \<and> bit w (lo + n)"
  by (auto simp: field_def bit_simps dest: bit_imp_le_length)

lemma range_mask_64:
  assumes "l \<le> u" "u < 64"
  shows "(push_bit (u + 1) 1 - push_bit l 1 :: u64) = mask (u + 1) AND NOT (mask l)"
proof -
  have "(push_bit (u + 1) 1 - push_bit l 1 :: u64) = mask (u + 1) - mask l"
    by (simp add: mask_eq_push_bit_minus)
  also have "\<dots> = mask (u + 1) AND NOT (mask l)"
    using assms by (intro disjunctive_diff_eq_and_not bit_eqI) (auto simp: bit_simps)
  finally show ?thesis .
qed

lemma bit_ib_set:
  fixes acc :: "'a::len word"
  assumes "l \<le> u" "u < 64"
  shows "bit (ib_set u l v acc) n \<longleftrightarrow>
    bit acc n \<or> (n < LENGTH('a) \<and> l \<le> n \<and> n \<le> u \<and> bit v (n - l))"
  using assms unfolding ib_set_def range_mask_64 [OF assms]
  by (auto simp: bit_simps dest: bit_imp_le_length)

lemma field_0 [word_field]: "field h l (0 :: 'a::len word) = 0"
  by (simp add: field_def)

lemma field_ib_set_inside [word_field]:
  fixes acc :: "'a::len word"
  assumes "l' \<le> l" "l \<le> h" "h \<le> u" "u < LENGTH('a)" "u < 64"
  shows "field h l (ib_set u l' v acc) = field h l acc OR field (h - l') (l - l') v"
  using assms
  by (auto intro!: bit_eqI simp: bit_field bit_ib_set bit_or_iff)

lemma field_ib_set_outside [word_field]:
  fixes acc :: "'a::len word"
  assumes "h < l' \<or> u < l" "l' \<le> u" "u < 64"
  shows "field h l (ib_set u l' v acc) = field h l acc"
  using assms by (auto intro!: bit_eqI simp: bit_field bit_ib_set)

lemma field_field [word_field]:
  "h + l' \<le> h' \<Longrightarrow> field h l (field h' l' (w :: 'a::len word)) = field (h + l') (l + l') w"
  by (rule bit_eqI) (auto simp: bit_field ac_simps)

lemma field_and_mask [word_field]:
  "h < n \<Longrightarrow> field h l ((w :: 'a::len word) AND mask n) = field h l w"
  by (rule bit_eqI) (auto simp: bit_field bit_simps dest: bit_imp_le_length)

lemma field_full: "unat (w :: 'a::len word) < 2 ^ Suc h \<Longrightarrow> field h 0 w = w"
  by (simp add: field_def and_mask_eq_iff_unat)

lemma unat_field_less: "lo \<le> hi \<Longrightarrow> unat (field hi lo (w :: 'a::len word)) < 2 ^ (Suc hi - lo)"
  by (simp add: field_def unat_and_mask)

section \<open>Bit routines: laws\<close>

lemma bits_of_drop_bit_1:
  "{i. bit (n :: 'a::len word) i} = (if bit n 0 then {0} else {}) \<union> Suc ` {i. bit (drop_bit 1 n) i}"
  (is "?L = ?R")
proof (rule set_eqI)
  fix i show "i \<in> ?L \<longleftrightarrow> i \<in> ?R"
    by (cases i) (auto simp: bit_drop_bit_eq)
qed

lemma finite_bits: "finite {i. bit (n :: 'a::len word) i}"
  by (rule finite_subset [of _ "{..<LENGTH('a)}"]) (auto dest: bit_imp_le_length)

lemma countSetBits_card: "countSetBits (n :: 'a::len word) = card {i. bit n i}"
proof (induction n rule: countSetBits.induct)
  case (1 n)
  show ?case
  proof (cases "n = 0")
    case True
    then show ?thesis by (simp add: countSetBits.simps)
  next
    case False
    have dis: "(if bit n 0 then {0} else {}) \<inter> Suc ` {i. bit (drop_bit 1 n) i} = {}" by auto
    have "card {i. bit n i} = card (if bit n 0 then {0::nat} else {}) + card (Suc ` {i. bit (drop_bit 1 n) i})"
      by (subst bits_of_drop_bit_1, subst card_Un_disjoint [OF _ _ dis]) (auto simp: finite_bits)
    also have "\<dots> = (if bit n 0 then 1 else 0) + countSetBits (drop_bit 1 n)"
      using 1 [OF False] by (simp add: card_image)
    also have "\<dots> = countSetBits n"
      using False by (subst countSetBits.simps) (simp add: and_one_eq bit_0 odd_iff_mod_2_eq_one)
    finally show ?thesis by simp
  qed
qed

lemma countSetBits_zero_iff: "countSetBits (n :: 'a::len word) = 0 \<longleftrightarrow> n = 0"
  by (simp add: countSetBits_card finite_bits) (auto simp: bit_eq_iff [of n] dest: bit_imp_le_length)

lemma countSetBits_not:
  "countSetBits (NOT n :: 'a::len word) = LENGTH('a) - countSetBits n"
proof -
  have "{i. bit (NOT n) i} = {..<LENGTH('a)} - {i. bit n i}"
    by (auto simp: bit_not_iff dest: bit_imp_le_length)
  moreover have "{i. bit n i} \<subseteq> {..<LENGTH('a)}" by (auto dest: bit_imp_le_length)
  ultimately show ?thesis by (simp add: countSetBits_card card_Diff_subset finite_bits)
qed

lemma and_power_eq_0: "(v :: 'a::len word) AND 2 ^ i = 0 \<longleftrightarrow> \<not> bit v i"
  by (rule and_exp_eq_0_iff_not_bit)

lemma and_one_eq_0: "(v :: 'a::len word) AND 1 = 0 \<longleftrightarrow> \<not> bit v 0"
  using and_power_eq_0 [of v 0] by simp

lemma calcHighestSetBit_loop_bound:
  assumes "k \<le> LENGTH('a)"
  shows "calcHighestSetBit_loop (v :: 'a::len word) k = int i \<longleftrightarrow>
    i < k \<and> bit v i \<and> (\<forall>j. i < j \<and> j < k \<longrightarrow> \<not> bit v j)"
  using assms
  by (induction k) (auto simp: and_power_eq_0 and_one_eq_0 less_Suc_eq)

lemma calcHighestSetBit_loop_neg:
  assumes "k \<le> LENGTH('a)"
  shows "calcHighestSetBit_loop (v :: 'a::len word) k = - 1 \<longleftrightarrow> (\<forall>j<k. \<not> bit v j)"
  using assms by (induction k) (auto simp: and_power_eq_0 and_one_eq_0 less_Suc_eq)

lemma countLeadingZeros_le: "countLeadingZeros v w \<le> w"
  by (induction w) auto

lemma countLeadingZeros_spec:
  assumes "w \<le> LENGTH('a)"
  shows "(\<forall>i<w. w - countLeadingZeros (v :: 'a::len word) w \<le> i \<longrightarrow> \<not> bit v i) \<and>
    (countLeadingZeros v w < w \<longrightarrow> bit v (w - 1 - countLeadingZeros v w))"
  using assms
proof (induction w)
  case (Suc w)
  then show ?case
    using countLeadingZeros_le [of v w]
    by (auto simp: and_power_eq_0 and_one_eq_0 less_Suc_eq Suc_diff_le)
qed simp

lemma mod_add_less: "i < w \<Longrightarrow> s < w \<Longrightarrow> (i + s) mod w = (if i + s < w then i + s else i + s - (w::nat))"
  by (simp add: le_mod_geq)

lemma bit_ror_step:
  assumes "0 < s" "s < width" "width < LENGTH('a)" "i < width"
  shows "bit ((drop_bit s (v AND mask width :: 'a::len word) OR push_bit (width - s) (v AND mask width))
      AND mask width) i \<longleftrightarrow> bit v (if i + s < width then i + s else i + s - width)"
  using assms by (auto simp: bit_simps ac_simps dest: bit_imp_le_length)

lemma bit_ror:
  assumes "width < LENGTH('a)" "i < width"
  shows "bit (ror (v :: 'a::len word) shift width) i \<longleftrightarrow> bit v ((i + shift) mod width)"
proof -
  define s where "s = shift mod width"
  have s: "s < width" using assms by (simp add: s_def)
  have m: "(i + shift) mod width = (if i + s < width then i + s else i + s - width)"
    using mod_add_less [OF assms(2) s] by (simp add: s_def mod_add_right_eq)
  have r: "ror v shift width = (if s = 0 then v
      else (drop_bit s (v AND mask width) OR push_bit (width - s) (v AND mask width)) AND mask width)"
    by (simp add: ror_def Let_def s_def mask_eq_push_bit_minus)
  show ?thesis
  proof (cases "s = 0")
    case True
    then show ?thesis using assms m r by simp
  next
    case False
    then show ?thesis using bit_ror_step [OF _ s assms] m r by simp
  qed
qed

text \<open>Sign extension of a value that fits the width reads its top bit as the sign.\<close>

lemma xor_power_eq:
  assumes "n < LENGTH('a)"
  shows "(v :: 'a::len word) XOR 2 ^ n = (if bit v n then v - 2 ^ n else v + 2 ^ n)"
proof (cases "bit v n")
  case True
  then have "NOT v AND 2 ^ n = 0" by (simp add: and_power_eq_0 bit_not_iff)
  then show ?thesis using True by (metis disjunctive_diff_eq_xor disjunctive_diff_eq_and_not)
next
  case False
  then have z: "v AND 2 ^ n = 0" by (simp add: and_power_eq_0)
  then have "v + 2 ^ n = v OR 2 ^ n" by (rule disjunctive_add_eq_or)
  also have "\<dots> = v XOR 2 ^ n"
    using False by (auto intro!: bit_eqI simp: bit_simps)
  finally show ?thesis using False by simp
qed

lemma signExtend_eq:
  assumes "0 < width" "width \<le> LENGTH('a)"
  shows "signExtend (v :: 'a::len word) width = (if bit v (width - 1) then v - 2 ^ width else v)"
proof -
  have e: "2 ^ (width - 1) + 2 ^ (width - 1) = (2 ^ width :: 'a word)"
    using assms(1) by (cases width) simp_all
  have "signExtend v width = (v XOR 2 ^ (width - 1)) - 2 ^ (width - 1)"
    by (simp add: signExtend_def Let_def)
  also have "\<dots> = (if bit v (width - 1) then v - (2 ^ (width - 1) + 2 ^ (width - 1)) else v)"
    using assms by (simp add: xor_power_eq diff_diff_eq)
  finally show ?thesis by (simp only: e)
qed

lemma bit_signExtend:
  assumes "0 < width" "width \<le> LENGTH('a)" "unat (v :: 'a::len word) < 2 ^ width"
  shows "bit (signExtend v width) n \<longleftrightarrow> n < LENGTH('a) \<and> bit v (min n (width - 1))"
proof -
  have hi: "\<not> bit v k" if "width \<le> k" for k
  proof -
    have "v AND mask width = v" using assms(3) by (simp add: and_mask_eq_iff_unat)
    then have "bit v k \<longleftrightarrow> bit (v AND mask width) k" by simp
    with that show ?thesis by (simp add: bit_simps)
  qed
  have "v - 2 ^ width = v OR NOT (mask width)"
  proof -
    have "v AND NOT (mask width) = 0"
      by (rule bit_eqI) (use hi in \<open>auto simp: bit_simps not_less\<close>)
    then have "v + NOT (mask width) = v OR NOT (mask width)" by (rule disjunctive_add_eq_or)
    moreover have "v - 2 ^ width = v + NOT (mask width)"
      by (simp flip: minus_exp_eq_not_mask)
    ultimately show ?thesis by simp
  qed
  then show ?thesis
    using assms hi
    by (auto simp: signExtend_eq bit_simps min_def not_le dest: bit_imp_le_length)
qed

section \<open>Wildcard patterns: laws\<close>

text \<open>What a pattern means: every character that is not \<open>?\<close> fixes the bit at its place.\<close>

definition wc_matches :: "string \<Rightarrow> u32 \<Rightarrow> bool" where
  "wc_matches expr v \<longleftrightarrow> (\<forall>i<length expr. rev expr ! i \<noteq> CHR ''?'' \<longrightarrow>
     (bit v i \<longleftrightarrow> rev expr ! i = CHR ''1''))"

lemma wc_parse_step:
  assumes "wc_parse i (c # cs) (m, b) = Some r" "i < 32"
  obtains m1 b1 where "wc_parse (Suc i) cs (m1, b1) = Some r"
    "\<And>n. bit m1 n \<longleftrightarrow> bit m n \<and> \<not> (n = i \<and> c = CHR ''?'')"
    "\<And>n. bit b1 n \<longleftrightarrow> bit b n \<or> (n = i \<and> c = CHR ''1'')"
    "c \<in> {CHR ''?'', CHR ''0'', CHR ''1''}"
proof -
  consider "c = CHR ''?''" | "c = CHR ''1''" | "c = CHR ''0''"
    using assms(1) by (auto split: if_splits)
  then show ?thesis
  proof cases
    case 1
    with assms show ?thesis
      by (intro that [of "m AND NOT (push_bit i 1)" b]) (auto simp: bit_simps dest: bit_imp_le_length)
  next
    case 2
    with assms show ?thesis
      by (intro that [of m "b OR push_bit i 1"]) (auto simp: bit_simps)
  next
    case 3
    with assms show ?thesis by (intro that [of m b]) auto
  qed
qed

lemma wc_parse_bits:
  assumes "wc_parse i cs (m, b) = Some (m', b')" "i + length cs \<le> 32"
  shows "(bit m' n \<longleftrightarrow> bit m n \<and> \<not> (i \<le> n \<and> n < i + length cs \<and> cs ! (n - i) = CHR ''?'')) \<and>
    (bit b' n \<longleftrightarrow> bit b n \<or> (i \<le> n \<and> n < i + length cs \<and> cs ! (n - i) = CHR ''1''))"
  using assms
proof (induction cs arbitrary: i m b)
  case Nil
  then show ?case by auto
next
  case (Cons c cs)
  from Cons.prems have i: "i < 32" by simp
  obtain m1 b1 where p: "wc_parse (Suc i) cs (m1, b1) = Some (m', b')"
    and m1: "\<And>n. bit m1 n \<longleftrightarrow> bit m n \<and> \<not> (n = i \<and> c = CHR ''?'')"
    and b1: "\<And>n. bit b1 n \<longleftrightarrow> bit b n \<or> (n = i \<and> c = CHR ''1'')"
    by (rule wc_parse_step [OF Cons.prems(1) i]) (rule that)
  from Cons.prems(2) have "Suc i + length cs \<le> 32" by simp
  note IH = Cons.IH [OF p this]
  show ?case
  proof (cases "n = i")
    case True
    then show ?thesis using IH m1 [of n] b1 [of n] by auto
  next
    case False
    then have "i \<le> n \<and> n < i + length (c # cs) \<longleftrightarrow> Suc i \<le> n \<and> n < Suc i + length cs"
      and "Suc i \<le> n \<Longrightarrow> (c # cs) ! (n - i) = cs ! (n - Suc i)"
      by (auto simp: nth_Cons')
    then show ?thesis using IH m1 [of n] b1 [of n] False by auto
  qed
qed

lemma wc_parse_chars:
  "wc_parse i cs mb = Some r \<Longrightarrow> c \<in> set cs \<Longrightarrow> c \<in> {CHR ''?'', CHR ''0'', CHR ''1''}"
  by (induction i cs mb rule: wc_parse.induct) (auto split: if_splits)

lemma wc_test_single: "wc_test \<lparr>wc_mask = m, wc_bits = [b]\<rparr> v \<longleftrightarrow> v AND m = b"
  by (simp add: wc_test_def)

lemma wc_of_string_test:
  assumes "wc_of_string expr = Some w"
  shows "wc_test w v \<longleftrightarrow> wc_matches expr v"
proof -
  let ?cs = "rev expr" and ?N = "length expr"
  from assms obtain m b where p: "wc_parse 0 ?cs (ucast (hk_bits ?N), 0) = Some (m, b)"
    and w: "w = \<lparr>wc_mask = m, wc_bits = [b]\<rparr>" and len: "?N \<le> 32"
    by (auto simp: wc_of_string_def split: if_splits)
  have "0 + length ?cs \<le> 32" using len by simp
  note bits = wc_parse_bits [OF p this]
  have m: "bit m n \<longleftrightarrow> n < ?N \<and> ?cs ! n \<noteq> CHR ''?''" for n
    using bits [of n] len by (auto simp: hk_bits_eq_mask bit_simps)
  have b: "bit b n \<longleftrightarrow> n < ?N \<and> ?cs ! n = CHR ''1''" for n
    using bits [of n] by auto
  have "v AND m = b \<longleftrightarrow> (\<forall>n<32. (bit v n \<and> bit m n) = bit b n)"
    by (auto simp: bit_eq_iff bit_simps)
  also have "\<dots> \<longleftrightarrow> wc_matches expr v"
  proof -
    have "(bit v n \<and> n < ?N \<and> ?cs ! n \<noteq> CHR ''?'') = (n < ?N \<and> ?cs ! n = CHR ''1'') \<longleftrightarrow>
        (n < ?N \<longrightarrow> ?cs ! n \<noteq> CHR ''?'' \<longrightarrow> bit v n = (?cs ! n = CHR ''1''))" for n
      by auto
    then show ?thesis
      unfolding wc_matches_def m b using len by (simp only:) (meson less_le_trans)
  qed
  finally show ?thesis by (simp add: w wc_test_single)
qed

lemma wc_or_test:
  assumes "wc_mask l = wc_mask r"
  shows "wc_test (wc_or l r) v \<longleftrightarrow> wc_test l v \<or> wc_test r v"
  using assms by (auto simp: wc_test_def wc_or_def)

lemma isRepeatingBitPattern_loop_iff:
  assumes "0 < e"
  shows "isRepeatingBitPattern_loop i e p (v :: 'a::len word) \<longleftrightarrow>
    (\<forall>k. i + k * e < LENGTH('a) \<longrightarrow> drop_bit (k * e) v AND mask e = p)"
  using assms
proof (induction i e p v rule: isRepeatingBitPattern_loop.induct)
  case (1 i e p v)
  show ?case
  proof (cases "LENGTH('a) \<le> i")
    case True
    then show ?thesis by (subst isRepeatingBitPattern_loop.simps) auto
  next
    case False
    let ?P = "\<lambda>k. i + k * e < LENGTH('a) \<longrightarrow> drop_bit (k * e) v AND mask e = p"
    have all: "(\<forall>k. ?P k) \<longleftrightarrow> ?P 0 \<and> (\<forall>k. ?P (Suc k))"
      by (metis not0_implies_Suc)
    have "isRepeatingBitPattern_loop i e p v \<longleftrightarrow>
        v AND mask e = p \<and> isRepeatingBitPattern_loop (i + e) e p (drop_bit e v)"
      using False 1(2)
      by (subst isRepeatingBitPattern_loop.simps) (simp add: mask_eq_decr_exp)
    also have "\<dots> \<longleftrightarrow> v AND mask e = p \<and> (\<forall>k. ?P (Suc k))"
    proof (rule conj_cong [OF refl])
      assume "v AND mask e = p"
      then show "isRepeatingBitPattern_loop (i + e) e p (drop_bit e v) \<longleftrightarrow> (\<forall>k. ?P (Suc k))"
        using 1 False by (simp add: mask_eq_decr_exp ac_simps)
    qed
    also have "\<dots> \<longleftrightarrow> (\<forall>k. ?P k)"
      using False unfolding all by simp
    finally show ?thesis .
  qed
qed

lemma calcSmallestWidth_eq:
  "calcSmallestWidth maxv = Some (if unat maxv < 2 ^ 8 then 8 else if unat maxv < 2 ^ 16 then 16
     else if unat maxv < 2 ^ 32 then 32 else - 1)"
  unfolding calcSmallestWidth_def
  by (simp add: calcSmallestWidth_loop.simps isRepresentable_one [unfolded One_nat_def] del: power_numeral)

end
