(* ===== verification/HkResult.thy ===== *)
theory HkResult
  imports BitMath
begin

text \<open>
  Result codes, \<^verbatim>\<open>hk/Result.h\<close>: a result is a 32-bit value that packs a module, a
  description and the index of a debug reference; 0 in the first two is success.
\<close>

section \<open>Packing\<close>

text \<open>
  \<open>makeResult\<close> takes \<^verbatim>\<open>int\<close> arguments; the intersection with \<^verbatim>\<open>bits(n)\<close> is computed at
  64 bits after sign extension and the result is cut to 32 bits.
\<close>

definition makeResult :: "u32 \<Rightarrow> u32 \<Rightarrow> u32 \<Rightarrow> u32" where
  "makeResult module description debugRef =
     ucast ((scast module AND hk_bits 9) OR push_bit 9 (scast description AND hk_bits 13) OR
       push_bit 22 (scast debugRef AND hk_bits 10))"

definition maskOutDebugRef :: "u32 \<Rightarrow> u32" where
  "maskOutDebugRef v = ucast (ucast v AND hk_bits 22)"

definition getModule :: "u32 \<Rightarrow> u32" where
  "getModule v = ucast (ucast v AND hk_bits 9)"

definition getDescription :: "u32 \<Rightarrow> u32" where
  "getDescription v = ucast (ucast (drop_bit 9 v) AND hk_bits 13)"

definition getDebugRef :: "u32 \<Rightarrow> u16" where
  "getDebugRef v = ucast (drop_bit 22 v)"

text \<open>\<^verbatim>\<open>Result::getValue\<close> ignores the debug reference; \<^verbatim>\<open>succeeded\<close> compares it with 0.\<close>

definition res_getValue :: "u32 \<Rightarrow> u32" where
  "res_getValue v = maskOutDebugRef v"

definition res_base_succeeded :: "u32 \<Rightarrow> bool" where
  "res_base_succeeded v \<longleftrightarrow> v = 0"

definition res_base_failed :: "u32 \<Rightarrow> bool" where
  "res_base_failed v \<longleftrightarrow> \<not> res_base_succeeded v"

definition res_base_and :: "u32 \<Rightarrow> u32 \<Rightarrow> u32" where
  "res_base_and l r = (if res_base_failed l then l else r)"

definition ResultV :: "nat \<Rightarrow> nat \<Rightarrow> u32" where
  "ResultV module description = makeResult (of_nat module) (of_nat description) 0"

definition ResultRange_includes :: "u32 \<Rightarrow> u32 \<Rightarrow> u32 \<Rightarrow> bool" where
  "ResultRange_includes lo hi v \<longleftrightarrow> lo \<le> v \<and> v \<le> hi"

section \<open>The codes\<close>

definition ResultSuccess where "ResultSuccess = ResultV 0 0"
definition ResultFailed where "ResultFailed = ResultV 0 1"
definition ResultNotImplemented where "ResultNotImplemented = ResultV 0 2"
definition ResultInvalidArgument where "ResultInvalidArgument = ResultV 0 3"
definition ResultInvalidAddress where "ResultInvalidAddress = ResultV 0 4"
definition ResultInvalidSize where "ResultInvalidSize = ResultV 0 5"
definition ResultNotFound where "ResultNotFound = ResultV 0 6"
definition ResultOutOfRange where "ResultOutOfRange = ResultV 0 7"
definition ResultAlreadyMapped where "ResultAlreadyMapped = ResultV 0 8"
definition ResultNotMapped where "ResultNotMapped = ResultV 0 9"
definition ResultNoValue where "ResultNoValue = ResultV 0 10"
definition ResultUnknown where "ResultUnknown = ResultV 0 11"
definition ResultOutOfResource where "ResultOutOfResource = ResultV 0 12"
definition ResultNotInitialized where "ResultNotInitialized = ResultV 0 13"

definition ResultAlreadyInstalled where "ResultAlreadyInstalled = ResultV 412 20"
definition ResultNotInstalled where "ResultNotInstalled = ResultV 412 21"
definition ResultOutOfBounds where "ResultOutOfBounds = ResultV 412 22"
definition ResultMismatchedInstruction where "ResultMismatchedInstruction = ResultV 412 23"
definition ResultInvalidRead where "ResultInvalidRead = ResultV 412 24"
definition ResultNotUninstallable where "ResultNotUninstallable = ResultV 412 25"

definition ResultAssertionFailure where "ResultAssertionFailure = ResultV 412 10"
definition ResultAbort where "ResultAbort = ResultV 412 11"
definition ResultValueDisowned where "ResultValueDisowned = ResultV 412 12"

definition ResultUnusualSectionLayout where "ResultUnusualSectionLayout = ResultV 412 0"
definition ResultGnuHashMissing where "ResultGnuHashMissing = ResultV 412 1"
definition ResultRtldModuleInvalid where "ResultRtldModuleInvalid = ResultV 412 5"
definition ResultSymbolUnresolved where "ResultSymbolUnresolved = ResultV 412 6"

text \<open>A function that returns a \<^verbatim>\<open>Result\<close> with an output value.\<close>

type_synonym 'a res = "u32 + 'a"

definition unless_res :: "bool \<Rightarrow> u32 \<Rightarrow> 'a res \<Rightarrow> 'a res" where
  "unless_res c r k = (if c then k else Inl r)"

lemma unless_res_simps [simp]:
  "unless_res True r k = k"
  "unless_res False r k = Inl r"
  by (simp_all add: unless_res_def)

lemma unless_res_eq_Inr [simp]: "unless_res c r k = Inr y \<longleftrightarrow> c \<and> k = Inr y"
  by (simp add: unless_res_def)

section \<open>Laws\<close>

lemma bit_scast_and_mask:
  "k < 32 \<Longrightarrow> bit (scast (m :: u32) AND mask k :: u64) n \<longleftrightarrow> n < k \<and> bit m n"
  by (cases "n < k") (simp_all add: bit_simps min_absorb1 min_absorb2)

lemma bit_makeResult:
  "bit (makeResult m d g) n \<longleftrightarrow>
    (n < 9 \<and> bit m n) \<or> (9 \<le> n \<and> n < 22 \<and> bit d (n - 9)) \<or> (22 \<le> n \<and> n < 32 \<and> bit g (n - 22))"
proof -
  have "bit (makeResult m d g) n \<longleftrightarrow> n < 32 \<and>
    ((n < 9 \<and> bit m n) \<or> (9 \<le> n \<and> n - 9 < 13 \<and> bit d (n - 9)) \<or>
     (22 \<le> n \<and> n - 22 < 10 \<and> bit g (n - 22)))"
    by (simp add: makeResult_def hk_bits_eq_mask bit_unsigned_iff bit_or_iff bit_push_bit_iff
        bit_scast_and_mask del: push_bit_and) auto
  then show ?thesis by auto
qed

lemma bit_getModule: "bit (getModule v) n \<longleftrightarrow> n < 9 \<and> bit v n"
  by (auto simp: getModule_def hk_bits_eq_mask bit_simps)

lemma bit_getDescription: "bit (getDescription v) n \<longleftrightarrow> n < 13 \<and> bit v (n + 9)"
  by (auto simp: getDescription_def hk_bits_eq_mask bit_simps ac_simps)

lemma bit_getDebugRef: "bit (getDebugRef v) n \<longleftrightarrow> n < 10 \<and> bit v (n + 22)"
  by (auto simp: getDebugRef_def bit_simps ac_simps dest: bit_imp_le_length)

lemma bit_maskOutDebugRef: "bit (maskOutDebugRef v) n \<longleftrightarrow> n < 22 \<and> bit v n"
  by (auto simp: maskOutDebugRef_def hk_bits_eq_mask bit_simps)

lemma high_bit_zero:
  "unat (w :: 'a::len word) < 2 ^ k \<Longrightarrow> k \<le> n \<Longrightarrow> \<not> bit w n"
  by (metis and_mask_eq_iff_unat bit_and_iff bit_mask_iff not_le)

text \<open>The three parts of a packed result are read back, whatever the others are.\<close>

lemma getModule_makeResult:
  assumes "unat m < 2 ^ 9"
  shows "getModule (makeResult m d g) = m"
proof (rule bit_eqI)
  fix n
  show "bit (getModule (makeResult m d g)) n = bit m n"
    using high_bit_zero [OF assms, of n] by (cases "n < 9") (simp_all add: bit_getModule bit_makeResult)
qed

lemma getDescription_makeResult:
  assumes "unat d < 2 ^ 13"
  shows "getDescription (makeResult m d g) = d"
proof (rule bit_eqI)
  fix n
  show "bit (getDescription (makeResult m d g)) n = bit d n"
    using high_bit_zero [OF assms, of n]
    by (cases "n < 13") (simp_all add: bit_getDescription bit_makeResult)
qed

lemma getDebugRef_makeResult:
  assumes "unat g < 2 ^ 10"
  shows "getDebugRef (makeResult m d g) = ucast g"
proof (rule bit_eqI)
  fix n
  show "bit (getDebugRef (makeResult m d g)) n = bit (ucast g :: u16) n"
    using high_bit_zero [OF assms, of n]
    by (cases "n < 10") (simp_all add: bit_getDebugRef bit_makeResult bit_unsigned_iff)
qed

lemma maskOut_makeResult: "maskOutDebugRef (makeResult m d g) = makeResult m d 0"
  by (rule bit_eqI) (auto simp: bit_maskOutDebugRef bit_makeResult)

lemma makeResult_of_parts: "makeResult (getModule v) (getDescription v) (ucast (getDebugRef v)) = v"
proof (rule bit_eqI)
  fix n :: nat
  consider "n < 9" | "9 \<le> n" "n < 22" | "22 \<le> n" "n < 32" | "32 \<le> n" by linarith
  then show "bit (makeResult (getModule v) (getDescription v) (ucast (getDebugRef v))) n = bit v n"
    by cases (auto simp: bit_makeResult bit_getModule bit_getDescription bit_getDebugRef
        bit_unsigned_iff dest: bit_imp_le_length)
qed

lemma res_and_failed_iff: "res_base_failed (res_base_and l r) \<longleftrightarrow> res_base_failed l \<or> res_base_failed r"
  by (simp add: res_base_and_def)

end
