(* ===== verification/A64Instr.thy ===== *)
theory A64Instr
  imports HkResult "HOL-Library.Signed_Division"
begin

text \<open>
  AArch64 instruction words: register numbers, the wildcard patterns that classify an
  instruction and the readers of its operands (\<^verbatim>\<open>hk/hook/a64/Instrs.h\<close>), the branch
  encoders and the ADRP reader (\<^verbatim>\<open>hk/hook/InstrUtil.h\<close>, the AArch64 half).
\<close>

section \<open>Registers (Instrs.h)\<close>

text \<open>
  \<^verbatim>\<open>IRegType\<close> is a byte: X0 to X31 are 0 to 31, bit 5 (\<open>W\<close>) marks the 32-bit view,
  SP is the value after W31.
\<close>

type_synonym IRegType = u8
type_synonym Instr = u32

definition reg_X :: "nat \<Rightarrow> IRegType" where "reg_X n = of_nat n"
definition reg_Wbit :: IRegType where "reg_Wbit = 32"
definition reg_W :: "nat \<Rightarrow> IRegType" where "reg_W n = reg_X n OR reg_Wbit"
definition reg_IP0 :: IRegType where "reg_IP0 = reg_X 16"
definition reg_IP1 :: IRegType where "reg_IP1 = reg_X 17"
definition reg_FP :: IRegType where "reg_FP = reg_X 29"
definition reg_LR :: IRegType where "reg_LR = reg_X 30"
definition reg_XZR :: IRegType where "reg_XZR = reg_X 31"
definition reg_WZR :: IRegType where "reg_WZR = reg_W 31"
definition reg_SP :: IRegType where "reg_SP = reg_WZR + 1"
definition IRegType_Max :: IRegType where "IRegType_Max = 0xFF AND NOT reg_Wbit"

datatype IShiftType = LSL | LSR | ASR | ROR | ShiftMax

fun shift_code :: "IShiftType \<Rightarrow> u8" where
  "shift_code LSL = 0"
| "shift_code LSR = 1"
| "shift_code ASR = 2"
| "shift_code ROR = 3"
| "shift_code ShiftMax = 4"

section \<open>Instruction patterns (Instrs.h)\<close>

definition cwAdr where "cwAdr = wc_of_string ''0??10000????????????????????????''"
definition cwAdrp where "cwAdrp = wc_of_string ''1??10000????????????????????????''"
definition cwB where "cwB = wc_of_string ''000101??????????????????????????''"
definition cwBL where "cwBL = wc_of_string ''100101??????????????????????????''"
definition cwBcond where "cwBcond = wc_of_string ''01010100???????????????????0????''"
definition cwCbz where "cwCbz = wc_of_string ''?0110100????????????????????????''"
definition cwCbnz where "cwCbnz = wc_of_string ''?0110101????????????????????????''"
definition cwTbz where "cwTbz = wc_of_string ''?0110110????????????????????????''"
definition cwTbnz where "cwTbnz = wc_of_string ''?0110111????????????????????????''"
definition cwLdrLiteral where "cwLdrLiteral = wc_of_string ''0?011000????????????????????????''"

text \<open>
  The patterns are built by the \<^verbatim>\<open>consteval\<close> constructor, so a malformed one does not
  compile; \<open>cw_test\<close> tests a constructed pattern.
\<close>

definition cw_test :: "wildcard option \<Rightarrow> Instr \<Rightarrow> bool" where
  "cw_test w instr = (case w of Some p \<Rightarrow> wc_test p instr | None \<Rightarrow> False)"

section \<open>Operand readers (Instrs.h)\<close>

definition grabSf :: "Instr \<Rightarrow> bool" where
  "grabSf instr \<longleftrightarrow> drop_bit 31 instr AND 1 \<noteq> 0"

definition grabLdrLiteralWidth :: "Instr \<Rightarrow> bool" where
  "grabLdrLiteralWidth instr \<longleftrightarrow> drop_bit 30 instr AND 1 \<noteq> 0"

definition grabRd :: "Instr \<Rightarrow> IRegType" where
  "grabRd instr = ucast (ucast instr AND hk_bits 5)"

definition grabRn :: "Instr \<Rightarrow> IRegType" where
  "grabRn instr = ucast (ucast (drop_bit 5 instr) AND hk_bits 5)"

text \<open>\<open>immhi\<close> is a \<^verbatim>\<open>u32\<close>, \<open>immlo\<close> a \<^verbatim>\<open>u8\<close>; the \<^verbatim>\<open>s32\<close> addend widens to \<^verbatim>\<open>ptrdiff\<close>.\<close>

definition grabAdrAddend :: "Instr \<Rightarrow> u64" where
  "grabAdrAddend instr =
     (let immhi = ucast (ucast (drop_bit 5 instr) AND hk_bits 19) :: u32;
          immlo = ucast (ucast (drop_bit 29 instr) AND hk_bits 2) :: u8;
          imm = push_bit 2 immhi OR ucast immlo;
          addend = signExtend imm 21
      in scast addend)"

definition grabBcondCond :: "Instr \<Rightarrow> u64" where
  "grabBcondCond instr = ucast instr AND hk_bits 4"

definition grabTbzTbnzBitIndex :: "Instr \<Rightarrow> u8" where
  "grabTbzTbnzBitIndex instr =
     (let lower = ucast (ucast (drop_bit 19 instr) AND hk_bits 5) :: u8;
          upper = drop_bit 31 instr AND 1 \<noteq> 0
      in push_bit 5 (of_bool upper) OR lower)"

definition grabAdrpAddend :: "Instr \<Rightarrow> u64" where
  "grabAdrpAddend instr = grabAdrAddend instr * cPageSize"

definition grabAdrAdrpAddr :: "Instr \<Rightarrow> u64 \<Rightarrow> u64" where
  "grabAdrAdrpAddr instr pc =
     (let isAdr = cw_test cwAdr instr; isAdrp = cw_test cwAdrp instr
      in (if isAdrp then pc AND NOT (hk_bits 12) else pc) +
         (if isAdr then grabAdrAddend instr else grabAdrpAddend instr))"

definition grabBBLAddr :: "Instr \<Rightarrow> u64 \<Rightarrow> u64" where
  "grabBBLAddr instr pc =
     (let imm26 = ucast (ucast instr AND hk_bits 26) :: u32;
          offset = signExtend imm26 26
      in pc + scast offset * 4)"

definition grabBcondCbzCbnzLdrRelativeAddr :: "Instr \<Rightarrow> u64 \<Rightarrow> u64" where
  "grabBcondCbzCbnzLdrRelativeAddr instr pc =
     (let imm19 = ucast (ucast (drop_bit 5 instr) AND hk_bits 19) :: u32;
          offset = signExtend imm19 19
      in pc + scast offset * 4)"

definition grabTbzTbnzAddr :: "Instr \<Rightarrow> u64 \<Rightarrow> u64" where
  "grabTbzTbnzAddr instr pc =
     (let imm14 = ucast (ucast (drop_bit 5 instr) AND hk_bits 14) :: u32;
          offset = signExtend imm14 14
      in pc + scast offset * 4)"

section \<open>Branch encoders (InstrUtil.h)\<close>

definition cNop :: Instr where "cNop = 0xd503201f"

datatype UnconditionalBranchOp = Branch | BranchLink

fun branch_op_code :: "UnconditionalBranchOp \<Rightarrow> u32" where
  "branch_op_code Branch = 0b000101"
| "branch_op_code BranchLink = 0b100101"

definition cImm26Mask :: u32 where
  "cImm26Mask = 0b11111111111111111111111111"

text \<open>The \<^verbatim>\<open>s32\<close> division by 4 truncates towards zero.\<close>

definition makeUnconditionalBranchRelative :: "UnconditionalBranchOp \<Rightarrow> u32 \<Rightarrow> Instr" where
  "makeUnconditionalBranchRelative operand branchToRelativeAddress =
     (let rel = word_of_int (sint branchToRelativeAddress sdiv 4) :: u32
      in (rel AND cImm26Mask) OR push_bit 26 (branch_op_code operand))"

definition makeUnconditionalBranch :: "UnconditionalBranchOp \<Rightarrow> u64 \<Rightarrow> u64 \<Rightarrow> Instr" where
  "makeUnconditionalBranch operand pcAddr branchToAddr =
     (let branchToRelativeAddress = ucast (branchToAddr - pcAddr) :: u32
      in makeUnconditionalBranchRelative operand branchToRelativeAddress)"

definition makeB :: "u64 \<Rightarrow> u64 \<Rightarrow> Instr" where
  "makeB pcAddr branchToAddr = makeUnconditionalBranch Branch pcAddr branchToAddr"

definition makeBL :: "u64 \<Rightarrow> u64 \<Rightarrow> Instr" where
  "makeBL pcAddr branchToAddr = makeUnconditionalBranch BranchLink pcAddr branchToAddr"

definition cMaxBranchDistance :: u64 where
  "cMaxBranchDistance = hk_bit 26 * 4 div 2 - 1"

section \<open>Reading a global through ADRP (InstrUtil.h)\<close>

text \<open>
  \<open>code\<close> is the instruction word at an address, \<open>load\<close> the 64-bit word, \<open>queryMemory\<close> the
  kernel's answer (state, permission) of \<^verbatim>\<open>svc::QueryMemory\<close>: parameters of the model.
  The mask of \<open>immhi\<close> has 18 ones, and the shifts are \<^verbatim>\<open>u32\<close> shifts.
\<close>

definition MemoryPermission_Read :: u32 where "MemoryPermission_Read = 1"

definition readADRPGlobal ::
  "(u64 \<Rightarrow> u32) \<Rightarrow> (u64 \<Rightarrow> u64) \<Rightarrow> (u64 \<Rightarrow> u32 \<times> u32) \<Rightarrow> u64 \<Rightarrow> u32 \<Rightarrow> u64 res" where
  "readADRPGlobal code load queryMemory pc loInstrOffset =
     (let adrpInstr = code pc in
      unless_res (drop_bit 31 adrpInstr AND 1 = 1) ResultMismatchedInstruction
      (unless_res (drop_bit 24 adrpInstr AND 0b11111 = 0b10000) ResultMismatchedInstruction
      (let immhi = drop_bit 5 adrpInstr AND 0b111111111111111111;
           immlo = drop_bit 29 adrpInstr AND 0b11;
           offset0 = ucast (push_bit 12 (push_bit 2 immhi OR immlo)) :: u64;
           offset = (if offset0 AND push_bit 32 1 \<noteq> 0
                     then offset0 OR 0b11111111111100000000000000000000 else offset0);
           page = (pc AND NOT 0xFFF) + offset;
           loInstr = code (pc + scast loInstrOffset * 4)
       in if drop_bit 31 loInstr AND 1 = 1 \<and> drop_bit 22 loInstr AND 0b11111111 = 0b11100101
          then let imm12 = drop_bit 10 loInstr AND 0b111111111111;
                   sz = drop_bit 30 loInstr AND 0b11;
                   addend = push_bit (unat sz) imm12;
                   globalPtr = page + ucast addend;
                   (state, permission) = queryMemory globalPtr
               in unless_res (state \<noteq> 0 \<and> permission AND MemoryPermission_Read \<noteq> 0)
                    ResultInvalidRead (Inr (load globalPtr))
          else if drop_bit 23 loInstr AND 0b11111111 = 0b00100010
          then let sh = drop_bit 22 loInstr AND 1 \<noteq> 0;
                   imm12 = drop_bit 10 loInstr AND 0b111111111111;
                   off = if sh then push_bit 12 imm12 else imm12
               in Inr (page + ucast off)
          else Inl ResultMismatchedInstruction)))"

end
