(* ===== verification/A64Asm.thy ===== *)
theory A64Asm
  imports A64Instr
begin

text \<open>
  The instruction encoder of \<^verbatim>\<open>hk/hook/a64/Assembler.h\<close>: immediates that are known or
  come from an argument array (\<^verbatim>\<open>IImm\<close>), and \<^verbatim>\<open>IInstr::assemble\<close>, one definition per
  case of its switch.
\<close>

section \<open>Immediates\<close>

text \<open>\<^verbatim>\<open>ArgGetter\<close> reads the argument array at an index.\<close>

type_synonym ArgGetter = "u64 \<Rightarrow> u64"

datatype IImmType = ImmNone | Imm | Arg | RegImm | RegArg

record IImm =
  valueImm :: u64
  imm_type :: IImmType

definition IImm_none :: IImm where "IImm_none = \<lparr>valueImm = 0, imm_type = ImmNone\<rparr>"
definition IImm_imm :: "u64 \<Rightarrow> IImm" where "IImm_imm v = \<lparr>valueImm = v, imm_type = Imm\<rparr>"
definition IImm_reg :: "IRegType \<Rightarrow> IImm" where "IImm_reg r = \<lparr>valueImm = ucast r, imm_type = RegImm\<rparr>"
definition IImm_arg :: "u64 \<Rightarrow> IImm" where "IImm_arg i = \<lparr>valueImm = i, imm_type = Arg\<rparr>"
definition IImm_regarg :: "u64 \<Rightarrow> IImm" where "IImm_regarg i = \<lparr>valueImm = i, imm_type = RegArg\<rparr>"

definition resolve :: "IImm \<Rightarrow> ArgGetter option \<Rightarrow> u64" where
  "resolve i args =
     (case imm_type i of
        RegImm \<Rightarrow> valueImm i
      | Imm \<Rightarrow> valueImm i
      | RegArg \<Rightarrow> (case args of Some getArg \<Rightarrow> getArg (valueImm i) | None \<Rightarrow> 0)
      | Arg \<Rightarrow> (case args of Some getArg \<Rightarrow> getArg (valueImm i) | None \<Rightarrow> 0)
      | ImmNone \<Rightarrow> 0)"

definition imm_isValid :: "IImm \<Rightarrow> bool" where
  "imm_isValid i \<longleftrightarrow> imm_type i \<noteq> ImmNone"

definition imm_isImm :: "IImm \<Rightarrow> bool" where
  "imm_isImm i \<longleftrightarrow> imm_type i = Imm \<or> imm_type i = RegImm"

definition imm_isReg :: "IImm \<Rightarrow> bool" where
  "imm_isReg i \<longleftrightarrow> imm_type i = RegImm \<or> imm_type i = RegArg"

section \<open>Instructions\<close>

text \<open>
  \<^verbatim>\<open>MovToFromSp\<close> is \<^verbatim>\<open>AddImm\<close>, \<^verbatim>\<open>Movz\<close> and \<^verbatim>\<open>Movn\<close> are \<^verbatim>\<open>MovImm\<close> in the source's
  enumeration.
\<close>

datatype IInstrType =
    Nop | Ret | Br | Blr | Svc | AddImm | SubImm | AddReg | SubReg | MovImm | Movk
  | OrrReg | AndReg | Adr | Adrp | Bcond | Cbz | Cbnz | Tbz | Tbnz | LdrLiteral

definition s64_abs :: "u64 \<Rightarrow> u64" where
  "s64_abs v = (if sint v < 0 then - v else v)"

definition reg :: "IRegType \<Rightarrow> u32" where
  "reg r = ucast (r AND 0b11111)"

definition isW :: "IRegType \<Rightarrow> bool" where
  "isW r \<longleftrightarrow> r AND reg_Wbit \<noteq> 0"

definition isX :: "IRegType \<Rightarrow> bool" where
  "isX r \<longleftrightarrow> \<not> isW r"

definition canBeImm :: "bool \<Rightarrow> nat \<Rightarrow> nat \<Rightarrow> u64 \<Rightarrow> bool" where
  "canBeImm Neg Width NumShift v =
     (if isRepresentable Width v NumShift then True
      else if Neg \<and> isRepresentable Width (NOT v) NumShift then True
      else False)"

definition canBeImm16Shift4xNeg where "canBeImm16Shift4xNeg = canBeImm True 16 4"
definition canBeImm12Shift2x where "canBeImm12Shift2x = canBeImm False 12 2"
definition canBeImm21Neg where "canBeImm21Neg = canBeImm True 21 1"
definition canBeImm19Neg where "canBeImm19Neg = canBeImm True 19 1"
definition canBeImm14Neg where "canBeImm14Neg = canBeImm True 14 1"
definition canBeImm6 where "canBeImm6 = canBeImm False 6 1"

record IInstr =
  itype :: IInstrType
  i_rn :: IImm
  i_rd :: IImm
  i_rm :: IImm
  i_shift :: IShiftType
  i_imm :: IImm
  i_shiftImm :: IImm

definition IInstr_default :: IInstr where
  "IInstr_default = \<lparr>itype = AddImm, i_rn = IImm_reg IRegType_Max, i_rd = IImm_reg IRegType_Max,
     i_rm = IImm_reg IRegType_Max, i_shift = LSL, i_imm = IImm_none, i_shiftImm = IImm_imm 0\<rparr>"

definition cOpNop where "cOpNop = (0xD503201F :: u32)"
definition cOpRet where "cOpRet = (0b1101011001011111000000 :: u32)"
definition cOpSvc where "cOpSvc = (0b11010100000000000000000000000001 :: u32)"
definition cOpAddImm where "cOpAddImm = (0b00100010 :: u32)"
definition cOpSubImm where "cOpSubImm = (0b10100010 :: u32)"
definition cOpAddReg where "cOpAddReg = (0b0001011 :: u32)"
definition cOpSubReg where "cOpSubReg = (0b1001011 :: u32)"
definition cOpAndReg where "cOpAndReg = (0b0001010 :: u32)"
definition cOpMovz where "cOpMovz = (0b10100101 :: u32)"
definition cOpMovn where "cOpMovn = (0b00100101 :: u32)"
definition cOpMovk where "cOpMovk = (0b11100101 :: u32)"
definition cOpOrrReg where "cOpOrrReg = (0b0101010 :: u32)"
definition cOpBr where "cOpBr = (0b1101011000011111000000 :: u32)"
definition cOpBlr where "cOpBlr = (0b1101011000111111000000 :: u32)"
definition cOpAdr where "cOpAdr = (0b00010000 :: u32)"
definition cOpAdrp where "cOpAdrp = (0b10010000 :: u32)"
definition cOpBcond where "cOpBcond = (0b01010100 :: u32)"
definition cOpCbz where "cOpCbz = (0b0110100 :: u32)"
definition cOpCbnz where "cOpCbnz = (0b0110101 :: u32)"
definition cOpTbz where "cOpTbz = (0b0110110 :: u32)"
definition cOpTbnz where "cOpTbnz = (0b0110111 :: u32)"
definition cOpLdrLiteral where "cOpLdrLiteral = (0b011000 :: u32)"
definition cOpInvalid where "cOpInvalid = (0xFFFFFFFF :: u32)"

lemmas cOp_defs =
  cOpNop_def cOpRet_def cOpSvc_def cOpAddImm_def cOpSubImm_def cOpAddReg_def cOpSubReg_def
  cOpAndReg_def cOpMovz_def cOpMovn_def cOpMovk_def cOpOrrReg_def cOpBr_def cOpBlr_def
  cOpAdr_def cOpAdrp_def cOpBcond_def cOpCbz_def cOpCbnz_def cOpTbz_def cOpTbnz_def
  cOpLdrLiteral_def

section \<open>The cases of IInstr::assemble\<close>

definition asm_Nop :: "Instr run" where
  "asm_Nop = Inr (ib_build [(31, 0, cOpNop)])"

definition asm_Ret :: "IRegType \<Rightarrow> Instr run" where
  "asm_Ret rn =
     abort_unless (rn AND reg_Wbit = 0) ''Ret: X register required''
     (let rn = (if rn = IRegType_Max then reg_LR else rn)
      in Inr (ib_build [(31, 10, cOpRet), (9, 5, reg rn), (4, 0, 0)]))"

definition asm_Br :: "IRegType \<Rightarrow> Instr run" where
  "asm_Br rn =
     abort_unless (rn AND reg_Wbit = 0) ''Br: X register required''
     (Inr (ib_build [(31, 10, cOpBr), (9, 5, reg rn), (4, 0, 0)]))"

definition asm_Blr :: "IRegType \<Rightarrow> Instr run" where
  "asm_Blr rn =
     abort_unless (rn AND reg_Wbit = 0) ''Blr: X register required''
     (Inr (ib_build [(31, 10, cOpBlr), (9, 5, reg rn), (4, 0, 0)]))"

definition asm_Svc :: "u64 \<Rightarrow> Instr run" where
  "asm_Svc imm =
     (let immV = ucast imm :: u16 in Inr (ib_build [(31, 0, cOpSvc), (20, 5, ucast immV)]))"

definition asm_AddSubImm :: "bool \<Rightarrow> IRegType \<Rightarrow> IRegType \<Rightarrow> u64 \<Rightarrow> Instr run" where
  "asm_AddSubImm isAdd rd rn imm =
     (let immV = ucast imm :: u32 in
      abort_unless (canBeImm12Shift2x (ucast immV)) ''AddImm: Immediate out of range (0x%x)''
      (Inr (ib_build [
        (31, 31, of_bool (isX rd)),
        (30, 23, if isAdd then cOpAddImm else cOpSubImm),
        (22, 22, of_bool (ucast immV > hk_bits 12)),
        (21, 10, drop_bit (if ucast immV > hk_bits 12 then 12 else 0) immV),
        (9, 5, reg rn),
        (4, 0, reg rd)])))"

definition asm_MovImm :: "IRegType \<Rightarrow> u64 \<Rightarrow> Instr run" where
  "asm_MovImm rd imm =
     abort_unless (canBeImm16Shift4xNeg imm) ''MovImm: Immediate out of range (0x%zx)''
     (let invImmV = NOT imm;
          useMovn = countSetBits imm > countSetBits invImmV;
          immV = (if useMovn then invImmV else imm);
          hw = (if immV > hk_bits 48 then 48 else if immV > hk_bits 32 then 32
                else if immV > hk_bits 16 then 16 else 0) :: nat
      in Inr (ib_build [
        (31, 31, of_bool (isX rd)),
        (30, 23, if useMovn then cOpMovn else cOpMovz),
        (22, 21, of_nat (hw div 16)),
        (20, 5, ucast (drop_bit hw immV AND hk_bits 16)),
        (4, 0, reg rd)]))"

definition asm_Movk :: "IRegType \<Rightarrow> u64 \<Rightarrow> u64 \<Rightarrow> Instr run" where
  "asm_Movk rd immV hw =
     abort_unless (canBeImm16Shift4xNeg immV) ''Movk: Immediate out of range (0x%zx)''
     (abort_unless (hw = 0 \<or> hw = 16 \<or> hw = 32 \<or> hw = 48) ''Movk: Shift out of range (0x%zx)''
     (Inr (ib_build [
        (31, 31, of_bool (isX rd)),
        (30, 23, cOpMovk),
        (22, 21, ucast (hw div 16)),
        (20, 5, ucast immV),
        (4, 0, reg rd)])))"

definition asm_shifted_reg ::
  "u32 \<Rightarrow> IRegType \<Rightarrow> IRegType \<Rightarrow> IRegType \<Rightarrow> IShiftType \<Rightarrow> u64 \<Rightarrow> Instr" where
  "asm_shifted_reg op rd rn rm shift shiftV =
     ib_build [
        (31, 31, of_bool (isX rd)),
        (30, 24, op),
        (23, 22, ucast (shift_code shift)),
        (21, 21, 0),
        (20, 16, reg rm),
        (15, 10, ucast (ucast (ucast shiftV :: u32) AND hk_bits 6)),
        (9, 5, reg rn),
        (4, 0, reg rd)]"

definition asm_AddSubReg ::
  "bool \<Rightarrow> IRegType \<Rightarrow> IRegType \<Rightarrow> IRegType \<Rightarrow> IShiftType \<Rightarrow> u64 \<Rightarrow> Instr run" where
  "asm_AddSubReg isAdd rd rn rm shift shiftV =
     Inr (asm_shifted_reg (if isAdd then cOpAddReg else cOpSubReg) rd rn rm shift shiftV)"

definition asm_AndReg ::
  "IRegType \<Rightarrow> IRegType \<Rightarrow> IRegType \<Rightarrow> IShiftType \<Rightarrow> u64 \<Rightarrow> Instr run" where
  "asm_AndReg rd rn rm shift shiftV =
     abort_unless (rd AND reg_Wbit = rn AND reg_Wbit)
       ''AndReg: mismatching register widths (rd: %d, rn: %d)''
     (abort_unless (rd AND reg_Wbit = rm AND reg_Wbit)
       ''AndReg: mismatching register widths (rd: %d, rm: %d)''
     (Inr (asm_shifted_reg cOpAndReg rd rn rm shift shiftV)))"

definition asm_OrrReg ::
  "IRegType \<Rightarrow> IRegType \<Rightarrow> IRegType \<Rightarrow> IShiftType \<Rightarrow> u64 \<Rightarrow> Instr run" where
  "asm_OrrReg rd rn rm shift shiftV =
     abort_unless (rd AND reg_Wbit = rn AND reg_Wbit)
       ''OrrReg: mismatching register widths (rd: %d, rn: %d)''
     (abort_unless (rd AND reg_Wbit = rm AND reg_Wbit)
       ''OrrReg: mismatching register widths (rd: %d, rm: %d)''
     (abort_unless (rd \<noteq> reg_SP \<and> rn \<noteq> reg_SP \<and> rm \<noteq> reg_SP) ''OrrReg: SP not allowed''
     (Inr (asm_shifted_reg cOpOrrReg rd rn rm shift shiftV))))"

text \<open>The page distance is an arithmetic shift of a signed difference, then unsigned again.\<close>

definition asm_Adr :: "bool \<Rightarrow> IRegType \<Rightarrow> u64 \<Rightarrow> u64 \<Rightarrow> Instr run" where
  "asm_Adr isAdrp rd immV addr =
     abort_unless (rd AND reg_Wbit = 0) ''X register required''
     (abort_unless (isAdrp \<longrightarrow> isAlignedPage immV) ''Adrp: Immediate not aligned (0x%zx)''
     (let base = (if isAdrp then addr AND NOT (hk_bits 12) else addr);
          diff = immV - base;
          diffImm = (if isAdrp then signed_drop_bit 12 diff else diff)
      in abort_unless (canBeImm21Neg diffImm) ''Adr/Adrp: Immediate out of range (0x%zx)''
        (let immlo = ucast (diffImm AND hk_bits 2) :: u8;
             immhi = ucast (drop_bit 2 diffImm AND hk_bits 24) :: u32
         in Inr (ib_build [
           (31, 24, if isAdrp then cOpAdrp else cOpAdr),
           (30, 29, ucast immlo),
           (23, 5, immhi),
           (4, 0, reg rd)]))))"

text \<open>
  The word distance of the branches is an unsigned division: \<^verbatim>\<open>sizeof(Instr)\<close> is a
  \<^verbatim>\<open>size_t\<close>, so \<open>immV - base\<close> stays unsigned.
\<close>

definition branch_diff :: "u64 \<Rightarrow> u64 \<Rightarrow> u64" where
  "branch_diff immV addr = (let base = addr AND NOT (hk_bits 2) in (immV - base) div 4)"

definition asm_Bcond :: "u64 \<Rightarrow> u64 \<Rightarrow> u64 \<Rightarrow> Instr run" where
  "asm_Bcond immV condV addr =
     (let diff = branch_diff immV addr in
      abort_unless (canBeImm19Neg diff) ''B.cond: Immediate out of range (0x%zx, pc: 0x%zx)''
      (abort_unless (condV \<le> hk_bits 4) ''B.cond: Cond out of range (%zu)''
      (Inr (ib_build [(31, 24, cOpBcond), (23, 5, ucast diff), (4, 4, 0), (3, 0, ucast condV)]))))"

definition asm_Cbz :: "bool \<Rightarrow> IRegType \<Rightarrow> u64 \<Rightarrow> u64 \<Rightarrow> Instr run" where
  "asm_Cbz isCbz rd immV addr =
     (let diff = branch_diff immV addr in
      abort_unless (canBeImm19Neg diff) ''Cbz/Cbnz: Immediate out of range (0x%zx, pc: 0x%zx)''
      (Inr (ib_build [
        (31, 31, of_bool (isX rd)),
        (30, 24, if isCbz then cOpCbz else cOpCbnz),
        (23, 5, ucast diff),
        (4, 0, ucast rd)])))"

definition asm_Tbz :: "bool \<Rightarrow> IRegType \<Rightarrow> u64 \<Rightarrow> u64 \<Rightarrow> u64 \<Rightarrow> Instr run" where
  "asm_Tbz isTbz rd immV shiftImm addr =
     (let diff = branch_diff immV addr in
      abort_unless (canBeImm14Neg diff) ''Tbz/Tbnz: Immediate out of range (0x%zx, pc: 0x%zx)''
      (let shiftV = ucast shiftImm :: u32 in
       abort_unless (shiftV \<le> 63) ''Tbz/Tbnz: BitPos out of range (%u)''
       (Inr (ib_build [
         (31, 31, of_bool (ucast shiftV AND hk_bit 5 \<noteq> 0)),
         (30, 24, if isTbz then cOpTbz else cOpTbnz),
         (23, 19, ucast (ucast shiftV AND hk_bits 5)),
         (18, 5, ucast (ucast diff :: u16)),
         (4, 0, ucast rd)]))))"

definition asm_LdrLiteral :: "IRegType \<Rightarrow> u64 \<Rightarrow> u64 \<Rightarrow> Instr run" where
  "asm_LdrLiteral rd immV addr =
     (let diff = branch_diff immV addr in
      abort_unless (canBeImm19Neg diff) ''LdrLiteral: Immediate out of range (0x%zx, pc: 0x%zx)''
      (Inr (ib_build [
        (31, 30, of_bool (isX rd)),
        (30, 24, cOpLdrLiteral),
        (23, 5, ucast diff),
        (4, 0, ucast rd)])))"

section \<open>IInstr::assemble\<close>

definition sp_to_31 :: "IRegType \<Rightarrow> IRegType" where
  "sp_to_31 r = (if r = reg_SP then reg_X 31 else r)"

definition assemble :: "IInstr \<Rightarrow> u64 \<Rightarrow> ArgGetter option \<Rightarrow> Instr run" where
  "assemble i addr args =
     (let rdImm = resolve (i_rd i) args;
          rnImm = resolve (i_rn i) args;
          rmImm = resolve (i_rm i) args
      in abort_unless (rdImm < ucast IRegType_Max) ''rd(%zu) out of range''
        (abort_unless (rnImm < ucast IRegType_Max) ''rn(%zu) out of range''
        (abort_unless (rmImm < ucast IRegType_Max) ''rm(%zu) out of range''
        (let rd = sp_to_31 (ucast rdImm);
             rn = sp_to_31 (ucast rnImm);
             rm = ucast rmImm;
             imm = resolve (i_imm i) args;
             shiftImm = resolve (i_shiftImm i) args
         in case itype i of
            Nop \<Rightarrow> asm_Nop
          | Ret \<Rightarrow> asm_Ret rn
          | Br \<Rightarrow> asm_Br rn
          | Blr \<Rightarrow> asm_Blr rn
          | Svc \<Rightarrow> asm_Svc imm
          | AddImm \<Rightarrow> asm_AddSubImm True rd rn imm
          | SubImm \<Rightarrow> asm_AddSubImm False rd rn imm
          | MovImm \<Rightarrow> asm_MovImm rd imm
          | Movk \<Rightarrow> asm_Movk rd imm shiftImm
          | AddReg \<Rightarrow> asm_AddSubReg True rd rn rm (i_shift i) shiftImm
          | SubReg \<Rightarrow> asm_AddSubReg False rd rn rm (i_shift i) shiftImm
          | AndReg \<Rightarrow> asm_AndReg rd rn rm (i_shift i) shiftImm
          | OrrReg \<Rightarrow> asm_OrrReg rd rn rm (i_shift i) shiftImm
          | Adr \<Rightarrow> asm_Adr False rd imm addr
          | Adrp \<Rightarrow> asm_Adr True rd imm addr
          | Bcond \<Rightarrow> asm_Bcond imm shiftImm addr
          | Cbz \<Rightarrow> asm_Cbz True rd imm addr
          | Cbnz \<Rightarrow> asm_Cbz False rd imm addr
          | Tbz \<Rightarrow> asm_Tbz True rd imm shiftImm addr
          | Tbnz \<Rightarrow> asm_Tbz False rd imm shiftImm addr
          | LdrLiteral \<Rightarrow> asm_LdrLiteral rd imm addr))))"

end
