(* ===== verification/A64Spec.thy ===== *)
theory A64Spec
  imports A64Asm
begin

text \<open>
  The abstract specification the hooking code is checked against: the part of the
  AArch64 instruction set (Arm Architecture Reference Manual, A64 base instructions)
  that the assembler emits and the trampolines relocate, as a decoder and a step
  function over a register file.  Nothing here models code of the repository.
\<close>

section \<open>Decoding\<close>

datatype a64 =
    I_NOP
  | I_RET u32
  | I_BR u32
  | I_BLR u32
  | I_SVC u32
  | I_ADDSUBI bool bool bool u32 u32 u32        \<comment> \<open>sf, subtract, shift by 12, imm12, Rn, Rd\<close>
  | I_MOVW bool u32 u32 u32 u32                 \<comment> \<open>sf, opc, hw, imm16, Rd\<close>
  | I_LOGR bool u32 u32 u32 u32 u32 u32         \<comment> \<open>sf, opc, shift, Rm, imm6, Rn, Rd\<close>
  | I_ADDSUBR bool bool u32 u32 u32 u32 u32     \<comment> \<open>sf, subtract, shift, Rm, imm6, Rn, Rd\<close>
  | I_ADR bool u32 u32 u32                      \<comment> \<open>page, immhi, immlo, Rd\<close>
  | I_B bool u32                                \<comment> \<open>link, imm26\<close>
  | I_BCOND u32 u32                             \<comment> \<open>imm19, cond\<close>
  | I_CBZ bool bool u32 u32                     \<comment> \<open>sf, nonzero, imm19, Rt\<close>
  | I_TBZ bool u32 u32 u32                      \<comment> \<open>nonzero, bit position, imm14, Rt\<close>
  | I_LDRL bool u32 u32                         \<comment> \<open>64 bits, imm19, Rt\<close>

definition flag :: "nat \<Rightarrow> u32 \<Rightarrow> bool" where
  "flag n w \<longleftrightarrow> field n n w = 1"

definition a64_decode :: "u32 \<Rightarrow> a64 option" where
  "a64_decode w =
    (if field 28 24 w = 0b10000 then
       Some (I_ADR (flag 31 w) (field 23 5 w) (field 30 29 w) (field 4 0 w))
     else if field 28 24 w = 0b10001 \<and> \<not> flag 23 w \<and> \<not> flag 29 w then
       Some (I_ADDSUBI (flag 31 w) (flag 30 w) (flag 22 w) (field 21 10 w) (field 9 5 w) (field 4 0 w))
     else if field 28 24 w = 0b10010 \<and> flag 23 w \<and> field 30 29 w \<noteq> 0b01 \<and> (flag 31 w \<or> \<not> flag 22 w) then
       Some (I_MOVW (flag 31 w) (field 30 29 w) (field 22 21 w) (field 20 5 w) (field 4 0 w))
     else if field 28 24 w = 0b01010 \<and> \<not> flag 21 w \<and> (flag 31 w \<or> \<not> flag 15 w) then
       Some (I_LOGR (flag 31 w) (field 30 29 w) (field 23 22 w) (field 20 16 w) (field 15 10 w)
         (field 9 5 w) (field 4 0 w))
     else if field 28 24 w = 0b01011 \<and> \<not> flag 29 w \<and> \<not> flag 21 w \<and> field 23 22 w \<noteq> 0b11 \<and>
         (flag 31 w \<or> \<not> flag 15 w) then
       Some (I_ADDSUBR (flag 31 w) (flag 30 w) (field 23 22 w) (field 20 16 w) (field 15 10 w)
         (field 9 5 w) (field 4 0 w))
     else if \<not> flag 30 w \<and> field 29 26 w = 0b0101 then Some (I_B (flag 31 w) (field 25 0 w))
     else if \<not> flag 31 w \<and> flag 30 w \<and> field 29 24 w = 0b010100 \<and> \<not> flag 4 w then
       Some (I_BCOND (field 23 5 w) (field 3 0 w))
     else if \<not> flag 30 w \<and> field 29 25 w = 0b11010 then
       Some (I_CBZ (flag 31 w) (flag 24 w) (field 23 5 w) (field 4 0 w))
     else if \<not> flag 30 w \<and> field 29 25 w = 0b11011 then
       Some (I_TBZ (flag 24 w) (push_bit 5 (field 31 31 w) OR field 23 19 w) (field 18 5 w) (field 4 0 w))
     else if field 29 24 w = 0b011000 \<and> \<not> flag 31 w then
       Some (I_LDRL (flag 30 w) (field 23 5 w) (field 4 0 w))
     else if field 31 21 w = 0b11010100000 \<and> field 4 0 w = 0b00001 then Some (I_SVC (field 20 5 w))
     else if field 31 10 w = 0b1101011000011111000000 \<and> field 4 0 w = 0 then Some (I_BR (field 9 5 w))
     else if field 31 10 w = 0b1101011000111111000000 \<and> field 4 0 w = 0 then Some (I_BLR (field 9 5 w))
     else if field 31 10 w = 0b1101011001011111000000 \<and> field 4 0 w = 0 then Some (I_RET (field 9 5 w))
     else if w = 0xD503201F then Some I_NOP
     else None)"

section \<open>Execution\<close>

text \<open>
  The register file: the general registers, SP, PC and the condition flags.  Register
  number 31 reads as zero and ignores writes, except where an instruction names SP.
\<close>

record cpu =
  regs :: "u32 \<Rightarrow> u64"
  sp :: u64
  pc :: u64
  flag_N :: bool
  flag_Z :: bool
  flag_C :: bool
  flag_V :: bool

definition rd_X :: "cpu \<Rightarrow> u32 \<Rightarrow> u64" where
  "rd_X s r = (if r = 31 then 0 else regs s r)"

definition rd_XSP :: "cpu \<Rightarrow> u32 \<Rightarrow> u64" where
  "rd_XSP s r = (if r = 31 then sp s else regs s r)"

definition low32 :: "u64 \<Rightarrow> u64" where
  "low32 v = v AND mask 32"

definition sized :: "bool \<Rightarrow> u64 \<Rightarrow> u64" where
  "sized sf v = (if sf then v else low32 v)"

definition wr_X :: "u32 \<Rightarrow> u64 \<Rightarrow> cpu \<Rightarrow> cpu" where
  "wr_X r v s = (if r = 31 then s else s\<lparr>regs := (regs s)(r := v)\<rparr>)"

definition wr_XSP :: "u32 \<Rightarrow> u64 \<Rightarrow> cpu \<Rightarrow> cpu" where
  "wr_XSP r v s = (if r = 31 then s\<lparr>sp := v\<rparr> else s\<lparr>regs := (regs s)(r := v)\<rparr>)"

definition next_pc :: "cpu \<Rightarrow> cpu" where
  "next_pc s = s\<lparr>pc := pc s + 4\<rparr>"

text \<open>\<open>sx n v\<close> sign-extends the low \<open>n\<close> bits of an operand field.\<close>

definition sx :: "nat \<Rightarrow> u32 \<Rightarrow> u64" where
  "sx n v = word_of_int (signed_take_bit (n - 1) (uint v))"

definition cond_holds :: "cpu \<Rightarrow> u32 \<Rightarrow> bool" where
  "cond_holds s c =
    (let base = c AND 0b1110;
         r = (if base = 0 then flag_Z s
              else if base = 2 then flag_C s
              else if base = 4 then flag_N s
              else if base = 6 then flag_V s
              else if base = 8 then flag_C s \<and> \<not> flag_Z s
              else if base = 10 then flag_N s = flag_V s
              else if base = 12 then flag_N s = flag_V s \<and> \<not> flag_Z s
              else True)
     in if c AND 1 = 1 \<and> c \<noteq> 15 then \<not> r else r)"

definition ror_sized :: "bool \<Rightarrow> u64 \<Rightarrow> nat \<Rightarrow> u64" where
  "ror_sized sf v n = (if sf then word_rotr n v else ucast (word_rotr n (ucast v :: u32)))"

definition shift_op :: "bool \<Rightarrow> u32 \<Rightarrow> u64 \<Rightarrow> u32 \<Rightarrow> u64" where
  "shift_op sf kind v amount =
    (let n = unat amount; v = sized sf v in
     if kind = 0 then sized sf (push_bit n v)
     else if kind = 1 then drop_bit n v
     else if kind = 2 then (if sf then signed_drop_bit n v
       else ucast (signed_drop_bit n (ucast v :: u32)))
     else ror_sized sf v n)"

definition movw_result :: "bool \<Rightarrow> u32 \<Rightarrow> u32 \<Rightarrow> u32 \<Rightarrow> u64 \<Rightarrow> u64" where
  "movw_result sf opc hw imm16 old =
    (let p = 16 * unat hw; v = push_bit p (ucast imm16) in
     sized sf (if opc = 0b00 then NOT v
       else if opc = 0b10 then v
       else (old AND NOT (push_bit p (mask 16))) OR v))"

text \<open>
  One instruction at the program counter.  \<open>mem\<close> gives the 32-bit word at an address; a
  supervisor call leaves the model, so it has no step.
\<close>

definition a64_exec :: "(u64 \<Rightarrow> u32) \<Rightarrow> a64 \<Rightarrow> cpu \<Rightarrow> cpu option" where
  "a64_exec mem ins s =
    (case ins of
       I_NOP \<Rightarrow> Some (next_pc s)
     | I_RET rn \<Rightarrow> Some (s\<lparr>pc := rd_X s rn\<rparr>)
     | I_BR rn \<Rightarrow> Some (s\<lparr>pc := rd_X s rn\<rparr>)
     | I_BLR rn \<Rightarrow> Some ((wr_X 30 (pc s + 4) s)\<lparr>pc := rd_X s rn\<rparr>)
     | I_SVC n \<Rightarrow> None
     | I_ADDSUBI sf sub sh imm12 rn rd \<Rightarrow>
         (let a = sized sf (rd_XSP s rn);
              b = (if sh then push_bit 12 (ucast imm12) else ucast imm12)
          in Some (next_pc (wr_XSP rd (sized sf (if sub then a - b else a + b)) s)))
     | I_MOVW sf opc hw imm16 rd \<Rightarrow>
         Some (next_pc (wr_X rd (movw_result sf opc hw imm16 (rd_X s rd)) s))
     | I_LOGR sf opc shift rm imm6 rn rd \<Rightarrow>
         (let a = sized sf (rd_X s rn); b = shift_op sf shift (rd_X s rm) imm6 in
          if opc = 0b00 then Some (next_pc (wr_X rd (a AND b) s))
          else if opc = 0b01 then Some (next_pc (wr_X rd (a OR b) s))
          else if opc = 0b10 then Some (next_pc (wr_X rd (a XOR b) s))
          else None)
     | I_ADDSUBR sf sub shift rm imm6 rn rd \<Rightarrow>
         (let a = sized sf (rd_X s rn); b = shift_op sf shift (rd_X s rm) imm6 in
          Some (next_pc (wr_X rd (sized sf (if sub then a - b else a + b)) s)))
     | I_ADR page immhi immlo rd \<Rightarrow>
         (let imm = sx 21 (push_bit 2 immhi OR immlo) in
          Some (next_pc (wr_X rd (if page then (pc s AND NOT (mask 12)) + push_bit 12 imm
            else pc s + imm) s)))
     | I_B link imm26 \<Rightarrow>
         (let t = pc s + sx 26 imm26 * 4 in
          Some ((if link then wr_X 30 (pc s + 4) s else s)\<lparr>pc := t\<rparr>))
     | I_BCOND imm19 c \<Rightarrow>
         Some (if cond_holds s c then s\<lparr>pc := pc s + sx 19 imm19 * 4\<rparr> else next_pc s)
     | I_CBZ sf nz imm19 rt \<Rightarrow>
         Some (if (sized sf (rd_X s rt) = 0) \<noteq> nz then s\<lparr>pc := pc s + sx 19 imm19 * 4\<rparr> else next_pc s)
     | I_TBZ nz pos imm14 rt \<Rightarrow>
         Some (if bit (rd_X s rt) (unat pos) = nz then s\<lparr>pc := pc s + sx 14 imm14 * 4\<rparr> else next_pc s)
     | I_LDRL wide imm19 rt \<Rightarrow>
         (let a = pc s + sx 19 imm19 * 4;
              lo = ucast (mem a) :: u64;
              v = (if wide then push_bit 32 (ucast (mem (a + 4))) OR lo else lo)
          in Some (next_pc (wr_X rt v s))))"

definition a64_step :: "(u64 \<Rightarrow> u32) \<Rightarrow> cpu \<Rightarrow> cpu option" where
  "a64_step mem s = Option.bind (a64_decode (mem (pc s))) (\<lambda>ins. a64_exec mem ins s)"

fun a64_run :: "(u64 \<Rightarrow> u32) \<Rightarrow> nat \<Rightarrow> cpu \<Rightarrow> cpu option" where
  "a64_run mem 0 s = Some s"
| "a64_run mem (Suc n) s = Option.bind (a64_step mem s) (a64_run mem n)"

text \<open>A list of instruction words lies in memory from an address on.\<close>

definition code_at :: "(u64 \<Rightarrow> u32) \<Rightarrow> u64 \<Rightarrow> u32 list \<Rightarrow> bool" where
  "code_at mem a ws \<longleftrightarrow> (\<forall>i<length ws. mem (a + of_nat i * 4) = ws ! i)"

section \<open>Fields of the encoder's words\<close>

lemma field_numeral [word_field]:
  "field h l (numeral n :: 'a::len word) = drop_bit l (numeral n) AND (2 ^ (Suc h - l) - 1)"
  by (simp add: field_def mask_eq_decr_exp)

lemma field_one [word_field]:
  "field h l (1 :: 'a::len word) = drop_bit l 1 AND (2 ^ (Suc h - l) - 1)"
  by (simp add: field_def mask_eq_decr_exp)

lemma field_of_bool [word_field]: "field 0 0 (of_bool b :: 'a::len word) = of_bool b"
  by (cases b) (simp_all add: field_def)

lemma reg_eq_field: "reg r = field 4 0 (ucast r)"
  by (rule bit_eqI) (auto simp: reg_def bit_field bit_simps numeral_eq_Suc bit_0 elim!: less_SucE)

end
