(* ===== verification/A64AsmCorrect.thy ===== *)
theory A64AsmCorrect
  imports A64Spec
begin

text \<open>
  Every word the encoder returns is decoded, by the architecture's own decoder, to the
  instruction the encoder was asked for, with its operands.
\<close>

section \<open>Operand fields\<close>

lemma field_reg [word_field]: "field 4 0 (reg r) = reg r"
  by (simp add: reg_eq_field word_field)

lemma field_ucast_reg [word_field]: "field 4 0 (ucast (r :: IRegType) :: u32) = reg r"
  by (simp add: reg_eq_field)

lemma field_0_low [word_field]: "field 0 0 (0 :: u32) = 0"
  by (simp add: field_def)

lemma of_bool_eq_one [simp]: "(of_bool b = (1 :: u32)) \<longleftrightarrow> b"
  by (cases b) simp_all

lemmas enc_simps = ib_build_def a64_decode_def word_field flag_def cOp_defs

section \<open>One case at a time\<close>

lemma asm_Nop_decode: "asm_Nop = Inr w \<Longrightarrow> a64_decode w = Some I_NOP"
  by (clarsimp simp: asm_Nop_def) (simp add: enc_simps, simp add: ib_set_def)

lemma asm_Ret_decode:
  "asm_Ret rn = Inr w \<Longrightarrow> rn \<noteq> IRegType_Max \<Longrightarrow> a64_decode w = Some (I_RET (reg rn))"
  by (clarsimp simp: asm_Ret_def) (simp add: enc_simps)

lemma asm_Br_decode: "asm_Br rn = Inr w \<Longrightarrow> a64_decode w = Some (I_BR (reg rn))"
  by (clarsimp simp: asm_Br_def) (simp add: enc_simps)

lemma asm_Blr_decode: "asm_Blr rn = Inr w \<Longrightarrow> a64_decode w = Some (I_BLR (reg rn))"
  by (clarsimp simp: asm_Blr_def) (simp add: enc_simps)

lemma asm_Svc_decode:
  "asm_Svc imm = Inr w \<Longrightarrow> a64_decode w = Some (I_SVC (field 15 0 (ucast (ucast imm :: u16))))"
  by (clarsimp simp: asm_Svc_def) (simp add: enc_simps)

lemma asm_AddSubImm_decode:
  assumes "asm_AddSubImm isAdd rd rn imm = Inr w"
  shows "a64_decode w = Some (I_ADDSUBI (isX rd) (\<not> isAdd) (hk_bits 12 < ucast (ucast imm :: u32))
      (field 11 0 (drop_bit (if hk_bits 12 < ucast (ucast imm :: u32) then 12 else 0) (ucast imm)))
      (reg rn) (reg rd))"
proof -
  from assms have w: "w = ib_build [
        (31, 31, of_bool (isX rd)), (30, 23, if isAdd then cOpAddImm else cOpSubImm),
        (22, 22, of_bool (hk_bits 12 < ucast (ucast imm :: u32))),
        (21, 10, drop_bit (if hk_bits 12 < ucast (ucast imm :: u32) then 12 else 0) (ucast imm)),
        (9, 5, reg rn), (4, 0, reg rd)]"
    by (simp only: asm_AddSubImm_def Let_def abort_unless_eq_Inr sum.inject)
  show ?thesis unfolding w by (cases isAdd) (simp_all add: enc_simps)
qed

lemma field_single: "field n n (w :: 'a::len word) = of_bool (bit w n)"
  by (rule bit_eqI) (auto simp: bit_field bit_1_iff)

lemma field_eq_one: "field n n (w :: u32) = 1 \<longleftrightarrow> bit w n"
  by (simp add: field_single)

lemma shift_amount_eq:
  "(ucast (ucast (ucast shiftV :: u32) AND hk_bits 6) :: u32) = field 5 0 (ucast (shiftV :: u64))"
  by (rule bit_eqI) (auto simp: hk_bits_eq_mask bit_field bit_simps)

lemma asm_shifted_reg_decode:
  assumes "isX rd \<or> \<not> bit shiftV 5"
  shows "op \<in> {cOpAndReg, cOpOrrReg} \<Longrightarrow>
      a64_decode (asm_shifted_reg op rd rn rm shift shiftV) =
        Some (I_LOGR (isX rd) (if op = cOpAndReg then 0 else 1) (field 1 0 (ucast (shift_code shift)))
          (reg rm) (field 5 0 (ucast shiftV)) (reg rn) (reg rd))"
    and "op \<in> {cOpAddReg, cOpSubReg} \<Longrightarrow> shift \<in> {LSL, LSR, ASR} \<Longrightarrow>
      a64_decode (asm_shifted_reg op rd rn rm shift shiftV) =
        Some (I_ADDSUBR (isX rd) (op = cOpSubReg) (ucast (shift_code shift))
          (reg rm) (field 5 0 (ucast shiftV)) (reg rn) (reg rd))"
proof -
  have b: "field 5 5 (ucast shiftV :: u32) = 1 \<longleftrightarrow> bit shiftV 5"
    by (simp add: field_eq_one bit_simps)
  show "op \<in> {cOpAndReg, cOpOrrReg} \<Longrightarrow>
      a64_decode (asm_shifted_reg op rd rn rm shift shiftV) =
        Some (I_LOGR (isX rd) (if op = cOpAndReg then 0 else 1) (field 1 0 (ucast (shift_code shift)))
          (reg rm) (field 5 0 (ucast shiftV)) (reg rn) (reg rd))"
    unfolding asm_shifted_reg_def shift_amount_eq using assms
    by (elim insertE emptyE; hypsubst; cases "isX rd") (simp_all add: enc_simps b)
  show "op \<in> {cOpAddReg, cOpSubReg} \<Longrightarrow> shift \<in> {LSL, LSR, ASR} \<Longrightarrow>
      a64_decode (asm_shifted_reg op rd rn rm shift shiftV) =
        Some (I_ADDSUBR (isX rd) (op = cOpSubReg) (ucast (shift_code shift))
          (reg rm) (field 5 0 (ucast shiftV)) (reg rn) (reg rd))"
    unfolding asm_shifted_reg_def shift_amount_eq using assms
    by (elim insertE emptyE; hypsubst; cases "isX rd") (simp_all add: enc_simps b)
qed

lemma asm_Movk_decode:
  assumes "asm_Movk rd immV hw = Inr w" "isX rd \<or> hw = 0 \<or> hw = 16"
  shows "a64_decode w = Some (I_MOVW (isX rd) 0b11 (ucast (hw div 16)) (field 15 0 (ucast immV)) (reg rd))"
proof -
  from assms(1) have w: "w = ib_build [
        (31, 31, of_bool (isX rd)), (30, 23, cOpMovk), (22, 21, ucast (hw div 16)),
        (20, 5, ucast immV), (4, 0, reg rd)]"
    and "hw = 0 \<or> hw = 16 \<or> hw = 32 \<or> hw = 48"
    by (simp_all only: asm_Movk_def abort_unless_eq_Inr sum.inject)
  from this(2) assms(2) show ?thesis
    unfolding w by (elim disjE; hypsubst?; cases "isX rd") (simp_all add: enc_simps)
qed

lemma asm_Adr_decode:
  assumes "asm_Adr isAdrp rd immV addr = Inr w"
  defines "d \<equiv> if isAdrp then signed_drop_bit 12 (immV - (addr AND NOT (hk_bits 12))) else immV - addr"
  shows "a64_decode w = Some (I_ADR isAdrp (field 20 2 (ucast d)) (field 1 0 (ucast d)) (reg rd))"
    and "canBeImm21Neg d" "rd AND reg_Wbit = 0" "isAdrp \<Longrightarrow> isAlignedPage immV"
proof -
  have d: "d = (if isAdrp then signed_drop_bit 12 (immV - (if isAdrp then addr AND NOT (hk_bits 12) else addr))
      else immV - (if isAdrp then addr AND NOT (hk_bits 12) else addr))"
    by (simp add: d_def)
  have c: "rd AND reg_Wbit = 0 \<and> (isAdrp \<longrightarrow> isAlignedPage immV) \<and> canBeImm21Neg d \<and>
      ib_build [
        (31, 24, if isAdrp then cOpAdrp else cOpAdr), (30, 29, ucast (ucast (d AND hk_bits 2) :: u8)),
        (23, 5, ucast (drop_bit 2 d AND hk_bits 24)), (4, 0, reg rd)] = w"
    using assms(1) unfolding asm_Adr_def Let_def abort_unless_eq_Inr sum.inject d [symmetric] .
  from c show "canBeImm21Neg d" "rd AND reg_Wbit = 0" "isAdrp \<Longrightarrow> isAlignedPage immV" by simp_all
  have hi: "field 18 0 (ucast (drop_bit 2 d AND hk_bits 24) :: u32) = field 20 2 (ucast d)"
    by (rule bit_eqI) (auto simp: hk_bits_eq_mask bit_field bit_simps)
  have lo: "field 1 0 (ucast (ucast (d AND hk_bits 2) :: u8) :: u32) = field 1 0 (ucast d)"
    by (rule bit_eqI) (auto simp: hk_bits_eq_mask bit_field bit_simps)
  show "a64_decode w = Some (I_ADR isAdrp (field 20 2 (ucast d)) (field 1 0 (ucast d)) (reg rd))"
    unfolding c [THEN conjunct2, THEN conjunct2, THEN conjunct2, symmetric]
    by (cases isAdrp) (simp_all add: enc_simps hi lo [simplified])
qed

lemma asm_Bcond_decode:
  assumes "asm_Bcond immV condV addr = Inr w"
  shows "a64_decode w = Some (I_BCOND (field 18 0 (ucast (branch_diff immV addr))) (field 3 0 (ucast condV)))"
proof -
  from assms have w: "w = ib_build [(31, 24, cOpBcond), (23, 5, ucast (branch_diff immV addr)),
      (4, 4, 0), (3, 0, ucast condV)]"
    by (simp only: asm_Bcond_def Let_def abort_unless_eq_Inr sum.inject)
  show ?thesis unfolding w by (simp add: enc_simps)
qed

lemma asm_Cbz_decode:
  assumes "asm_Cbz isCbz rd immV addr = Inr w"
  shows "a64_decode w = Some (I_CBZ (isX rd) (\<not> isCbz) (field 18 0 (ucast (branch_diff immV addr))) (reg rd))"
proof -
  from assms have w: "w = ib_build [(31, 31, of_bool (isX rd)),
      (30, 24, if isCbz then cOpCbz else cOpCbnz), (23, 5, ucast (branch_diff immV addr)), (4, 0, ucast rd)]"
    by (simp only: asm_Cbz_def Let_def abort_unless_eq_Inr sum.inject)
  show ?thesis unfolding w by (cases isCbz) (simp_all add: enc_simps)
qed

lemma asm_LdrLiteral_decode:
  assumes "asm_LdrLiteral rd immV addr = Inr w"
  shows "a64_decode w = Some (I_LDRL (isX rd) (field 18 0 (ucast (branch_diff immV addr))) (reg rd))"
proof -
  from assms have w: "w = ib_build [(31, 30, of_bool (isX rd)), (30, 24, cOpLdrLiteral),
      (23, 5, ucast (branch_diff immV addr)), (4, 0, ucast rd)]"
    by (simp only: asm_LdrLiteral_def Let_def abort_unless_eq_Inr sum.inject)
  show ?thesis unfolding w by (cases "isX rd") (simp_all add: enc_simps)
qed


lemma asm_Tbz_decode:
  assumes "asm_Tbz isTbz rd immV shiftImm addr = Inr w"
  shows "a64_decode w = Some (I_TBZ (\<not> isTbz)
      (push_bit 5 (of_bool (bit shiftImm 5)) OR field 4 0 (ucast shiftImm))
      (field 13 0 (ucast (branch_diff immV addr))) (reg rd))"
proof -
  have a: "ucast (ucast (ucast shiftImm :: u32) :: u64) AND hk_bit 5 \<noteq> 0 \<longleftrightarrow> bit shiftImm 5"
    by (simp only: hk_bit_def bit_iff_and_push_bit_not_eq_0 [symmetric]) (simp add: bit_simps)
  have b: "field 4 0 (ucast (ucast (ucast shiftImm :: u32) AND hk_bits 5 :: u64) :: u32) = field 4 0 (ucast shiftImm)"
    by (rule bit_eqI) (auto simp: hk_bits_eq_mask bit_field bit_simps)
  have c: "field 13 0 (ucast (ucast (branch_diff immV addr) :: u16) :: u32) = field 13 0 (ucast (branch_diff immV addr))"
    by (rule bit_eqI) (auto simp: bit_field bit_simps)
  have d: "reg rd = field 4 0 (ucast rd)" by (rule reg_eq_field)
  have w: "w = ib_build [(31, 31, of_bool (ucast (ucast shiftImm :: u32) AND hk_bit 5 \<noteq> 0)),
         (30, 24, if isTbz then cOpTbz else cOpTbnz),
         (23, 19, ucast (ucast (ucast shiftImm :: u32) AND hk_bits 5)),
         (18, 5, ucast (ucast (branch_diff immV addr) :: u16)),
         (4, 0, ucast rd)]"
    using assms by (simp only: asm_Tbz_def Let_def abort_unless_eq_Inr sum.inject)
  show ?thesis unfolding w by (cases isTbz) (auto simp add: enc_simps b c a [simplified])
qed

section \<open>What the encoded instructions do\<close>

text \<open>A value whose set bits lie in the \<open>i\<close>-th 16-bit slot.\<close>

definition in_slot :: "nat \<Rightarrow> u64 \<Rightarrow> bool" where
  "in_slot i v \<longleftrightarrow> i < 4 \<and> (\<forall>n<64. bit v n \<longrightarrow> i * 16 \<le> n \<and> n < i * 16 + 16)"

lemma isRepresentable_slot: "isRepresentable 16 v 4 \<longleftrightarrow> (\<exists>i. in_slot i v)"
  by (auto simp: isRepresentable_iff in_slot_def)

lemma bit_less_64: "bit (v :: u64) n \<Longrightarrow> n < 64"
  by (drule bit_imp_le_length) simp

lemma in_slotD: "in_slot i v \<Longrightarrow> bit v n \<Longrightarrow> i * 16 \<le> n \<and> n < i * 16 + 16"
  by (frule bit_less_64) (simp add: in_slot_def)

lemma in_slot_countSetBits:
  assumes "in_slot i v"
  shows "countSetBits v \<le> 16"
proof -
  have "{n. bit v n} \<subseteq> {i * 16..<i * 16 + 16}"
    using in_slotD [OF assms] by auto
  from card_mono [OF _ this] show ?thesis by (simp add: countSetBits_card)
qed

definition mov_hw :: "u64 \<Rightarrow> nat" where
  "mov_hw v = (if v > hk_bits 48 then 48 else if v > hk_bits 32 then 32
                else if v > hk_bits 16 then 16 else 0)"

lemma less_hk_bits:
  assumes "n < 64"
  shows "hk_bits n < v \<longleftrightarrow> 2 ^ n \<le> unat v"
proof -
  have "unat (hk_bits n) = 2 ^ n - 1"
    using assms by (simp add: hk_bits_eq_mask unat_mask_word)
  moreover have "0 < (2 :: nat) ^ n" by simp
  ultimately show ?thesis unfolding word_less_nat_alt by linarith
qed

lemma bit_imp_exp_le: "bit (v :: 'a::len word) n \<Longrightarrow> 2 ^ n \<le> unat v"
proof (rule ccontr)
  assume b: "bit v n" and "\<not> 2 ^ n \<le> unat v"
  then have "v AND mask n = v" by (simp add: and_mask_eq_iff_unat)
  then have "bit (v AND mask n) n" using b by simp
  then show False by (simp add: bit_simps)
qed

lemma in_slot_unat:
  assumes "in_slot i v" "v \<noteq> 0"
  shows "2 ^ (i * 16) \<le> unat v" "unat v < 2 ^ (i * 16 + 16)"
proof -
  from \<open>v \<noteq> 0\<close> obtain n where n: "bit v n" by (auto simp: bit_eq_iff)
  from in_slotD [OF assms(1) n] have "i * 16 \<le> n" ..
  then show "2 ^ (i * 16) \<le> unat v"
    using bit_imp_exp_le [OF n] by (meson le_trans one_le_numeral power_increasing)
  have "v AND mask (i * 16 + 16) = v"
    by (rule bit_eqI) (use in_slotD [OF assms(1)] in \<open>auto simp: bit_simps\<close>)
  then show "unat v < 2 ^ (i * 16 + 16)" by (simp only: and_mask_eq_iff_unat)
qed

lemma mov_hw_slot:
  assumes "in_slot i v" "v \<noteq> 0"
  shows "mov_hw v = 16 * i"
proof -
  have i: "i = 0 \<or> i = 1 \<or> i = 2 \<or> i = 3" using assms by (auto simp: in_slot_def)
  have "2 ^ k \<le> unat v \<longleftrightarrow> k \<le> i * 16" if "k \<in> {16, 32, 48}" for k
  proof
    assume "k \<le> i * 16"
    then show "2 ^ k \<le> unat v"
      using in_slot_unat(1) [OF assms] by (meson le_trans one_le_numeral power_increasing)
  next
    assume "2 ^ k \<le> unat v"
    then have "(2 :: nat) ^ k < 2 ^ (i * 16 + 16)"
      using in_slot_unat(2) [OF assms] by (rule le_less_trans)
    then have "k < i * 16 + 16" by simp
    then show "k \<le> i * 16" using that i by auto
  qed
  then have "hk_bits 16 < v \<longleftrightarrow> 16 \<le> i * 16" "hk_bits 32 < v \<longleftrightarrow> 32 \<le> i * 16"
      "hk_bits 48 < v \<longleftrightarrow> 48 \<le> i * 16"
    by (simp_all only: less_hk_bits insertI1 insertI2 less_numeral_simps rel_simps)
  with i show ?thesis by (elim disjE) (simp_all add: mov_hw_def)
qed

definition mov_value :: "u64 \<Rightarrow> u64" where
  "mov_value imm = (if countSetBits imm > countSetBits (NOT imm) then NOT imm else imm)"

lemma mov_value_slot:
  assumes "canBeImm16Shift4xNeg imm"
  shows "\<exists>i. in_slot i (mov_value imm)"
proof -
  from assms have "(\<exists>i. in_slot i imm) \<or> (\<exists>i. in_slot i (NOT imm))"
    by (auto simp: canBeImm16Shift4xNeg_def canBeImm_def isRepresentable_slot split: if_splits)
  then show ?thesis
  proof (elim disjE exE)
    fix i assume i: "in_slot i imm"
    then have "\<not> countSetBits imm > countSetBits (NOT imm)"
      by (auto dest: in_slot_countSetBits simp: countSetBits_not)
    with i show ?thesis by (auto simp: mov_value_def)
  next
    fix i assume i: "in_slot i (NOT imm)"
    then have "countSetBits (NOT imm) \<le> 16" by (rule in_slot_countSetBits)
    moreover have "countSetBits imm = 64 - countSetBits (NOT imm)"
      using countSetBits_not [of "NOT imm"] by simp
    ultimately have "countSetBits imm > countSetBits (NOT imm)" by simp
    with i show ?thesis by (auto simp: mov_value_def)
  qed
qed

lemma mov_hw_value:
  assumes "in_slot i v"
  shows "push_bit (mov_hw v) (drop_bit (mov_hw v) v AND mask 16) = v"
    and "mov_hw v \<in> {0, 16, 32, 48}"
proof -
  show "mov_hw v \<in> {0, 16, 32, 48}" by (simp add: mov_hw_def)
  show "push_bit (mov_hw v) (drop_bit (mov_hw v) v AND mask 16) = v"
  proof (cases "v = 0")
    case False
    then have "mov_hw v = i * 16" using mov_hw_slot [OF assms] by simp
    moreover have "bit (push_bit (i * 16) (drop_bit (i * 16) v AND mask 16)) n \<longleftrightarrow> bit v n" for n
      using in_slotD [OF assms, of n] bit_less_64 [of v n] by (cases "i * 16 \<le> n") (auto simp: bit_simps)
    ultimately show ?thesis by (auto intro: bit_eqI)
  qed simp
qed

lemma asm_MovImm_eq:
  "asm_MovImm rd imm = abort_unless (canBeImm16Shift4xNeg imm) ''MovImm: Immediate out of range (0x%zx)''
     (Inr (ib_build [
        (31, 31, of_bool (isX rd)),
        (30, 23, if countSetBits imm > countSetBits (NOT imm) then cOpMovn else cOpMovz),
        (22, 21, of_nat (mov_hw (mov_value imm) div 16)),
        (20, 5, ucast (drop_bit (mov_hw (mov_value imm)) (mov_value imm) AND hk_bits 16)),
        (4, 0, reg rd)]))"
  by (simp only: asm_MovImm_def Let_def mov_value_def mov_hw_def)

lemma asm_MovImm_decode:
  assumes w: "asm_MovImm rd imm = Inr w" and x: "isX rd \<or> mov_hw (mov_value imm) < 32"
  shows "a64_decode w = Some (I_MOVW (isX rd) (if countSetBits imm > countSetBits (NOT imm) then 0 else 2)
    (of_nat (mov_hw (mov_value imm) div 16))
    (field 15 0 (ucast (drop_bit (mov_hw (mov_value imm)) (mov_value imm)))) (reg rd))"
proof -
  define h where "h = mov_hw (mov_value imm)"
  define n where "n \<longleftrightarrow> countSetBits imm > countSetBits (NOT imm)"
  have f: "field 15 0 (ucast (x AND hk_bits 16) :: u32) = field 15 0 (ucast x)" for x :: u64
    by (rule bit_eqI) (auto simp: hk_bits_eq_mask bit_field bit_simps)
  have w': "w = ib_build [
        (31, 31, of_bool (isX rd)), (30, 23, if n then cOpMovn else cOpMovz), (22, 21, of_nat (h div 16)),
        (20, 5, ucast (drop_bit h (mov_value imm) AND hk_bits 16)), (4, 0, reg rd)]"
    using w by (simp only: asm_MovImm_eq abort_unless_eq_Inr sum.inject h_def n_def)
  have h: "h \<in> {0, 16, 32, 48}" by (simp add: h_def mov_hw_def)
  show ?thesis
    using h x unfolding w' h_def [symmetric] n_def [symmetric]
    by (elim insertE emptyE; hypsubst; cases n; cases "isX rd") (simp_all add: enc_simps f)
qed

lemma movw_result_mov:
  assumes "canBeImm16Shift4xNeg imm"
  shows "movw_result sf (if countSetBits imm > countSetBits (NOT imm) then 0 else 2)
    (of_nat (mov_hw (mov_value imm) div 16))
    (field 15 0 (ucast (drop_bit (mov_hw (mov_value imm)) (mov_value imm)))) old = sized sf imm"
proof -
  obtain i where i: "in_slot i (mov_value imm)" using mov_value_slot [OF assms] by blast
  define h where "h = mov_hw (mov_value imm)"
  have h: "h \<in> {0, 16, 32, 48}" unfolding h_def using mov_hw_value(2) [OF i] .
  then have p: "16 * unat (of_nat (h div 16) :: u32) = h" by auto
  have f: "ucast (field 15 0 (ucast x :: u32)) = x AND mask 16" for x :: u64
    by (rule bit_eqI) (auto simp: bit_field bit_simps)
  have v: "push_bit h (drop_bit h (mov_value imm) AND mask 16) = mov_value imm"
    unfolding h_def using mov_hw_value(1) [OF i] .
  show ?thesis
    unfolding movw_result_def Let_def h_def [symmetric] p f v by (auto simp: mov_value_def)
qed

section \<open>Distances\<close>

text \<open>A signed offset survives its operand field.\<close>

lemma sx_field:
  assumes n: "0 < n" "n \<le> 32" and b: "- (2 ^ (n - 1)) \<le> sint (d :: u64)" "sint d < 2 ^ (n - 1)"
  shows "sx n (field (n - 1) 0 (ucast d)) = d"
proof -
  have "uint (field (n - 1) 0 (ucast d :: u32)) = take_bit n (uint d)"
    using n by (intro bit_eqI) (auto simp: bit_field bit_simps)
  then have "signed_take_bit (n - 1) (uint (field (n - 1) 0 (ucast d :: u32))) = signed_take_bit (n - 1) (uint d)"
    using n by (cases n) (simp_all add: signed_take_bit_take_bit)
  also have "\<dots> = signed_take_bit (n - 1) (sint d)"
    using n by (auto simp add: sint_uint signed_take_bit_signed_take_bit min_def)
  also have "\<dots> = sint d"
    using b by (simp add: signed_take_bit_int_eq_self)
  finally show ?thesis by (simp add: sx_def)
qed

lemma field_join:
  assumes "0 < k" "k \<le> h"
  shows "push_bit k (field h k w) OR field (k - 1) 0 w = field h 0 (w :: 'a::len word)"
proof (rule bit_word_eqI)
  fix n assume "n < LENGTH('a)"
  with assms show "bit (push_bit k (field h k w) OR field (k - 1) 0 w) n = bit (field h 0 w) n"
    by (cases "k \<le> n") (auto simp: bit_field bit_simps)
qed

lemma asm_Adr_exec:
  assumes w: "asm_Adr False rd immV addr = Inr w"
    and d: "- (2 ^ 20) \<le> sint (immV - addr)" "sint (immV - addr) < 2 ^ 20"
    and s: "pc s = addr"
  shows "a64_decode w = Some ins \<Longrightarrow> a64_exec mem ins s = Some (next_pc (wr_X (reg rd) immV s))"
proof -
  assume "a64_decode w = Some ins"
  then have ins: "ins = I_ADR False (field 20 2 (ucast (immV - addr))) (field 1 0 (ucast (immV - addr))) (reg rd)"
    using asm_Adr_decode(1) [OF w] by simp
  have "push_bit 2 (field 20 2 (ucast (immV - addr))) OR field 1 0 (ucast (immV - addr)) =
      field (21 - 1) 0 (ucast (immV - addr) :: u32)"
    using field_join [of 2 20 "ucast (immV - addr) :: u32"] by simp
  then show ?thesis
    using sx_field [of 21 "immV - addr"] d s by (simp add: a64_exec_def ins)
qed

lemma len64: "LENGTH(64) = 64" by simp

lemma aligned_low_bit: "(d :: u64) AND mask k = 0 \<Longrightarrow> n < k \<Longrightarrow> \<not> bit d n"
proof
  assume "d AND mask k = 0" "n < k" "bit d n"
  have "bit (d AND mask k) n \<longleftrightarrow> bit d n \<and> n < k"
    using bit_less_64 [of d n] by (auto simp only: bit_and_iff bit_mask_iff possible_bit_word len64)
  with \<open>d AND mask k = 0\<close> \<open>n < k\<close> \<open>bit d n\<close> show False by simp
qed

lemma push_signed_drop_bit:
  assumes a: "(d :: u64) AND mask k = 0" and k: "k < 64"
  shows "push_bit k (signed_drop_bit k d) = d"
proof (rule bit_word_eqI)
  fix n assume "n < LENGTH(64)"
  with k show "bit (push_bit k (signed_drop_bit k d)) n = bit d n"
    using aligned_low_bit [OF a, of n] by (cases "k \<le> n") (auto simp: bit_simps)
qed

lemma aligned_eq_push: "(v :: u64) AND mask k = 0 \<Longrightarrow> v = push_bit k (drop_bit k v)"
proof (rule bit_word_eqI)
  fix n assume a: "v AND mask k = 0" and n: "n < LENGTH(64)"
  show "bit v n = bit (push_bit k (drop_bit k v)) n"
    using aligned_low_bit [OF a, of n] n by (cases "k \<le> n") (auto simp: bit_simps)
qed

lemma push_bit_and_mask: "push_bit k (v :: u64) AND mask k = 0"
  by (rule bit_word_eqI) (auto simp: bit_simps)

lemma and_not_mask_and_mask: "((v :: u64) AND NOT (mask k)) AND mask k = 0"
  by (rule bit_word_eqI) (auto simp: bit_simps)

lemma aligned_minus_aligned:
  assumes "(a :: u64) AND mask k = 0" "b AND mask k = 0"
  shows "(a - b) AND mask k = 0"
proof -
  have "a - b = push_bit k (drop_bit k a - drop_bit k b)"
    using aligned_eq_push [OF assms(1)] aligned_eq_push [OF assms(2)]
    by (simp add: push_bit_eq_mult left_diff_distrib)
  then show ?thesis by (simp only: push_bit_and_mask)
qed

lemma isAlignedPage_mask: "isAlignedPage v \<Longrightarrow> v AND mask 12 = 0"
  using and_not_mask_and_mask [of v 12]
  by (simp add: isAlignedPage_def alignDown_def cPageSize_def mask_eq_exp_minus_1)

lemma asm_Adrp_exec:
  assumes w: "asm_Adr True rd immV addr = Inr w"
    and d: "- (2 ^ 20) \<le> sint (signed_drop_bit 12 (immV - (addr AND NOT (mask 12))))"
      "sint (signed_drop_bit 12 (immV - (addr AND NOT (mask 12)))) < 2 ^ 20"
    and s: "pc s = addr" and ins: "a64_decode w = Some ins"
  shows "a64_exec mem ins s = Some (next_pc (wr_X (reg rd) immV s))"
proof -
  define d where "d = signed_drop_bit 12 (immV - (addr AND NOT (mask 12)))"
  have m: "hk_bits 12 = mask 12" by (simp add: hk_bits_eq_mask)
  have ins: "ins = I_ADR True (field 20 2 (ucast d)) (field 1 0 (ucast d)) (reg rd)"
    using asm_Adr_decode(1) [OF w] ins by (simp add: d_def m)
  have "isAlignedPage immV" using asm_Adr_decode(4) [OF w] by simp
  then have "immV AND mask 12 = 0" by (rule isAlignedPage_mask)
  then have "push_bit 12 d = immV - (addr AND NOT (mask 12))"
    unfolding d_def by (intro push_signed_drop_bit aligned_minus_aligned and_not_mask_and_mask) simp_all
  then show ?thesis
    using sx_field [of 21 d] field_join [of 2 20 "ucast d :: u32"] assms(2,3) s
    by (simp add: a64_exec_def ins d_def [symmetric])
qed

section \<open>Word-distance branches and literal loads\<close>

lemma unat_NOT: "unat (NOT (v :: u64)) = 2 ^ 64 - 1 - unat v"
proof -
  have "NOT v = - 1 - v" by (simp add: not_eq_complement)
  then have "unat (NOT v) = unat (- 1 :: u64) - unat v"
    by (simp only: unat_sub word_order.extremum)
  then show ?thesis by (simp add: unsigned_minus_1_eq_mask mask_eq_exp_minus_1)
qed

lemma sint_small: "unat (v :: u64) < 2 ^ 63 \<Longrightarrow> sint v = int (unat v)"
proof -
  assume "unat v < 2 ^ 63"
  then have "int (unat v) < int (2 ^ 63)" by (simp only: of_nat_less_iff)
  then have "uint v < 2 ^ 63" by simp
  then have "signed_take_bit 63 (uint v) = uint v"
    by (intro signed_take_bit_int_eq_self) (auto intro: order_trans [OF _ uint_ge_0])
  then show ?thesis by (simp add: sint_uint)
qed

lemma canBe_branch:
  assumes "w \<le> 32"
  shows "canBeImm True w 1 (branch_diff immV addr) \<longleftrightarrow> unat (branch_diff immV addr) < 2 ^ w"
proof -
  let ?d = "branch_diff immV addr"
  have le: "unat ?d < 2 ^ 62"
    using unsigned_less [of "immV - (addr AND NOT (hk_bits 2))", where ?'a = nat]
    by (simp add: branch_diff_def unat_div)
  have "\<not> unat (NOT ?d) < 2 ^ w"
  proof
    assume "unat (NOT ?d) < 2 ^ w"
    moreover have "(2 :: nat) ^ w \<le> 2 ^ 32" using assms by (intro power_increasing) simp_all
    moreover have "unat (NOT ?d) = 2 ^ 64 - 1 - unat ?d" by (simp add: unat_NOT)
    ultimately show False using le by simp
  qed
  then show ?thesis using assms by (auto simp: canBeImm_def isRepresentable_one [unfolded One_nat_def])
qed

lemma branch_diff_forward:
  assumes "addr AND mask 2 = 0"
  shows "branch_diff immV addr = drop_bit 2 (immV - addr)"
proof -
  have "addr AND NOT (mask 2) = addr"
    using assms and_not_mask_eq_minus [of addr 2] by simp
  then show ?thesis
    by (simp add: branch_diff_def hk_bits_eq_mask drop_bit_eq_div)
qed

lemma unat_branch_diff:
  "addr AND mask 2 = 0 \<Longrightarrow> unat (branch_diff immV addr) = unat (immV - addr) div 4"
  by (simp add: branch_diff_forward drop_bit_eq_div unat_div)

lemma sx_field_wrap:
  assumes n: "0 < n" "n \<le> 32" and d: "unat (d :: u64) < 2 ^ n"
  shows "sx n (field (n - 1) 0 (ucast d)) = (if unat d < 2 ^ (n - 1) then d else d - 2 ^ n)"
proof -
  obtain m where m: "n = Suc m" using n(1) by (cases n) simp_all
  have u: "uint d < 2 ^ n" using d by (metis of_nat_less_iff of_nat_numeral of_nat_power uint_nat)
  then have t: "take_bit n (uint d) = uint d" by (simp add: take_bit_int_eq_self)
  have f: "uint (field (n - 1) 0 (ucast d :: u32)) = uint d"
  proof -
    have "uint (field (n - 1) 0 (ucast d :: u32)) = take_bit n (uint d)"
      using n by (intro bit_eqI) (auto simp: bit_field bit_simps)
    then show ?thesis by (simp only: t)
  qed
  have b: "bit (uint d) m \<longleftrightarrow> \<not> unat d < 2 ^ m"
  proof -
    have "bit (uint d) m \<longleftrightarrow> odd (uint d div 2 ^ m)" by (simp add: bit_iff_odd)
    moreover have "uint d div 2 ^ m = of_bool (\<not> unat d < 2 ^ m)"
    proof (cases "unat d < 2 ^ m")
      case True
      then have "uint d < 2 ^ m" by (metis of_nat_less_iff of_nat_numeral of_nat_power uint_nat)
      with True show ?thesis by simp
    next
      case False
      then have "2 ^ m \<le> uint d" by (metis linorder_not_less of_nat_less_iff of_nat_numeral of_nat_power uint_nat)
      then have "uint d div 2 ^ m = 1 + (uint d - 2 ^ m) div 2 ^ m"
        using div_add_self2 [of "2 ^ m" "uint d - 2 ^ m"] by simp
      moreover have "(uint d - 2 ^ m) div 2 ^ m = 0" using u \<open>2 ^ m \<le> uint d\<close> by (simp add: m)
      ultimately show ?thesis using False by simp
    qed
    ultimately show ?thesis by simp
  qed
  have "signed_take_bit m (uint d) = uint d - 2 ^ n * of_bool (\<not> unat d < 2 ^ m)"
    using t by (simp add: signed_take_bit_eq_take_bit_minus m b)
  then have "sx n (field (n - 1) 0 (ucast d)) = word_of_int (uint d - 2 ^ n * of_bool (\<not> unat d < 2 ^ m))"
    using f by (simp add: sx_def m)
  then show ?thesis by (simp add: m)
qed

lemma branch_diff_times_4:
  assumes "addr AND mask 2 = 0"
  shows "branch_diff immV addr * 4 = (immV AND NOT (mask 2)) - addr"
proof -
  have "uint addr mod 4 = 0"
    using arg_cong [OF assms, of uint]
    unfolding take_bit_eq_mask [symmetric] unsigned_take_bit_eq by (simp add: take_bit_eq_mod)
  then have "uint (immV - addr) mod 4 = uint immV mod 4"
    using mod_diff_right_eq [of "uint immV" "uint addr" 4] by (simp only: uint_word_ariths) (simp add: mod_mod_cancel)
  then have t: "(immV - addr) AND mask 2 = immV AND mask 2"
    unfolding take_bit_eq_mask [symmetric]
    by (intro word_uint_eqI) (simp only: unsigned_take_bit_eq, simp add: take_bit_eq_mod)
  have "branch_diff immV addr * 4 = push_bit 2 (drop_bit 2 (immV - addr))"
    by (simp add: branch_diff_forward assms push_bit_eq_mult mult.commute)
  also have "\<dots> = (immV - addr) AND NOT (mask 2)"
  proof (rule bit_word_eqI)
    fix n assume "n < LENGTH(64)"
    then show "bit (push_bit 2 (drop_bit 2 (immV - addr))) n = bit ((immV - addr) AND NOT (mask 2)) n"
      using le_add_diff_inverse [of 2 n] by (cases "2 \<le> n") (auto simp: bit_simps)
  qed
  finally show ?thesis
    using t and_not_mask_eq_minus [of "immV - addr" 2] and_not_mask_eq_minus [of immV 2] by simp
qed

text \<open>
  Where an encoded branch with an \<open>n\<close>-bit distance field leads.  The encoder accepts \<open>n\<close> bits of an
  unsigned distance in words, the processor reads them as a signed number.
\<close>

definition branch_lands :: "nat \<Rightarrow> u64 \<Rightarrow> u64 \<Rightarrow> u64" where
  "branch_lands n addr immV =
    (if unat (immV - addr) < 2 ^ (n + 1) then immV AND NOT (mask 2) else (immV AND NOT (mask 2)) - 2 ^ (n + 2))"

lemma branch_field_lands:
  assumes a: "addr AND mask 2 = 0" and n: "1 < n" "n \<le> 32"
    and d: "unat (branch_diff immV addr) < 2 ^ n"
  shows "addr + sx n (field (n - 1) 0 (ucast (branch_diff immV addr))) * 4 = branch_lands n addr immV"
proof -
  let ?d = "branch_diff immV addr"
  obtain m where m: "n = Suc m" using n by (cases n) simp_all
  have "unat ?d < 2 ^ m \<longleftrightarrow> unat (immV - addr) < 2 ^ (m + 2)"
    by (simp add: unat_branch_diff a div_less_iff_less_mult mult.commute)
  then show ?thesis
    using sx_field_wrap [OF _ n(2) d] branch_diff_times_4 [OF a]
    by (simp add: m branch_lands_def left_diff_distrib mult.commute)
qed

lemma branch_lands_near:
  assumes "immV AND mask 2 = 0" "unat (immV - addr) < 2 ^ (n + 1)"
  shows "branch_lands n addr immV = immV"
  using assms and_not_mask_eq_minus [of immV 2] by (simp add: branch_lands_def)

lemma branch_field_target:
  assumes a: "addr AND mask 2 = 0" "immV AND mask 2 = 0" and n: "1 < n" "n \<le> 32"
    and d: "unat (immV - addr) < 2 ^ (n + 1)"
  shows "addr + sx n (field (n - 1) 0 (ucast (branch_diff immV addr))) * 4 = immV"
proof -
  have "unat (branch_diff immV addr) < 2 ^ n" using d by (simp add: unat_branch_diff a)
  then show ?thesis
    using branch_field_lands [OF a(1) n, of immV] branch_lands_near [OF a(2) d] by simp
qed

definition a64_do :: "(u64 \<Rightarrow> u32) \<Rightarrow> Instr \<Rightarrow> cpu \<Rightarrow> cpu option" where
  "a64_do mem w s = Option.bind (a64_decode w) (\<lambda>ins. a64_exec mem ins s)"

lemma a64_step_do: "a64_step mem s = a64_do mem (mem (pc s)) s"
  by (simp add: a64_step_def a64_do_def)

lemma below_32_bits: "unat (v :: u64) < 2 ^ 32 \<Longrightarrow> countSetBits v \<le> 32"
proof -
  assume v: "unat v < 2 ^ 32"
  have "{n. bit v n} \<subseteq> {..<32}"
  proof
    fix n assume "n \<in> {n. bit v n}"
    then have "2 ^ n \<le> unat v" by (simp add: bit_imp_exp_le)
    then have "(2 :: nat) ^ n < 2 ^ 32" using v by (rule le_less_trans)
    then have "n < 32" by (rule power_less_imp_less_exp [rotated]) simp
    then show "n \<in> {..<32}" by simp
  qed
  from card_mono [OF _ this] show ?thesis by (simp add: countSetBits_card)
qed

lemma mov_value_below_32:
  assumes "canBeImm16Shift4xNeg imm"
  shows "unat (mov_value imm) < 2 ^ 32 \<longleftrightarrow> unat imm < 2 ^ 32 \<or> unat (NOT imm) < 2 ^ 32"
proof
  show "unat imm < 2 ^ 32 \<or> unat (NOT imm) < 2 ^ 32" if "unat (mov_value imm) < 2 ^ 32"
    using that by (simp add: mov_value_def split: if_splits)
next
  have slots: "(\<exists>i. in_slot i imm) \<or> (\<exists>i. in_slot i (NOT imm))"
    using assms by (auto simp: canBeImm16Shift4xNeg_def canBeImm_def isRepresentable_slot split: if_splits)
  have n: "countSetBits (NOT imm) = 64 - countSetBits imm" "countSetBits imm \<le> 64"
    using countSetBits_not [of imm] countSetBits_not [of "NOT imm"] by simp_all
  assume "unat imm < 2 ^ 32 \<or> unat (NOT imm) < 2 ^ 32"
  then show "unat (mov_value imm) < 2 ^ 32"
  proof
    assume i: "unat imm < 2 ^ 32"
    with below_32_bits [OF i] n show ?thesis by (auto simp: mov_value_def)
  next
    assume i: "unat (NOT imm) < 2 ^ 32"
    then have le: "countSetBits (NOT imm) \<le> 32" by (rule below_32_bits)
    have "\<not> countSetBits imm \<le> 16" using le n by linarith
    then have "\<exists>i. in_slot i (NOT imm)" using slots in_slot_countSetBits by blast
    then have "countSetBits (NOT imm) \<le> 16" using in_slot_countSetBits by blast
    with i n show ?thesis by (auto simp: mov_value_def)
  qed
qed

lemma mov_hw_less_32: "mov_hw v < 32 \<longleftrightarrow> unat v < 2 ^ 32"
proof -
  have "(2 :: nat) ^ 32 \<le> unat v" if "2 ^ 48 \<le> unat v"
    using that by (rule order_trans [rotated]) simp
  then show ?thesis by (auto simp: mov_hw_def less_hk_bits simp del: numeral_power_le_of_nat_cancel_iff)
qed

lemma field_neqI: "bit (field h l w) n \<noteq> bit k n \<Longrightarrow> field h l (w :: 'a::len word) \<noteq> k"
  by auto

lemma decode_wide_move_32:
  assumes f: "field 28 24 w = 0b10010" "\<not> flag 31 w" "flag 22 w"
  shows "a64_decode w = None"
proof -
  have b: "\<not> bit w 26" "\<not> bit w 27" "\<not> bit w 31"
    using arg_cong [OF f(1), of "\<lambda>v. bit v 2"] arg_cong [OF f(1), of "\<lambda>v. bit v 3"] f(2)
    by (simp_all add: bit_field bit_simps flag_def field_eq_one)
  have "field 29 26 w \<noteq> 0b0101"
    by (rule field_neqI [where n = 0]) (simp add: bit_field b)
  moreover have "field 29 24 w \<noteq> 0b010100"
    by (rule field_neqI [where n = 2]) (simp add: bit_field b)
  moreover have "field 29 25 w \<noteq> 0b11010" "field 29 25 w \<noteq> 0b11011"
    by (rule field_neqI [where n = 1], simp add: bit_field b)+
  moreover have "field 29 24 w \<noteq> 0b011000"
    by (rule field_neqI [where n = 3]) (simp add: bit_field b)
  moreover have "field 31 21 w \<noteq> 0b11010100000"
    by (rule field_neqI [where n = 10]) (simp add: bit_field b)
  moreover have "field 31 10 w \<noteq> 0b1101011000011111000000" "field 31 10 w \<noteq> 0b1101011000111111000000"
      "field 31 10 w \<noteq> 0b1101011001011111000000"
    by (rule field_neqI [where n = 21], simp add: bit_field b)+
  moreover have "w \<noteq> 0xD503201F" using b(3) by auto
  ultimately show ?thesis using f by (simp add: a64_decode_def)
qed

lemma asm_MovImm_unallocated:
  assumes w: "asm_MovImm rd imm = Inr w" and x: "\<not> isX rd" "\<not> mov_hw (mov_value imm) < 32"
  shows "a64_decode w = None"
proof -
  define h where "h = mov_hw (mov_value imm)"
  define v where "v = (ucast (drop_bit h (mov_value imm) AND hk_bits 16) :: u32)"
  define n where "n \<longleftrightarrow> countSetBits imm > countSetBits (NOT imm)"
  have w': "w = ib_build [
        (31, 31, of_bool (isX rd)), (30, 23, if n then cOpMovn else cOpMovz), (22, 21, of_nat (h div 16)),
        (20, 5, v), (4, 0, reg rd)]"
    using w by (simp only: asm_MovImm_eq abort_unless_eq_Inr sum.inject h_def n_def v_def)
  have h: "h \<in> {0, 16, 32, 48}" by (simp add: h_def mov_hw_def)
  show ?thesis
    using h x unfolding w' h_def [symmetric]
    by (intro decode_wide_move_32; elim insertE emptyE; hypsubst; cases n) (simp_all add: enc_simps)
qed

lemma asm_MovImm_exec:
  assumes w: "asm_MovImm rd imm = Inr w"
  shows "a64_do mem w s = (if isX rd \<or> unat imm < 2 ^ 32 \<or> unat (NOT imm) < 2 ^ 32
    then Some (next_pc (wr_X (reg rd) (sized (isX rd) imm) s)) else None)"
proof -
  have ok: "canBeImm16Shift4xNeg imm" using w by (simp add: asm_MovImm_def)
  note hw = mov_hw_less_32 [of "mov_value imm", unfolded mov_value_below_32 [OF ok]]
  show ?thesis
    using asm_MovImm_decode [OF w] asm_MovImm_unallocated [OF w] movw_result_mov [OF ok]
    by (auto simp add: a64_do_def a64_exec_def hw)
qed

lemmas canBe_branch_defs = canBeImm19Neg_def canBeImm14Neg_def

lemma asm_Bcond_lands:
  assumes w: "asm_Bcond immV c addr = Inr w"
    and a: "addr AND mask 2 = 0" "pc s = addr"
  shows "a64_do mem w s = Some (if cond_holds s (field 3 0 (ucast c))
    then s\<lparr>pc := branch_lands 19 addr immV\<rparr> else next_pc s)"
proof -
  have "unat (branch_diff immV addr) < 2 ^ 19"
    using w canBe_branch [of 19 immV addr]
    by (simp only: asm_Bcond_def Let_def abort_unless_eq_Inr canBe_branch_defs)
  then show ?thesis
    using branch_field_lands [of addr 19 immV] a
    by (simp add: a64_do_def asm_Bcond_decode [OF w] a64_exec_def)
qed

lemma asm_Cbz_lands:
  assumes w: "asm_Cbz isCbz rd immV addr = Inr w"
    and a: "addr AND mask 2 = 0" "pc s = addr"
  shows "a64_do mem w s = Some (if (sized (isX rd) (rd_X s (reg rd)) = 0) = isCbz
    then s\<lparr>pc := branch_lands 19 addr immV\<rparr> else next_pc s)"
proof -
  have "unat (branch_diff immV addr) < 2 ^ 19"
    using w canBe_branch [of 19 immV addr]
    by (simp only: asm_Cbz_def Let_def abort_unless_eq_Inr canBe_branch_defs)
  then show ?thesis
    using branch_field_lands [of addr 19 immV] a
    by (auto simp: a64_do_def asm_Cbz_decode [OF w] a64_exec_def)
qed

lemma tbz_position:
  "unat shiftImm \<le> 63 \<Longrightarrow>
    unat (push_bit 5 (of_bool (bit shiftImm 5)) OR field 4 0 (ucast (shiftImm :: u64)) :: u32) = unat shiftImm"
proof -
  assume s: "unat shiftImm \<le> 63"
  then have "shiftImm AND mask 6 = shiftImm" by (simp add: and_mask_eq_iff_unat)
  then have b: "bit shiftImm n \<Longrightarrow> n < 6" for n
    using aligned_low_bit bit_less_64 by (metis bit_and_iff bit_mask_iff)
  have "push_bit 5 (of_bool (bit shiftImm 5)) OR field 4 0 (ucast shiftImm :: u32) = ucast shiftImm"
  proof (rule bit_word_eqI)
    fix n assume "n < LENGTH(32)"
    consider "n \<le> 4" | "n = 5" | "6 \<le> n" by linarith
    then show "bit (push_bit 5 (of_bool (bit shiftImm 5)) OR field 4 0 (ucast shiftImm :: u32)) n =
        bit (ucast shiftImm :: u32) n"
      using b [of n] \<open>n < LENGTH(32)\<close> by cases (auto simp: bit_field bit_simps)
  qed
  then show ?thesis using s by (simp add: unsigned_ucast_eq take_bit_nat_eq_self)
qed

lemma unat_widen: "unat (ucast (p :: u32) :: u64) = unat p"
  using unsigned_less [of p, where ?'a = nat] by (simp add: unsigned_ucast_eq take_bit_nat_eq_self)

lemma tbz_position_low:
  assumes "unat (ucast pos :: u32) \<le> 63"
  shows "unat (push_bit 5 (of_bool (bit pos 5)) OR field 4 0 (ucast (pos :: u64)) :: u32) = unat (ucast pos :: u32)"
proof -
  define p where "p = (ucast pos :: u32)"
  have "ucast (ucast p :: u64) = p" by (rule bit_word_eqI) (simp add: bit_simps)
  moreover have "bit (ucast p :: u64) 5 = bit pos 5" by (simp add: p_def bit_simps)
  moreover have "unat (ucast p :: u64) \<le> 63" using assms by (simp only: unat_widen p_def)
  ultimately show ?thesis
    using tbz_position [of "ucast p"] unfolding p_def [symmetric] by (simp only: unat_widen)
qed

lemma asm_Tbz_lands:
  assumes w: "asm_Tbz isTbz rd immV pos addr = Inr w"
    and a: "addr AND mask 2 = 0" "pc s = addr"
  shows "a64_do mem w s = Some (if bit (rd_X s (reg rd)) (unat (ucast pos :: u32)) \<noteq> isTbz
    then s\<lparr>pc := branch_lands 14 addr immV\<rparr> else next_pc s)"
proof -
  have "canBeImm True 14 1 (branch_diff immV addr) \<and> (ucast pos :: u32) \<le> 63"
    using w by (simp only: asm_Tbz_def Let_def abort_unless_eq_Inr canBe_branch_defs)
  then have "unat (branch_diff immV addr) < 2 ^ 14" "unat (ucast pos :: u32) \<le> 63"
    using canBe_branch [of 14 immV addr] by (simp_all add: word_le_nat_alt)
  then show ?thesis
    using branch_field_lands [of addr 14 immV] a tbz_position_low [of pos]
    by (auto simp: a64_do_def asm_Tbz_decode [OF w] a64_exec_def)
qed


lemma asm_Bcond_do:
  assumes w: "asm_Bcond immV c addr = Inr w"
    and a: "addr AND mask 2 = 0" "immV AND mask 2 = 0" "unat (immV - addr) < 2 ^ 20" "pc s = addr"
  shows "a64_do mem w s = Some (if cond_holds s (field 3 0 (ucast c)) then s\<lparr>pc := immV\<rparr> else next_pc s)"
  using asm_Bcond_lands [OF w a(1,4)] branch_lands_near [OF a(2), of addr 19] a(3) by simp

lemma asm_Cbz_do:
  assumes w: "asm_Cbz isCbz rd immV addr = Inr w"
    and a: "addr AND mask 2 = 0" "immV AND mask 2 = 0" "unat (immV - addr) < 2 ^ 20" "pc s = addr"
  shows "a64_do mem w s =
    Some (if (sized (isX rd) (rd_X s (reg rd)) = 0) = isCbz then s\<lparr>pc := immV\<rparr> else next_pc s)"
  using asm_Cbz_lands [OF w a(1,4)] branch_lands_near [OF a(2), of addr 19] a(3) by simp

lemma asm_Tbz_do:
  assumes w: "asm_Tbz isTbz rd immV shiftImm addr = Inr w" and sh: "unat shiftImm \<le> 63"
    and a: "addr AND mask 2 = 0" "immV AND mask 2 = 0" "unat (immV - addr) < 2 ^ 15" "pc s = addr"
  shows "a64_do mem w s =
    Some (if bit (rd_X s (reg rd)) (unat shiftImm) \<noteq> isTbz then s\<lparr>pc := immV\<rparr> else next_pc s)"
  using asm_Tbz_lands [OF w a(1,4)] branch_lands_near [OF a(2), of addr 14] a(3) sh
  by (simp add: unsigned_ucast_eq take_bit_nat_eq_self)

lemma asm_LdrLiteral_do:
  assumes w: "asm_LdrLiteral rd immV addr = Inr w"
    and a: "addr AND mask 2 = 0" "immV AND mask 2 = 0" "unat (immV - addr) < 2 ^ 20" "pc s = addr"
  shows "a64_do mem w s = Some (next_pc (wr_X (reg rd)
    (if isX rd then push_bit 32 (ucast (mem (immV + 4))) OR ucast (mem immV) else ucast (mem immV)) s))"
  using branch_field_target [of addr immV 19] a
  by (simp add: a64_do_def asm_LdrLiteral_decode [OF w] a64_exec_def)

lemma asm_AddSubImm_do:
  assumes w: "asm_AddSubImm isAdd rd rn imm = Inr w" and i: "unat imm < 2 ^ 12"
  shows "a64_do mem w s = Some (next_pc (wr_XSP (reg rd)
    (sized (isX rd) (if isAdd then sized (isX rd) (rd_XSP s (reg rn)) + imm
      else sized (isX rd) (rd_XSP s (reg rn)) - imm)) s))"
proof -
  have m: "imm AND mask 12 = imm" using i by (simp add: and_mask_eq_iff_unat)
  then have b: "bit imm n \<Longrightarrow> n < 12" for n
    using aligned_low_bit bit_less_64 by (metis bit_and_iff bit_mask_iff)
  have u: "(ucast (ucast imm :: u32) :: u64) = imm"
    by (rule bit_word_eqI) (auto simp: bit_simps dest: b)
  have h: "\<not> hk_bits 12 < imm"
    using i by (simp add: less_hk_bits [of 12, simplified])
  have f: "ucast (field 11 0 (ucast imm :: u32)) = imm"
  proof (rule bit_word_eqI)
    fix n
    show "bit (ucast (field 11 0 (ucast imm :: u32)) :: u64) n = bit imm n"
      using b [of n] bit_less_64 [of imm n] by (auto simp: bit_field bit_simps)
  qed
  show ?thesis
    using asm_AddSubImm_decode [OF w] by (simp add: a64_do_def u h f a64_exec_def)
qed

section \<open>Distances the encoder rejects\<close>

lemma branch_diff_backward:
  assumes "addr AND mask 2 = 0" "immV < addr" "unat addr \<le> 2 ^ 63"
  shows "2 ^ 61 \<le> unat (branch_diff immV addr)"
proof -
  have "unat (immV - addr) = 2 ^ 64 + unat immV - unat addr"
    using assms(2) by (simp add: unat_sub_if' word_le_nat_alt word_less_nat_alt)
  then show ?thesis using assms(3) by (simp add: unat_branch_diff assms(1))
qed

lemma canBe_backward:
  assumes "addr AND mask 2 = 0" "immV < addr" "unat addr \<le> 2 ^ 63" "w \<le> 32"
  shows "\<not> canBeImm True w 1 (branch_diff immV addr)"
proof -
  have "(2 :: nat) ^ w \<le> 2 ^ 32" using assms(4) by (intro power_increasing) simp_all
  then show ?thesis
    using branch_diff_backward [OF assms(1-3)] by (simp add: canBe_branch [OF assms(4), simplified])
qed

text \<open>
  C10: a move of an immediate, for every register and every immediate that is encoded at all.
  For an X register, and for a W register when the immediate or its complement fits in 32 bits,
  executing the encoded word puts exactly the immediate (its low half for a W register) into
  \<open>rd\<close> and goes to the next instruction: the choice between MOVZ and MOVN and of the 16-bit slot
  never loses a bit.  In the one remaining case, a W register and an immediate neither of whose
  forms fits in 32 bits, the encoder does not abort but produces a word with a slot that a W
  register does not have, which is not an instruction.
\<close>

theorem mov_imm_loads_value:
  assumes "asm_MovImm rd imm = Inr w"
  shows "Option.bind (a64_decode w) (\<lambda>ins. a64_exec mem ins s) =
    (if isX rd \<or> unat imm < 2 ^ 32 \<or> unat (NOT imm) < 2 ^ 32
     then Some (next_pc (wr_X (reg rd) (sized (isX rd) imm) s)) else None)"
  using asm_MovImm_exec [OF assms] by (simp only: a64_do_def)

lemma mov_imm_loads_value_witness:
  "\<forall>s. \<exists>w v u. asm_MovImm (reg_X 3) 0xFFFFFFFFFFFF1234 = Inr w \<and>
    Option.bind (a64_decode w) (\<lambda>ins. a64_exec (\<lambda>a. 0) ins s) =
      Some (next_pc (wr_X (reg (reg_X 3)) (sized True 0xFFFFFFFFFFFF1234) s)) \<and>
    asm_MovImm (reg_W 3) 0xFFFFFFFFFFFFFFFF = Inr v \<and>
    Option.bind (a64_decode v) (\<lambda>ins. a64_exec (\<lambda>a. 0) ins s) =
      Some (next_pc (wr_X (reg (reg_W 3)) (sized False 0xFFFFFFFFFFFFFFFF) s)) \<and>
    asm_MovImm (reg_W 3) 0x123400000000 = Inr u \<and>
    Option.bind (a64_decode u) (\<lambda>ins. a64_exec (\<lambda>a. 0) ins s) = None"
proof
  fix s
  have a: "canBeImm16Shift4xNeg 0xFFFFFFFFFFFF1234" "canBeImm16Shift4xNeg 0xFFFFFFFFFFFFFFFF"
      "canBeImm16Shift4xNeg 0x123400000000" "isX (reg_X 3)" "\<not> isX (reg_W 3)"
    by code_simp+
  then obtain w v u where w: "asm_MovImm (reg_X 3) 0xFFFFFFFFFFFF1234 = Inr w"
      "asm_MovImm (reg_W 3) 0xFFFFFFFFFFFFFFFF = Inr v" "asm_MovImm (reg_W 3) 0x123400000000 = Inr u"
    unfolding asm_MovImm_eq abort_unless_eq_Inr by blast
  have b: "unat (NOT (0xFFFFFFFFFFFFFFFF :: u64)) < 2 ^ 32" "\<not> unat (0x123400000000 :: u64) < 2 ^ 32"
      "\<not> unat (NOT (0x123400000000 :: u64)) < 2 ^ 32"
    by simp_all
  note t = mov_imm_loads_value [where mem = "\<lambda>a. 0" and s = s]
  from t [OF w(1)] t [OF w(2)] t [OF w(3)] w a b
  show "\<exists>w v u. asm_MovImm (reg_X 3) 0xFFFFFFFFFFFF1234 = Inr w \<and>
    Option.bind (a64_decode w) (\<lambda>ins. a64_exec (\<lambda>a. 0) ins s) =
      Some (next_pc (wr_X (reg (reg_X 3)) (sized True 0xFFFFFFFFFFFF1234) s)) \<and>
    asm_MovImm (reg_W 3) 0xFFFFFFFFFFFFFFFF = Inr v \<and>
    Option.bind (a64_decode v) (\<lambda>ins. a64_exec (\<lambda>a. 0) ins s) =
      Some (next_pc (wr_X (reg (reg_W 3)) (sized False 0xFFFFFFFFFFFFFFFF) s)) \<and>
    asm_MovImm (reg_W 3) 0x123400000000 = Inr u \<and>
    Option.bind (a64_decode u) (\<lambda>ins. a64_exec (\<lambda>a. 0) ins s) = None"
    by (intro exI conjI; assumption?) (simp_all del: numeral_power_le_of_nat_cancel_iff)
qed

text \<open>
  C32: where every conditional branch that is encoded goes.  At a word-aligned address, whenever
  \<^verbatim>\<open>b.cond\<close>, \<^verbatim>\<open>cbz\<close>/\<^verbatim>\<open>cbnz\<close> or \<^verbatim>\<open>tbz\<close>/\<^verbatim>\<open>tbnz\<close> is encoded without an abort, the word falls through
  unless the requested condition holds, and then branches to \<open>branch_lands\<close>: the requested
  target (with its low two bits cleared) when that lies less than 1 MiB (32 KiB for
  \<^verbatim>\<open>tbz\<close>/\<^verbatim>\<open>tbnz\<close>) ahead, and 2 MiB (64 KiB) below it otherwise, because the range check lets one
  bit too many through and the processor reads it as the sign.
\<close>

theorem forward_branch_reaches_target:
  assumes "addr AND mask 2 = 0" "pc s = addr"
  shows "(asm_Bcond immV c addr = Inr w \<longrightarrow> a64_do mem w s =
      Some (if cond_holds s (field 3 0 (ucast c)) then s\<lparr>pc := branch_lands 19 addr immV\<rparr> else next_pc s)) \<and>
    (asm_Cbz isCbz rd immV addr = Inr w \<longrightarrow> a64_do mem w s =
      Some (if (sized (isX rd) (rd_X s (reg rd)) = 0) = isCbz
        then s\<lparr>pc := branch_lands 19 addr immV\<rparr> else next_pc s)) \<and>
    (asm_Tbz isTbz rd immV pos addr = Inr w \<longrightarrow> a64_do mem w s =
      Some (if bit (rd_X s (reg rd)) (unat (ucast pos :: u32)) \<noteq> isTbz
        then s\<lparr>pc := branch_lands 14 addr immV\<rparr> else next_pc s))"
  by (intro conjI impI) (rule asm_Bcond_lands asm_Cbz_lands asm_Tbz_lands; (assumption | rule assms))+

lemma forward_branch_reaches_target_witness:
  "\<forall>s. \<exists>w v. asm_Cbz True (reg_X 1) 0x1010 0x1000 = Inr w \<and>
    a64_do (\<lambda>a. 0) w (s\<lparr>pc := 0x1000\<rparr>) =
      Some (if (rd_X s 1 = 0) = True then s\<lparr>pc := 0x1010\<rparr> else s\<lparr>pc := 0x1004\<rparr>) \<and>
    asm_Cbz True (reg_X 1) 0x121000 0x1000 = Inr v \<and>
    a64_do (\<lambda>a. 0) v (s\<lparr>pc := 0x1000\<rparr>) =
      Some (if (rd_X s 1 = 0) = True then s\<lparr>pc := 0xFFFFFFFFFFF21000\<rparr> else s\<lparr>pc := 0x1004\<rparr>)"
proof
  fix s
  have a: "canBeImm19Neg (branch_diff 0x1010 0x1000)" "canBeImm19Neg (branch_diff 0x121000 0x1000)"
      "isX (reg_X 1)" "reg (reg_X 1) = 1"
    by code_simp+
  have b: "branch_lands 19 0x1000 0x1010 = 0x1010" "branch_lands 19 0x1000 0x121000 = 0xFFFFFFFFFFF21000"
    by (simp_all add: branch_lands_def mask_eq_exp_minus_1)
  have "\<exists>w. asm_Cbz True (reg_X 1) 0x1010 0x1000 = Inr w" "\<exists>v. asm_Cbz True (reg_X 1) 0x121000 0x1000 = Inr v"
    unfolding asm_Cbz_def Let_def abort_unless_eq_Inr using a(1,2) by blast+
  then obtain w v where w: "asm_Cbz True (reg_X 1) 0x1010 0x1000 = Inr w"
      "asm_Cbz True (reg_X 1) 0x121000 0x1000 = Inr v"
    by blast
  note t = forward_branch_reaches_target [where addr = "0x1000" and s = "s\<lparr>pc := 0x1000\<rparr>",
      THEN conjunct2, THEN conjunct1, rule_format]
  from t [OF _ _ w(1)] t [OF _ _ w(2)] w a b
  show "\<exists>w v. asm_Cbz True (reg_X 1) 0x1010 0x1000 = Inr w \<and>
    a64_do (\<lambda>a. 0) w (s\<lparr>pc := 0x1000\<rparr>) =
      Some (if (rd_X s 1 = 0) = True then s\<lparr>pc := 0x1010\<rparr> else s\<lparr>pc := 0x1004\<rparr>) \<and>
    asm_Cbz True (reg_X 1) 0x121000 0x1000 = Inr v \<and>
    a64_do (\<lambda>a. 0) v (s\<lparr>pc := 0x1000\<rparr>) =
      Some (if (rd_X s 1 = 0) = True then s\<lparr>pc := 0xFFFFFFFFFFF21000\<rparr> else s\<lparr>pc := 0x1004\<rparr>)"
    by (simp add: next_pc_def mask_eq_exp_minus_1 sized_def rd_X_def)
qed

text \<open>
  C33: a backward conditional branch or literal load is never encoded.  The distance is
  computed with an unsigned division by the instruction size, so a target below the
  instruction's own address always fails the range check, however near it is.
\<close>

theorem backward_branch_rejected:
  assumes "addr AND mask 2 = 0" "immV < addr" "unat addr \<le> 2 ^ 63"
  shows "\<not> (\<exists>w. asm_Bcond immV c addr = Inr w \<or> asm_Cbz isCbz rd immV addr = Inr w \<or>
    asm_Tbz isTbz rd immV pos addr = Inr w \<or> asm_LdrLiteral rd immV addr = Inr w)"
  using canBe_backward [OF assms, of 19] canBe_backward [OF assms, of 14]
  by (simp add: asm_Bcond_def asm_Cbz_def asm_Tbz_def asm_LdrLiteral_def Let_def canBe_branch_defs)

lemma backward_branch_rejected_witness:
  "\<not> (\<exists>w. asm_Bcond 0xFFC 0 0x1000 = Inr w \<or> asm_Cbz True 0 0xFFC 0x1000 = Inr w \<or>
    asm_Tbz True 0 0xFFC 3 0x1000 = Inr w \<or> asm_LdrLiteral 0 0xFFC 0x1000 = Inr w)"
  by (rule backward_branch_rejected) (simp_all add: mask_eq_exp_minus_1)

end
