(* ===== verification/A64Parse.thy ===== *)
theory A64Parse
  imports A64AsmCorrect "HOL-Library.Char_ord"
begin

text \<open>
  The assembly text parser of \<^verbatim>\<open>hk/hook/a64/Assembler.h\<close> (struct \<^verbatim>\<open>Expr\<close>): tokenising,
  mnemonic table, operand parsers, the per-line state and \<^verbatim>\<open>processInstrs\<close>.  Strings are
  NUL-terminated in the source and plain character lists here; the end of the list is the
  terminator.  Parsing runs at compile time, so an error is the value \<open>Inl\<close>.
\<close>

section \<open>Characters and tokens\<close>

definition NUL :: char where "NUL = CHR 0x00"

definition isDelimiter :: "string \<Rightarrow> char \<Rightarrow> bool" where
  "isDelimiter delims c \<longleftrightarrow> list_ex (\<lambda>d. c = d) delims"

definition cLineBufferSize :: nat where "cLineBufferSize = 1024"

function executeCallbackBySplit :: "string \<Rightarrow> string \<Rightarrow> (string \<Rightarrow> 's \<Rightarrow> 's run) \<Rightarrow> 's \<Rightarrow> 's run" where
  "executeCallbackBySplit delims str func st =
     (let rest = dropWhile (isDelimiter delims) str in
      if rest = [] \<or> hd rest = NUL then Inr st
      else let buf = takeWhile (\<lambda>c. \<not> isDelimiter delims c \<and> c \<noteq> NUL) rest in
        abort_unless (length buf < cLineBufferSize) ''line buffer overflow''
          (bindR (func buf st) (executeCallbackBySplit delims (drop (length buf) rest) func)))"
  by pat_completeness auto
termination
proof (relation "measure (\<lambda>(delims, str, func, st). length str)")
  fix delims str and func :: "string \<Rightarrow> 's \<Rightarrow> 's run" and st rest buf and x :: 's
  assume rest: "rest = dropWhile (isDelimiter delims) str" "\<not> (rest = [] \<or> hd rest = NUL)"
    and buf: "buf = takeWhile (\<lambda>c. \<not> isDelimiter delims c \<and> c \<noteq> NUL) rest"
  have "\<not> isDelimiter delims (hd rest)"
    using rest hd_dropWhile [of "isDelimiter delims" str] by auto
  with rest(2) buf have "0 < length buf" by (cases rest) auto
  moreover have "length rest \<le> length str" by (simp add: rest(1) length_dropWhile_le)
  moreover have "rest \<noteq> []" using rest(2) by simp
  ultimately show "((delims, drop (length buf) rest, func, x), delims, str, func, st)
      \<in> measure (\<lambda>(delims, str, func, st). length str)"
    by (simp add: diff_less_mono2) (metis diff_less le_trans length_greater_0_conv not_le order_less_le_trans)
qed simp

declare executeCallbackBySplit.simps [simp del]

definition lower :: "char \<Rightarrow> char" where
  "lower c = (if CHR ''A'' \<le> c \<and> c \<le> CHR ''Z'' then char_of (of_char c + 32 :: nat) else c)"

fun equalIgnoreCase_loop :: "string \<Rightarrow> string \<Rightarrow> bool" where
  "equalIgnoreCase_loop (x # a) (y # b) = (if lower x \<noteq> lower y then False else equalIgnoreCase_loop a b)"
| "equalIgnoreCase_loop [] [] = True"
| "equalIgnoreCase_loop _ _ = False"

definition isEqualStringIgnoreCase :: "string \<Rightarrow> string \<Rightarrow> bool" where
  "isEqualStringIgnoreCase a b =
     (if a = [] \<or> b = [] then False else equalIgnoreCase_loop a b)"

section \<open>The mnemonic table\<close>

datatype ParseMnemonic =
    None_pm | Nop_pm | Ret_pm | Br_pm | Blr_pm | Svc_pm | Mov_pm | Movk_pm | Orr_pm | Add_pm
  | Sub_pm | And_pm | Adr_pm | Adrp_pm | BcondArg_pm | Cbz_pm | Cbnz_pm | Tbz_pm | Tbnz_pm | Ldr_pm

definition opd_End :: u8 where "opd_End = 0"
definition opd_Rd :: u8 where "opd_Rd = push_bit 0 1"
definition opd_Rn :: u8 where "opd_Rn = push_bit 1 1"
definition opd_Rm :: u8 where "opd_Rm = push_bit 2 1"
definition opd_Imm :: u8 where "opd_Imm = push_bit 3 1"
definition opd_ShiftType :: u8 where "opd_ShiftType = push_bit 4 1"
definition opd_Shift :: u8 where "opd_Shift = push_bit 5 1"
definition opd_Optional :: u8 where "opd_Optional = push_bit 6 1"

definition cMaxOperands :: nat where "cMaxOperands = 5"

text \<open>The operand array has one element more than the operands, zero where none is given.\<close>

type_synonym Mnemonic = "ParseMnemonic \<times> string \<times> u8 list"

definition mnem :: "ParseMnemonic \<Rightarrow> string \<Rightarrow> u8 list \<Rightarrow> Mnemonic" where
  "mnem t s ops = (t, s, take (cMaxOperands + 1) (ops @ replicate (cMaxOperands + 1) opd_End))"

definition cMnemonics :: "Mnemonic list" where
  "cMnemonics =
    (let OptShift = [opd_ShiftType OR opd_Optional, opd_Shift OR opd_Optional] in
    [mnem None_pm [] [],
     mnem Nop_pm ''nop'' [],
     mnem Ret_pm ''ret'' [opd_Rn OR opd_Optional],
     mnem Br_pm ''br'' [opd_Rn],
     mnem Blr_pm ''blr'' [opd_Rn],
     mnem Svc_pm ''svc'' [opd_Imm],
     mnem Mov_pm ''mov'' [opd_Rd, opd_Rn OR opd_Imm],
     mnem Movk_pm ''movk'' ([opd_Rd, opd_Imm] @ OptShift),
     mnem Orr_pm ''orr'' ([opd_Rd, opd_Rn, opd_Rm] @ OptShift),
     mnem Add_pm ''add'' ([opd_Rd, opd_Rn, opd_Rm OR opd_Imm] @ OptShift),
     mnem Sub_pm ''sub'' ([opd_Rd, opd_Rn, opd_Rm OR opd_Imm] @ OptShift),
     mnem And_pm ''and'' ([opd_Rd, opd_Rn, opd_Rm] @ OptShift),
     mnem Adr_pm ''adr'' [opd_Rd, opd_Imm],
     mnem Adrp_pm ''adrp'' [opd_Rd, opd_Imm],
     mnem BcondArg_pm ''b.()'' [opd_Imm],
     mnem Cbz_pm ''cbz'' [opd_Rd, opd_Imm],
     mnem Cbnz_pm ''cbnz'' [opd_Rd, opd_Imm],
     mnem Tbz_pm ''tbz'' [opd_Rd, opd_Shift, opd_Imm],
     mnem Tbnz_pm ''tbnz'' [opd_Rd, opd_Shift, opd_Imm],
     mnem Ldr_pm ''ldr'' [opd_Rd, opd_Imm]])"

definition mn_a :: "Mnemonic \<Rightarrow> ParseMnemonic" where "mn_a m = fst m"
definition mn_b :: "Mnemonic \<Rightarrow> string" where "mn_b m = fst (snd m)"
definition mn_c :: "Mnemonic \<Rightarrow> u8 list" where "mn_c m = snd (snd m)"

definition has :: "u8 \<Rightarrow> u8 \<Rightarrow> bool" where
  "has op f \<longleftrightarrow> op AND f \<noteq> 0"

definition countOptionalOperands :: "Mnemonic \<Rightarrow> int" where
  "countOptionalOperands m = int (length (filter (\<lambda>op. has op opd_Optional) (take cMaxOperands (mn_c m))))"

definition findMnemonic :: "string \<Rightarrow> Mnemonic" where
  "findMnemonic opcodeStr =
     (case List.find (\<lambda>m. isEqualStringIgnoreCase (mn_b m) opcodeStr) cMnemonics of
        Some m \<Rightarrow> m | None \<Rightarrow> hd cMnemonics)"

section \<open>Operand parsers\<close>

definition cSpecialRegs :: "(IRegType \<times> string) list" where
  "cSpecialRegs = [(reg_FP, ''fp''), (reg_LR, ''lr''), (reg_SP, ''sp''), (reg_XZR, ''xzr''),
     (reg_WZR, ''wzr''), (reg_IP0, ''ip''), (reg_IP0, ''ip0''), (reg_IP1, ''ip1'')]"

definition isDigit :: "char \<Rightarrow> bool" where
  "isDigit c \<longleftrightarrow> CHR ''0'' \<le> c \<and> c \<le> CHR ''9''"

definition digit_value :: "char \<Rightarrow> nat" where
  "digit_value c = of_char c - 48"

definition parseRegisterOperand :: "string \<Rightarrow> IRegType" where
  "parseRegisterOperand token =
     (if length token < 2 \<or> 3 < length token then IRegType_Max
      else case List.find (\<lambda>p. isEqualStringIgnoreCase token (snd p)) cSpecialRegs of
        Some p \<Rightarrow> fst p
      | None \<Rightarrow>
          (let isWreg = isEqualStringIgnoreCase [hd token] ''w'';
               isXreg = isEqualStringIgnoreCase [hd token] ''x'' in
           if \<not> isWreg \<and> \<not> isXreg then IRegType_Max
           else if list_ex (\<lambda>c. \<not> isDigit c) (tl token) then IRegType_Max
           else let regIdx = foldl (\<lambda>r c. r * 10 + digit_value c) 0 (tl token) in
             if 30 < regIdx then IRegType_Max
             else (if isWreg then reg_Wbit else 0) OR of_nat regIdx))"

definition hexDigit :: "char \<Rightarrow> nat option" where
  "hexDigit c =
     (if CHR ''0'' \<le> c \<and> c \<le> CHR ''9'' then Some (of_char c - 48)
      else if CHR ''a'' \<le> c \<and> c \<le> CHR ''f'' then Some (of_char c - 97 + 10)
      else if CHR ''A'' \<le> c \<and> c \<le> CHR ''F'' then Some (of_char c - 65 + 10)
      else None)"

fun parseBin_loop :: "string \<Rightarrow> nat \<Rightarrow> u64 \<Rightarrow> u64 option" where
  "parseBin_loop [] i result = Some result"
| "parseBin_loop (c # cs) i result =
     (if c \<noteq> CHR ''0'' \<and> c \<noteq> CHR ''1'' \<or> i > 64 + 1 then None
      else parseBin_loop cs (i + 1) (push_bit 1 result OR of_nat (digit_value c)))"

fun parseHex_loop :: "string \<Rightarrow> nat \<Rightarrow> u64 \<Rightarrow> u64 option" where
  "parseHex_loop [] i result = Some result"
| "parseHex_loop (c # cs) i result =
     (case hexDigit c of None \<Rightarrow> None
      | Some digitValue \<Rightarrow>
          if i > 16 + 1 then None
          else parseHex_loop cs (i + 1) (push_bit 4 result OR of_nat digitValue))"

fun parseDec_loop :: "string \<Rightarrow> u64 \<Rightarrow> u64 option" where
  "parseDec_loop [] result = Some result"
| "parseDec_loop (c # cs) result =
     (if \<not> isDigit c then None else parseDec_loop cs (result * 10 + of_nat (digit_value c)))"

definition parseImmediateOperand :: "string \<Rightarrow> u64 option" where
  "parseImmediateOperand token =
     (if length token < 1 then None
      else if length token > 2 \<and> token ! 0 = CHR ''0'' \<and> (token ! 1 = CHR ''b'' \<or> token ! 1 = CHR ''B'')
      then parseBin_loop (drop 2 token) 2 0
      else if length token > 2 \<and> token ! 0 = CHR ''0'' \<and> (token ! 1 = CHR ''x'' \<or> token ! 1 = CHR ''X'')
      then parseHex_loop (drop 2 token) 2 0
      else if token ! 0 = CHR ''-''
      then (if length token = 1 then None
            else map_option (\<lambda>r. - r) (parseDec_loop (drop 1 token) 0))
      else parseDec_loop token 0)"

definition parseShiftTypeOperand :: "string \<Rightarrow> IShiftType" where
  "parseShiftTypeOperand token =
     (if isEqualStringIgnoreCase token ''lsl'' then LSL
      else if isEqualStringIgnoreCase token ''lsr'' then LSR
      else if isEqualStringIgnoreCase token ''asr'' then ASR
      else if isEqualStringIgnoreCase token ''ror'' then ROR
      else ShiftMax)"

section \<open>The state of a line\<close>

record lineState =
  ls_m :: Mnemonic
  ls_rd :: IImm
  ls_rn :: IImm
  ls_rm :: IImm
  ls_imm :: IImm
  ls_shift :: IShiftType
  ls_shiftImm :: IImm
  operandIdx :: int
  numOptionalsToFind :: int
  numOptionalsToResolve :: int
  argIndex :: u64

definition line_init :: "u64 \<Rightarrow> lineState" where
  "line_init argI = \<lparr>ls_m = hd cMnemonics, ls_rd = IImm_none, ls_rn = IImm_none, ls_rm = IImm_none,
     ls_imm = IImm_none, ls_shift = LSL, ls_shiftImm = IImm_none, operandIdx = - 1,
     numOptionalsToFind = 0, numOptionalsToResolve = 0, argIndex = argI\<rparr>"

text \<open>
  \<^verbatim>\<open>throwErr<Throw>\<close>: an error when the text is assembled, nothing when its instructions
  are only counted.
\<close>

definition throwErr :: "bool \<Rightarrow> string \<Rightarrow> 'a run \<Rightarrow> 'a run" where
  "throwErr Throw msg k = (if Throw then Inl (Abort msg) else k)"

definition throwErr_if :: "bool \<Rightarrow> bool \<Rightarrow> string \<Rightarrow> 'a run \<Rightarrow> 'a run" where
  "throwErr_if c Throw msg k = (if c then throwErr Throw msg k else k)"

definition checkImmRange :: "bool \<Rightarrow> IImm \<Rightarrow> (u64 \<Rightarrow> bool) \<Rightarrow> 'a run \<Rightarrow> 'a run" where
  "checkImmRange Throw imm check k =
     throwErr_if (imm_isImm imm \<and> \<not> check (resolve imm None)) Throw ''Immediate out of range'' k"

section \<open>finalize\<close>

definition finalize :: "bool \<Rightarrow> lineState \<Rightarrow> IInstr run" where
  "finalize Throw ls =
    (let rdV = ucast (resolve (ls_rd ls) None) :: IRegType;
         rnV = ucast (resolve (ls_rn ls) None) :: IRegType;
         rmV = ucast (resolve (ls_rm ls) None) :: IRegType;
         instr = IInstr_default\<lparr>i_rd := ls_rd ls, i_rn := ls_rn ls, i_rm := ls_rm ls\<rparr>;
         imm = ls_imm ls; shiftImm = ls_shiftImm ls
     in case mn_a (ls_m ls) of
       Nop_pm \<Rightarrow> Inr (instr\<lparr>itype := Nop\<rparr>)
     | Ret_pm \<Rightarrow> Inr (instr\<lparr>itype := Ret\<rparr>)
     | Br_pm \<Rightarrow> Inr (instr\<lparr>itype := Br\<rparr>)
     | Blr_pm \<Rightarrow> Inr (instr\<lparr>itype := Blr\<rparr>)
     | Svc_pm \<Rightarrow>
         if imm_isImm imm \<and> resolve imm None > hk_bits 16
         then throwErr Throw ''SVC imm16 out of range'' (Inr IInstr_default)
         else Inr (instr\<lparr>itype := Svc, i_imm := imm\<rparr>)
     | Mov_pm \<Rightarrow>
         if \<not> imm_isValid (ls_rn ls) \<and> imm_isValid imm
         then checkImmRange Throw imm canBeImm16Shift4xNeg (Inr (instr\<lparr>itype := MovImm, i_imm := imm\<rparr>))
         else throwErr_if (\<not> imm_isImm (ls_rd ls)) Throw ''mov rd must be imm when not MovImm''
           (throwErr_if (\<not> imm_isImm (ls_rn ls)) Throw ''mov rn must be imm when not MovImm''
           (if rdV AND reg_Wbit \<noteq> rnV AND reg_Wbit
            then throwErr Throw ''Mismatching register widths'' (Inr IInstr_default)
            else if rdV = reg_SP \<or> rnV = reg_SP then Inr (instr\<lparr>itype := AddImm, i_imm := IImm_imm 0\<rparr>)
            else throwErr_if (\<not> imm_isImm (ls_rn ls)) Throw ''mov rn must be imm''
              (Inr (instr\<lparr>itype := OrrReg, i_rm := ls_rn ls, i_rn := IImm_reg reg_XZR,
                 i_imm := IImm_imm 0\<rparr>))))
     | Movk_pm \<Rightarrow>
         checkImmRange Throw imm canBeImm16Shift4xNeg
           (if ls_shift ls \<noteq> LSL then throwErr Throw ''Shift type not allowed'' (Inr IInstr_default)
            else if imm_isImm shiftImm \<and> imm_isImm (ls_rd ls) \<and>
              (let hw = ucast (resolve shiftImm None) :: u32 in
               \<not> (hw = 0 \<or> hw = 16 \<or> rdV AND reg_Wbit = 0 \<and> (hw = 32 \<or> hw = 48)))
            then throwErr Throw ''Shift out of range'' (Inr IInstr_default)
            else Inr (instr\<lparr>itype := Movk, i_imm := imm, i_shiftImm := shiftImm\<rparr>))
     | Sub_pm \<Rightarrow>
         if imm_isValid imm
         then checkImmRange Throw imm canBeImm12Shift2x (Inr (instr\<lparr>itype := SubImm, i_imm := imm\<rparr>))
         else if ls_shift ls = ROR then throwErr Throw ''Shift type ROR not allowed'' (Inr IInstr_default)
         else checkImmRange Throw shiftImm canBeImm6
           (Inr (instr\<lparr>itype := SubReg, i_shift := ls_shift ls, i_shiftImm := shiftImm\<rparr>))
     | Add_pm \<Rightarrow>
         if imm_isValid imm
         then checkImmRange Throw imm canBeImm12Shift2x (Inr (instr\<lparr>itype := AddImm, i_imm := imm\<rparr>))
         else if ls_shift ls = ROR then throwErr Throw ''Shift type ROR not allowed'' (Inr IInstr_default)
         else checkImmRange Throw shiftImm canBeImm6
           (Inr (instr\<lparr>itype := AddReg, i_shift := ls_shift ls, i_shiftImm := shiftImm\<rparr>))
     | And_pm \<Rightarrow> Inr (instr\<lparr>itype := AndReg\<rparr>)
     | Orr_pm \<Rightarrow>
         if imm_isImm (ls_rd ls) \<and> imm_isImm (ls_rn ls) \<and> imm_isImm (ls_rm ls) \<and>
           (rdV = reg_SP \<or> rnV = reg_SP \<or> rmV = reg_SP)
         then throwErr Throw ''Register SP not allowed'' (Inr IInstr_default)
         else if imm_isValid shiftImm
         then checkImmRange Throw shiftImm canBeImm6
           (Inr (instr\<lparr>itype := OrrReg, i_shift := ls_shift ls, i_shiftImm := shiftImm\<rparr>))
         else Inr (instr\<lparr>itype := OrrReg\<rparr>)
     | Adr_pm \<Rightarrow>
         if imm_isImm (ls_rd ls) \<and> rdV AND reg_Wbit \<noteq> 0
         then throwErr Throw ''X register required'' (Inr IInstr_default)
         else Inr (instr\<lparr>itype := Adr, i_imm := imm\<rparr>)
     | Adrp_pm \<Rightarrow>
         if imm_isImm (ls_rd ls) \<and> rdV AND reg_Wbit \<noteq> 0
         then throwErr Throw ''X register required'' (Inr IInstr_default)
         else Inr (instr\<lparr>itype := Adrp, i_imm := imm\<rparr>)
     | BcondArg_pm \<Rightarrow> Inr (instr\<lparr>itype := Bcond, i_imm := imm, i_shiftImm := shiftImm\<rparr>)
     | Cbz_pm \<Rightarrow> Inr (instr\<lparr>itype := Cbz, i_imm := imm\<rparr>)
     | Cbnz_pm \<Rightarrow> Inr (instr\<lparr>itype := Cbnz, i_imm := imm\<rparr>)
     | Tbz_pm \<Rightarrow> Inr (instr\<lparr>itype := Tbz, i_imm := imm, i_shiftImm := shiftImm\<rparr>)
     | Tbnz_pm \<Rightarrow> Inr (instr\<lparr>itype := Tbnz, i_imm := imm, i_shiftImm := shiftImm\<rparr>)
     | Ldr_pm \<Rightarrow> Inr (instr\<lparr>itype := LdrLiteral, i_imm := imm\<rparr>)
     | None_pm \<Rightarrow> throwErr Throw ''Shouldn't happen'' (Inr IInstr_default))"

section \<open>Operands of a line\<close>

text \<open>The three operand attempts of the token callback, in its order; \<open>None\<close> when unresolved.\<close>

definition try_register :: "u8 \<Rightarrow> string \<Rightarrow> lineState \<Rightarrow> lineState option" where
  "try_register op token ls =
    (let set_dst = (\<lambda>v ls. if has op opd_Rd then ls\<lparr>ls_rd := v\<rparr>
                       else if has op opd_Rn then ls\<lparr>ls_rn := v\<rparr> else ls\<lparr>ls_rm := v\<rparr>) in
     if \<not> (has op opd_Rd \<or> has op opd_Rn \<or> has op opd_Rm) then None
     else if isEqualStringIgnoreCase token ''()''
     then Some ((set_dst (IImm_regarg (argIndex ls)) ls)\<lparr>argIndex := argIndex ls + 1, operandIdx := operandIdx ls + 1\<rparr>)
     else let res = parseRegisterOperand token in
       if res \<noteq> IRegType_Max then Some ((set_dst (IImm_reg res) ls)\<lparr>operandIdx := operandIdx ls + 1\<rparr>)
       else None)"

definition try_immediate :: "u8 \<Rightarrow> string \<Rightarrow> lineState \<Rightarrow> lineState option" where
  "try_immediate op token ls =
    (let set_dest = (\<lambda>v ls. if has op opd_Imm then ls\<lparr>ls_imm := v\<rparr> else ls\<lparr>ls_shiftImm := v\<rparr>) in
     if \<not> (has op opd_Imm \<or> has op opd_Shift) then None
     else if isEqualStringIgnoreCase token ''{}''
     then Some ((set_dest (IImm_arg (argIndex ls)) ls)\<lparr>argIndex := argIndex ls + 1, operandIdx := operandIdx ls + 1\<rparr>)
     else case parseImmediateOperand token of
       Some immV \<Rightarrow> Some ((set_dest (IImm_imm immV) ls)\<lparr>operandIdx := operandIdx ls + 1\<rparr>)
     | None \<Rightarrow> None)"

definition try_shiftType :: "u8 \<Rightarrow> string \<Rightarrow> lineState \<Rightarrow> lineState option" where
  "try_shiftType op token ls =
    (if has op opd_ShiftType \<and> parseShiftTypeOperand token \<noteq> ShiftMax
     then Some (ls\<lparr>ls_shift := parseShiftTypeOperand token, operandIdx := operandIdx ls + 1\<rparr>)
     else None)"

definition orElse :: "'a option \<Rightarrow> 'a option \<Rightarrow> 'a option" where
  "orElse a b = (case a of Some x \<Rightarrow> Some x | None \<Rightarrow> b)"

definition operand_op :: "lineState \<Rightarrow> u8" where
  "operand_op ls = mn_c (ls_m ls) ! nat (operandIdx ls)"

definition process_mnemonic :: "bool \<Rightarrow> string \<Rightarrow> lineState \<Rightarrow> lineState run" where
  "process_mnemonic Throw token ls =
    (let m = findMnemonic token;
         n = countOptionalOperands m;
         ls = ls\<lparr>ls_m := m, numOptionalsToFind := n, numOptionalsToResolve := n, operandIdx := operandIdx ls + 1\<rparr>
     in throwErr_if (mn_a m = None_pm) Throw ''Invalid or unimplemented mnemonic''
       (Inr (if mn_a m = BcondArg_pm
             then ls\<lparr>ls_shiftImm := IImm_arg (argIndex ls), argIndex := argIndex ls + 1\<rparr> else ls)))"

definition process_operand :: "bool \<Rightarrow> string \<Rightarrow> lineState \<Rightarrow> lineState run" where
  "process_operand Throw token ls =
    (let op = operand_op ls in
     if op = opd_End then throwErr Throw ''Extra token'' (Inr ls)
     else
       let ls = (if has op opd_Optional then ls\<lparr>numOptionalsToFind := numOptionalsToFind ls - 1\<rparr> else ls);
           needsResolve = (countSetBits op = 1 \<or> \<not> has op opd_Optional)
       in case orElse (try_register op token ls)
             (orElse (try_immediate op token ls) (try_shiftType op token ls)) of
         Some ls' \<Rightarrow> Inr (if has op opd_Optional
           then ls'\<lparr>numOptionalsToResolve := numOptionalsToResolve ls' - 1\<rparr> else ls')
       | None \<Rightarrow> throwErr_if needsResolve Throw ''Invalid operand'' (Inr ls))"

definition process_token :: "bool \<Rightarrow> string \<Rightarrow> lineState \<Rightarrow> lineState run" where
  "process_token Throw token ls =
    (if operandIdx ls = - 1 then process_mnemonic Throw token ls else process_operand Throw token ls)"

section \<open>processInstrs\<close>

definition cOperandDelims :: string where
  "cOperandDelims = '' ,#'' @ [CHR 0x09, CHR 0x0B, CHR 0x0D]"

definition cLineDelims :: string where "cLineDelims = [CHR 0x0A]"

text \<open>The instructions so far with the argument counter, which runs over all lines.\<close>

type_synonym progState = "IInstr list \<times> u64"

definition finish_line :: "bool \<Rightarrow> nat \<Rightarrow> IInstr list \<Rightarrow> lineState \<Rightarrow> progState run" where
  "finish_line Throw bufferSize instrs ls =
    (if operandIdx ls = - 1 then Inr (instrs, argIndex ls)
     else let op = operand_op ls in
       throwErr_if (numOptionalsToFind ls \<noteq> 0 \<and> numOptionalsToFind ls \<noteq> countOptionalOperands (ls_m ls) \<or>
           numOptionalsToFind ls \<noteq> numOptionalsToResolve ls) Throw ''Incomplete optional expression''
         (if op = opd_End \<or> has op opd_Optional
          then bindR (finalize Throw ls) (\<lambda>instr.
            abort_unless (length instrs < bufferSize) ''instruction buffer overflow''
              (Inr (instrs @ [instr], argIndex ls)))
          else throwErr Throw ''Incomplete expression'' (Inr (instrs, argIndex ls))))"

definition process_line :: "bool \<Rightarrow> nat \<Rightarrow> string \<Rightarrow> progState \<Rightarrow> progState run" where
  "process_line Throw bufferSize line ps =
    bindR (executeCallbackBySplit cOperandDelims line (process_token Throw) (line_init (snd ps)))
      (finish_line Throw bufferSize (fst ps))"

definition processInstrs :: "bool \<Rightarrow> nat \<Rightarrow> string \<Rightarrow> IInstr list run" where
  "processInstrs Throw bufferSize src =
    bindR (executeCallbackBySplit cLineDelims src (process_line Throw bufferSize) ([], 0))
      (\<lambda>ps. Inr (fst ps))"

definition calcNumInstrs :: "string \<Rightarrow> nat run" where
  "calcNumInstrs src = bindR (processInstrs False 1024 src) (\<lambda>instrs. Inr (length instrs))"

text \<open>The function template \<^verbatim>\<open>assemble<E>\<close>: the block's instructions.\<close>

definition assemble_expr :: "string \<Rightarrow> IInstr list run" where
  "assemble_expr src = bindR (calcNumInstrs src) (\<lambda>n. processInstrs True n src)"

end
