(* ===== verification/A64ParseProps.thy ===== *)
theory A64ParseProps
  imports A64Parse
begin

text \<open>
  What the assembly text parser guarantees: the tokeniser calls back once per token, operands
  read back the number or register that was written, counting the instructions agrees with
  assembling them, and the parse of the fixed expressions the emitter uses.
\<close>

section \<open>The tokeniser\<close>

lemma split_stop:
  "dropWhile (isDelimiter delims) str = [] \<or> hd (dropWhile (isDelimiter delims) str) = NUL \<Longrightarrow>
    executeCallbackBySplit delims str f st = Inr st"
  by (subst executeCallbackBySplit.simps) (simp add: Let_def)

lemma split_step:
  assumes "rest = dropWhile (isDelimiter delims) str" "rest \<noteq> []" "hd rest \<noteq> NUL"
    "buf = takeWhile (\<lambda>c. \<not> isDelimiter delims c \<and> c \<noteq> NUL) rest"
  shows "executeCallbackBySplit delims str f st =
    abort_unless (length buf < cLineBufferSize) ''line buffer overflow''
      (bindR (f buf st) (executeCallbackBySplit delims (drop (length buf) rest) f))"
  using assms by (subst executeCallbackBySplit.simps) (simp only: Let_def simp_thms if_False)

fun foldR :: "('a \<Rightarrow> 's \<Rightarrow> 's run) \<Rightarrow> 'a list \<Rightarrow> 's \<Rightarrow> 's run" where
  "foldR f [] st = Inr st"
| "foldR f (x # xs) st = bindR (f x st) (foldR f xs)"

definition is_token :: "string \<Rightarrow> string \<Rightarrow> bool" where
  "is_token delims t \<longleftrightarrow> t \<noteq> [] \<and> length t < cLineBufferSize \<and>
     list_all (\<lambda>c. \<not> isDelimiter delims c \<and> c \<noteq> NUL) t"

text \<open>Each token is preceded by delimiters, and delimiters may follow the last one.\<close>

fun join_tokens :: "(string \<times> string) list \<Rightarrow> string \<Rightarrow> string" where
  "join_tokens [] final = final"
| "join_tokens ((gap, t) # ts) final = gap @ t @ join_tokens ts final"

fun gaps_ok :: "string \<Rightarrow> bool \<Rightarrow> (string \<times> string) list \<Rightarrow> string \<Rightarrow> bool" where
  "gaps_ok delims need [] final = list_all (isDelimiter delims) final"
| "gaps_ok delims need ((gap, t) # ts) final =
     (list_all (isDelimiter delims) gap \<and> (need \<longrightarrow> gap \<noteq> []) \<and> is_token delims t \<and>
      gaps_ok delims True ts final)"

lemma gaps_ok_rest:
  "gaps_ok delims True ts final \<Longrightarrow>
    join_tokens ts final = [] \<or> isDelimiter delims (hd (join_tokens ts final))"
  by (cases ts) (auto simp: list_all_iff neq_Nil_conv hd_append split: if_splits dest: hd_in_set)

lemma dropWhile_gap:
  "list_all P gap \<Longrightarrow> (rest = [] \<or> \<not> P (hd rest)) \<Longrightarrow> dropWhile P (gap @ rest) = rest"
  by (induction gap) (auto simp: dropWhile_eq_self_iff)

lemma takeWhile_token:
  "list_all P t \<Longrightarrow> (rest = [] \<or> \<not> P (hd rest)) \<Longrightarrow> takeWhile P (t @ rest) = t"
  by (induction t) (auto simp: takeWhile_eq_Nil_iff)

lemma split_tokens:
  "gaps_ok delims need ts final \<Longrightarrow>
    executeCallbackBySplit delims (join_tokens ts final) f st = foldR f (map snd ts) st"
proof (induction delims need ts final arbitrary: st rule: gaps_ok.induct)
  case (1 delims need final)
  then have "dropWhile (isDelimiter delims) final = []"
    by (simp add: list_all_iff dropWhile_eq_Nil_conv)
  then show ?case by (subst executeCallbackBySplit.simps) simp
next
  case (2 delims need gap t ts final)
  let ?rest = "join_tokens ts final"
  from 2(2) have gap: "list_all (isDelimiter delims) gap" and t: "is_token delims t"
    and ok: "gaps_ok delims True ts final" by simp_all
  obtain c u where c: "t = c # u" using t by (cases t) (simp_all add: is_token_def)
  have d: "dropWhile (isDelimiter delims) (gap @ t @ ?rest) = t @ ?rest"
    using gap t by (intro dropWhile_gap) (auto simp: is_token_def c)
  have w: "takeWhile (\<lambda>c. \<not> isDelimiter delims c \<and> c \<noteq> NUL) (t @ ?rest) = t"
    using t gaps_ok_rest [OF ok] by (intro takeWhile_token) (auto simp: is_token_def)
  have "hd (t @ ?rest) \<noteq> NUL" "t @ ?rest \<noteq> []" "length t < cLineBufferSize"
    using t by (auto simp: is_token_def c)
  then show ?case
    using split_step [of "t @ ?rest" delims "gap @ t @ ?rest" t f st] d w 2(1) [OF ok]
    by (simp add: abort_unless_def) (cases "f t st"; simp)
qed

text \<open>Two callbacks that agree where the first one succeeds, under a backward invariant.\<close>

lemma split_sim:
  assumes "executeCallbackBySplit delims str f st = Inr st'" "P st'"
    and "\<And>t st st'. f t st = Inr st' \<Longrightarrow> P st' \<Longrightarrow> P st \<and> g t st = Inr st'"
  shows "P st \<and> executeCallbackBySplit delims str g st = Inr st'"
  using assms
proof (induction delims str f st rule: executeCallbackBySplit.induct)
  case (1 delims str f st)
  define rest where rest: "rest = dropWhile (isDelimiter delims) str"
  define buf where buf: "buf = takeWhile (\<lambda>c. \<not> isDelimiter delims c \<and> c \<noteq> NUL) rest"
  show ?case
  proof (cases "rest = [] \<or> hd rest = NUL")
    case True
    then have "executeCallbackBySplit delims str h st = Inr st" for h
      unfolding rest by (rule split_stop)
    then show ?thesis using 1(2,3) by simp
  next
    case False
    then have step: "executeCallbackBySplit delims str h st =
      abort_unless (length buf < cLineBufferSize) ''line buffer overflow''
      (bindR (h buf st) (executeCallbackBySplit delims (drop (length buf) rest) h))" for h
      by (intro split_step rest buf) simp_all
    obtain st1 where len: "length buf < cLineBufferSize" and s1: "f buf st = Inr st1"
      and s2: "executeCallbackBySplit delims (drop (length buf) rest) f st1 = Inr st'"
      using 1(2) unfolding step by auto
    have "P st1 \<and> executeCallbackBySplit delims (drop (length buf) rest) g st1 = Inr st'"
      using 1(1) [OF rest False buf s2 1(3) 1(4)] .
    then show ?thesis unfolding step using len 1(4) [OF s1] by simp
  qed
qed

lemma split_invariant:
  assumes "executeCallbackBySplit delims str f st = Inr st'" "P st"
    and "\<And>t st st'. f t st = Inr st' \<Longrightarrow> P st \<Longrightarrow> P st'"
  shows "P st'"
  using assms
proof (induction delims str f st rule: executeCallbackBySplit.induct)
  case (1 delims str f st)
  define rest where rest: "rest = dropWhile (isDelimiter delims) str"
  define buf where buf: "buf = takeWhile (\<lambda>c. \<not> isDelimiter delims c \<and> c \<noteq> NUL) rest"
  show ?case
  proof (cases "rest = [] \<or> hd rest = NUL")
    case True
    then have "executeCallbackBySplit delims str f st = Inr st"
      unfolding rest by (rule split_stop)
    then show ?thesis using 1(2,3) by simp
  next
    case False
    then have step: "executeCallbackBySplit delims str f st =
      abort_unless (length buf < cLineBufferSize) ''line buffer overflow''
      (bindR (f buf st) (executeCallbackBySplit delims (drop (length buf) rest) f))"
      by (intro split_step rest buf) simp_all
    obtain st1 where s1: "f buf st = Inr st1"
      and s2: "executeCallbackBySplit delims (drop (length buf) rest) f st1 = Inr st'"
      using 1(2) unfolding step by auto
    show ?thesis using 1(1) [OF rest False buf s2 1(4) [OF s1 1(3)] 1(4)] .
  qed
qed

section \<open>Counting agrees with assembling\<close>

lemma throwErr_True [simp]: "throwErr True msg k = Inr x \<longleftrightarrow> False"
  by (simp add: throwErr_def)

lemma throwErr_False [simp]: "throwErr False msg k = k"
  by (simp add: throwErr_def)

lemma throwErr_if_True: "throwErr_if c True msg k = Inr x \<longleftrightarrow> \<not> c \<and> k = Inr x"
  by (simp add: throwErr_if_def)

lemma throwErr_if_False [simp]: "throwErr_if c False msg k = k"
  by (simp add: throwErr_if_def)

lemma finalize_count: "finalize True ls = Inr i \<Longrightarrow> finalize False ls = Inr i"
  by (cases "mn_a (ls_m ls)")
    (auto simp add: finalize_def Let_def checkImmRange_def throwErr_if_True split: if_splits)

lemma process_token_count: "process_token True t ls = Inr ls' \<Longrightarrow> process_token False t ls = Inr ls'"
  by (auto simp: process_token_def process_mnemonic_def process_operand_def Let_def throwErr_if_True
      split: if_splits option.splits)

lemma finish_line_count:
  assumes "finish_line True b instrs ls = Inr (is, a)"
  shows "length instrs \<le> length is"
    and "length is \<le> b' \<Longrightarrow> finish_line T b' instrs ls = Inr (is, a)"
proof -
  show "length instrs \<le> length is"
    using assms by (auto simp: finish_line_def Let_def throwErr_if_True split: if_splits)
  assume "length is \<le> b'"
  with assms show "finish_line T b' instrs ls = Inr (is, a)"
    by (cases T) (auto simp: finish_line_def Let_def throwErr_if_True dest: finalize_count split: if_splits)
qed

lemma process_line_count:
  assumes "process_line True b line ps = Inr ps'" "length (fst ps') \<le> b'"
  shows "length (fst ps) \<le> b'" "process_line T b' line ps = Inr ps'"
proof -
  obtain ls where ls: "executeCallbackBySplit cOperandDelims line (process_token True) (line_init (snd ps)) = Inr ls"
    and fin: "finish_line True b (fst ps) ls = Inr ps'"
    using assms(1) by (auto simp: process_line_def)
  obtain ins a where ps': "ps' = (ins, a)" by (cases ps')
  show "length (fst ps) \<le> b'"
    using finish_line_count(1) [OF fin [unfolded ps']] assms(2) ps' by simp
  have "executeCallbackBySplit cOperandDelims line (process_token T) (line_init (snd ps)) = Inr ls"
    using split_sim [OF ls, of "\<lambda>_. True" "process_token T"] ls process_token_count by (cases T) auto
  then show "process_line T b' line ps = Inr ps'"
    using finish_line_count(2) [OF fin [unfolded ps'], of b' T] assms(2) ps' by (simp add: process_line_def)
qed

lemma processInstrs_count:
  assumes "processInstrs True b src = Inr is" "length is \<le> b'"
  shows "processInstrs T b' src = Inr is"
proof -
  obtain ps where ps: "executeCallbackBySplit cLineDelims src (process_line True b) ([], 0) = Inr ps"
    and is_ps: "is = fst ps"
    using assms(1) by (auto simp: processInstrs_def)
  have "executeCallbackBySplit cLineDelims src (process_line T b') ([], 0) = Inr ps"
    using split_sim [OF ps, of "\<lambda>ps. length (fst ps) \<le> b'" "process_line T b'"]
      process_line_count [of b] assms(2) is_ps by blast
  then show ?thesis by (simp add: processInstrs_def is_ps)
qed

lemma process_line_length:
  "process_line T b line ps = Inr ps' \<Longrightarrow> length (fst ps) \<le> b \<Longrightarrow> length (fst ps') \<le> b"
  by (auto simp: process_line_def finish_line_def Let_def throwErr_if_def throwErr_def split: if_splits)

lemma processInstrs_length: "processInstrs T b src = Inr is \<Longrightarrow> length is \<le> b"
  unfolding processInstrs_def
  by (auto dest: split_invariant [where P = "\<lambda>ps. length (fst ps) \<le> b"] intro: process_line_length)


section \<open>Operands read back\<close>

definition digit_char :: "nat \<Rightarrow> char" where
  "digit_char d = char_of (if d < 10 then 48 + d else 87 + d)"

function digits :: "nat \<Rightarrow> nat \<Rightarrow> string" where
  "digits base n = (if base < 2 \<or> n < base then [digit_char n]
     else digits base (n div base) @ [digit_char (n mod base)])"
  by pat_completeness auto
termination by (relation "measure snd") (auto intro: div_less_dividend)

declare digits.simps [simp del]

lemma decimal_digit: "d < 10 \<Longrightarrow> isDigit (digit_char d) \<and> digit_value (digit_char d) = d"
proof -
  have "list_all (\<lambda>d. isDigit (digit_char d) \<and> digit_value (digit_char d) = d) [0..<10]" by code_simp
  then show "d < 10 \<Longrightarrow> ?thesis" by (simp add: list_all_iff)
qed

lemma hex_digit: "d < 16 \<Longrightarrow> hexDigit (digit_char d) = Some d"
proof -
  have "list_all (\<lambda>d. hexDigit (digit_char d) = Some d) [0..<16]" by code_simp
  then show "d < 16 \<Longrightarrow> ?thesis" by (simp add: list_all_iff)
qed

lemma digits_induct [case_names single more]:
  assumes "\<And>n. n < base \<Longrightarrow> P n" "\<And>n. base \<le> n \<Longrightarrow> P (n div base) \<Longrightarrow> P n" "2 \<le> base"
  shows "P (n :: nat)"
proof (induction n rule: less_induct)
  case (less n)
  show ?case
  proof (cases "n < base")
    case False
    then have "n div base < n" using assms(3) by (intro div_less_dividend) simp_all
    then show ?thesis using less False assms(2) by simp
  qed (rule assms(1))
qed

lemma digits_set:
  assumes base: "2 \<le> base"
  shows "c \<in> set (digits base n) \<Longrightarrow> \<exists>d<base. c = digit_char d"
proof (induction n rule: digits_induct [of base])
  case (more n)
  have "n mod base < base" using base by simp
  moreover have "c \<in> set (digits base (n div base)) \<or> c = digit_char (n mod base)"
    using more base by (subst (asm) (2) digits.simps) auto
  ultimately show ?case using more by blast
qed (use base in \<open>auto simp: digits.simps\<close>)

lemma digits_length: "2 \<le> base \<Longrightarrow> n < base ^ Suc k \<Longrightarrow> length (digits base n) \<le> Suc k"
proof (induction k arbitrary: n)
  case 0
  then show ?case by (subst digits.simps) simp
next
  case (Suc k)
  then have "n div base < base ^ Suc k" by (simp add: less_mult_imp_div_less mult.commute)
  with Suc show ?case by (subst digits.simps) auto
qed

lemma digits_not_Nil: "digits base n \<noteq> []"
  by (subst digits.simps) simp

lemma parseDec_append:
  "parseDec_loop (xs @ ys) r = Option.bind (parseDec_loop xs r) (parseDec_loop ys)"
  by (induction xs r rule: parseDec_loop.induct) simp_all

lemma parseDec_digits: "parseDec_loop (digits 10 n) 0 = Some (of_nat n)"
proof (induction n rule: digits_induct [of 10])
  case (single n)
  then show ?case using decimal_digit [of n] by (subst digits.simps) simp
next
  case (more n)
  have "(of_nat (n div 10) * 10 + of_nat (n mod 10) :: u64) = of_nat n"
    by (metis div_mod_decomp mult.commute of_nat_add of_nat_mult of_nat_numeral)
  with more show ?case using decimal_digit [of "n mod 10"]
    by (subst digits.simps) (simp add: parseDec_append)
qed simp

lemma parseHex_append:
  "parseHex_loop (xs @ ys) i r = Option.bind (parseHex_loop xs i r) (parseHex_loop ys (i + length xs))"
  by (induction xs i r rule: parseHex_loop.induct) (simp_all split: option.split)

lemma push_or_add:
  "d < 16 \<Longrightarrow> n < 2 ^ 60 \<Longrightarrow> push_bit 4 (of_nat n :: u64) OR of_nat d = of_nat (n * 16 + d)"
proof -
  assume d: "d < 16"
  have "bit (of_nat d :: u64) k \<Longrightarrow> k < 4" for k
  proof -
    assume "bit (of_nat d :: u64) k"
    then have "bit d k" by (simp add: bit_simps)
    moreover have "take_bit 4 d = d" using d by (simp add: take_bit_nat_eq_self)
    ultimately show "k < 4" by (metis bit_take_bit_iff)
  qed
  then have "push_bit 4 (of_nat n :: u64) OR of_nat d = push_bit 4 (of_nat n :: u64) + of_nat d"
    by (intro disjunctive_add [symmetric]) (auto simp: bit_simps not_le)
  then show ?thesis by (simp add: push_bit_eq_mult)
qed

lemma parseHex_digits:
  "n < 2 ^ 64 \<Longrightarrow> parseHex_loop (digits 16 n) 2 0 = Some (of_nat n)"
proof (induction n rule: digits_induct [of 16])
  case (single n)
  then show ?case using hex_digit [of n] by (subst digits.simps) simp
next
  case (more n)
  then have b: "n div 16 < 2 ^ 60" by (simp add: less_mult_imp_div_less)
  then have l: "length (digits 16 (n div 16)) \<le> 15" using digits_length [of 16 "n div 16" 14] by simp
  have "n div 16 < 2 ^ 64" using b by simp
  with more l show ?case using hex_digit [of "n mod 16"] push_or_add [of "n mod 16" "n div 16"] b
    by (subst digits.simps) (simp add: parseHex_append)
qed simp

lemma hd_digits: "2 \<le> base \<Longrightarrow> \<exists>d<base. digits base n ! 0 = digit_char d"
  using digits_set [of base "digits base n ! 0" n] digits_not_Nil [of base n] by simp

lemma decimal_chars: "d < 10 \<Longrightarrow> digit_char d \<notin> {CHR ''-'', CHR ''b'', CHR ''B'', CHR ''x'', CHR ''X''}"
proof -
  have "list_all (\<lambda>d. digit_char d \<notin> {CHR ''-'', CHR ''b'', CHR ''B'', CHR ''x'', CHR ''X''}) [0..<10]"
    by code_simp
  then show "d < 10 \<Longrightarrow> ?thesis" by (simp add: list_all_iff)
qed

lemma parse_decimal: "parseImmediateOperand (digits 10 n) = Some (of_nat n)"
proof -
  have a: "\<not> length (digits 10 n) < 1" using digits_not_Nil [of 10 n] by (cases "digits 10 n") auto
  have "digits 10 n ! i \<notin> {CHR ''-'', CHR ''b'', CHR ''B'', CHR ''x'', CHR ''X''}"
    if i: "i < length (digits 10 n)" for i
  proof -
    obtain d where "d < 10" "digits 10 n ! i = digit_char d"
      using digits_set [of 10 "digits 10 n ! i" n, OF _ nth_mem] i by auto
    then show ?thesis using decimal_chars by simp
  qed
  from this [of 0] this [of 1] a show ?thesis
    by (auto simp: parseImmediateOperand_def parseDec_digits)
qed

lemma parse_negative: "parseImmediateOperand (CHR ''-'' # digits 10 n) = Some (- of_nat n)"
  using digits_not_Nil [of 10 n] by (simp add: parseImmediateOperand_def parseDec_digits)

lemma parse_hex: "parseImmediateOperand (''0x'' @ digits 16 (unat v)) = Some v"
proof -
  have "0 < length (digits 16 (unat v))" using digits_not_Nil [of 16 "unat v"] by simp
  moreover have "unat v < 2 ^ 64" using unsigned_less [of v, where ?'a = nat] by simp
  ultimately show ?thesis
    using parseHex_digits [of "unat v"] by (simp add: parseImmediateOperand_def)
qed

text \<open>
  an immediate operand reads back as the number that was written: in decimal (modulo
  \<open>2 ^ 64\<close>), in decimal after a minus sign as its two's complement, and in hexadecimal for
  every 64-bit value.
\<close>

theorem immediate_reads_back:
  "parseImmediateOperand (digits 10 n) = Some (of_nat n) \<and>
   parseImmediateOperand (CHR ''-'' # digits 10 n) = Some (- of_nat n) \<and>
   parseImmediateOperand (''0x'' @ digits 16 (unat v)) = Some v"
  using parse_decimal parse_negative parse_hex by blast

text \<open>The names of general registers.\<close>

lemma register_reads_back:
  "list_all (\<lambda>n. parseRegisterOperand (CHR ''x'' # digits 10 n) = reg_X n \<and>
     parseRegisterOperand (CHR ''W'' # digits 10 n) = reg_W n) [0, 9, 10, 30]"
  by code_simp

section \<open>Fixed expressions\<close>

definition I_none :: IInstr where
  "I_none = IInstr_default\<lparr>i_rd := IImm_none, i_rn := IImm_none, i_rm := IImm_none\<rparr>"

lemma expr_adr: "assemble_expr ''adr (), {}'' =
   Inr [I_none\<lparr>itype := Adr, i_rd := IImm_regarg 0, i_imm := IImm_arg 1\<rparr>]"
  by code_simp

lemma expr_adrp: "assemble_expr ''adrp (), {}'' =
   Inr [I_none\<lparr>itype := Adrp, i_rd := IImm_regarg 0, i_imm := IImm_arg 1\<rparr>]"
  by code_simp

lemma expr_add: "assemble_expr ''add (), (), {}'' =
   Inr [I_none\<lparr>itype := AddImm, i_rd := IImm_regarg 0, i_rn := IImm_regarg 1, i_imm := IImm_arg 2\<rparr>]"
  by code_simp

lemma expr_ldr: "assemble_expr ''ldr (), {}'' =
   Inr [I_none\<lparr>itype := LdrLiteral, i_rd := IImm_regarg 0, i_imm := IImm_arg 1\<rparr>]"
  by code_simp

lemma expr_movk: "assemble_expr ''movk (), {}, lsl #{}'' =
   Inr [I_none\<lparr>itype := Movk, i_rd := IImm_regarg 0, i_imm := IImm_arg 1, i_shiftImm := IImm_arg 2\<rparr>]"
  by code_simp

lemma expr_br_ip: "assemble_expr ''br ip'' = Inr [I_none\<lparr>itype := Br, i_rn := IImm_reg reg_IP0\<rparr>]"
  by code_simp

lemma expr_blr_ip: "assemble_expr ''blr ip'' = Inr [I_none\<lparr>itype := Blr, i_rn := IImm_reg reg_IP0\<rparr>]"
  by code_simp

text \<open>
  \<^verbatim>\<open>ret\<close> without its optional register does not return through the link register.  The
  missing operand resolves to number 0, not to \<^verbatim>\<open>IRegType_Max\<close>, so the default in the encoder
  never applies and the word is \<^verbatim>\<open>ret x0\<close>.
\<close>

theorem plain_ret_goes_to_x0:
  "bindR (assemble_expr ''ret'') (\<lambda>ins. assemble (hd ins) addr args) = Inr 0xD65F0000 \<and>
   a64_decode 0xD65F0000 = Some (I_RET 0)"
proof -
  have "assemble_expr ''ret'' = Inr [I_none\<lparr>itype := Ret\<rparr>]" by code_simp
  moreover have "resolve IImm_none args = 0" by (simp add: resolve_def IImm_none_def)
  moreover have "asm_Ret 0 = Inr 0xD65F0000" by code_simp
  moreover have "a64_decode 0xD65F0000 = Some (I_RET 0)" by code_simp
  moreover have "0 < (ucast IRegType_Max :: u64)" "sp_to_31 0 = 0" by code_simp+
  ultimately show ?thesis
    by (simp add: assemble_def I_none_def IInstr_default_def)
qed

text \<open>
  the shift of an \<^verbatim>\<open>and\<close> is accepted and then dropped: with and without \<^verbatim>\<open>lsl #n\<close> the text
  assembles to the same instruction.
\<close>

theorem and_shift_is_dropped:
  "assemble_expr ''and x0, x1, x2, lsl #3'' = assemble_expr ''and x0, x1, x2'' \<and>
   assemble_expr ''orr x0, x1, x2, lsl #3'' \<noteq> assemble_expr ''orr x0, x1, x2'' \<and>
   (\<exists>ins. assemble_expr ''and x0, x1, x2'' = Inr ins)"
proof -
  have a: "assemble_expr ''and x0, x1, x2'' =
      Inr [I_none\<lparr>itype := AndReg, i_rd := IImm_reg 0, i_rn := IImm_reg 1, i_rm := IImm_reg 2\<rparr>]"
    and b: "assemble_expr ''and x0, x1, x2, lsl #3'' =
      Inr [I_none\<lparr>itype := AndReg, i_rd := IImm_reg 0, i_rn := IImm_reg 1, i_rm := IImm_reg 2\<rparr>]"
    and c: "assemble_expr ''orr x0, x1, x2, lsl #3'' \<noteq> assemble_expr ''orr x0, x1, x2''"
    by code_simp+
  show ?thesis using c by (simp add: a b)
qed

end
