(* ===== verification/Algo.thy ===== *)
theory Algo
  imports HkPrelude "HOL-Library.Multiset"
begin

text \<open>
  The buffer algorithms of \<^verbatim>\<open>hk/util/Algorithm.h\<close>.  A buffer is the list of the objects in
  it, an element access is an index, and the loops run in the source's order, so overlap of
  source and destination is visible.
\<close>

section \<open>Minimum, maximum\<close>

fun util_min :: "'a::linorder \<Rightarrow> 'a list \<Rightarrow> 'a" where
  "util_min x [] = x"
| "util_min x (y # ys) = (let minOfRest = util_min y ys in if x < minOfRest then x else minOfRest)"

fun util_max :: "'a::linorder \<Rightarrow> 'a list \<Rightarrow> 'a" where
  "util_max x [] = x"
| "util_max x (y # ys) = (let maxOfRest = util_max y ys in if x > maxOfRest then x else maxOfRest)"

section \<open>Searching and sorting\<close>

text \<open>
  The bounds are signed 32-bit integers; the sum \<open>low + high\<close> overflows (undefined
  behaviour) exactly when it exceeds \<open>2 ^ 31 - 1\<close>, which is the outcome \<open>Inl\<close> here.  The result
  \<open>- 1\<close> stands for \<^verbatim>\<open>size(-1)\<close>.
\<close>

definition s32_max :: int where "s32_max = 2 ^ 31 - 1"

function binarySearch_loop :: "(int \<Rightarrow> 'a::linorder) \<Rightarrow> int \<Rightarrow> int \<Rightarrow> 'a \<Rightarrow> bool \<Rightarrow> int run" where
  "binarySearch_loop get low high searchValue findBetween =
     (if low \<le> high then
        abort_unless (low + high \<le> s32_max) ''signed overflow''
          (let mid = (low + high) div 2 in
           if get mid = searchValue then Inr mid
           else if get mid < searchValue
           then binarySearch_loop get (mid + 1) high searchValue findBetween
           else binarySearch_loop get low (mid - 1) searchValue findBetween)
      else Inr (if findBetween then low else - 1))"
  by pat_completeness auto
termination
  by (relation "measure (\<lambda>(get, low, high, sv, fb). nat (high - low + 1))") auto

declare binarySearch_loop.simps [simp del]

definition binarySearch :: "(int \<Rightarrow> 'a::linorder) \<Rightarrow> int \<Rightarrow> int \<Rightarrow> 'a \<Rightarrow> bool \<Rightarrow> int run" where
  "binarySearch get low high searchValue findBetween =
     binarySearch_loop get low high searchValue findBetween"

text \<open>\<open>hole\<close> is \<open>lhsIdx + 1\<close>.\<close>

fun insertionSort_shift :: "('a \<Rightarrow> 'a \<Rightarrow> bool) \<Rightarrow> 'a \<Rightarrow> nat \<Rightarrow> 'a list \<Rightarrow> 'a list" where
  "insertionSort_shift cmp rhs 0 xs = xs[0 := rhs]"
| "insertionSort_shift cmp rhs (Suc lhsIdx) xs =
     (if \<not> cmp (xs ! lhsIdx) rhs
      then insertionSort_shift cmp rhs lhsIdx (xs[lhsIdx + 1 := xs ! lhsIdx])
      else xs[lhsIdx + 1 := rhs])"

definition insertionSort :: "('a \<Rightarrow> 'a \<Rightarrow> bool) \<Rightarrow> 'a list \<Rightarrow> 'a list" where
  "insertionSort cmp xs =
     foldl (\<lambda>xs rhsIdx. insertionSort_shift cmp (xs ! rhsIdx) rhsIdx xs) xs [1..<length xs]"

section \<open>Copying, moving and filling\<close>

definition copy_ascending :: "nat \<Rightarrow> nat \<Rightarrow> nat \<Rightarrow> 'a list \<Rightarrow> 'a list" where
  "copy_ascending dest src amount xs =
     foldl (\<lambda>xs i. xs[dest + i := xs ! (src + i)]) xs [0..<amount]"

definition copy_descending :: "nat \<Rightarrow> nat \<Rightarrow> nat \<Rightarrow> 'a list \<Rightarrow> 'a list" where
  "copy_descending dest src amount xs =
     foldl (\<lambda>xs i. xs[dest + i := xs ! (src + i)]) xs (rev [0..<amount])"

definition copyOverlapping :: "nat \<Rightarrow> nat \<Rightarrow> nat \<Rightarrow> 'a list \<Rightarrow> 'a list" where
  "copyOverlapping dest src amount xs =
     (if dest < src then copy_ascending dest src amount xs else copy_descending dest src amount xs)"

definition constructMoveOverlapping :: "nat \<Rightarrow> nat \<Rightarrow> nat \<Rightarrow> 'a list \<Rightarrow> 'a list" where
  "constructMoveOverlapping dest src amount xs =
     (if dest < src then copy_ascending dest src amount xs else copy_descending dest src amount xs)"

text \<open>Between different buffers: the first \<open>amount\<close> objects of \<open>src\<close> go to \<open>dest\<close>.\<close>

definition util_copy :: "nat \<Rightarrow> 'a list \<Rightarrow> nat \<Rightarrow> 'a list \<Rightarrow> 'a list" where
  "util_copy dest src amount xs = foldl (\<lambda>xs i. xs[dest + i := src ! i]) xs [0..<amount]"

definition reverseMove :: "nat \<Rightarrow> 'a list \<Rightarrow> 'a list" where
  "reverseMove amount xs =
     foldl (\<lambda>xs i. let temp = xs ! i; xs = xs[i := xs ! (amount - i - 1)] in xs[amount - i - 1 := temp])
       xs [0..<amount div 2]"

definition fill :: "nat \<Rightarrow> nat \<Rightarrow> 'a \<Rightarrow> 'a list \<Rightarrow> 'a list" where
  "fill dest amount x xs = foldl (\<lambda>xs i. xs[dest + i := x]) xs [0..<amount]"

definition transform :: "('a \<Rightarrow> 'a) \<Rightarrow> nat \<Rightarrow> 'a list \<Rightarrow> 'a list" where
  "transform func amount xs = foldl (\<lambda>xs i. xs[i := func (xs ! i)]) xs [0..<amount]"

text \<open>\<open>zero\<close> is the terminator; \<open>src\<close> is the string before its terminator.\<close>

fun copyFromNullTerminated_loop :: "'a \<Rightarrow> 'a list \<Rightarrow> nat \<Rightarrow> nat \<Rightarrow> 'a list \<Rightarrow> nat \<times> 'a list" where
  "copyFromNullTerminated_loop zero (c # src) limit i dest =
     (if i < limit \<and> c \<noteq> zero
      then copyFromNullTerminated_loop zero src limit (i + 1) (dest[i := c]) else (i, dest))"
| "copyFromNullTerminated_loop zero [] limit i dest = (i, dest)"

definition copyFromNullTerminated :: "'a \<Rightarrow> 'a list \<Rightarrow> nat \<Rightarrow> 'a list \<Rightarrow> 'a list" where
  "copyFromNullTerminated zero src limit dest =
     (let (i, dest) = copyFromNullTerminated_loop zero src limit 0 dest
      in if int i = int limit - 1 then dest[i := zero] else dest)"

fun isEqual :: "nat \<Rightarrow> 'a list \<Rightarrow> 'a list \<Rightarrow> bool" where
  "isEqual 0 a b = True"
| "isEqual (Suc amount) a b = (if hd a \<noteq> hd b then False else isEqual amount (tl a) (tl b))"

section \<open>What the algorithms compute\<close>

lemma if_min: "(if x < m then x else m) = min x (m :: 'a::linorder)"
  by (auto simp: min_def)

lemma if_max: "(if x > m then x else m) = max x (m :: 'a::linorder)"
  by (auto simp: max_def)

lemma util_min_Min: "util_min x ys = Min (set (x # ys))"
proof (induction x ys rule: util_min.induct)
  case (2 x y ys)
  have "Min (set (x # y # ys)) = min x (Min (set (y # ys)))" by simp
  with 2 show ?case by (simp only: util_min.simps Let_def if_min)
qed simp

lemma util_max_Max: "util_max x ys = Max (set (x # ys))"
proof (induction x ys rule: util_max.induct)
  case (2 x y ys)
  have "Max (set (x # y # ys)) = max x (Max (set (y # ys)))" by simp
  with 2 show ?case by (simp only: util_max.simps Let_def if_max)
qed simp

lemma isEqual_take:
  "amount \<le> length a \<Longrightarrow> amount \<le> length b \<Longrightarrow> isEqual amount a b \<longleftrightarrow> take amount a = take amount b"
proof (induction amount arbitrary: a b)
  case (Suc n)
  then show ?case by (cases a; cases b) auto
qed simp

lemma length_copy_ascending [simp]: "length (copy_ascending d s n xs) = length xs"
  by (induction n) (simp_all add: copy_ascending_def)

lemma copy_ascending_Suc:
  "copy_ascending d s (Suc n) xs = (copy_ascending d s n xs)[d + n := copy_ascending d s n xs ! (s + n)]"
  by (simp add: copy_ascending_def)

lemma copy_descending_Suc:
  "copy_descending d s (Suc n) xs = copy_descending d s n (xs[d + n := xs ! (s + n)])"
  by (simp add: copy_descending_def)

lemma length_copy_descending [simp]: "length (copy_descending d s n xs) = length xs"
  by (induction n arbitrary: xs) (simp_all add: copy_descending_Suc, simp add: copy_descending_def)

lemma nth_copy_ascending:
  assumes "d + n \<le> length xs" "d \<le> s" "s + n \<le> length xs" "k < length xs"
  shows "copy_ascending d s n xs ! k = (if d \<le> k \<and> k < d + n then xs ! (s + (k - d)) else xs ! k)"
  using assms
proof (induction n arbitrary: k)
  case 0
  then show ?case by (auto simp add: copy_ascending_def)
next
  case (Suc n)
  then show ?case by (auto simp: copy_ascending_Suc nth_list_update)
qed

lemma nth_copy_descending:
  assumes "d + n \<le> length xs" "s \<le> d" "k < length xs"
  shows "copy_descending d s n xs ! k = (if d \<le> k \<and> k < d + n then xs ! (s + (k - d)) else xs ! k)"
  using assms
proof (induction n arbitrary: xs)
  case 0
  then show ?case by (auto simp add: copy_descending_def)
next
  case (Suc n)
  then show ?case by (auto simp: copy_descending_Suc nth_list_update)
qed

text \<open>The overlapping move is a simultaneous move.\<close>

lemma move_overlapping_eq:
  assumes "dest + amount \<le> length xs" "src + amount \<le> length xs"
  shows "constructMoveOverlapping dest src amount xs =
    take dest xs @ take amount (drop src xs) @ drop (dest + amount) xs"
proof (rule nth_equalityI)
  have l: "length (take amount (drop src xs)) = amount" "length (take dest xs) = dest"
    using assms by simp_all
  show "length (constructMoveOverlapping dest src amount xs) =
      length (take dest xs @ take amount (drop src xs) @ drop (dest + amount) xs)"
    using assms by (simp add: constructMoveOverlapping_def)
  fix k assume "k < length (constructMoveOverlapping dest src amount xs)"
  then have "k < length xs" by (simp add: constructMoveOverlapping_def split: if_splits)
  then show "constructMoveOverlapping dest src amount xs ! k =
      (take dest xs @ take amount (drop src xs) @ drop (dest + amount) xs) ! k"
    using assms unfolding nth_append l
    by (auto simp: constructMoveOverlapping_def nth_copy_ascending nth_copy_descending)
qed

lemma copyOverlapping_eq: "copyOverlapping = constructMoveOverlapping"
  by (intro ext) (simp add: copyOverlapping_def constructMoveOverlapping_def)

lemma length_util_copy [simp]: "length (util_copy d src n xs) = length xs"
  by (induction n) (simp_all add: util_copy_def)

lemma util_copy_Suc: "util_copy d src (Suc n) xs = (util_copy d src n xs)[d + n := src ! n]"
  by (simp add: util_copy_def)

lemma nth_util_copy:
  "d + n \<le> length xs \<Longrightarrow> k < length xs \<Longrightarrow>
    util_copy d src n xs ! k = (if d \<le> k \<and> k < d + n then src ! (k - d) else xs ! k)"
  by (induction n) (auto simp: util_copy_Suc nth_list_update, auto simp: util_copy_def)

lemma util_copy_eq:
  "d + n \<le> length xs \<Longrightarrow> n \<le> length src \<Longrightarrow>
    util_copy d src n xs = take d xs @ take n src @ drop (d + n) xs"
  by (auto intro!: nth_equalityI simp: nth_util_copy nth_append min_def)

lemma length_fill [simp]: "length (fill d n x xs) = length xs"
  by (induction n) (simp_all add: fill_def)

lemma fill_Suc: "fill d (Suc n) x xs = (fill d n x xs)[d + n := x]"
  by (simp add: fill_def)

lemma nth_fill:
  "d + n \<le> length xs \<Longrightarrow> k < length xs \<Longrightarrow>
    fill d n x xs ! k = (if d \<le> k \<and> k < d + n then x else xs ! k)"
  by (induction n) (auto simp: fill_Suc nth_list_update, auto simp: fill_def)

lemma fill_eq:
  "d + n \<le> length xs \<Longrightarrow> fill d n x xs = take d xs @ replicate n x @ drop (d + n) xs"
  by (auto intro!: nth_equalityI simp: nth_fill nth_append min_def)

lemma transform_eq: "n \<le> length xs \<Longrightarrow> transform f n xs = List.map f (take n xs) @ drop n xs"
proof (induction n)
  case (Suc n)
  then show ?case
    by (auto intro!: nth_equalityI simp: transform_def nth_append nth_list_update less_Suc_eq)
qed (simp add: transform_def)

lemma length_reverseMove_step:
  "length (foldl (\<lambda>xs i. let temp = xs ! i; xs = xs[i := xs ! (n - i - 1)] in xs[n - i - 1 := temp]) xs is) =
    length xs"
  by (induction "is" arbitrary: xs) (simp_all add: Let_def)

lemma nth_reverseMove_step:
  assumes "n \<le> length xs" "m \<le> n div 2" "k < length xs"
  shows "foldl (\<lambda>xs i. let temp = xs ! i; xs = xs[i := xs ! (n - i - 1)] in xs[n - i - 1 := temp]) xs [0..<m] ! k =
    (if k < m \<or> n - m \<le> k \<and> k < n then xs ! (n - k - 1) else xs ! k)"
  using assms
proof (induction m arbitrary: k)
  case (Suc m)
  let ?ys = "foldl (\<lambda>xs i. let temp = xs ! i; xs = xs[i := xs ! (n - i - 1)] in xs[n - i - 1 := temp]) xs [0..<m]"
  have l: "length ?ys = length xs" by (rule length_reverseMove_step)
  have m: "m < n - m - 1" using Suc.prems by linarith
  have a: "?ys ! m = xs ! m" "?ys ! (n - m - 1) = xs ! (n - m - 1)"
    using Suc m by (auto simp: Suc.IH)
  show ?case
    using Suc.prems m a Suc.IH [of k] l
    by (auto simp: Let_def nth_list_update)
qed auto

lemma reverseMove_eq:
  assumes "n \<le> length xs"
  shows "reverseMove n xs = rev (take n xs) @ drop n xs"
proof (rule nth_equalityI)
  show "length (reverseMove n xs) = length (rev (take n xs) @ drop n xs)"
    using assms unfolding reverseMove_def length_reverseMove_step by simp
  fix k assume "k < length (reverseMove n xs)"
  then have k: "k < length xs" unfolding reverseMove_def length_reverseMove_step .
  have "n - Suc k = k" if "\<not> (k < n div 2 \<or> n - n div 2 \<le> k \<and> k < n)" "k < n"
    using that by linarith
  then have "(if k < n div 2 \<or> n - n div 2 \<le> k \<and> k < n then xs ! (n - k - 1) else xs ! k) =
      (rev (take n xs) @ drop n xs) ! k"
    using assms by (auto simp: nth_append rev_nth)
  then show "reverseMove n xs ! k = (rev (take n xs) @ drop n xs) ! k"
    using nth_reverseMove_step [OF assms _ k, of "n div 2"] unfolding reverseMove_def by simp
qed

section \<open>Sorting\<close>

lemma insertionSort_shift_eq:
  assumes "k < length xs"
  shows "insertionSort_shift cmp r k xs =
    (let low = dropWhile (\<lambda>x. \<not> cmp x r) (rev (take k xs));
         high = takeWhile (\<lambda>x. \<not> cmp x r) (rev (take k xs))
     in rev low @ r # rev high @ drop (Suc k) xs)"
  using assms
proof (induction cmp r k xs rule: insertionSort_shift.induct)
  case (1 cmp rhs xs)
  then show ?case by (cases xs) simp_all
next
  case (2 cmp rhs l xs)
  have t: "rev (take (Suc l) xs) = xs ! l # rev (take l xs)"
    using 2(2) by (simp add: take_Suc_conv_app_nth)
  have d: "drop (Suc l) (xs[Suc l := xs ! l]) = xs ! l # drop (Suc (Suc l)) xs"
    using 2(2) by (simp add: Cons_nth_drop_Suc [symmetric])
  show ?case
  proof (cases "cmp (xs ! l) rhs")
    case True
    have "xs[Suc l := rhs] = take (Suc l) xs @ rhs # drop (Suc (Suc l)) xs"
      using 2(2) by (rule upd_conv_take_nth_drop)
    also have "take (Suc l) xs = rev (xs ! l # rev (take l xs))" by (simp add: t [symmetric])
    finally show ?thesis using True by (simp add: t)
  next
    case False
    then show ?thesis using 2 by (simp add: t d Let_def)
  qed
qed

text \<open>
  The insertion step keeps the elements, and it keeps the prefix sorted; equal elements
  change places, because the shift stops only at a strictly smaller element.
\<close>

lemma mset_insertionSort_shift:
  assumes "k < length xs"
  shows "mset (insertionSort_shift cmp r k xs) + {#xs ! k#} = mset xs + {#r#}"
proof -
  let ?P = "\<lambda>x. \<not> cmp x r"
  have "mset (takeWhile ?P (rev (take k xs))) + mset (dropWhile ?P (rev (take k xs))) = mset (take k xs)"
    by (metis mset_append takeWhile_dropWhile_id mset_rev)
  moreover have "mset xs = mset (take k xs) + {#xs ! k#} + mset (drop (Suc k) xs)"
    using assms by (subst id_take_nth_drop [OF assms]) simp
  ultimately show ?thesis
    by (simp add: insertionSort_shift_eq [OF assms] Let_def) (metis add.commute)
qed

lemma length_insertionSort_shift [simp]: "length (insertionSort_shift cmp r k xs) = length xs"
  by (induction cmp r k xs rule: insertionSort_shift.induct) simp_all

lemma dropWhile_rev_sorted:
  fixes r :: "'a::linorder"
  assumes "sorted ys"
  shows "x \<in> set (dropWhile (\<lambda>x. \<not> x < r) (rev ys)) \<Longrightarrow> x < r"
  using assms
proof (induction ys rule: rev_induct)
  case (snoc y ys)
  then show ?case by (auto simp: sorted_append split: if_splits)
qed simp

lemma take_split_insert:
  "length a + length b = k \<Longrightarrow> take (Suc k) (rev a @ r # rev b @ rest) = rev a @ r # rev b"
  by (auto simp: Suc_diff_le)

lemma insertionSort_shift_sorted:
  fixes xs :: "'a::linorder list"
  assumes k: "k < length xs" and s: "sorted (take k xs)"
  shows "sorted (take (Suc k) (insertionSort_shift (<) r k xs))"
proof -
  let ?P = "\<lambda>x. \<not> x < r"
  define low where "low = dropWhile ?P (rev (take k xs))"
  define high where "high = takeWhile ?P (rev (take k xs))"
  have split: "rev low @ rev high = take k xs"
    by (simp add: low_def high_def flip: rev_append)
  have "take (Suc k) (insertionSort_shift (<) r k xs) = rev low @ r # rev high"
  proof -
    have "length low + length high = k"
      using arg_cong [OF split, of length] k by simp
    then have t: "take (Suc k) (rev low @ r # rev high @ drop (Suc k) xs) = rev low @ r # rev high"
      by (rule take_split_insert)
    have eq: "insertionSort_shift (<) r k xs = rev low @ r # rev high @ drop (Suc k) xs"
      unfolding insertionSort_shift_eq [OF k] Let_def low_def high_def ..
    show ?thesis unfolding eq t ..
  qed
  moreover have "\<forall>x\<in>set low. x < r" using dropWhile_rev_sorted [OF s, of _ r] unfolding low_def by blast
  moreover have "\<forall>x\<in>set high. r \<le> x" by (auto simp: high_def dest: set_takeWhileD)
  moreover have "sorted (rev low @ rev high)" using s by (simp add: split)
  ultimately show ?thesis by (auto simp: sorted_append)
qed

lemma insertionSort_prefix:
  fixes xs :: "'a::linorder list"
  assumes "1 \<le> m" "m \<le> length xs"
  shows "let ys = foldl (\<lambda>xs i. insertionSort_shift (<) (xs ! i) i xs) xs [1..<m] in
    length ys = length xs \<and> mset ys = mset xs \<and> sorted (take m ys)"
  using assms
proof (induction m)
  case (Suc m)
  show ?case
  proof (cases "m = 0")
    case True
    then show ?thesis using Suc.prems by (cases xs) simp_all
  next
    case False
    define ys where "ys = foldl (\<lambda>xs i. insertionSort_shift (<) (xs ! i) i xs) xs [Suc 0..<m]"
    have "length ys = length xs \<and> mset ys = mset xs \<and> sorted (take m ys)"
      using Suc False by (simp add: ys_def Let_def)
    moreover have "m < length ys" using Suc.prems calculation by simp
    ultimately show ?thesis
      using False mset_insertionSort_shift [of m ys "(<)" "ys ! m"]
        insertionSort_shift_sorted [of m ys "ys ! m"]
      by (simp add: ys_def [symmetric] Let_def)
  qed
qed simp

lemma insertionSort_less: "insertionSort (<) xs = sort (xs :: 'a::linorder list)"
proof (cases "xs = []")
  case False
  then have "1 \<le> length xs" by (cases xs) simp_all
  then have "length (insertionSort (<) xs) = length xs \<and> mset (insertionSort (<) xs) = mset xs \<and>
      sorted (take (length xs) (insertionSort (<) xs))"
    using insertionSort_prefix [of "length xs" xs] unfolding insertionSort_def Let_def by blast
  then show ?thesis by (metis properties_for_sort take_all order_refl)
qed (simp add: insertionSort_def)

lemma insertionSort_mset: "mset (insertionSort cmp xs) = mset xs"
proof -
  have "mset (foldl (\<lambda>xs i. insertionSort_shift cmp (xs ! i) i xs) ys is) = mset ys"
    if "\<forall>i\<in>set is. i < length ys" for "is" ys
    using that
  proof (induction "is" arbitrary: ys)
    case (Cons i "is")
    then show ?case using mset_insertionSort_shift [of i ys cmp "ys ! i"] by simp
  qed simp
  then show ?thesis by (simp add: insertionSort_def)
qed

section \<open>Binary search\<close>

text \<open>
  On a sorted sequence the loop returns an index of the key, or, when the key does not occur,
  \<open>- 1\<close> or the position where it belongs; it never returns without one of them.
\<close>

definition sorted_on :: "int \<Rightarrow> (int \<Rightarrow> 'a::linorder) \<Rightarrow> bool" where
  "sorted_on n get \<longleftrightarrow> (\<forall>i j. 0 \<le> i \<longrightarrow> i \<le> j \<longrightarrow> j < n \<longrightarrow> get i \<le> get j)"

lemma binarySearch_loop_sorted:
  assumes "sorted_on n get" "n \<le> 2 ^ 30" "0 \<le> low" "high < n" "low \<le> high + 1"
    "\<forall>i. 0 \<le> i \<longrightarrow> i < low \<longrightarrow> get i < key" "\<forall>i. high < i \<longrightarrow> i < n \<longrightarrow> key < get i"
  shows "\<exists>r. binarySearch_loop get low high key fb = Inr r \<and>
    (if \<exists>i. 0 \<le> i \<and> i < n \<and> get i = key then 0 \<le> r \<and> r < n \<and> get r = key
     else if fb then 0 \<le> r \<and> r \<le> n \<and> (\<forall>i. 0 \<le> i \<longrightarrow> i < r \<longrightarrow> get i < key) \<and>
       (\<forall>i. r \<le> i \<longrightarrow> i < n \<longrightarrow> key < get i)
     else r = - 1)"
  using assms
proof (induction get low high key fb rule: binarySearch_loop.induct)
  case (1 get low high key fb)
  show ?case
  proof (cases "low \<le> high")
    case False
    then have "high = low - 1" using 1 by simp
    then have "\<not> (\<exists>i. 0 \<le> i \<and> i < n \<and> get i = key)"
      using 1(8,9) by (metis linorder_not_less less_irrefl zle_diff1_eq)
    then show ?thesis using False 1 \<open>high = low - 1\<close>
      by (subst binarySearch_loop.simps) auto
  next
    case True
    define mid where "mid = (low + high) div 2"
    have mid: "low \<le> mid" "mid \<le> high" using True by (simp_all add: mid_def)
    have sum: "low + high \<le> s32_max" using 1 by (simp add: s32_max_def)
    have mono: "0 \<le> i \<Longrightarrow> i \<le> j \<Longrightarrow> j < n \<Longrightarrow> get i \<le> get j" for i j
      using 1(3) by (simp add: sorted_on_def)
    consider "get mid = key" | "get mid < key" | "key < get mid" by force
    then show ?thesis
    proof cases
      assume eq: "get mid = key"
      then have "binarySearch_loop get low high key fb = Inr mid"
        using True sum by (subst binarySearch_loop.simps) (simp add: Let_def mid_def)
      moreover have "\<exists>i. 0 \<le> i \<and> i < n \<and> get i = key" "0 \<le> mid" "mid < n"
        using eq mid 1 by (auto intro!: exI [of _ mid])
      ultimately show ?thesis using eq by simp
    next
      assume lt: "get mid < key"
      have step: "binarySearch_loop get low high key fb = binarySearch_loop get (mid + 1) high key fb"
        using True sum lt less_imp_neq [OF lt] by (subst binarySearch_loop.simps) (simp add: Let_def mid_def)
      have "\<forall>i. 0 \<le> i \<longrightarrow> i < mid + 1 \<longrightarrow> get i < key"
        using mono [of _ mid] lt mid 1(6) by (meson le_less_trans zle_add1_eq_le)
      then show ?thesis unfolding step
        by (intro 1(1) [OF True mid_def less_imp_neq [OF lt] lt]) (use 1(3-9) mid in simp_all)
    next
      assume gt: "key < get mid"
      have step: "binarySearch_loop get low high key fb = binarySearch_loop get low (mid - 1) key fb"
        using True sum gt less_imp_neq [OF gt, symmetric] less_not_sym [OF gt] by (subst binarySearch_loop.simps) (simp add: Let_def mid_def)
      have "\<forall>i. mid - 1 < i \<longrightarrow> i < n \<longrightarrow> key < get i"
        using mono [of mid] gt mid 1(5) by (meson less_le_trans order_trans zle_diff1_eq linorder_not_less)
      then show ?thesis unfolding step
        by (intro 1(2) [OF True mid_def less_imp_neq [OF gt, symmetric] less_not_sym [OF gt]])
          (use 1(3-9) mid in simp_all)
    qed
  qed
qed

section \<open>Properties\<close>

text \<open>
  the two overlapping copies behave as if every element moved at the same time: whatever the
  overlap, the destination range holds what the source range held before, and nothing else
  changes.
\<close>

theorem overlapping_move_is_simultaneous:
  assumes "dest + amount \<le> length xs" "src + amount \<le> length xs"
  shows "constructMoveOverlapping dest src amount xs =
      take dest xs @ take amount (drop src xs) @ drop (dest + amount) xs \<and>
    copyOverlapping dest src amount xs =
      take dest xs @ take amount (drop src xs) @ drop (dest + amount) xs"
  unfolding copyOverlapping_eq using move_overlapping_eq [OF assms] by simp

lemma overlapping_move_is_simultaneous_witness:
  "copyOverlapping 1 0 3 [10, 20, 30, 40 :: int] = [10, 10, 20, 30] \<and>
    constructMoveOverlapping 0 1 3 [10, 20, 30, 40 :: int] = [20, 30, 40, 40]"
  using overlapping_move_is_simultaneous [of 1 3 "[10, 20, 30, 40 :: int]" 0]
    overlapping_move_is_simultaneous [of 0 3 "[10, 20, 30, 40 :: int]" 1]
  by simp

text \<open>
  with the default comparison the insertion sort returns the sorted permutation of its
  input, for every input.
\<close>

theorem insertionSort_sorts: "insertionSort (<) xs = sort (xs :: 'a::linorder list)"
  by (rule insertionSort_less)

text \<open>
  C35: the binary search on a sorted array of up to \<open>2 ^ 30\<close> elements always returns, without
  overflowing its index sum: an index of the searched value if it is there; otherwise \<open>- 1\<close>, or,
  when asked for it, the index in front of which the value belongs.
\<close>

theorem binarySearch_correct:
  fixes xs :: "'a::linorder list"
  assumes "sorted xs" "length xs \<le> 2 ^ 30"
  shows "\<exists>r. binarySearch (\<lambda>i. xs ! nat i) 0 (int (length xs) - 1) key findBetween = Inr r \<and>
    (if key \<in> set xs then 0 \<le> r \<and> r < int (length xs) \<and> xs ! nat r = key
     else if findBetween
     then 0 \<le> r \<and> r \<le> int (length xs) \<and> filter (\<lambda>x. x < key) xs = take (nat r) xs
     else r = - 1)"
proof -
  let ?get = "\<lambda>i. xs ! nat i" and ?n = "int (length xs)"
  have s: "sorted_on ?n ?get"
    using assms(1) by (auto simp: sorted_on_def intro!: sorted_nth_mono)
  have n: "?n \<le> 2 ^ 30" using assms(2) by (simp add: le_nat_iff)
  obtain r where r: "binarySearch ?get 0 (?n - 1) key findBetween = Inr r"
    and v: "if \<exists>i. 0 \<le> i \<and> i < ?n \<and> ?get i = key then 0 \<le> r \<and> r < ?n \<and> ?get r = key
     else if findBetween then 0 \<le> r \<and> r \<le> ?n \<and> (\<forall>i. 0 \<le> i \<longrightarrow> i < r \<longrightarrow> ?get i < key) \<and>
       (\<forall>i. r \<le> i \<longrightarrow> i < ?n \<longrightarrow> key < ?get i)
     else r = - 1"
    using binarySearch_loop_sorted [OF s n, of 0 "?n - 1" key findBetween] by (auto simp: binarySearch_def)
  have m: "(\<exists>i. 0 \<le> i \<and> i < ?n \<and> ?get i = key) \<longleftrightarrow> key \<in> set xs"
    by (metis in_set_conv_nth nat_int nat_less_iff of_nat_0_le_iff of_nat_less_iff)
  have "filter (\<lambda>x. x < key) xs = take (nat r) xs"
    if lo: "\<forall>i. 0 \<le> i \<longrightarrow> i < r \<longrightarrow> ?get i < key" and hi: "\<forall>i. r \<le> i \<longrightarrow> i < ?n \<longrightarrow> key < ?get i"
      and le: "0 \<le> r" "r \<le> ?n"
  proof -
    have "x < key" if "x \<in> set (take (nat r) xs)" for x
      using that lo le by (auto simp: in_set_conv_nth) (metis nat_int nat_less_iff of_nat_0_le_iff zless_nat_eq_int_zless)
    moreover have "key < x" if "x \<in> set (drop (nat r) xs)" for x
    proof -
      from that obtain j where j: "j < length xs - nat r" "x = xs ! (nat r + j)"
        by (auto simp: in_set_conv_nth)
      have "key < xs ! nat (int (nat r + j))" by (rule hi [rule_format]) (use j le in linarith)+
      then show ?thesis by (simp only: j nat_int)
    qed
    ultimately have "filter (\<lambda>x. x < key) (take (nat r) xs @ drop (nat r) xs) = take (nat r) xs"
      unfolding filter_append by (force simp: filter_empty_conv filter_id_conv dest: less_asym)
    then show ?thesis by simp
  qed
  then show ?thesis using r v m by (intro exI [of _ r]) (auto split: if_splits)
qed

lemma binarySearch_correct_witness:
  "\<exists>r. binarySearch (\<lambda>i. [2, 3, 5, 7 :: int] ! nat i) 0 3 5 False = Inr r \<and> 0 \<le> r \<and> r < 4 \<and>
    [2, 3, 5, 7] ! nat r = (5 :: int)"
  using binarySearch_correct [of "[2, 3, 5, 7 :: int]" 5 False] by simp

lemma copyFromNullTerminated_loop_all:
  assumes "zero \<notin> set src" "i + length src \<le> limit" "i + length src \<le> length dest"
  shows "copyFromNullTerminated_loop zero src limit i dest = (i + length src, util_copy i src (length src) dest)"
  using assms
proof (induction src arbitrary: i dest)
  case (Cons c src)
  have "util_copy (Suc i) src (length src) (dest[i := c]) = util_copy i (c # src) (length (c # src)) dest"
  proof (rule nth_equalityI)
    fix k assume k: "k < length (util_copy (Suc i) src (length src) (dest[i := c]))"
    then show "util_copy (Suc i) src (length src) (dest[i := c]) ! k =
        util_copy i (c # src) (length (c # src)) dest ! k"
      using Cons.prems(3) by (auto simp: nth_util_copy nth_list_update nth_Cons' Suc_diff_le not_less_eq_eq)
  qed simp
  with Cons show ?case by auto
qed (simp add: util_copy_def)

text \<open>
  \<^verbatim>\<open>copyFromNullTerminated\<close> writes a terminator only when the string is exactly one shorter
  than the limit.  A string at least two shorter is copied without one: the element behind it
  keeps what the destination held.
\<close>

theorem short_copy_not_terminated:
  assumes "zero \<notin> set src" "length src + 2 \<le> limit" "limit \<le> length dest"
  shows "copyFromNullTerminated zero src limit dest = src @ drop (length src) dest"
  using assms copyFromNullTerminated_loop_all [of zero src 0 limit dest]
  by (simp add: copyFromNullTerminated_def util_copy_eq)

lemma short_copy_not_terminated_witness:
  "copyFromNullTerminated (0 :: int) [104, 105] 8 (replicate 8 7) = [104, 105, 7, 7, 7, 7, 7, 7]"
  using short_copy_not_terminated [of "0 :: int" "[104, 105]" 8 "replicate 8 7"] by (simp add: numeral_eq_Suc)

end
