(* ===== verification/SpanVec.thy ===== *)
theory SpanVec
  imports Algo
begin

text \<open>
  Spans and vectors: \<^verbatim>\<open>hk/prim/SpanOperations.h\<close>, \<^verbatim>\<open>hk/prim/VecOperations.h\<close> and their
  storages \<^verbatim>\<open>Span\<close>, \<^verbatim>\<open>Array\<close>, \<^verbatim>\<open>FixedVec\<close>, \<^verbatim>\<open>VecSpan\<close>, \<^verbatim>\<open>Vec\<close>.  Every operation works on
  the buffer the way the source does; the abstraction \<open>elems\<close> is the list of the live elements,
  and the lemmas say which list operation each of them is.
\<close>

section \<open>Storage\<close>

text \<open>
  The buffer holds \<open>v_cap\<close> objects of which \<open>v_size\<close> are live.  \<open>v_raw\<close> is what memory without an
  object reads as.
\<close>

record 'a vec =
  v_data :: "'a list"
  v_size :: nat
  v_cap :: nat
  v_raw :: 'a

definition elems :: "'a vec \<Rightarrow> 'a list" where
  "elems v = take (v_size v) (v_data v)"

definition vec_ok :: "'a vec \<Rightarrow> bool" where
  "vec_ok v \<longleftrightarrow> v_size v \<le> length (v_data v) \<and> v_cap v \<le> length (v_data v)"

text \<open>\<^verbatim>\<open>size\<close> arithmetic wraps.\<close>

definition size_sub :: "nat \<Rightarrow> nat \<Rightarrow> nat" where
  "size_sub a b = nat ((int a - int b) mod 2 ^ 64)"

definition size_npos :: nat where "size_npos = 2 ^ 64 - 1"

section \<open>SpanOperations\<close>

definition sp_empty :: "'a vec \<Rightarrow> bool" where
  "sp_empty v \<longleftrightarrow> v_size v = 0"

text \<open>A slice is a view: its offset into the same buffer and its length.\<close>

definition sp_slice :: "nat \<Rightarrow> nat \<Rightarrow> 'a vec \<Rightarrow> (nat \<times> nat) run" where
  "sp_slice offset amount v =
     (let amount = (if amount = 0 then size_sub (v_size v) offset else amount) in
      abort_unless (amount \<le> size_sub (v_size v) offset) ''slice: out of range'' (Inr (offset, amount)))"

definition sp_at :: "nat \<Rightarrow> 'a vec \<Rightarrow> 'a run" where
  "sp_at index v = abort_unless (index < v_size v) ''at: out of range'' (Inr (v_data v ! index))"

definition sp_first :: "'a vec \<Rightarrow> 'a run" where
  "sp_first v = abort_unless (\<not> sp_empty v) ''first(): empty'' (Inr (v_data v ! 0))"

definition sp_last :: "'a vec \<Rightarrow> 'a run" where
  "sp_last v = abort_unless (\<not> sp_empty v) ''last(): empty'' (Inr (v_data v ! (v_size v - 1)))"

definition sp_forEach :: "('a \<Rightarrow> 's \<Rightarrow> 's) \<Rightarrow> 'a vec \<Rightarrow> 's \<Rightarrow> 's" where
  "sp_forEach func v st = foldl (\<lambda>st i. func (v_data v ! i) st) st [0..<v_size v]"

definition sp_sum :: "'a::monoid_add vec \<Rightarrow> 'a" where
  "sp_sum v = sp_forEach (\<lambda>x s. s + x) v 0"

definition sp_copy_out :: "'a list \<Rightarrow> nat \<Rightarrow> 'a vec \<Rightarrow> 'a list" where
  "sp_copy_out out limit v = util_copy 0 (v_data v) (util_min limit [v_size v]) out"

definition sp_includes :: "'a \<Rightarrow> 'a vec \<Rightarrow> bool" where
  "sp_includes x v = list_ex (\<lambda>cmp. x = cmp) (take (v_size v) (v_data v))"

definition sp_findIndex :: "'a \<Rightarrow> 'a vec \<Rightarrow> nat" where
  "sp_findIndex x v = (case List.find (\<lambda>i. v_data v ! i = x) [0..<v_size v] of Some i \<Rightarrow> i | None \<Rightarrow> size_npos)"

definition sp_set :: "nat \<Rightarrow> 'a \<Rightarrow> 'a vec \<Rightarrow> 'a vec run" where
  "sp_set index x v =
     abort_unless (index < v_size v) ''set: out of range'' (Inr (v\<lparr>v_data := (v_data v)[index := x]\<rparr>))"

definition sp_reverse :: "'a vec \<Rightarrow> 'a vec" where
  "sp_reverse v = v\<lparr>v_data := reverseMove (v_size v) (v_data v)\<rparr>"

definition sp_fill :: "nat \<Rightarrow> nat \<Rightarrow> 'a \<Rightarrow> 'a vec \<Rightarrow> 'a vec run" where
  "sp_fill dstIdx amount x v =
     (if amount = 0 then Inr v
      else abort_unless (dstIdx < v_size v) ''fill: destination out of bounds''
        (abort_unless (dstIdx + (amount - 1) < v_size v) ''fill: destination out of bounds''
          (Inr (v\<lparr>v_data := fill dstIdx amount x (v_data v)\<rparr>))))"

definition move_checked ::
  "(nat \<Rightarrow> nat \<Rightarrow> nat \<Rightarrow> 'a list \<Rightarrow> 'a list) \<Rightarrow> nat \<Rightarrow> nat \<Rightarrow> nat \<Rightarrow> 'a vec \<Rightarrow> 'a vec run" where
  "move_checked op dstIdx srcIdx amount v =
     (if dstIdx = srcIdx \<or> amount = 0 then Inr v
      else abort_unless (dstIdx < v_size v) ''destination out of bounds''
        (abort_unless (srcIdx < v_size v) ''source out of bounds''
        (abort_unless (dstIdx + (amount - 1) < v_size v) ''destination out of bounds''
        (abort_unless (srcIdx + (amount - 1) < v_size v) ''source out of bounds''
          (Inr (v\<lparr>v_data := op dstIdx srcIdx amount (v_data v)\<rparr>))))))"

definition sp_copy :: "nat \<Rightarrow> nat \<Rightarrow> nat \<Rightarrow> 'a vec \<Rightarrow> 'a vec run" where
  "sp_copy = move_checked copyOverlapping"

definition sp_move :: "nat \<Rightarrow> nat \<Rightarrow> nat \<Rightarrow> 'a vec \<Rightarrow> 'a vec run" where
  "sp_move = move_checked constructMoveOverlapping"

definition sp_transform :: "('a \<Rightarrow> 'a) \<Rightarrow> 'a vec \<Rightarrow> 'a vec" where
  "sp_transform func v = v\<lparr>v_data := transform func (v_size v) (v_data v)\<rparr>"

text \<open>\<^verbatim>\<open>setCopy\<close> of a span copies as many elements as both have.\<close>

definition sp_setCopy :: "'a list \<Rightarrow> 'a vec \<Rightarrow> 'a vec" where
  "sp_setCopy src v =
     v\<lparr>v_data := util_copy 0 src (util_min (v_size v) [length src]) (v_data v)\<rparr>"

definition sp_binarySearch :: "('a \<Rightarrow> 'k::linorder) \<Rightarrow> 'k \<Rightarrow> bool \<Rightarrow> 'a vec \<Rightarrow> int run" where
  "sp_binarySearch getValue searchValue findBetween v =
     binarySearch (\<lambda>index. getValue (v_data v ! nat index)) 0 (int (v_size v) - 1) searchValue findBetween"

section \<open>VecOperations\<close>

definition vec_add :: "'a \<Rightarrow> 'a vec \<Rightarrow> 'a vec run" where
  "vec_add x v =
     abort_unless (v_size v < v_cap v) ''add: Full''
       (let v = v\<lparr>v_size := v_size v + 1\<rparr> in Inr (v\<lparr>v_data := (v_data v)[v_size v - 1 := x]\<rparr>))"

definition vec_insert :: "'a \<Rightarrow> nat \<Rightarrow> 'a vec \<Rightarrow> 'a vec run" where
  "vec_insert x index v =
     abort_unless (v_size v < v_cap v) ''add: Full''
       (abort_unless (index \<le> v_size v) ''insert: out of range''
         (let v = v\<lparr>v_size := v_size v + 1\<rparr> in
          bindR (sp_move (index + 1) index (v_size v - 1 - index) v)
            (\<lambda>v. Inr (v\<lparr>v_data := (v_data v)[index := x]\<rparr>))))"

definition vec_pushFront :: "'a \<Rightarrow> 'a vec \<Rightarrow> 'a vec run" where
  "vec_pushFront x v = vec_insert x 0 v"

definition vec_append :: "'a list \<Rightarrow> 'a vec \<Rightarrow> 'a vec run" where
  "vec_append xs v =
     abort_unless (v_size v + length xs \<le> v_cap v) ''append: Full''
       (Inr (v\<lparr>v_data := util_copy (v_size v) xs (length xs) (v_data v), v_size := v_size v + length xs\<rparr>))"

definition vec_remove :: "nat \<Rightarrow> 'a vec \<Rightarrow> ('a \<times> 'a vec) run" where
  "vec_remove index v =
     abort_unless (index < v_size v) ''remove: out of range''
       (let removedValue = v_data v ! index;
            v = v\<lparr>v_data := (v_data v)[index := v_raw v]\<rparr>
        in bindR (if index < v_size v - 1 then sp_move index (index + 1) (v_size v - index - 1) v else Inr v)
          (\<lambda>v. Inr (removedValue, v\<lparr>v_size := v_size v - 1\<rparr>)))"

definition vec_removeByValue :: "'a \<Rightarrow> 'a vec \<Rightarrow> ('a \<times> 'a vec) run" where
  "vec_removeByValue x v =
     (let index = sp_findIndex x v in
      abort_unless (index \<noteq> size_npos) ''remove(const T&): value not found'' (vec_remove index v))"

definition vec_tryRemoveByValue :: "'a \<Rightarrow> 'a vec \<Rightarrow> (bool \<times> 'a vec) run" where
  "vec_tryRemoveByValue x v =
     (let index = sp_findIndex x v in
      if index = size_npos then Inr (False, v)
      else bindR (vec_remove index v) (\<lambda>(_, v). Inr (True, v)))"

definition vec_popBack :: "'a vec \<Rightarrow> ('a \<times> 'a vec) run" where
  "vec_popBack v = abort_unless (v_size v > 0) ''popBack(): empty'' (vec_remove (v_size v - 1) v)"

definition vec_popFront :: "'a vec \<Rightarrow> ('a \<times> 'a vec) run" where
  "vec_popFront v = abort_unless (v_size v > 0) ''popFront(): empty'' (vec_remove 0 v)"

definition vec_extend :: "nat \<Rightarrow> 'a \<Rightarrow> 'a vec \<Rightarrow> 'a vec run" where
  "vec_extend newSize x v =
     abort_unless (newSize \<ge> v_size v \<and> newSize \<le> v_cap v) ''extend: out of range''
       (Inr (v\<lparr>v_data := fill (v_size v) (newSize - v_size v) x (v_data v), v_size := newSize\<rparr>))"

definition vec_truncate :: "nat \<Rightarrow> 'a vec \<Rightarrow> 'a vec run" where
  "vec_truncate newSize v =
     abort_unless (newSize \<le> v_size v) ''truncate: newSize larger than size''
       (Inr (v\<lparr>v_data := fill newSize (v_size v - newSize) (v_raw v) (v_data v), v_size := newSize\<rparr>))"

definition vec_resize :: "nat \<Rightarrow> 'a \<Rightarrow> 'a vec \<Rightarrow> 'a vec run" where
  "vec_resize newSize x v =
     (if v_size v = newSize then Inr v
      else if v_size v > newSize then vec_truncate newSize v
      else vec_extend newSize x v)"

definition vec_clear :: "'a vec \<Rightarrow> 'a vec" where
  "vec_clear v = v\<lparr>v_data := fill 0 (v_size v) (v_raw v) (v_data v), v_size := 0\<rparr>"

text \<open>A vector in a buffer of its own constructed from elements takes what fits.\<close>

definition vec_of :: "'a list \<Rightarrow> 'a vec \<Rightarrow> 'a vec" where
  "vec_of xs v =
     (let v = v\<lparr>v_size := util_min (length xs) [v_cap v]\<rparr>
      in v\<lparr>v_data := util_copy 0 xs (v_size v) (v_data v)\<rparr>)"

section \<open>VecOperationsOnHeap\<close>

text \<open>A failed allocation aborts, so an allocation gives a buffer of raw memory.\<close>

definition hv_allocate :: "nat \<Rightarrow> nat \<Rightarrow> 'a \<Rightarrow> 'a list" where
  "hv_allocate sz capacity raw = replicate (util_max sz [capacity]) raw"

definition hv_new :: "'a \<Rightarrow> nat \<Rightarrow> 'a \<Rightarrow> nat \<Rightarrow> 'a vec" where
  "hv_new raw reserveSize x numElements =
     \<lparr>v_data = fill 0 numElements x (hv_allocate numElements reserveSize raw), v_size = numElements,
      v_cap = util_max numElements [reserveSize], v_raw = raw\<rparr>"

text \<open>The constructor from elements never sets the capacity, which stays 0.\<close>

definition hv_of :: "'a \<Rightarrow> 'a list \<Rightarrow> 'a vec" where
  "hv_of raw xs =
     \<lparr>v_data = util_copy 0 xs (length xs) (hv_allocate (length xs) (length xs) raw),
      v_size = length xs, v_cap = 0, v_raw = raw\<rparr>"

definition hv_reserve :: "nat \<Rightarrow> 'a vec \<Rightarrow> 'a vec" where
  "hv_reserve capacity v =
     (if v_cap v \<ge> capacity then v
      else v\<lparr>v_data := util_copy 0 (v_data v) (v_size v) (hv_allocate (v_size v) capacity (v_raw v)),
             v_cap := capacity\<rparr>)"

definition hv_setCopy :: "'a list \<Rightarrow> nat \<Rightarrow> 'a vec \<Rightarrow> 'a vec" where
  "hv_setCopy xs capacity v =
     v\<lparr>v_data := util_copy 0 xs (length xs) (hv_allocate (length xs) capacity (v_raw v)),
       v_size := length xs, v_cap := capacity\<rparr>"

definition hv_extend :: "nat \<Rightarrow> 'a \<Rightarrow> 'a vec \<Rightarrow> 'a vec run" where
  "hv_extend newSize x v = vec_extend newSize x (hv_reserve newSize v)"

definition hv_resize :: "nat \<Rightarrow> 'a \<Rightarrow> 'a vec \<Rightarrow> 'a vec run" where
  "hv_resize newSize x v = vec_resize newSize x (hv_reserve newSize v)"

definition hv_add :: "'a \<Rightarrow> 'a vec \<Rightarrow> 'a vec run" where
  "hv_add x v = vec_add x (hv_reserve (v_size v + 1) v)"

definition hv_insert :: "'a \<Rightarrow> nat \<Rightarrow> 'a vec \<Rightarrow> 'a vec run" where
  "hv_insert x index v = vec_insert x index (hv_reserve (v_size v + 1) v)"

definition hv_append :: "'a list \<Rightarrow> 'a vec \<Rightarrow> 'a vec run" where
  "hv_append xs v = vec_append xs (hv_reserve (v_size v + length xs) v)"

text \<open>
  The heap vector's own \<^verbatim>\<open>set(index, value)\<close> calls itself with the same arguments; the
  least function of that equation is the one that never returns.
\<close>

partial_function (option) hv_set :: "nat \<Rightarrow> 'a \<Rightarrow> 'a vec \<Rightarrow> 'a vec option" where
  "hv_set index x v = hv_set index x v"

section \<open>What the operations compute\<close>

named_theorems vec_spec \<open>each operation as a list operation on the live elements\<close>

lemma length_elems [simp]: "vec_ok v \<Longrightarrow> length (elems v) = v_size v"
  by (simp add: elems_def vec_ok_def)

lemma nth_elems [simp]: "i < v_size v \<Longrightarrow> elems v ! i = v_data v ! i"
  by (simp add: elems_def)

lemma vec_okD: "vec_ok v \<Longrightarrow> v_size v \<le> length (v_data v)"
    "vec_ok v \<Longrightarrow> v_cap v \<le> length (v_data v)"
  by (simp_all add: vec_ok_def)

lemma util_min_2 [simp]: "util_min x [y] = min x y" by (auto simp: min_def)
lemma util_max_2 [simp]: "util_max x [y] = max x y" by (auto simp: max_def)

lemma sp_at_spec [vec_spec]:
  "vec_ok v \<Longrightarrow> sp_at i v = (if i < length (elems v) then Inr (elems v ! i) else Inl (Abort ''at: out of range''))"
  by (simp add: sp_at_def abort_unless_def)

lemma sp_first_last_spec [vec_spec]:
  assumes "vec_ok v" "elems v \<noteq> []"
  shows "sp_first v = Inr (hd (elems v))" "sp_last v = Inr (last (elems v))"
proof -
  have "0 < v_size v" using assms(2) by (cases "v_size v") (auto simp: elems_def)
  then show "sp_first v = Inr (hd (elems v))" "sp_last v = Inr (last (elems v))"
    using assms by (simp_all add: sp_first_def sp_last_def sp_empty_def hd_conv_nth last_conv_nth)
qed

lemma foldl_upt_nth: "foldl (\<lambda>st i. f (xs ! i) st) st [0..<n] = fold f (take n xs) st"
  if "n \<le> length xs" for n
  using that
proof (induction n)
  case (Suc n)
  then show ?case by (simp add: take_Suc_conv_app_nth)
qed simp

lemma sp_forEach_spec [vec_spec]: "vec_ok v \<Longrightarrow> sp_forEach f v st = fold f (elems v) st"
  by (simp add: sp_forEach_def foldl_upt_nth elems_def vec_okD)

lemma sp_includes_spec [vec_spec]: "vec_ok v \<Longrightarrow> sp_includes x v \<longleftrightarrow> x \<in> set (elems v)"
  by (simp add: sp_includes_def elems_def list_ex_iff)

lemma sp_findIndex_absent [vec_spec]:
  "vec_ok v \<Longrightarrow> x \<notin> set (elems v) \<Longrightarrow> sp_findIndex x v = size_npos"
proof -
  assume v: "vec_ok v" and x: "x \<notin> set (elems v)"
  then have "List.find (\<lambda>i. v_data v ! i = x) [0..<v_size v] = None"
    by (fastforce simp: find_None_iff in_set_conv_nth)
  then show ?thesis by (simp add: sp_findIndex_def)
qed

lemma sp_findIndex_present [vec_spec]:
  assumes "vec_ok v" "x \<in> set (elems v)"
  shows "sp_findIndex x v < v_size v" "elems v ! sp_findIndex x v = x"
    "j < sp_findIndex x v \<Longrightarrow> elems v ! j \<noteq> x"
proof -
  obtain i where "i < v_size v" "v_data v ! i = x"
    using assms by (auto simp: in_set_conv_nth)
  then obtain r where r: "List.find (\<lambda>i. v_data v ! i = x) [0..<v_size v] = Some r"
    by (cases "List.find (\<lambda>i. v_data v ! i = x) [0..<v_size v]") (auto simp: find_None_iff)
  then have "r < v_size v \<and> v_data v ! r = x \<and> (\<forall>j<r. v_data v ! j \<noteq> x)"
    by (auto simp: find_Some_iff)
  moreover have "sp_findIndex x v = r" using r by (simp add: sp_findIndex_def)
  ultimately show "sp_findIndex x v < v_size v" "elems v ! sp_findIndex x v = x"
    "j < sp_findIndex x v \<Longrightarrow> elems v ! j \<noteq> x"
    by simp_all
qed

lemma sp_set_spec [vec_spec]:
  assumes "vec_ok v" "i < v_size v"
  shows "\<exists>v'. sp_set i x v = Inr v' \<and> vec_ok v' \<and> elems v' = (elems v)[i := x]"
  using assms by (simp add: sp_set_def elems_def vec_ok_def take_update_swap)

lemma sp_reverse_spec [vec_spec]: "vec_ok v \<Longrightarrow> vec_ok (sp_reverse v) \<and> elems (sp_reverse v) = rev (elems v)"
  by (simp add: sp_reverse_def elems_def vec_ok_def reverseMove_eq)

lemma sp_transform_spec [vec_spec]:
  "vec_ok v \<Longrightarrow> vec_ok (sp_transform f v) \<and> elems (sp_transform f v) = List.map f (elems v)"
  by (simp add: sp_transform_def elems_def vec_ok_def transform_eq take_map)

lemma sp_fill_spec [vec_spec]:
  assumes "vec_ok v" "d + n \<le> v_size v"
  shows "\<exists>v'. sp_fill d n x v = Inr v' \<and> vec_ok v' \<and>
    elems v' = take d (elems v) @ replicate n x @ drop (d + n) (elems v)"
proof (cases "n = 0")
  case True
  then show ?thesis using assms by (simp add: sp_fill_def)
next
  case False
  let ?v = "v\<lparr>v_data := fill d n x (v_data v)\<rparr>"
  have "sp_fill d n x v = Inr ?v" using False assms by (simp add: sp_fill_def)
  moreover have "vec_ok ?v" using assms by (simp add: vec_ok_def)
  moreover have "elems ?v = take d (elems v) @ replicate n x @ drop (d + n) (elems v)"
  proof -
    have "d + n \<le> length (v_data v)" using assms vec_okD(1) [OF assms(1)] by simp
    then show ?thesis using assms(2) by (simp add: elems_def fill_eq drop_take)
  qed
  ultimately show ?thesis by blast
qed

lemma sp_move_eq:
  assumes "vec_ok v" "d + n \<le> v_size v" "s + n \<le> v_size v"
  shows "sp_move d s n v = Inr (v\<lparr>v_data := take d (v_data v) @ take n (drop s (v_data v)) @ drop (d + n) (v_data v)\<rparr>)"
proof (cases "d = s \<or> n = 0")
  case True
  then have "take d (v_data v) @ take n (drop s (v_data v)) @ drop (d + n) (v_data v) = v_data v"
    by (auto simp: add.commute [of d] simp flip: drop_drop)
  then show ?thesis using True by (simp add: sp_move_def move_checked_def)
next
  case False
  then have "d + n - Suc 0 < v_size v" "s + n - Suc 0 < v_size v" using assms by arith+
  with False show ?thesis
    using assms vec_okD(1) [OF assms(1)]
    by (simp add: sp_move_def move_checked_def move_overlapping_eq)
qed

lemma vec_add_spec [vec_spec]:
  "vec_ok v \<Longrightarrow> v_size v < v_cap v \<Longrightarrow>
    \<exists>v'. vec_add x v = Inr v' \<and> vec_ok v' \<and> elems v' = elems v @ [x] \<and> v_cap v' = v_cap v"
  by (auto simp: vec_add_def vec_ok_def elems_def Let_def take_Suc_conv_app_nth)

lemma vec_add_full: "\<not> v_size v < v_cap v \<Longrightarrow> vec_add x v = Inl (Abort ''add: Full'')"
  by (simp add: vec_add_def)

lemma vec_insert_spec [vec_spec]:
  assumes "vec_ok v" "v_size v < v_cap v" "i \<le> v_size v"
  shows "\<exists>v'. vec_insert x i v = Inr v' \<and> vec_ok v' \<and>
    elems v' = take i (elems v) @ x # drop i (elems v) \<and> v_cap v' = v_cap v"
proof -
  let ?d = "v_data v" and ?n = "v_size v"
  have l: "?n < length ?d" using assms by (simp add: vec_ok_def)
  let ?d' = "take (i + 1) ?d @ take (?n - i) (drop i ?d) @ drop (?n + 1) ?d"
  have "vec_ok (v\<lparr>v_size := ?n + 1\<rparr>)" using assms by (simp add: vec_ok_def)
  then have "sp_move (i + 1) i (?n - i) (v\<lparr>v_size := ?n + 1\<rparr>) = Inr (v\<lparr>v_size := ?n + 1, v_data := ?d'\<rparr>)"
    using assms by (subst sp_move_eq) simp_all
  then have "vec_insert x i v = Inr (v\<lparr>v_size := ?n + 1, v_data := ?d'[i := x]\<rparr>)"
    using assms by (simp add: vec_insert_def Let_def)
  moreover have "take (?n + 1) (?d'[i := x]) = take i (take ?n ?d) @ x # drop i (take ?n ?d)"
    using assms l by (simp add: list_update_append take_Suc_conv_app_nth upd_conv_take_nth_drop drop_take min_def Suc_diff_le)
      arith
  ultimately show ?thesis using assms l by (auto simp: elems_def vec_ok_def)
qed

lemma vec_remove_spec [vec_spec]:
  assumes "vec_ok v" "i < v_size v"
  shows "\<exists>v'. vec_remove i v = Inr (elems v ! i, v') \<and> vec_ok v' \<and>
    elems v' = take i (elems v) @ drop (i + 1) (elems v) \<and> v_cap v' = v_cap v"
proof -
  let ?d = "(v_data v)[i := v_raw v]" and ?n = "v_size v"
  have l: "?n \<le> length ?d" using assms by (simp add: vec_ok_def)
  have ok: "vec_ok (v\<lparr>v_data := ?d\<rparr>)" using assms by (simp add: vec_ok_def)
  let ?d' = "take i ?d @ take (?n - i - 1) (drop (i + 1) ?d) @ drop (?n - 1) ?d"
  have "(if i < ?n - 1 then sp_move i (i + 1) (?n - i - 1) (v\<lparr>v_data := ?d\<rparr>) else Inr (v\<lparr>v_data := ?d\<rparr>)) =
      Inr (v\<lparr>v_data := ?d'\<rparr>)"
  proof (cases "i < ?n - 1")
    case True
    then show ?thesis using sp_move_eq [OF ok, of i "?n - i - 1" "i + 1"] assms by simp
  next
    case False
    then have z: "?n - i - 1 = 0" "?n - 1 = i" using assms by simp_all
    then show ?thesis by (simp only: z take_0 append_Nil append_take_drop_id if_False less_irrefl)
  qed
  moreover have "vec_remove i v = bindR (if i < ?n - 1 then sp_move i (i + 1) (?n - i - 1) (v\<lparr>v_data := ?d\<rparr>)
      else Inr (v\<lparr>v_data := ?d\<rparr>)) (\<lambda>w. Inr (elems v ! i, w\<lparr>v_size := v_size w - 1\<rparr>))"
    using assms by (simp add: vec_remove_def Let_def)
  ultimately have "vec_remove i v = Inr (elems v ! i, v\<lparr>v_data := ?d', v_size := ?n - 1\<rparr>)"
    by (simp only: bindR_simps) simp
  moreover have "take (?n - 1) ?d' = take i (take ?n (v_data v)) @ drop (i + 1) (take ?n (v_data v))"
    using assms l
    by (cases "i = ?n - 1") (simp_all add: drop_take min_def drop_update_cancel, arith+)
  ultimately show ?thesis using assms l by (auto simp: elems_def vec_ok_def)
qed

lemma vec_append_spec [vec_spec]:
  assumes "vec_ok v" "v_size v + length xs \<le> v_cap v"
  shows "\<exists>v'. vec_append xs v = Inr v' \<and> vec_ok v' \<and> elems v' = elems v @ xs \<and> v_cap v' = v_cap v"
  using assms by (simp add: vec_append_def vec_ok_def elems_def util_copy_eq)

lemma vec_pop_spec [vec_spec]:
  assumes "vec_ok v" "0 < v_size v"
  shows "\<exists>v'. vec_popBack v = Inr (last (elems v), v') \<and> vec_ok v' \<and> elems v' = butlast (elems v)"
    and "\<exists>v'. vec_popFront v = Inr (hd (elems v), v') \<and> vec_ok v' \<and> elems v' = tl (elems v)"
proof -
  have ne: "elems v \<noteq> []" using assms by (auto simp: elems_def vec_ok_def)
  have "drop (v_size v) (elems v) = []" using assms by simp
  then show "\<exists>v'. vec_popBack v = Inr (last (elems v), v') \<and> vec_ok v' \<and> elems v' = butlast (elems v)"
    using vec_remove_spec [OF assms(1), of "v_size v - 1"] assms ne
    by (auto simp: vec_popBack_def last_conv_nth butlast_conv_take)
  show "\<exists>v'. vec_popFront v = Inr (hd (elems v), v') \<and> vec_ok v' \<and> elems v' = tl (elems v)"
    using vec_remove_spec [OF assms(1), of 0] assms ne
    by (auto simp: vec_popFront_def hd_conv_nth drop_Suc)
qed

lemma vec_truncate_spec [vec_spec]:
  assumes "vec_ok v" "n \<le> v_size v"
  shows "\<exists>v'. vec_truncate n v = Inr v' \<and> vec_ok v' \<and> elems v' = take n (elems v)"
  using assms by (simp add: vec_truncate_def vec_ok_def elems_def fill_eq min_absorb1)

lemma vec_extend_spec [vec_spec]:
  assumes "vec_ok v" "v_size v \<le> n" "n \<le> v_cap v"
  shows "\<exists>v'. vec_extend n x v = Inr v' \<and> vec_ok v' \<and> elems v' = elems v @ replicate (n - v_size v) x"
  using assms by (simp add: vec_extend_def vec_ok_def elems_def fill_eq)

lemma vec_resize_spec [vec_spec]:
  assumes "vec_ok v" "n \<le> v_cap v \<or> n \<le> v_size v"
  shows "\<exists>v'. vec_resize n x v = Inr v' \<and> vec_ok v' \<and>
    elems v' = take n (elems v) @ replicate (n - v_size v) x"
  using assms vec_truncate_spec [OF assms(1), of n] vec_extend_spec [OF assms(1), of n x]
  by (cases "v_size v = n"; cases "v_size v < n") (auto simp: vec_resize_def)

lemma vec_clear_spec [vec_spec]: "vec_ok v \<Longrightarrow> vec_ok (vec_clear v) \<and> elems (vec_clear v) = []"
  by (simp add: vec_clear_def vec_ok_def elems_def)

lemma vec_removeByValue_spec [vec_spec]:
  assumes "vec_ok v" "length (elems v) < size_npos"
  shows "x \<in> set (elems v) \<Longrightarrow> \<exists>v'. vec_removeByValue x v = Inr (x, v') \<and> vec_ok v' \<and> elems v' = remove1 x (elems v)"
    and "x \<notin> set (elems v) \<Longrightarrow> vec_removeByValue x v = Inl (Abort ''remove(const T&): value not found'')"
proof -
  assume x: "x \<in> set (elems v)"
  define i where "i = sp_findIndex x v"
  note f = sp_findIndex_present [OF assms(1) x, folded i_def]
  have "x \<notin> set (take i (elems v))"
    using f(3) by (auto simp: in_set_conv_nth)
  moreover have "elems v = take i (elems v) @ x # drop (i + 1) (elems v)"
    using f(1,2) assms(1) id_take_nth_drop [of i "elems v"] by simp
  ultimately have "remove1 x (elems v) = take i (elems v) @ drop (i + 1) (elems v)"
    by (metis remove1_append remove1.simps(2))
  then show "\<exists>v'. vec_removeByValue x v = Inr (x, v') \<and> vec_ok v' \<and> elems v' = remove1 x (elems v)"
    using vec_remove_spec [OF assms(1) f(1)] f assms
    by (auto simp: vec_removeByValue_def i_def [symmetric])
next
  assume "x \<notin> set (elems v)"
  then show "vec_removeByValue x v = Inl (Abort ''remove(const T&): value not found'')"
    using assms by (simp add: vec_removeByValue_def sp_findIndex_absent)
qed

section \<open>The heap vector\<close>

lemma hv_reserve_spec:
  assumes "vec_ok v"
  shows "vec_ok (hv_reserve n v)" "elems (hv_reserve n v) = elems v" "n \<le> v_cap (hv_reserve n v)"
    "v_size (hv_reserve n v) = v_size v" "v_cap (hv_reserve n v) = max n (v_cap v)"
  using assms
  by (auto simp: hv_reserve_def vec_ok_def elems_def hv_allocate_def util_copy_eq max_def)

lemma hv_insert_spec [vec_spec]:
  assumes "vec_ok v" "i \<le> v_size v"
  shows "\<exists>v'. hv_insert x i v = Inr v' \<and> vec_ok v' \<and> elems v' = take i (elems v) @ x # drop i (elems v)"
  using vec_insert_spec [of "hv_reserve (v_size v + 1) v" i x] hv_reserve_spec [OF assms(1), of "v_size v + 1"] assms
  by (auto simp: hv_insert_def)

lemma hv_add_spec [vec_spec]:
  assumes "vec_ok v"
  shows "\<exists>v'. hv_add x v = Inr v' \<and> vec_ok v' \<and> elems v' = elems v @ [x] \<and>
    v_cap v' = max (v_size v + 1) (v_cap v)"
  using vec_add_spec [of "hv_reserve (v_size v + 1) v" x] hv_reserve_spec [OF assms(1), of "v_size v + 1"]
  by (auto simp: hv_add_def)

lemma hv_append_spec [vec_spec]:
  assumes "vec_ok v"
  shows "\<exists>v'. hv_append xs v = Inr v' \<and> vec_ok v' \<and> elems v' = elems v @ xs"
  using vec_append_spec [of "hv_reserve (v_size v + length xs) v" xs]
    hv_reserve_spec [OF assms(1), of "v_size v + length xs"]
  by (auto simp: hv_append_def)

lemma hv_of_spec: "vec_ok (hv_of raw xs)" "elems (hv_of raw xs) = xs" "v_cap (hv_of raw xs) = 0"
  by (simp_all add: hv_of_def vec_ok_def elems_def hv_allocate_def util_copy_eq)

lemma hv_new_spec: "vec_ok (hv_new raw r x n)" "elems (hv_new raw r x n) = replicate n x"
  by (simp_all add: hv_new_def vec_ok_def elems_def hv_allocate_def fill_eq)

section \<open>The store contract\<close>

text \<open>
  What a client of a vector relies on: insertion and removal at an index, and reading an
  element.  \<open>room\<close> says when an insertion is possible.
\<close>

locale vec_store =
  fixes els :: "'v \<Rightarrow> 'a list"
    and ok :: "'v \<Rightarrow> bool"
    and room :: "'v \<Rightarrow> bool"
    and insertAt :: "'a \<Rightarrow> nat \<Rightarrow> 'v \<Rightarrow> 'v run"
    and removeAt :: "nat \<Rightarrow> 'v \<Rightarrow> ('a \<times> 'v) run"
    and getAt :: "nat \<Rightarrow> 'v \<Rightarrow> 'a run"
  assumes insert_law: "ok v \<Longrightarrow> room v \<Longrightarrow> i \<le> length (els v) \<Longrightarrow>
      \<exists>v'. insertAt x i v = Inr v' \<and> ok v' \<and> els v' = take i (els v) @ x # drop i (els v)"
    and remove_law: "ok v \<Longrightarrow> i < length (els v) \<Longrightarrow>
      \<exists>v'. removeAt i v = Inr (els v ! i, v') \<and> ok v' \<and> els v' = take i (els v) @ drop (i + 1) (els v)"
    and get_law: "ok v \<Longrightarrow> i < length (els v) \<Longrightarrow> getAt i v = Inr (els v ! i)"
begin

lemma get_inserted:
  assumes "ok v" "room v" "i \<le> length (els v)" "insertAt x i v = Inr v'"
  shows "getAt i v' = Inr x" "ok v'" "length (els v') = length (els v) + 1"
  using insert_law [OF assms(1-3), of x] assms get_law [of v' i] by (auto simp: nth_append)

lemma insert_then_remove:
  assumes "ok v" "room v" "i \<le> length (els v)"
  shows "\<exists>v'. bindR (insertAt x i v) (removeAt i) = Inr (x, v') \<and> ok v' \<and> els v' = els v"
proof -
  obtain w where w: "insertAt x i v = Inr w" "ok w" "els w = take i (els v) @ x # drop i (els v)"
    using insert_law [OF assms] by blast
  then have "i < length (els w)" using assms(3) by simp
  from remove_law [OF w(2) this] obtain v' where
    "removeAt i w = Inr (els w ! i, v')" "ok v'" "els v' = take i (els w) @ drop (i + 1) (els w)"
    by blast
  then show ?thesis using w assms(3) by (auto simp: nth_append min_def)
qed

end

interpretation fixed_vec: vec_store elems vec_ok "\<lambda>v. v_size v < v_cap v" vec_insert vec_remove sp_at
  by unfold_locales (use vec_insert_spec vec_remove_spec sp_at_spec in \<open>(fastforce simp: length_elems)+\<close>)

interpretation heap_vec: vec_store elems vec_ok "\<lambda>v. True" hv_insert vec_remove sp_at
  by unfold_locales (use hv_insert_spec vec_remove_spec sp_at_spec in \<open>(fastforce simp: length_elems)+\<close>)

section \<open>Properties\<close>

text \<open>
  C31: inserting into and removing from a vector buffer are exactly the list operations, on
  every branch: an insertion succeeds when there is room and the index is at most the size,
  shifting the tail up by one through the overlapping move, and aborts otherwise; a removal
  succeeds when the index is in range, gives back the removed element, and aborts otherwise.
\<close>

theorem vec_insert_remove_exact:
  assumes "vec_ok v"
  shows "(if v_size v < v_cap v \<and> i \<le> v_size v
      then \<exists>v'. vec_insert x i v = Inr v' \<and> vec_ok v' \<and> elems v' = take i (elems v) @ x # drop i (elems v)
      else \<exists>m. vec_insert x i v = Inl (Abort m)) \<and>
    (if i < v_size v
      then \<exists>v'. vec_remove i v = Inr (elems v ! i, v') \<and> vec_ok v' \<and>
        elems v' = take i (elems v) @ drop (i + 1) (elems v)
      else \<exists>m. vec_remove i v = Inl (Abort m))"
proof -
  have "\<exists>m. vec_insert x i v = Inl (Abort m)" if "\<not> (v_size v < v_cap v \<and> i \<le> v_size v)"
    using that by (auto simp: vec_insert_def abort_unless_def)
  moreover have "\<exists>m. vec_remove i v = Inl (Abort m)" if "\<not> i < v_size v"
    using that by (auto simp: vec_remove_def)
  ultimately show ?thesis
    using fixed_vec.insert_law [of v i x] fixed_vec.remove_law [of v i] assms by auto
qed

lemma vec_insert_remove_exact_witness:
  "\<exists>v'. vec_insert 9 1 \<lparr>v_data = [1, 2, 3, 0 :: nat], v_size = 3, v_cap = 4, v_raw = 0\<rparr> = Inr v' \<and>
     vec_ok v' \<and> elems v' = [1, 9, 2, 3]"
  using vec_insert_remove_exact [of "\<lparr>v_data = [1, 2, 3, 0 :: nat], v_size = 3, v_cap = 4, v_raw = 0\<rparr>" 1 9]
  by (simp add: vec_ok_def elems_def)

text \<open>
  \<^verbatim>\<open>slice\<close> does not reject an offset past the end.  The remaining length \<open>size - offset\<close>
  wraps to a huge number, so the bounds check passes and the view lies outside the buffer.
\<close>

theorem slice_past_end_accepted:
  assumes "v_size v < offset" "offset < 2 ^ 64" "0 < amount" "amount < 2 ^ 63" "offset < 2 ^ 63"
  shows "sp_slice offset amount v = Inr (offset, amount)"
proof -
  have "(int (v_size v) - int offset) mod 2 ^ 64 = int (v_size v) - int offset + 2 ^ 64"
  proof -
    have "(int (v_size v) - int offset) mod 2 ^ 64 = (int (v_size v) - int offset + 2 ^ 64) mod 2 ^ 64"
      by (simp only: mod_add_self2)
    also have "\<dots> = int (v_size v) - int offset + 2 ^ 64"
      using assms by (intro mod_pos_pos_trivial) auto
    finally show ?thesis .
  qed
  then show ?thesis using assms by (simp add: sp_slice_def size_sub_def)
qed

lemma slice_past_end_accepted_witness:
  "sp_slice 5 1 \<lparr>v_data = [1, 2, 3 :: nat], v_size = 3, v_cap = 3, v_raw = 0\<rparr> = Inr (5, 1)"
  by (rule slice_past_end_accepted) simp_all

text \<open>
  the heap vector's \<^verbatim>\<open>set(index, value)\<close> never returns: it only calls itself.
\<close>

theorem heap_vec_set_never_returns: "hv_set index x v = None"
proof -
  have "hv_set index x v = Some y \<Longrightarrow> False" for y
    using hv_set.raw_induct [where P = "\<lambda>_ _ _ _. False" and xa = "((index, x), v)" and y = y] by auto
  then show ?thesis by (cases "hv_set index x v") auto
qed

text \<open>
  a vector constructed from elements holds them, but reports capacity 0, and a full heap
  vector grows by exactly one slot per added element, not by its reserve size.
\<close>

theorem heap_vec_capacity:
  assumes "vec_ok v" "v_cap v \<le> v_size v" "hv_add x v = Inr w"
  shows "v_cap w = v_size v + 1 \<and> elems w = elems v @ [x] \<and>
    elems (hv_of raw xs) = xs \<and> v_cap (hv_of raw xs) = 0"
  using hv_add_spec [OF assms(1), of x] assms(2,3) by (auto simp: hv_of_spec)

lemma heap_vec_capacity_witness:
  "\<exists>w. hv_add 7 (hv_new 0 2 (1 :: nat) 2) = Inr w \<and> v_cap w = 3 \<and> elems w = [1, 1, 7]"
proof -
  obtain w where w: "hv_add 7 (hv_new 0 2 (1 :: nat) 2) = Inr w"
    using hv_add_spec [OF hv_new_spec(1), of 7 0 2 1 2] by blast
  have "v_cap (hv_new 0 2 (1 :: nat) 2) \<le> v_size (hv_new 0 2 (1 :: nat) 2)" by (simp add: hv_new_def)
  then have "v_cap w = v_size (hv_new 0 2 (1 :: nat) 2) + 1 \<and> elems w = elems (hv_new 0 2 (1 :: nat) 2) @ [7]"
    using heap_vec_capacity [OF hv_new_spec(1) _ w, of 0 "[]"] by blast
  moreover have "v_size (hv_new 0 2 (1 :: nat) 2) = 2" by (simp add: hv_new_def)
  moreover have "elems (hv_new 0 2 (1 :: nat) 2) = [1, 1]" by (simp add: hv_new_spec numeral_2_eq_2)
  ultimately show ?thesis using w by auto
qed

end
