(* ===== verification/A64Emit.thy ===== *)
theory A64Emit
  imports A64ParseProps SpanVec
begin

text \<open>
  Assembled blocks and the pseudo-instruction emitter of \<^verbatim>\<open>hk/hook/a64/Assembler.h\<close>
  (\<^verbatim>\<open>AsmBlock\<close> without installation, \<^verbatim>\<open>PseudoInstructionEmitter\<close>): moving a 64-bit constant
  into a register and branching to an absolute address, in as few instructions as the distance
  allows.
\<close>

section \<open>Assembling a block\<close>

text \<open>A block's arguments: an array of 16 words, zero where none was given.\<close>

definition block_args :: "u64 list \<Rightarrow> ArgGetter" where
  "block_args args = (\<lambda>i. if unat i < length args then args ! unat i else 0)"

fun block_assemble :: "IInstr list \<Rightarrow> u64 list \<Rightarrow> u64 \<Rightarrow> Instr list run" where
  "block_assemble [] args startAddr = Inr []"
| "block_assemble (i # is) args startAddr =
     bindR (assemble i startAddr (Some (block_args args))) (\<lambda>w.
       bindR (block_assemble is args (startAddr + 4)) (\<lambda>ws. Inr (w # ws)))"

text \<open>\<^verbatim>\<open>assembleOne\<close> assembles every instruction up to the wanted one at the same address.\<close>

fun block_assembleOne_loop :: "IInstr list \<Rightarrow> u64 list \<Rightarrow> nat \<Rightarrow> nat \<Rightarrow> u64 \<Rightarrow> Instr run" where
  "block_assembleOne_loop [] args idx i addr = Inr cOpInvalid"
| "block_assembleOne_loop (instr # is) args idx i addr =
     bindR (assemble instr addr (Some (block_args args))) (\<lambda>result.
       if idx = i then Inr result else block_assembleOne_loop is args idx (i + 1) addr)"

definition block_assembleOne :: "IInstr list \<Rightarrow> u64 list \<Rightarrow> nat \<Rightarrow> u64 \<Rightarrow> Instr run" where
  "block_assembleOne is args idx addr = block_assembleOne_loop is args idx 0 addr"

text \<open>A constant expression that fails to assemble does not compile.\<close>

definition constexpr_block :: "string \<Rightarrow> IInstr list" where
  "constexpr_block src = (case assemble_expr src of Inr is \<Rightarrow> is | Inl e \<Rightarrow> [])"

definition adrExpr where "adrExpr = constexpr_block ''adr (), {}''"
definition adrpExpr where "adrpExpr = constexpr_block ''adrp (), {}''"
definition addExpr where "addExpr = constexpr_block ''add (), (), {}''"
definition ldrExpr where "ldrExpr = constexpr_block ''ldr (), {}''"
definition movkExpr where "movkExpr = constexpr_block ''movk (), {}, lsl #{}''"
definition brIpExpr where "brIpExpr = constexpr_block ''br ip''"
definition blrIpExpr where "blrIpExpr = constexpr_block ''blr ip''"

section \<open>The emitter\<close>

record emitter =
  em_out :: "Instr vec"
  em_rx :: u64

definition calcCurOffset :: "emitter \<Rightarrow> u64" where
  "calcCurOffset e = 4 * of_nat (v_size (em_out e))"

definition calcCurRxAddr :: "emitter \<Rightarrow> u64" where
  "calcCurRxAddr e = em_rx e + calcCurOffset e"

definition emit_one :: "Instr \<Rightarrow> emitter \<Rightarrow> emitter run" where
  "emit_one instr e = bindR (vec_add instr (em_out e)) (\<lambda>out. Inr (e\<lparr>em_out := out\<rparr>))"

definition emit_many :: "Instr list \<Rightarrow> emitter \<Rightarrow> emitter run" where
  "emit_many instrs e = bindR (vec_append instrs (em_out e)) (\<lambda>out. Inr (e\<lparr>em_out := out\<rparr>))"

definition emit_block :: "IInstr list \<Rightarrow> u64 list \<Rightarrow> u64 \<Rightarrow> emitter \<Rightarrow> emitter run" where
  "emit_block is args addr e = bindR (block_assemble is args addr) (\<lambda>instrs. emit_many instrs e)"

definition adrAdrpMaxDiff :: u64 where
  "adrAdrpMaxDiff = hk_bit 21 div 2 - 1"

definition half16 :: "nat \<Rightarrow> u64 \<Rightarrow> u16" where
  "half16 i v = ucast (drop_bit (16 * i) v AND hk_bits 16)"

text \<open>The literal of the \<^verbatim>\<open>ldr\<close> variant goes into the buffer behind the code.\<close>

definition emit_ldr_literal :: "IRegType \<Rightarrow> u64 \<Rightarrow> emitter \<Rightarrow> (nat \<times> emitter) run" where
  "emit_ldr_literal r x e =
    (let pc = calcCurRxAddr e in
     abort_unless (v_cap (em_out e) - v_size (em_out e) \<ge> 3) ''AssertionFailed''
      (let addrOffs = v_cap (em_out e) - 2 - 1 in
       bindR (emit_block ldrExpr [ucast r, em_rx e + of_nat addrOffs * 4] pc e) (\<lambda>e.
         let out = em_out e;
             data = (v_data out)[addrOffs := ucast (x AND hk_bits 32)];
             data = data[addrOffs + 1 := ucast (drop_bit 32 x AND hk_bits 32)]
         in Inr (1, e\<lparr>em_out := out\<lparr>v_data := data, v_cap := v_cap out - 2\<rparr>\<rparr>))))"

fun emit_movk_loop :: "IRegType \<Rightarrow> u64 \<Rightarrow> u64 \<Rightarrow> nat \<Rightarrow> nat list \<Rightarrow> emitter \<Rightarrow> emitter run" where
  "emit_movk_loop r x pc0 startSize [] e = Inr e"
| "emit_movk_loop r x pc0 startSize (i # is) e =
     (if half16 i x = half16 i pc0 then emit_movk_loop r x pc0 startSize is e
      else bindR (emit_block movkExpr [ucast r, ucast (half16 i x), of_nat (i * 16)]
             (of_nat ((v_size (em_out e) - startSize) * 4)) e)
        (emit_movk_loop r x pc0 startSize is))"

definition emit_movs :: "IRegType \<Rightarrow> u64 \<Rightarrow> emitter \<Rightarrow> (nat \<times> emitter) run" where
  "emit_movs r x e =
    (let pc = calcCurRxAddr e;
         startSize = v_size (em_out e);
         anyMatch = list_ex (\<lambda>i. half16 i x = half16 i pc) [0, 1, 2, 3]
     in bindR (if anyMatch then emit_block adrExpr [ucast r, pc] pc e else Inr e) (\<lambda>e.
        bindR (emit_movk_loop r x pc startSize [0, 1, 2, 3] e) (\<lambda>e.
          Inr (v_size (em_out e) - startSize, e))))"

definition emitMovImmediate64 :: "bool \<Rightarrow> IRegType \<Rightarrow> u64 \<Rightarrow> emitter \<Rightarrow> (nat \<times> emitter) run" where
  "emitMovImmediate64 CanUseInstrAsData r x e =
    (let pc = calcCurRxAddr e;
         pcUpper = pc AND NOT (hk_bits 12);
         upper = x AND NOT (hk_bits 12);
         lower = x AND hk_bits 12
     in if s64_abs (pc - x) \<le> adrAdrpMaxDiff
        then bindR (emit_block adrExpr [ucast r, x] pc e) (\<lambda>e. Inr (1, e))
        else if s64_abs (pcUpper - upper) div cPageSize \<le> adrAdrpMaxDiff
        then bindR (emit_block adrpExpr [ucast r, upper] pc e) (\<lambda>e.
          if upper \<noteq> x
          then bindR (emit_block addExpr [ucast r, ucast r, lower] (pc + 4) e) (\<lambda>e. Inr (2, e))
          else Inr (1, e))
        else if CanUseInstrAsData then emit_ldr_literal r x e
        else emit_movs r x e)"

definition cBr :: "Instr run" where "cBr = block_assembleOne brIpExpr [] 0 0"
definition cBlr :: "Instr run" where "cBlr = block_assembleOne blrIpExpr [] 0 0"

definition emitBranch :: "bool \<Rightarrow> u64 \<Rightarrow> bool \<Rightarrow> emitter \<Rightarrow> (nat \<times> emitter) run" where
  "emitBranch CanUseInstrAsData to link e =
    (let source = calcCurRxAddr e; gap = to - source in
     if s64_abs gap \<le> cMaxBranchDistance
     then bindR (emit_one (if link then makeBL source to else makeB source to) e) (\<lambda>e. Inr (1, e))
     else bindR (emitMovImmediate64 CanUseInstrAsData reg_IP0 to e) (\<lambda>(movSize, e).
       bindR (if link then cBlr else cBr) (\<lambda>instr.
         bindR (emit_one instr e) (\<lambda>e. Inr (movSize + 1, e)))))"

definition emitB :: "bool \<Rightarrow> u64 \<Rightarrow> emitter \<Rightarrow> (nat \<times> emitter) run" where
  "emitB CanUseInstrAsData to e = emitBranch CanUseInstrAsData to False e"

definition emitBL :: "bool \<Rightarrow> u64 \<Rightarrow> emitter \<Rightarrow> (nat \<times> emitter) run" where
  "emitBL CanUseInstrAsData to e = emitBranch CanUseInstrAsData to True e"

section \<open>The fixed blocks\<close>

lemmas expr_blocks =
  expr_adr expr_adrp expr_add expr_ldr expr_movk expr_br_ip expr_blr_ip

lemma block_eqs:
  "adrExpr = [I_none\<lparr>itype := Adr, i_rd := IImm_regarg 0, i_imm := IImm_arg 1\<rparr>]"
  "adrpExpr = [I_none\<lparr>itype := Adrp, i_rd := IImm_regarg 0, i_imm := IImm_arg 1\<rparr>]"
  "addExpr = [I_none\<lparr>itype := AddImm, i_rd := IImm_regarg 0, i_rn := IImm_regarg 1, i_imm := IImm_arg 2\<rparr>]"
  "ldrExpr = [I_none\<lparr>itype := LdrLiteral, i_rd := IImm_regarg 0, i_imm := IImm_arg 1\<rparr>]"
  "movkExpr = [I_none\<lparr>itype := Movk, i_rd := IImm_regarg 0, i_imm := IImm_arg 1, i_shiftImm := IImm_arg 2\<rparr>]"
  "brIpExpr = [I_none\<lparr>itype := Br, i_rn := IImm_reg reg_IP0\<rparr>]"
  "blrIpExpr = [I_none\<lparr>itype := Blr, i_rn := IImm_reg reg_IP0\<rparr>]"
  by (simp_all add: adrExpr_def adrpExpr_def addExpr_def ldrExpr_def movkExpr_def brIpExpr_def
      blrIpExpr_def constexpr_block_def expr_blocks)

end
