(* ===== verification/A64EmitCorrect.thy ===== *)
theory A64EmitCorrect
  imports A64Emit
begin

text \<open>
  Running what the emitter emitted: the words it appends, executed by the architecture's own
  step function from the address they were assembled for, leave the constant in the register, or
  the program counter at the branch target.
\<close>

section \<open>Straight-line code\<close>

fun straight :: "(u64 \<Rightarrow> u32) \<Rightarrow> u32 list \<Rightarrow> cpu \<Rightarrow> cpu \<Rightarrow> bool" where
  "straight mem [] s s' \<longleftrightarrow> s' = s"
| "straight mem (w # ws) s s' \<longleftrightarrow>
     (\<exists>t. a64_do mem w s = Some t \<and> pc t = pc s + 4 \<and> straight mem ws t s')"

lemma straight_append:
  "straight mem (ws @ vs) s s' \<longleftrightarrow> (\<exists>t. straight mem ws s t \<and> straight mem vs t s')"
  by (induction mem ws s s' rule: straight.induct) auto

lemma straight_pc: "straight mem ws s s' \<Longrightarrow> pc s' = pc s + of_nat (length ws) * 4"
  by (induction mem ws s s' rule: straight.induct) (auto simp: algebra_simps)

lemma code_at_Cons: "code_at mem a (w # ws) \<longleftrightarrow> mem a = w \<and> code_at mem (a + 4) ws"
proof
  assume c: "code_at mem a (w # ws)"
  have "mem (a + 4 + of_nat i * 4) = ws ! i" if "i < length ws" for i
  proof -
    have "mem (a + of_nat (Suc i) * 4) = (w # ws) ! Suc i"
      using c that unfolding code_at_def by (auto simp only: length_Cons Suc_less_eq)
    then show ?thesis by (simp add: algebra_simps)
  qed
  moreover have "mem a = w" using c unfolding code_at_def by force
  ultimately show "mem a = w \<and> code_at mem (a + 4) ws" by (simp add: code_at_def)
next
  assume c: "mem a = w \<and> code_at mem (a + 4) ws"
  show "code_at mem a (w # ws)"
    unfolding code_at_def
  proof (intro allI impI)
    fix i assume "i < length (w # ws)"
    with c show "mem (a + of_nat i * 4) = (w # ws) ! i"
      by (cases i) (auto simp: code_at_def algebra_simps)
  qed
qed

lemma code_at_append:
  "code_at mem a (ws @ vs) \<longleftrightarrow> code_at mem a ws \<and> code_at mem (a + of_nat (length ws) * 4) vs"
proof (induction ws arbitrary: a)
  case Nil
  then show ?case by (simp add: code_at_def)
next
  case (Cons w ws)
  have "a + 4 + of_nat (length ws) * 4 = a + of_nat (length (w # ws)) * 4" by (simp add: algebra_simps)
  then show ?case unfolding append_Cons code_at_Cons Cons by (simp only: conj_assoc)
qed

lemma run_straight:
  "straight mem ws s s' \<Longrightarrow> code_at mem (pc s) ws \<Longrightarrow> a64_run mem (length ws) s = Some s'"
  by (induction mem ws s s' rule: straight.induct) (auto simp: code_at_Cons a64_step_do)

lemma a64_run_add: "a64_run mem (m + n) s = Option.bind (a64_run mem m s) (a64_run mem n)"
proof (induction m arbitrary: s)
  case (Suc m)
  then show ?case by (cases "a64_step mem s") simp_all
qed simp

section \<open>Registers\<close>

definition xreg :: "IRegType \<Rightarrow> bool" where
  "xreg r \<longleftrightarrow> unat r < 31"

lemma xreg_mask:
  assumes "xreg r"
  shows "r AND mask 5 = r"
  using assms by (simp add: and_mask_eq_iff_unat xreg_def)

lemma xreg_facts:
  assumes "xreg r"
  shows "reg r = ucast r" "isX r" "r AND reg_Wbit = 0" "(ucast r :: u32) \<noteq> 31"
    "(ucast r :: u64) < ucast IRegType_Max" "(ucast (ucast r :: u64) :: u8) = r" "sp_to_31 r = r"
proof -
  show "reg r = ucast r" using xreg_mask [OF assms] by (simp add: reg_def mask_eq_exp_minus_1)
  have "bit r n \<Longrightarrow> n < 5" for n using xreg_mask [OF assms] by (metis bit_and_iff bit_mask_iff)
  then have "\<not> bit r 5" by blast
  then show w: "r AND reg_Wbit = 0"
    by (simp add: reg_Wbit_def bit_iff_and_push_bit_not_eq_0 push_bit_eq_mult)
  then show "isX r" by (simp add: isX_def isW_def)
  have u: "unat (ucast r :: u32) = unat r" "unat (ucast r :: u64) = unat r"
    using assms [unfolded xreg_def] by (auto simp: unsigned_ucast_eq intro!: take_bit_nat_eq_self)
  show "(ucast r :: u32) \<noteq> 31" using assms u(1) by (auto simp: xreg_def)
  have "unat (ucast IRegType_Max :: u64) = 223" by code_simp
  then show "(ucast r :: u64) < ucast IRegType_Max"
    using assms by (simp add: word_less_nat_alt u xreg_def)
  show "(ucast (ucast r :: u64) :: u8) = r" by (rule bit_word_eqI) (simp add: bit_simps)
  have "unat reg_SP = 64" by code_simp
  then have "r \<noteq> reg_SP" using assms by (auto simp: xreg_def)
  then show "sp_to_31 r = r" by (simp add: sp_to_31_def)
qed

definition set_x :: "IRegType \<Rightarrow> u64 \<Rightarrow> cpu \<Rightarrow> cpu" where
  "set_x r v s = s\<lparr>regs := (regs s)(ucast r := v)\<rparr>"

lemma set_x_simps [simp]:
  "set_x r v (set_x r v' s) = set_x r v s"
  "next_pc (set_x r v s) = set_x r v (next_pc s)"
  "pc (set_x r v s) = pc s"
  "regs (set_x r v s) = (regs s)(ucast r := v)"
  by (simp_all add: set_x_def next_pc_def)

lemma wr_X_set_x: "xreg r \<Longrightarrow> wr_X (reg r) v s = set_x r v s" "xreg r \<Longrightarrow> wr_XSP (reg r) v s = set_x r v s"
  by (simp_all add: wr_X_def wr_XSP_def set_x_def xreg_facts)

lemma rd_X_set_x: "xreg r \<Longrightarrow> rd_X s (reg r) = regs s (ucast r)" "xreg r \<Longrightarrow> rd_XSP s (reg r) = regs s (ucast r)"
  by (simp_all add: rd_X_def rd_XSP_def xreg_facts)

section \<open>The fixed blocks assemble\<close>

lemma resolve_simps [simp]:
  "resolve IImm_none args = 0"
  "resolve (IImm_regarg i) (Some g) = g i"
  "resolve (IImm_arg i) (Some g) = g i"
  "resolve (IImm_reg r) args = ucast r"
  "resolve (IImm_imm v) args = v"
  by (simp_all add: resolve_def IImm_none_def IImm_regarg_def IImm_arg_def IImm_reg_def IImm_imm_def)

lemma IRegType_Max_pos [simp]: "(0 :: u64) < ucast IRegType_Max"
  by code_simp

lemma assemble_blocks:
  assumes r: "xreg r"
  shows "block_assemble adrExpr [ucast r, v] a = bindR (asm_Adr False r v a) (\<lambda>w. Inr [w])"
    and "block_assemble adrpExpr [ucast r, v] a = bindR (asm_Adr True r v a) (\<lambda>w. Inr [w])"
    and "block_assemble addExpr [ucast r, ucast r, v] a = bindR (asm_AddSubImm True r r v) (\<lambda>w. Inr [w])"
    and "block_assemble ldrExpr [ucast r, v] a = bindR (asm_LdrLiteral r v a) (\<lambda>w. Inr [w])"
    and "block_assemble movkExpr [ucast r, v, h] a = bindR (asm_Movk r v h) (\<lambda>w. Inr [w])"
  using xreg_facts [OF r]
  by (simp_all add: block_eqs assemble_def I_none_def IInstr_default_def block_args_def Let_def)

section \<open>Signed distances\<close>

lemma uint_eq_sint_mod: "uint (v :: u64) = sint v mod 2 ^ 64"
  by (simp only: uint_sint take_bit_eq_mod len64)

lemma sint_range_64: "- (2 ^ 63) \<le> sint (v :: u64)" "sint (v :: u64) < 2 ^ 63"
  using sint_ge [of v] sint_lt [of v] by simp_all

lemma uint_nonneg: "0 \<le> sint (v :: u64) \<Longrightarrow> uint v = sint v"
  unfolding uint_eq_sint_mod using sint_range_64 [of v] by (intro mod_pos_pos_trivial) auto

lemma uint_neg: "sint (v :: u64) < 0 \<Longrightarrow> uint v = sint v + 2 ^ 64"
proof -
  assume "sint v < 0"
  have "sint v mod 2 ^ 64 = (sint v + 2 ^ 64) mod 2 ^ 64" by (simp only: mod_add_self2)
  also have "\<dots> = sint v + 2 ^ 64"
    using \<open>sint v < 0\<close> sint_range_64 [of v] by (intro mod_pos_pos_trivial) auto
  finally show ?thesis unfolding uint_eq_sint_mod .
qed

lemma sint_minus_64: "sint (v :: u64) \<noteq> - (2 ^ 63) \<Longrightarrow> sint (- v) = - sint v"
  unfolding sint_word_minus len64 using sint_range_64 [of v]
  by (intro signed_take_bit_int_eq_self) auto

lemma uint_s64_abs: "uint (s64_abs v) = \<bar>sint v\<bar>"
proof (cases "sint v < 0")
  case True
  have "uint (- v) = take_bit 64 (signed_take_bit 63 (- sint v))"
    by (simp add: uint_sint sint_word_minus)
  also have "\<dots> = (- sint v) mod 2 ^ 64"
    by (subst take_bit_signed_take_bit) (simp_all add: take_bit_eq_mod)
  also have "\<dots> = - sint v"
    using True sint_range_64 [of v] by (intro mod_pos_pos_trivial) auto
  finally show ?thesis using True by (simp add: s64_abs_def)
qed (simp add: s64_abs_def uint_nonneg)

lemma s64_abs_le: "s64_abs v \<le> c \<longleftrightarrow> \<bar>sint v\<bar> \<le> uint c"
  by (simp only: word_le_def uint_s64_abs)

lemma s64_abs_swap:
  assumes "s64_abs (a - b) \<le> c" "uint c < 2 ^ 63"
  shows "\<bar>sint (b - a)\<bar> \<le> uint c"
proof -
  have le: "\<bar>sint (a - b)\<bar> \<le> uint c" using assms(1) by (simp add: s64_abs_le)
  have "sint (a - b) \<noteq> - (2 ^ 63)"
  proof
    assume "sint (a - b) = - (2 ^ 63)"
    then have "\<bar>sint (a - b)\<bar> = 2 ^ 63" by (simp only: abs_minus_cancel abs_power2 abs_numeral power_abs)
    then show False using le assms(2) by linarith
  qed
  then have "sint (- (a - b)) = - sint (a - b)" by (rule sint_minus_64)
  then have "\<bar>sint (- (a - b))\<bar> = \<bar>sint (a - b)\<bar>" by (simp only: abs_minus_cancel)
  then show ?thesis using le unfolding minus_diff_eq by (simp only:)
qed

lemma unat_less_uint: "uint (v :: u64) < int n \<Longrightarrow> unat v < n"
proof -
  assume "uint v < int n"
  moreover have "int (unat v) = uint v" by simp
  ultimately have "int (unat v) < int n" by (simp only:)
  then show ?thesis by (simp only: of_nat_less_iff)
qed

section \<open>The pieces\<close>

lemma canBeImm21Neg_small:
  assumes "- (2 ^ 20) \<le> sint (d :: u64)" "sint d < 2 ^ 20"
  shows "canBeImm21Neg d"
proof -
  have "unat d < 2 ^ 21 \<or> unat (NOT d) < 2 ^ 21"
  proof (cases "0 \<le> sint d")
    case True
    then have "uint d < int (2 ^ 21)" using uint_nonneg [OF True] assms(2) by simp
    then show ?thesis using unat_less_uint by blast
  next
    case False
    then have "- 1 - sint d < 2 ^ 20" "0 \<le> - 1 - sint d" using assms by auto
    moreover have "NOT d = - 1 - d" by (simp add: not_eq_complement)
    moreover have "uint (- 1 - d) = - 1 - sint d"
      using uint_neg [of d] False by (simp add: uint_sub_if' unsigned_minus_1_eq_mask mask_eq_exp_minus_1)
    ultimately have "uint (NOT d) < int (2 ^ 21)" by simp
    then show ?thesis using unat_less_uint by blast
  qed
  then show ?thesis by (auto simp: canBeImm21Neg_def canBeImm_def isRepresentable_one [unfolded One_nat_def])
qed

lemma adr_block:
  assumes "xreg r" "\<bar>sint (v - a)\<bar> < 2 ^ 20"
  shows "\<exists>w. block_assemble adrExpr [ucast r, v] a = Inr [w] \<and>
    (\<forall>mem s. pc s = a \<longrightarrow> a64_do mem w s = Some (set_x r v (next_pc s)))"
proof -
  have d: "- (2 ^ 20) \<le> sint (v - a)" "sint (v - a) < 2 ^ 20" using assms(2) by auto
  obtain w where w: "asm_Adr False r v a = Inr w"
    using canBeImm21Neg_small [OF d] xreg_facts [OF assms(1)] by (simp add: asm_Adr_def Let_def)
  have "a64_do mem w s = Some (set_x r v (next_pc s))" if "pc s = a" for mem s
    using asm_Adr_exec [OF w d that] asm_Adr_decode(1) [OF w] wr_X_set_x(1) [OF assms(1)]
    by (simp add: a64_do_def)
  then show ?thesis using assemble_blocks(1) [OF assms(1)] w by simp
qed

lemma adrp_block:
  assumes "xreg r" "v AND mask 12 = 0"
    "\<bar>sint (signed_drop_bit 12 (v - (a AND NOT (mask 12))))\<bar> < 2 ^ 20"
  shows "\<exists>w. block_assemble adrpExpr [ucast r, v] a = Inr [w] \<and>
    (\<forall>mem s. pc s = a \<longrightarrow> a64_do mem w s = Some (set_x r v (next_pc s)))"
proof -
  have d: "- (2 ^ 20) \<le> sint (signed_drop_bit 12 (v - (a AND NOT (mask 12))))"
    "sint (signed_drop_bit 12 (v - (a AND NOT (mask 12)))) < 2 ^ 20" using assms(3) by auto
  have page: "isAlignedPage v"
    using assms(2) and_not_mask_eq_minus [of v 12]
    by (simp add: isAlignedPage_def alignDown_def cPageSize_def mask_eq_exp_minus_1)
  have m: "hk_bits 12 = mask 12" by (simp add: hk_bits_eq_mask)
  obtain w where w: "asm_Adr True r v a = Inr w"
    using canBeImm21Neg_small [OF d] xreg_facts [OF assms(1)] page
    by (simp add: asm_Adr_def Let_def m)
  have "a64_do mem w s = Some (set_x r v (next_pc s))" if "pc s = a" for mem s
    using asm_Adrp_exec [OF w d that] asm_Adr_decode(1) [OF w] wr_X_set_x(1) [OF assms(1)]
    by (simp add: a64_do_def)
  then show ?thesis using assemble_blocks(2) [OF assms(1)] w by simp
qed

lemma add_block:
  assumes "xreg r" "unat v < 2 ^ 12"
  shows "\<exists>w. block_assemble addExpr [ucast r, ucast r, v] a = Inr [w] \<and>
    (\<forall>mem s. a64_do mem w s = Some (set_x r (regs s (ucast r) + v) (next_pc s)))"
proof -
  have "v AND mask 12 = v" using assms(2) by (simp add: and_mask_eq_iff_unat)
  then have b: "bit v n \<Longrightarrow> n < 12" for n by (metis bit_and_iff bit_mask_iff)
  have "bit (ucast (ucast v :: u32) :: u64) n = bit v n" for n
    using bit_less_64 [of v n] b [of n] by (auto simp: bit_simps)
  then have "ucast (ucast v :: u32) = v" by (auto intro: bit_eqI)
  then have "canBeImm12Shift2x (ucast (ucast v :: u32))"
    using assms(2) by (simp add: canBeImm12Shift2x_def canBeImm_def isRepresentable_def hk_bits_eq_mask
        and_mask_eq_iff_unat numeral_2_eq_2)
  then obtain w where w: "asm_AddSubImm True r r v = Inr w" by (simp add: asm_AddSubImm_def Let_def)
  have "a64_do mem w s = Some (set_x r (regs s (ucast r) + v) (next_pc s))" for mem s
    using asm_AddSubImm_do [OF w assms(2)] wr_X_set_x(2) [OF assms(1)] rd_X_set_x(2) [OF assms(1)]
      xreg_facts(2) [OF assms(1)]
    by (simp add: sized_def)
  then show ?thesis using assemble_blocks(3) [OF assms(1)] w by simp
qed

definition put16 :: "nat \<Rightarrow> u16 \<Rightarrow> u64 \<Rightarrow> u64" where
  "put16 i v old = (old AND NOT (push_bit (16 * i) (mask 16))) OR push_bit (16 * i) (ucast v)"

lemma bit_less_16: "bit (v :: u16) n \<Longrightarrow> n < 16"
  by (drule bit_imp_le_length) simp

lemma bit_put16:
  "n < 64 \<Longrightarrow> bit (put16 i v old) n \<longleftrightarrow>
    (if 16 * i \<le> n \<and> n < 16 * i + 16 then bit v (n - 16 * i) else bit old n)"
  by (auto simp: put16_def bit_simps dest: bit_less_16)

lemma bit_half16: "n < 16 \<Longrightarrow> bit (half16 i v) n \<longleftrightarrow> bit v (16 * i + n)"
  by (auto simp: half16_def hk_bits_eq_mask bit_simps dest: bit_less_64)

lemma canBeImm16_u16: "canBeImm16Shift4xNeg (ucast (v :: u16))"
proof -
  have "in_slot 0 (ucast v)" by (auto simp: in_slot_def bit_simps dest: bit_less_16)
  then show ?thesis
    by (auto simp: canBeImm16Shift4xNeg_def canBeImm_def isRepresentable_slot)
qed

lemma movk_block:
  assumes r: "xreg r" and i: "i < 4"
  shows "\<exists>w. (\<forall>a. block_assemble movkExpr [ucast r, ucast v, of_nat (i * 16)] a = Inr [w]) \<and>
    (\<forall>mem s. a64_do mem w s = Some (set_x r (put16 i v (regs s (ucast r))) (next_pc s)))"
proof -
  have c: "i = 0 \<or> i = 1 \<or> i = 2 \<or> i = 3" using i by auto
  have hw: "of_nat (i * 16) = (0 :: u64) \<or> of_nat (i * 16) = (16 :: u64) \<or>
      of_nat (i * 16) = (32 :: u64) \<or> of_nat (i * 16) = (48 :: u64)"
    using c by auto
  obtain w where w: "asm_Movk r (ucast v) (of_nat (i * 16)) = Inr w"
    using canBeImm16_u16 [of v] hw by (simp add: asm_Movk_def)
  have h: "ucast ((of_nat i * 16 :: u64) div 16) = (of_nat i :: u32)" using c by auto
  have u: "unat (of_nat i :: u32) = i" using c by auto
  have f: "ucast (field 15 0 (ucast (ucast v :: u64) :: u32)) = (ucast v :: u64)"
    by (rule bit_word_eqI) (auto simp: bit_field bit_simps dest: bit_less_16)
  have "movw_result True 3 (of_nat i) (field 15 0 (ucast (ucast v :: u64))) old = put16 i v old" for old
    by (simp add: movw_result_def u f put16_def sized_def Let_def)
  then have "a64_do mem w s = Some (set_x r (put16 i v (regs s (ucast r))) (next_pc s))" for mem s
    using asm_Movk_decode [OF w] xreg_facts(2) [OF r] wr_X_set_x(1) [OF r] rd_X_set_x(1) [OF r]
    by (simp add: a64_do_def h a64_exec_def)
  then show ?thesis using assemble_blocks(5) [OF r] w by simp
qed

section \<open>Appending\<close>

definition emits :: "emitter \<Rightarrow> emitter \<Rightarrow> Instr list \<Rightarrow> bool" where
  "emits e e' ws \<longleftrightarrow> vec_ok (em_out e') \<and> elems (em_out e') = elems (em_out e) @ ws \<and>
     em_rx e' = em_rx e \<and> v_cap (em_out e') = v_cap (em_out e) \<and>
     v_size (em_out e') = v_size (em_out e) + length ws"

lemma emits_trans: "emits e e' ws \<Longrightarrow> emits e' e'' vs \<Longrightarrow> emits e e'' (ws @ vs)"
  by (simp add: emits_def)

lemma emits_addr: "emits e e' ws \<Longrightarrow> calcCurRxAddr e' = calcCurRxAddr e + of_nat (length ws) * 4"
  by (simp add: emits_def calcCurRxAddr_def calcCurOffset_def algebra_simps)

definition room_for :: "nat \<Rightarrow> emitter \<Rightarrow> bool" where
  "room_for n e \<longleftrightarrow> vec_ok (em_out e) \<and> v_size (em_out e) + n \<le> v_cap (em_out e)"

lemma room_for_emits: "room_for n e \<Longrightarrow> emits e e' ws \<Longrightarrow> length ws + m \<le> n \<Longrightarrow> room_for m e'"
  by (simp add: room_for_def emits_def)

lemma room_for_le: "room_for n e \<Longrightarrow> m \<le> n \<Longrightarrow> room_for m e"
  by (simp add: room_for_def)

lemma emit_many_ok:
  assumes "room_for (length ws) e"
  shows "\<exists>e'. emit_many ws e = Inr e' \<and> emits e e' ws"
proof -
  have v: "vec_ok (em_out e)" "v_size (em_out e) + length ws \<le> v_cap (em_out e)"
    using assms by (simp_all add: room_for_def)
  obtain out where out: "vec_append ws (em_out e) = Inr out" "vec_ok out"
    "elems out = elems (em_out e) @ ws" "v_cap out = v_cap (em_out e)"
    using vec_append_spec [OF v] by blast
  then have "v_size out = v_size (em_out e) + length ws"
    using length_elems [OF out(2)] length_elems [OF v(1)] by simp
  with out show ?thesis by (simp add: emit_many_def emits_def)
qed

lemma emit_one_many: "emit_one w e = Inr e' \<Longrightarrow> vec_ok (em_out e) \<Longrightarrow> emits e e' [w]"
proof -
  assume one: "emit_one w e = Inr e'" and v: "vec_ok (em_out e)"
  then have c: "v_size (em_out e) < v_cap (em_out e)"
    by (auto simp: emit_one_def vec_add_def)
  obtain out where out: "vec_add w (em_out e) = Inr out" "vec_ok out"
    "elems out = elems (em_out e) @ [w]" "v_cap out = v_cap (em_out e)"
    using vec_add_spec [OF v c] by blast
  then have "v_size out = v_size (em_out e) + 1"
    using length_elems [OF out(2)] length_elems [OF v] by simp
  with out one show ?thesis by (auto simp: emit_one_def emits_def)
qed

lemma emit_one_ok:
  assumes "room_for 1 e"
  shows "\<exists>e'. emit_one w e = Inr e' \<and> emits e e' [w]"
proof -
  have "\<exists>e'. emit_one w e = Inr e'"
    using assms by (simp add: emit_one_def vec_add_def room_for_def Let_def)
  then show ?thesis using emit_one_many assms by (auto simp: room_for_def)
qed

lemma emit_block_ok:
  assumes "block_assemble is args a = Inr ws" "room_for (length ws) e"
  shows "\<exists>e'. emit_block is args a e = Inr e' \<and> emits e e' ws"
  using emit_many_ok [OF assms(2)] assms(1) by (simp add: emit_block_def)

section \<open>The four moves\<close>

definition movk_value :: "u64 \<Rightarrow> u64 \<Rightarrow> nat list \<Rightarrow> u64 \<Rightarrow> u64" where
  "movk_value x pc0 is old =
     fold (\<lambda>i old. if half16 i x = half16 i pc0 then old else put16 i (half16 i x) old) is old"

definition after :: "nat \<Rightarrow> IRegType \<Rightarrow> u64 \<Rightarrow> cpu \<Rightarrow> cpu" where
  "after n r v s = set_x r v (s\<lparr>pc := pc s + of_nat n * 4\<rparr>)"

lemma after_Suc: "after n r v (set_x r v' (next_pc s)) = after (Suc n) r v s"
  by (simp add: after_def set_x_def next_pc_def algebra_simps)

lemma pc_next_pc: "pc (next_pc s) = pc s + 4"
  by (simp add: next_pc_def)

lemma after_0: "after 0 r (regs s (ucast r)) s = s"
  by (simp add: after_def set_x_def)

lemma emit_movk_loop_ok:
  assumes r: "xreg r"
  shows "list_all (\<lambda>i. i < 4) is \<Longrightarrow>
    room_for (length (filter (\<lambda>i. half16 i x \<noteq> half16 i pc0) is)) e \<Longrightarrow>
    \<exists>ws e'. emit_movk_loop r x pc0 ss is e = Inr e' \<and> emits e e' ws \<and>
      length ws = length (filter (\<lambda>i. half16 i x \<noteq> half16 i pc0) is) \<and>
      (\<forall>mem s. straight mem ws s (after (length ws) r (movk_value x pc0 is (regs s (ucast r))) s))"
proof (induction "is" arbitrary: e)
  case Nil
  then show ?case
    by (intro exI [of _ "[]"] exI [of _ e]) (simp add: emits_def room_for_def movk_value_def after_0)
next
  case (Cons i "is")
  show ?case
  proof (cases "half16 i x = half16 i pc0")
    case True
    then show ?thesis using Cons by (simp add: movk_value_def)
  next
    case False
    let ?n = "length (filter (\<lambda>i. half16 i x \<noteq> half16 i pc0) is)"
    obtain w where w: "\<And>a. block_assemble movkExpr [ucast r, ucast (half16 i x), of_nat (i * 16)] a = Inr [w]"
      "\<And>mem s. a64_do mem w s = Some (set_x r (put16 i (half16 i x) (regs s (ucast r))) (next_pc s))"
      using movk_block [OF r, of i "half16 i x"] Cons.prems(1) by auto
    obtain e1 where e1: "emit_block movkExpr [ucast r, ucast (half16 i x), of_nat (i * 16)]
        (of_nat ((v_size (em_out e) - ss) * 4)) e = Inr e1" "emits e e1 [w]"
      using emit_block_ok [OF w(1)] Cons.prems(2) False room_for_le [of "Suc ?n" e 1] by auto
    have "room_for ?n e1"
      using room_for_emits [OF Cons.prems(2) e1(2), of ?n] False by simp
    then obtain ws e2 where IH: "emit_movk_loop r x pc0 ss is e1 = Inr e2" "emits e1 e2 ws" "length ws = ?n"
      "\<And>mem s. straight mem ws s (after (length ws) r (movk_value x pc0 is (regs s (ucast r))) s)"
      using Cons.IH [of e1] Cons.prems(1) by auto
    have "straight mem (w # ws) s (after (length (w # ws)) r (movk_value x pc0 (i # is) (regs s (ucast r))) s)"
      for mem s
    proof -
      let ?v = "put16 i (half16 i x) (regs s (ucast r))"
      have "straight mem ws (set_x r ?v (next_pc s))
          (after (length ws) r (movk_value x pc0 is ?v) (set_x r ?v (next_pc s)))"
        using IH(4) [of mem "set_x r ?v (next_pc s)"] by (simp del: set_x_simps(2))
      then show ?thesis
        using False by (simp add: w(2) after_Suc pc_next_pc movk_value_def del: set_x_simps(2))
    qed
    then show ?thesis
      using e1 IH False emits_trans [OF e1(2) IH(2)]
      by (intro exI [of _ "w # ws"] exI [of _ e2]) simp
  qed
qed

lemma bit_movk_value:
  "n < 64 \<Longrightarrow> list_all (\<lambda>i. i < 4) is \<Longrightarrow>
    bit (movk_value x pc0 is old) n \<longleftrightarrow>
      (if n div 16 \<in> set is \<and> half16 (n div 16) x \<noteq> half16 (n div 16) pc0 then bit x n else bit old n)"
proof (induction "is" arbitrary: old)
  case Nil
  then show ?case by (simp add: movk_value_def)
next
  case (Cons i "is")
  have "bit (put16 i (half16 i x) old) n \<longleftrightarrow> (if n div 16 = i then bit x n else bit old n)"
  proof (cases "n div 16 = i")
    case True
    then have "16 * i \<le> n" "n < 16 * i + 16" by auto
    then show ?thesis using True Cons.prems by (simp add: bit_put16 bit_half16)
  next
    case False
    then have "\<not> (16 * i \<le> n \<and> n < 16 * i + 16)" by auto
    then show ?thesis using False Cons.prems by (auto simp add: bit_put16)
  qed
  moreover have "movk_value x pc0 (i # is) old =
      movk_value x pc0 is (if half16 i x = half16 i pc0 then old else put16 i (half16 i x) old)"
    by (simp add: movk_value_def)
  ultimately show ?case using Cons by auto
qed

lemma movk_value_all:
  assumes "list_ex (\<lambda>i. half16 i x = half16 i pc0) [0, 1, 2, 3] \<Longrightarrow> old = pc0"
  shows "movk_value x pc0 [0, 1, 2, 3] old = x"
proof (rule bit_word_eqI)
  fix n assume "n < LENGTH(64)"
  then have n: "n < 64" by simp
  then have "n div 16 < 4" by auto
  then have i: "n div 16 \<in> set [0, 1, 2, 3]" by auto
  have m: "16 * (n div 16) + n mod 16 = n" "n mod 16 < 16" by simp_all
  have "bit old n = bit x n" if eq: "half16 (n div 16) x = half16 (n div 16) pc0"
  proof -
    have "list_ex (\<lambda>i. half16 i x = half16 i pc0) [0, 1, 2, 3]"
      using eq i by (auto simp: list_ex_iff)
    then have "old = pc0" by (rule assms)
    then show ?thesis using bit_half16 [OF m(2), of "n div 16" x] bit_half16 [OF m(2), of "n div 16" pc0] eq m(1) by simp
  qed
  then show "bit (movk_value x pc0 [0, 1, 2, 3] old) n = bit x n"
    using i by (subst bit_movk_value [OF n]) auto
qed

end
