(* ===== verification/A64EmitMain.thy ===== *)
theory A64EmitMain
  imports A64EmitCorrect
begin

text \<open>
  The emitter's two promises: a 64-bit constant is in its register after the emitted instructions, in at
  most four of them, and an emitted branch reaches its target, near or far.
\<close>

lemma adrAdrpMaxDiff_uint: "uint adrAdrpMaxDiff = 2 ^ 20 - 1"
  by code_simp

lemma page_div_less: "\<bar>d\<bar> div 4096 \<le> 1048575 \<Longrightarrow> \<bar>d :: int\<bar> < 4294967296"
  using div_mult_mod_eq [of "\<bar>d\<bar>" 4096] pos_mod_bound [of 4096 "\<bar>d\<bar>"] by linarith

lemma page_div_minus:
  assumes "\<bar>d :: int\<bar> div 4096 \<le> 1048575" "d mod 4096 = 0"
  shows "\<bar>- d div 4096\<bar> < 1048576"
proof -
  obtain k where k: "d = 4096 * k" using assms(2) by (auto elim: dvdE)
  have "- d div 4096 = - k" using nonzero_mult_div_cancel_left [of 4096 "- k"] by (simp add: k)
  moreover have "\<bar>d\<bar> div 4096 = \<bar>k\<bar>" by (simp add: k abs_mult)
  ultimately show ?thesis using assms(1) by simp
qed

lemma mod_4096_unsigned: "(d + 18446744073709551616) mod 4096 = 0 \<Longrightarrow> (d :: int) mod 4096 = 0"
proof -
  have "(d + 4503599627370496 * 4096) mod 4096 = d mod 4096" by (simp only: mod_mult_self1)
  then show "(d + 18446744073709551616) mod 4096 = 0 \<Longrightarrow> ?thesis" by simp
qed

lemma page_distance:
  assumes a: "(v :: u64) AND mask 12 = 0" "p AND mask 12 = 0"
    and d: "s64_abs (p - v) div cPageSize \<le> adrAdrpMaxDiff"
  shows "\<bar>sint (signed_drop_bit 12 (v - p))\<bar> < 2 ^ 20"
proof -
  define D where "D = sint (p - v)"
  have "uint (s64_abs (p - v) div cPageSize) \<le> 2 ^ 20 - 1"
    using d by (simp only: word_le_def adrAdrpMaxDiff_uint)
  then have q: "\<bar>D\<bar> div 4096 \<le> 1048575"
    unfolding D_def by (simp add: uint_div cPageSize_def uint_s64_abs)
  have "D \<noteq> - (2 ^ 63)" using page_div_less [OF q] by auto
  then have "sint (- (p - v)) = - D" unfolding D_def by (rule sint_minus_64)
  then have neg: "sint (v - p) = - D" by (simp only: minus_diff_eq)
  have "unat ((p - v) AND mask 12) = 0" using aligned_minus_aligned [OF a(2,1)] by simp
  then have "unat (p - v) mod 4096 = 0" by (simp add: unat_and_mask)
  then have "int (unat (p - v) mod 4096) = int 0" by (rule arg_cong)
  then have "uint (p - v) mod 4096 = 0" by (simp add: of_nat_mod)
  then have "D mod 4096 = 0"
    using uint_nonneg [of "p - v", folded D_def] uint_neg [of "p - v", folded D_def] mod_4096_unsigned [of D]
    by (cases "0 \<le> D") simp_all
  then have "\<bar>- D div 4096\<bar> < 1048576" by (rule page_div_minus [OF q])
  moreover have "sint (signed_drop_bit 12 (v - p)) = - D div 4096"
    by (simp only: sint_signed_drop_bit_eq drop_bit_eq_div neg) simp
  ultimately show ?thesis by simp
qed

lemma emitMov_ok:
  assumes r: "xreg r" and room: "room_for 4 e"
  shows "\<exists>n ws e'. emitMovImmediate64 False r x e = Inr (n, e') \<and> emits e e' ws \<and> length ws = n \<and>
    n \<le> 4 \<and> (\<forall>mem s. pc s = calcCurRxAddr e \<longrightarrow> straight mem ws s (after n r x s))"
proof -
  let ?pc = "calcCurRxAddr e" and ?up = "x AND NOT (mask 12)" and ?pg = "calcCurRxAddr e AND NOT (mask 12)"
  have m: "hk_bits 12 = mask 12" by (simp add: hk_bits_eq_mask)
  note def = emitMovImmediate64_def Let_def m
  consider (near) "s64_abs (?pc - x) \<le> adrAdrpMaxDiff"
    | (page) "\<not> s64_abs (?pc - x) \<le> adrAdrpMaxDiff" "s64_abs (?pg - ?up) div cPageSize \<le> adrAdrpMaxDiff"
    | (far) "\<not> s64_abs (?pc - x) \<le> adrAdrpMaxDiff" "\<not> s64_abs (?pg - ?up) div cPageSize \<le> adrAdrpMaxDiff"
    by blast
  then show ?thesis
  proof cases
    case near
    have "\<bar>sint (x - ?pc)\<bar> < 2 ^ 20"
      using s64_abs_swap [OF near] adrAdrpMaxDiff_uint by simp
    from adr_block [OF r this] obtain w where w: "block_assemble adrExpr [ucast r, x] ?pc = Inr [w]"
      "\<And>mem s. pc s = ?pc \<Longrightarrow> a64_do mem w s = Some (set_x r x (next_pc s))" by blast
    obtain e' where e': "emit_block adrExpr [ucast r, x] ?pc e = Inr e'" "emits e e' [w]"
      using emit_block_ok [OF w(1), of e] room_for_le [OF room, of 1] by auto
    show ?thesis
      by (rule exI [of _ 1], rule exI [of _ "[w]"], rule exI [of _ e'])
        (use near e' w(2) in \<open>auto simp: def after_def set_x_def next_pc_def\<close>)
  next
    case page
    have up: "?up AND mask 12 = 0" "?pg AND mask 12 = 0" by (rule and_not_mask_and_mask)+
    from adrp_block [OF r up(1) page_distance [OF up page(2)]]
    obtain w where w: "block_assemble adrpExpr [ucast r, ?up] ?pc = Inr [w]"
      "\<And>mem s. pc s = ?pc \<Longrightarrow> a64_do mem w s = Some (set_x r ?up (next_pc s))" by blast
    obtain e1 where e1: "emit_block adrpExpr [ucast r, ?up] ?pc e = Inr e1" "emits e e1 [w]"
      using emit_block_ok [OF w(1), of e] room_for_le [OF room, of 1] by auto
    show ?thesis
    proof (cases "?up = x")
      case True
      then show ?thesis
        by (intro exI [of _ 1] exI [of _ "[w]"] exI [of _ e1])
          (use page e1 w(2) in \<open>auto simp: def after_def set_x_def next_pc_def\<close>)
    next
      case False
      have low: "unat (x AND mask 12) < 2 ^ 12" by (simp add: unat_and_mask)
      from add_block [OF r low] obtain v where v: "block_assemble addExpr [ucast r, ucast r, x AND mask 12] (?pc + 4) = Inr [v]"
        "\<And>mem s. a64_do mem v s = Some (set_x r (regs s (ucast r) + (x AND mask 12)) (next_pc s))" by blast
      have "room_for 1 e1" using room_for_emits [OF room e1(2)] by simp
      then obtain e2 where e2: "emit_block addExpr [ucast r, ucast r, x AND mask 12] (?pc + 4) e1 = Inr e2" "emits e1 e2 [v]"
        using emit_block_ok [OF v(1)] by auto
      have sum: "?up + (x AND mask 12) = x" by (simp add: and_not_mask_eq_minus)
      show ?thesis
        by (intro exI [of _ 2] exI [of _ "[w, v]"] exI [of _ e2])
          (use page False e1 e2 emits_trans [OF e1(2) e2(2)] w(2) v(2) sum in
            \<open>auto simp: def after_def set_x_def next_pc_def\<close>)
    qed
  next
    case far
    let ?any = "list_ex (\<lambda>i. half16 i x = half16 i ?pc) [0, 1, 2, 3]"
    let ?n = "length (filter (\<lambda>i. half16 i x \<noteq> half16 i ?pc) [0, 1, 2, 3])"
    have cnt: "?n \<le> 4" "?any \<Longrightarrow> ?n \<le> 3" by auto
    show ?thesis
    proof (cases ?any)
      case False
      obtain ws e' where L: "emit_movk_loop r x ?pc (v_size (em_out e)) [0, 1, 2, 3] e = Inr e'" "emits e e' ws"
        "length ws = ?n"
        "\<And>mem s. straight mem ws s (after (length ws) r (movk_value x ?pc [0, 1, 2, 3] (regs s (ucast r))) s)"
        using emit_movk_loop_ok [OF r, of "[0, 1, 2, 3]" x ?pc e "v_size (em_out e)"] room_for_le [OF room cnt(1)]
        by auto
      have "movk_value x ?pc [0, 1, 2, 3] old = x" for old
        using movk_value_all [of x ?pc old] False by blast
      then show ?thesis
        by (intro exI [of _ "length ws"] exI [of _ ws] exI [of _ e'])
          (use far False L cnt(1) in \<open>auto simp: def emit_movs_def emits_def\<close>)
    next
      case True
      have "\<bar>sint (?pc - ?pc)\<bar> < 2 ^ 20" by simp
      from adr_block [OF r this] obtain w where w: "block_assemble adrExpr [ucast r, ?pc] ?pc = Inr [w]"
        "\<And>mem s. pc s = ?pc \<Longrightarrow> a64_do mem w s = Some (set_x r ?pc (next_pc s))" by blast
      obtain e1 where e1: "emit_block adrExpr [ucast r, ?pc] ?pc e = Inr e1" "emits e e1 [w]"
        using emit_block_ok [OF w(1), of e] room_for_le [OF room, of 1] by auto
      have "room_for ?n e1" using room_for_emits [OF room e1(2), of ?n] cnt(2) [OF True] by simp
      then obtain ws e' where L: "emit_movk_loop r x ?pc (v_size (em_out e)) [0, 1, 2, 3] e1 = Inr e'" "emits e1 e' ws"
        "length ws = ?n"
        "\<And>mem s. straight mem ws s (after (length ws) r (movk_value x ?pc [0, 1, 2, 3] (regs s (ucast r))) s)"
        using emit_movk_loop_ok [OF r, of "[0, 1, 2, 3]" x ?pc e1 "v_size (em_out e)"] by auto
      have v: "movk_value x ?pc [0, 1, 2, 3] ?pc = x" by (rule movk_value_all) simp
      have run: "straight mem (w # ws) s (after (length (w # ws)) r x s)" if s: "pc s = ?pc" for mem s
        using L(4) [of mem "set_x r ?pc (next_pc s)"] w(2) [OF s]
        by (simp add: v [simplified] after_Suc pc_next_pc del: set_x_simps(2))
      show ?thesis
        by (intro exI [of _ "length (w # ws)"] exI [of _ "w # ws"] exI [of _ e'])
          (use far True e1 L cnt(2) emits_trans [OF e1(2) L(2)] run in \<open>auto simp: def emit_movs_def emits_def\<close>)
    qed
  qed
qed

section \<open>Unconditional branches\<close>

lemma cMaxBranchDistance_uint: "uint cMaxBranchDistance = 2 ^ 27 - 1"
  by code_simp

lemma field_branch_word:
  assumes "k = 5 \<or> k = (37 :: u32)"
  shows "field 25 0 ((rel AND cImm26Mask) OR push_bit 26 k) = field 25 0 rel"
    "field 31 26 ((rel AND cImm26Mask) OR push_bit 26 k) = k"
proof -
  have m: "cImm26Mask = mask 26" by code_simp
  show "field 25 0 ((rel AND cImm26Mask) OR push_bit 26 k) = field 25 0 rel"
    unfolding m by (rule bit_word_eqI) (auto simp: bit_field bit_simps)
  have k: "k AND mask 6 = k" using assms by (auto simp: mask_eq_exp_minus_1)
  then have b: "bit k n \<Longrightarrow> n < 6" for n by (metis bit_and_iff bit_mask_iff)
  show "field 31 26 ((rel AND cImm26Mask) OR push_bit 26 k) = k"
    unfolding m
  proof (rule bit_word_eqI)
    fix n
    show "bit (field 31 26 ((rel AND mask 26) OR push_bit 26 k)) n = bit k n"
      using b [of n] by (auto simp: bit_field bit_simps)
  qed
qed

lemma decode_branch:
  assumes "field 31 26 w = 5 \<or> field 31 26 w = (37 :: u32)"
  shows "a64_decode w = Some (I_B (field 31 26 w = 37) (field 25 0 w))"
proof -
  let ?k = "field 31 26 w"
  have b2: "bit (field 28 24 w) 2"
  proof -
    have "bit (field 28 24 w) 2 \<longleftrightarrow> bit ?k 0" by (simp add: bit_field)
    then show ?thesis using assms by auto
  qed
  have ne: "field 28 24 w \<noteq> 16" "field 28 24 w \<noteq> 17" "field 28 24 w \<noteq> 18" "field 28 24 w \<noteq> 10"
    "field 28 24 w \<noteq> 11"
    using b2 by auto
  have sub: "field 30 30 w = field 4 4 ?k" "field 29 26 w = field 3 0 ?k" "field 31 31 w = field 5 5 ?k"
    by (simp_all add: word_field)
  have "\<not> flag 30 w" "field 29 26 w = 5" "flag 31 w \<longleftrightarrow> ?k = 37"
    unfolding flag_def sub using assms by (elim disjE; simp only: field_numeral; simp)+
  then show ?thesis using ne by (simp add: a64_decode_def)
qed

lemma aligned_sint_mod:
  assumes "(v :: u64) AND mask k = 0" "k \<le> 64"
  shows "sint v mod 2 ^ k = 0"
proof -
  have "take_bit k (sint v) = take_bit k (uint v)"
    using assms(2) by (simp add: uint_sint take_bit_take_bit min_def)
  also have "\<dots> = uint (take_bit k v)" by (simp add: unsigned_take_bit_eq)
  also have "take_bit k v = 0" using assms(1) by (simp only: take_bit_eq_mask)
  finally show ?thesis by (simp add: take_bit_eq_mod)
qed

lemma sint_ucast_32:
  assumes "- (2 ^ 31) \<le> sint (g :: u64)" "sint g < 2 ^ 31"
  shows "sint (ucast g :: u32) = sint g"
proof -
  have "sint (ucast g :: u32) = signed_take_bit 31 (take_bit 32 (uint g))"
    by (simp add: sint_uint [of "ucast g :: u32"] unsigned_ucast_eq)
  also have "uint g = take_bit 64 (sint g)" by (simp only: uint_sint len64)
  also have "signed_take_bit 31 (take_bit 32 (take_bit 64 (sint g))) = signed_take_bit 31 (take_bit 32 (sint g))"
    by simp
  also have "\<dots> = signed_take_bit 31 (sint g)" by (simp add: signed_take_bit_take_bit)
  also have "\<dots> = sint g" using assms by (intro signed_take_bit_int_eq_self) simp_all
  finally show ?thesis .
qed

lemma sdiv_4: "(4 * q :: int) sdiv 4 = q"
  by (simp add: signed_divide_int_def abs_mult sgn_mult mult_sgn_abs)

lemma makeBranch_do:
  fixes a t :: u64
  assumes al: "(t - a) AND mask 2 = 0" and d: "s64_abs (t - a) \<le> cMaxBranchDistance" and s: "pc s = a"
  shows "a64_do mem (makeUnconditionalBranch op a t) s =
    Some ((if op = BranchLink then wr_X 30 (a + 4) s else s)\<lparr>pc := t\<rparr>)"
proof -
  let ?g = "t - a"
  have g: "\<bar>sint ?g\<bar> \<le> 2 ^ 27 - 1"
    using d by (simp only: s64_abs_le cMaxBranchDistance_uint)
  let ?q = "signed_drop_bit 2 ?g"
  have q4: "push_bit 2 ?q = ?g" by (rule push_signed_drop_bit [OF al]) simp
  have sq: "sint ?q = sint ?g div 4" by (simp add: sint_signed_drop_bit_eq drop_bit_eq_div)
  have sg: "sint ?g = 4 * sint ?q"
    using aligned_sint_mod [OF al] sq by (simp add: mod_eq_0_iff_dvd)
  have sr: "sint (ucast ?g :: u32) = sint ?g"
    using g by (intro sint_ucast_32) (auto simp: abs_le_iff)
  have rel: "word_of_int (sint (ucast ?g :: u32) sdiv 4) = (ucast ?q :: u32)"
    unfolding sr sg sdiv_4 by (rule bit_word_eqI) (simp add: bit_simps)
  let ?k = "branch_op_code op"
  let ?w = "(ucast ?q AND cImm26Mask) OR push_bit 26 ?k"
  have w: "makeUnconditionalBranch op a t = ?w"
    by (simp only: makeUnconditionalBranch_def makeUnconditionalBranchRelative_def Let_def rel)
  have k: "?k = 5 \<or> ?k = 37" by (cases op) simp_all
  note f = field_branch_word [OF k, of "ucast ?q"]
  have dec: "a64_decode ?w = Some (I_B (op = BranchLink) (field 25 0 (ucast ?q)))"
  proof -
    have "?k = 37 \<longleftrightarrow> op = BranchLink" by (cases op) simp_all
    then show ?thesis using decode_branch [of ?w, unfolded f, OF k] by (simp only:)
  qed
  have "sx 26 (field (26 - 1) 0 (ucast ?q)) = ?q"
    using g sg by (intro sx_field) auto
  moreover have "?q * 4 = ?g" using q4 by (simp add: push_bit_eq_mult mult.commute)
  ultimately show ?thesis
    unfolding w by (simp add: a64_do_def dec a64_exec_def s Let_def)
qed

section \<open>The emitted code\<close>

lemma emits_code_at:
  assumes "emits e e' ws" "vec_ok (em_out e)" "code_at mem (em_rx e') (elems (em_out e'))"
  shows "code_at mem (calcCurRxAddr e) ws"
  using assms
  by (simp add: emits_def code_at_append calcCurRxAddr_def calcCurOffset_def mult.commute)

text \<open>
  C11: moving a constant into a register.  With room for four instructions,
  \<^verbatim>\<open>emitMovImmediate64\<close> always succeeds, emits at most four, and executing them from the address
  they were emitted for leaves exactly the constant in the register, changes nothing else, and
  ends right behind them: whichever of ADR, ADRP with ADD, or ADR with MOVK it chose for the
  distance between the code and the constant.
\<close>

theorem emitMovImmediate64_loads_constant:
  assumes "xreg r" "room_for 4 e"
  shows "\<exists>n e'. emitMovImmediate64 False r x e = Inr (n, e') \<and> n \<le> 4 \<and>
    (\<forall>mem s. pc s = calcCurRxAddr e \<and> code_at mem (em_rx e') (elems (em_out e')) \<longrightarrow>
      a64_run mem n s = Some (s\<lparr>regs := (regs s)(ucast r := x), pc := pc s + of_nat n * 4\<rparr>))"
proof -
  obtain n ws e' where e': "emitMovImmediate64 False r x e = Inr (n, e')" "emits e e' ws" "length ws = n" "n \<le> 4"
    "\<And>mem s. pc s = calcCurRxAddr e \<Longrightarrow> straight mem ws s (after n r x s)"
    using emitMov_ok [OF assms, of x] by blast
  have "a64_run mem n s = Some (after n r x s)"
    if s: "pc s = calcCurRxAddr e" and c: "code_at mem (em_rx e') (elems (em_out e'))" for mem s
    using run_straight [OF e'(5) [OF s]] emits_code_at [OF e'(2) _ c] assms(2) s e'(3)
    by (simp add: room_for_def)
  then show ?thesis using e'(1,4) by (auto simp: after_def set_x_def)
qed

definition example_emitter :: "nat \<Rightarrow> u64 \<Rightarrow> emitter" where
  "example_emitter capacity rx =
     \<lparr>em_out = \<lparr>v_data = replicate capacity 0, v_size = 0, v_cap = capacity, v_raw = 0\<rparr>, em_rx = rx\<rparr>"

lemma example_room: "n \<le> capacity \<Longrightarrow> room_for n (example_emitter capacity rx)"
  by (simp add: room_for_def example_emitter_def vec_ok_def)

lemma emitMovImmediate64_loads_constant_witness:
  "\<exists>n e'. emitMovImmediate64 False reg_IP0 0x123456789ABCDEF0 (example_emitter 5 0x8000) = Inr (n, e') \<and> n \<le> 4"
proof -
  have "xreg reg_IP0" by code_simp
  from emitMovImmediate64_loads_constant [OF this example_room [of 4 5 "0x8000"], of "0x123456789ABCDEF0"]
  show ?thesis by auto
qed

lemma cBr_eq: "cBr = Inr 0xD61F0200" "cBlr = Inr 0xD63F0200"
  unfolding cBr_def cBlr_def block_eqs by code_simp+

lemma br_ip_do:
  "a64_do mem 0xD61F0200 s = Some (s\<lparr>pc := regs s 16\<rparr>)"
  "a64_do mem 0xD63F0200 s = Some ((wr_X 30 (pc s + 4) s)\<lparr>pc := regs s 16\<rparr>)"
proof -
  have "a64_decode 0xD61F0200 = Some (I_BR 16)" "a64_decode 0xD63F0200 = Some (I_BLR 16)" by code_simp+
  then show "a64_do mem 0xD61F0200 s = Some (s\<lparr>pc := regs s 16\<rparr>)"
    "a64_do mem 0xD63F0200 s = Some ((wr_X 30 (pc s + 4) s)\<lparr>pc := regs s 16\<rparr>)"
    by (simp_all add: a64_do_def a64_exec_def rd_X_def)
qed

definition branch_result :: "bool \<Rightarrow> u64 \<Rightarrow> nat \<Rightarrow> cpu \<Rightarrow> cpu \<Rightarrow> bool" where
  "branch_result link to n s s' \<longleftrightarrow> pc s' = to \<and> sp s' = sp s \<and>
     (link \<longrightarrow> regs s' 30 = pc s + of_nat n * 4) \<and>
     (\<forall>r. r \<noteq> 16 \<longrightarrow> \<not> (link \<and> r = 30) \<longrightarrow> regs s' r = regs s r) \<and>
     flag_N s' = flag_N s \<and> flag_Z s' = flag_Z s \<and> flag_C s' = flag_C s \<and> flag_V s' = flag_V s"

lemma emitBranch_ok:
  assumes room: "room_for 5 e" and al: "(to - calcCurRxAddr e) AND mask 2 = 0"
  shows "\<exists>n ws e'. emitBranch False to link e = Inr (n, e') \<and> emits e e' ws \<and> length ws = n \<and> n \<le> 5 \<and>
    (\<forall>mem s. pc s = calcCurRxAddr e \<and> code_at mem (calcCurRxAddr e) ws \<longrightarrow>
      (\<exists>s'. a64_run mem n s = Some s' \<and> branch_result link to n s s'))"
proof -
  let ?a = "calcCurRxAddr e"
  show ?thesis
  proof (cases "s64_abs (to - ?a) \<le> cMaxBranchDistance")
    case True
    define w where "w = (if link then makeBL ?a to else makeB ?a to)"
    obtain e' where e': "emit_one w e = Inr e'" "emits e e' [w]"
      using emit_one_ok room_for_le [OF room, of 1] by auto
    have "\<exists>s'. a64_run mem 1 s = Some s' \<and> branch_result link to 1 s s'"
      if "pc s = ?a" "code_at mem ?a [w]" for mem s
    proof -
      have "mem (pc s) = w" using that by (simp add: code_at_Cons)
      moreover have "a64_do mem w s = Some ((if link then wr_X 30 (?a + 4) s else s)\<lparr>pc := to\<rparr>)"
        using makeBranch_do [OF al True that(1), of mem] by (simp add: w_def makeB_def makeBL_def)
      ultimately have "a64_run mem 1 s = Some ((if link then wr_X 30 (?a + 4) s else s)\<lparr>pc := to\<rparr>)"
        by (simp add: a64_step_do)
      then show ?thesis using that(1) by (auto simp: branch_result_def wr_X_def)
    qed
    then show ?thesis
      using e' True by (intro exI [of _ 1] exI [of _ "[w]"] exI [of _ e'])
        (auto simp: emitBranch_def Let_def w_def)
  next
    case False
    have ip: "xreg reg_IP0" "ucast reg_IP0 = (16 :: u32)" by code_simp+
    obtain n ws e1 where e1: "emitMovImmediate64 False reg_IP0 to e = Inr (n, e1)" "emits e e1 ws" "length ws = n" "n \<le> 4"
      "\<And>mem s. pc s = ?a \<Longrightarrow> straight mem ws s (after n reg_IP0 to s)"
      using emitMov_ok [OF ip(1) room_for_le [OF room, of 4], of to] by auto
    define w where "w = (if link then 0xD63F0200 else (0xD61F0200 :: u32))"
    have "room_for 1 e1" using room_for_emits [OF room e1(2), of 1] e1(3,4) by simp
    then obtain e2 where e2: "emit_one w e1 = Inr e2" "emits e1 e2 [w]" using emit_one_ok by auto
    have "\<exists>s'. a64_run mem (n + 1) s = Some s' \<and> branch_result link to (n + 1) s s'"
      if s: "pc s = ?a" and c: "code_at mem ?a (ws @ [w])" for mem s
    proof -
      let ?t = "after n reg_IP0 to s"
      have c': "code_at mem (pc s) ws" "mem (pc s + of_nat n * 4) = w"
        using c e1(3) s by (simp_all add: code_at_append code_at_Cons)
      have "a64_run mem n s = Some ?t"
        using run_straight [OF e1(5) [OF s] c'(1)] e1(3) by simp
      moreover have "pc ?t = pc s + of_nat n * 4" "regs ?t 16 = to" by (simp_all add: after_def ip)
      moreover have "a64_run mem 1 ?t = Some ((if link then wr_X 30 (pc ?t + 4) ?t else ?t)\<lparr>pc := regs ?t 16\<rparr>)"
        using c'(2) calculation(2) by (simp add: a64_step_do w_def br_ip_do)
      ultimately have "a64_run mem (n + 1) s = Some ((if link then wr_X 30 (pc ?t + 4) ?t else ?t)\<lparr>pc := to\<rparr>)"
        by (simp only: a64_run_add bind.simps)
      then show ?thesis
        by (auto simp: branch_result_def wr_X_def after_def set_x_def ip algebra_simps)
    qed
    then show ?thesis
      using e1 e2 False emits_trans [OF e1(2) e2(2)]
      by (intro exI [of _ "n + 1"] exI [of _ "ws @ [w]"] exI [of _ e2]; cases link)
        (simp_all add: emitBranch_def Let_def w_def cBr_eq)
  qed
qed

section \<open>The literal behind the code\<close>

lemma code_at_elems: "code_at mem a (v_data v) \<Longrightarrow> v_size v \<le> length (v_data v) \<Longrightarrow> code_at mem a (elems v)"
  by (simp add: code_at_def elems_def)

lemma code_at_nth: "code_at mem a ws \<Longrightarrow> i < length ws \<Longrightarrow> mem (a + of_nat i * 4) = ws ! i"
  by (simp add: code_at_def)

lemma aligned_add_4: "(oa :: u64) AND mask 2 = 0 \<Longrightarrow> (oa + x * 4) AND mask 2 = 0"
proof -
  have "(- x * 4) AND mask 2 = (0 :: u64)"
    using push_bit_and_mask [of 2 "- x"] by (simp add: push_bit_eq_mult mult.commute)
  then show "oa AND mask 2 = 0 \<Longrightarrow> ?thesis"
    using aligned_minus_aligned [of oa 2 "- x * 4"] by simp
qed

lemma halves_of_literal:
  "push_bit 32 (ucast (ucast (drop_bit 32 x AND hk_bits 32) :: u32)) OR ucast (ucast (x AND hk_bits 32) :: u32) = (x :: u64)"
proof (rule bit_word_eqI)
  fix n assume "n < LENGTH(64)"
  then show "bit (push_bit 32 (ucast (ucast (drop_bit 32 x AND hk_bits 32) :: u32)) OR
      ucast (ucast (x AND hk_bits 32) :: u32) :: u64) n = bit x n"
    using le_add_diff_inverse [of 32 n] by (cases "n < 32") (auto simp: hk_bits_eq_mask bit_simps)
qed

lemma ldr_block:
  assumes r: "xreg r" and a: "a AND mask 2 = 0" and l: "l = a + of_nat k * 4" and k: "k < 2 ^ 18"
  shows "\<exists>w. block_assemble ldrExpr [ucast r, l] a = Inr [w] \<and>
    (\<forall>mem s. pc s = a \<longrightarrow> a64_do mem w s = Some (set_x r
      (push_bit 32 (ucast (mem (l + 4))) OR ucast (mem l)) (next_pc s)))"
proof -
  have u: "unat (l - a) = k * 4" using k by (simp add: l unat_word_ariths unat_of_nat)
  have al: "l AND mask 2 = 0" unfolding l by (rule aligned_add_4 [OF a])
  have "unat (branch_diff l a) < 2 ^ 19" using k u by (simp add: unat_branch_diff [OF a])
  then have "canBeImm19Neg (branch_diff l a)" using canBe_branch [of 19 l a] by (simp add: canBe_branch_defs)
  then obtain w where w: "asm_LdrLiteral r l a = Inr w" by (simp add: asm_LdrLiteral_def Let_def)
  have "a64_do mem w s = Some (set_x r
      (push_bit 32 (ucast (mem (l + 4))) OR ucast (mem l)) (next_pc s))" if "pc s = a" for mem s
    using asm_LdrLiteral_do [OF w a al _ that, of mem] u k xreg_facts(2) [OF r] wr_X_set_x(1) [OF r] by simp
  then show ?thesis using assemble_blocks(4) [OF r] w by simp
qed

lemma emit_ldr_literal_ok:
  assumes r: "xreg r" and room: "room_for 5 e" and al: "em_rx e AND mask 2 = 0" and cap: "v_cap (em_out e) < 2 ^ 18"
  defines "k \<equiv> v_cap (em_out e) - 3"
  shows "\<exists>w e'. emit_ldr_literal r x e = Inr (1, e') \<and> vec_ok (em_out e') \<and> room_for 1 e' \<and>
    elems (em_out e') = elems (em_out e) @ [w] \<and> em_rx e' = em_rx e \<and> v_size (em_out e') + 1 \<le> k \<and>
    k + 1 < length (v_data (em_out e')) \<and>
    v_size (em_out e') = v_size (em_out e) + 1 \<and>
    v_data (em_out e') ! k = ucast (x AND hk_bits 32) \<and>
    v_data (em_out e') ! (k + 1) = ucast (drop_bit 32 x AND hk_bits 32) \<and>
    (\<forall>mem s. pc s = calcCurRxAddr e \<longrightarrow> mem (em_rx e + of_nat k * 4) = ucast (x AND hk_bits 32) \<longrightarrow>
      mem (em_rx e + of_nat (k + 1) * 4) = ucast (drop_bit 32 x AND hk_bits 32) \<longrightarrow>
      a64_do mem w s = Some (set_x r x (next_pc s)))"
proof -
  let ?a = "calcCurRxAddr e" and ?n = "v_size (em_out e)" and ?c = "v_cap (em_out e)"
  have v: "vec_ok (em_out e)" and n: "?n + 5 \<le> ?c" using room by (simp_all add: room_for_def)
  have a: "?a AND mask 2 = 0"
    using aligned_add_4 [OF al, of "of_nat ?n"] by (simp add: calcCurRxAddr_def calcCurOffset_def mult.commute)
  have l: "em_rx e + of_nat k * 4 = ?a + of_nat (k - ?n) * 4"
    using n by (simp add: k_def calcCurRxAddr_def calcCurOffset_def of_nat_diff algebra_simps)
  obtain w where w: "block_assemble ldrExpr [ucast r, em_rx e + of_nat k * 4] ?a = Inr [w]"
    "\<And>mem s. pc s = ?a \<Longrightarrow> a64_do mem w s = Some (set_x r
      (push_bit 32 (ucast (mem (em_rx e + of_nat k * 4 + 4))) OR ucast (mem (em_rx e + of_nat k * 4))) (next_pc s))"
    using ldr_block [OF r a l less_imp_diff_less] cap unfolding k_def by (meson less_imp_diff_less)
  obtain e1 where e1: "emit_block ldrExpr [ucast r, em_rx e + of_nat k * 4] ?a e = Inr e1" "emits e e1 [w]"
    using emit_block_ok [OF w(1), of e] room_for_le [OF room, of 1] by auto
  have e1': "vec_ok (em_out e1)" "elems (em_out e1) = elems (em_out e) @ [w]" "em_rx e1 = em_rx e"
    "v_cap (em_out e1) = ?c" "v_size (em_out e1) = ?n + 1"
    using e1(2) by (simp_all add: emits_def)
  define out where "out = (em_out e1)\<lparr>v_data := (v_data (em_out e1))[k := ucast (x AND hk_bits 32),
      k + 1 := ucast (drop_bit 32 x AND hk_bits 32)], v_cap := ?c - 2\<rparr>"
  have "emit_ldr_literal r x e = Inr (1, e1\<lparr>em_out := out\<rparr>)"
    using n e1 e1'(4) by (simp add: emit_ldr_literal_def Let_def out_def k_def)
  moreover have len: "?c \<le> length (v_data (em_out e1))" using e1'(1,4) by (simp add: vec_ok_def)
  moreover have "elems out = elems (em_out e1)"
    using n by (simp add: elems_def out_def e1'(5) k_def)
  ultimately show ?thesis
    using n e1' w(2)
    by (intro exI [of _ w] exI [of _ "e1\<lparr>em_out := out\<rparr>"])
      (simp add: out_def vec_ok_def room_for_def k_def halves_of_literal algebra_simps, arith)
qed

lemma emitMov_variants:
  "emitMovImmediate64 True r x e = emitMovImmediate64 False r x e \<or>
   emitMovImmediate64 True r x e = emit_ldr_literal r x e"
  by (simp add: emitMovImmediate64_def Let_def)

lemma emitBranch_literal_ok:
  assumes room: "room_for 5 e" and al: "em_rx e AND mask 2 = 0" and cap: "v_cap (em_out e) < 2 ^ 18"
    and far: "\<not> s64_abs (to - calcCurRxAddr e) \<le> cMaxBranchDistance"
    and lit: "emitMovImmediate64 True reg_IP0 to e = emit_ldr_literal reg_IP0 to e"
  shows "\<exists>e'. emitBranch True to link e = Inr (2, e') \<and>
    (\<forall>mem s. pc s = calcCurRxAddr e \<and> code_at mem (em_rx e') (v_data (em_out e')) \<longrightarrow>
      (\<exists>s'. a64_run mem 2 s = Some s' \<and> branch_result link to 2 s s'))"
proof -
  let ?a = "calcCurRxAddr e" and ?n = "v_size (em_out e)" and ?k = "v_cap (em_out e) - 3"
  have ip: "xreg reg_IP0" "ucast reg_IP0 = (16 :: u32)" by code_simp+
  obtain w e1 where e1: "emit_ldr_literal reg_IP0 to e = Inr (1, e1)" "vec_ok (em_out e1)" "room_for 1 e1"
    "elems (em_out e1) = elems (em_out e) @ [w]" "em_rx e1 = em_rx e" "v_size (em_out e1) + 1 \<le> ?k"
    "?k + 1 < length (v_data (em_out e1))" "v_size (em_out e1) = ?n + 1"
    "v_data (em_out e1) ! ?k = ucast (to AND hk_bits 32)"
    "v_data (em_out e1) ! (?k + 1) = ucast (drop_bit 32 to AND hk_bits 32)"
    and do: "\<And>mem s. pc s = ?a \<Longrightarrow> mem (em_rx e + of_nat ?k * 4) = ucast (to AND hk_bits 32) \<Longrightarrow>
      mem (em_rx e + of_nat (?k + 1) * 4) = ucast (drop_bit 32 to AND hk_bits 32) \<Longrightarrow>
      a64_do mem w s = Some (set_x reg_IP0 to (next_pc s))"
    using emit_ldr_literal_ok [OF ip(1) room al cap, of to] by blast
  define br where "br = (if link then 0xD63F0200 else (0xD61F0200 :: u32))"
  obtain e2 where e2: "emit_one br e1 = Inr e2" "emits e1 e2 [br]" using emit_one_ok [OF e1(3)] by blast
  have d2: "v_data (em_out e2) = (v_data (em_out e1))[?n + 1 := br]" "em_rx e2 = em_rx e"
    using e2(1) e1(3,5,8) by (auto simp: emit_one_def vec_add_def Let_def room_for_def)
  have w: "v_data (em_out e1) ! ?n = w"
  proof -
    have "elems (em_out e1) ! ?n = w"
      using e1(4) room by (simp add: nth_append room_for_def)
    then show ?thesis using e1(8) by (simp add: elems_def)
  qed
  have data: "v_data (em_out e2) ! ?n = w" "v_data (em_out e2) ! (?n + 1) = br"
    "v_data (em_out e2) ! ?k = ucast (to AND hk_bits 32)"
    "v_data (em_out e2) ! (?k + 1) = ucast (drop_bit 32 to AND hk_bits 32)"
    using e1(6-10) w by (simp_all add: d2)
  have "\<exists>s'. a64_run mem 2 s = Some s' \<and> branch_result link to 2 s s'"
    if s: "pc s = ?a" and c: "code_at mem (em_rx e2) (v_data (em_out e2))" for mem s
  proof -
    have m: "mem (em_rx e + of_nat i * 4) = v_data (em_out e2) ! i" if "i \<le> ?k + 1" for i
      using code_at_nth [OF c, of i] that e1(7) by (simp add: d2)
    have a: "pc s = em_rx e + of_nat ?n * 4" "pc s + 4 = em_rx e + of_nat (?n + 1) * 4"
      using s by (simp_all add: calcCurRxAddr_def calcCurOffset_def mult.commute distrib_left)
    let ?t = "set_x reg_IP0 to (next_pc s)"
    have "a64_step mem s = Some ?t"
      using do [OF s] m [of ?k] m [of "?k + 1"] m [of ?n] a(1) data e1(6,8) by (simp add: a64_step_do)
    moreover have "mem (pc s + 4) = br"
      unfolding a(2) using m [of "?n + 1"] data(2) e1(6,8) by simp
    then have "a64_step mem ?t = Some ((if link then wr_X 30 (pc ?t + 4) ?t else ?t)\<lparr>pc := to\<rparr>)"
      by (simp add: a64_step_do br_def br_ip_do ip next_pc_def)
    ultimately have "a64_run mem 2 s = Some ((if link then wr_X 30 (pc ?t + 4) ?t else ?t)\<lparr>pc := to\<rparr>)"
      by (simp add: numeral_2_eq_2)
    then show ?thesis by (auto simp: branch_result_def wr_X_def set_x_def next_pc_def ip)
  qed
  then show ?thesis
    using e1(1) e2(1) far lit
    by (intro exI [of _ e2]; cases link) (simp_all add: emitBranch_def Let_def br_def cBr_eq)
qed

text \<open>
  C12: branching to an absolute address, in both variants of the emitter: the one that builds a far
  target with moves and the one that stores it as a literal at the end of the buffer and loads it.
  With room for five words and a target a whole number of instructions away, \<^verbatim>\<open>emitBranch\<close> always
  succeeds and counts at most five instructions; executing them from the address they were emitted
  for ends with the program counter at the target, the return address in X30 when linking, and
  every other register but X16 and the flags unchanged, for a target within 128 MiB and for any
  other.  For the variant with literals the buffer is word-aligned, shorter than 1 MiB, and in
  memory with its literals.  Five words of room are needed: in the four words that the
  variant's documentation names the branch overwrites its own literal, as
  \<open>branch_overwrites_its_literal\<close> shows.
\<close>

theorem emitBranch_reaches_target:
  assumes "room_for 5 e" "(to - calcCurRxAddr e) AND mask 2 = 0"
    "CanUseInstrAsData \<Longrightarrow> em_rx e AND mask 2 = 0 \<and> v_cap (em_out e) < 2 ^ 18"
  shows "\<exists>n e'. emitBranch CanUseInstrAsData to link e = Inr (n, e') \<and> n \<le> 5 \<and>
    (\<forall>mem s. pc s = calcCurRxAddr e \<and>
        code_at mem (em_rx e') (if CanUseInstrAsData then v_data (em_out e') else elems (em_out e')) \<longrightarrow>
      (\<exists>s'. a64_run mem n s = Some s' \<and> branch_result link to n s s'))"
proof (cases "emitBranch CanUseInstrAsData to link e = emitBranch False to link e")
  case True
  obtain n ws e' where e': "emitBranch False to link e = Inr (n, e')" "emits e e' ws" "n \<le> 5"
    "\<And>mem s. pc s = calcCurRxAddr e \<Longrightarrow> code_at mem (calcCurRxAddr e) ws \<Longrightarrow>
      \<exists>s'. a64_run mem n s = Some s' \<and> branch_result link to n s s'"
    using emitBranch_ok [OF assms(1,2), of link] by blast
  have v: "vec_ok (em_out e)" "v_size (em_out e') \<le> length (v_data (em_out e'))"
    using assms(1) e'(2) by (simp_all add: room_for_def emits_def vec_ok_def)
  then have "code_at mem (em_rx e') (elems (em_out e'))"
    if "code_at mem (em_rx e') (if CanUseInstrAsData then v_data (em_out e') else elems (em_out e'))" for mem
    using that code_at_elems by (auto split: if_splits)
  then show ?thesis using True e' emits_code_at [OF e'(2) v(1)] by metis
next
  case False
  then have c: "CanUseInstrAsData = True" by (cases CanUseInstrAsData) simp_all
  have far: "\<not> s64_abs (to - calcCurRxAddr e) \<le> cMaxBranchDistance"
    using False by (cases "s64_abs (to - calcCurRxAddr e) \<le> cMaxBranchDistance") (simp_all add: emitBranch_def Let_def)
  have "emitMovImmediate64 True reg_IP0 to e \<noteq> emitMovImmediate64 False reg_IP0 to e"
    using False by (auto simp only: c emitBranch_def)
  then have "emitMovImmediate64 True reg_IP0 to e = emit_ldr_literal reg_IP0 to e"
    using emitMov_variants [of reg_IP0 to e] by blast
  then show ?thesis
    using emitBranch_literal_ok [OF assms(1), of to link] assms(3) c far by (intro exI [of _ 2]) auto
qed

lemma emitBranch_reaches_target_witness:
  "\<exists>n e' m e''. emitBranch False 0x123456789ABCDEF0 True (example_emitter 5 0x8000) = Inr (n, e') \<and> n \<le> 5 \<and>
    emitBranch True 0x123456789ABCDEF0 False (example_emitter 5 0x8000) = Inr (m, e'') \<and> m \<le> 5 \<and>
    (\<forall>mem s. pc s = 0x8000 \<and> code_at mem (em_rx e'') (v_data (em_out e'')) \<longrightarrow>
      (\<exists>s'. a64_run mem m s = Some s' \<and> branch_result False 0x123456789ABCDEF0 m s s'))"
proof -
  have a: "calcCurRxAddr (example_emitter 5 0x8000) = 0x8000"
    by (simp add: calcCurRxAddr_def calcCurOffset_def example_emitter_def)
  have b: "(0x123456789ABCDEF0 - calcCurRxAddr (example_emitter 5 0x8000)) AND mask 2 = 0"
    by (simp add: a mask_eq_exp_minus_1)
  have c: "em_rx (example_emitter 5 0x8000) AND mask 2 = 0 \<and> v_cap (em_out (example_emitter 5 0x8000)) < 2 ^ 18"
    by (simp add: example_emitter_def mask_eq_exp_minus_1)
  from emitBranch_reaches_target [OF example_room [of 5 5 "0x8000"] b, of False True]
    emitBranch_reaches_target [OF example_room [of 5 5 "0x8000"] b, of True False] c
  show ?thesis unfolding a by auto
qed

text \<open>
  the variant that stores the constant behind the code overlaps its own literal.  It puts
  the two words at \<open>capacity - 3\<close> and \<open>capacity - 2\<close> but keeps index \<open>capacity - 3\<close> usable, so in
  a buffer of the documented size, two instructions and two words at the end, the branch through
  X16 overwrites the low word of the address it is about to load.
\<close>

theorem branch_overwrites_its_literal:
  "\<exists>e'. emitBranch True 0x123456789ABCDEF0 False (example_emitter 4 0x8000) = Inr (2, e') \<and>
    elems (em_out e') = [0x58000030, 0xD61F0200] \<and>
    v_data (em_out e') ! 1 \<noteq> 0x9ABCDEF0 \<and> v_data (em_out e') ! 2 = 0x12345678 \<and>
    a64_decode 0x58000030 = Some (I_LDRL True 1 16)"
proof -
  have "case emitBranch True 0x123456789ABCDEF0 False (example_emitter 4 0x8000) of
      Inr (n, e') \<Rightarrow> n = 2 \<and> elems (em_out e') = [0x58000030, 0xD61F0200] \<and>
        v_data (em_out e') ! 1 \<noteq> 0x9ABCDEF0 \<and> v_data (em_out e') ! 2 = 0x12345678
    | Inl _ \<Rightarrow> False"
    by code_simp
  moreover have "a64_decode 0x58000030 = Some (I_LDRL True 1 16)" by code_simp
  ultimately show ?thesis by (auto split: sum.splits)
qed

end
