(* ===== verification/Trampoline.thy ===== *)
theory Trampoline
  imports A64EmitMain
begin

text \<open>
  Trampolines: the copy of the overwritten instructions that calls the original function
  (\<^verbatim>\<open>hk/hook/Trampoline.cpp\<close>, \<^verbatim>\<open>hk/hook/Trampoline.h\<close>, the AArch64 half).  An instruction that
  reads the program counter is rewritten so that it has the same effect at its new address.
\<close>

section \<open>Relocating one instruction\<close>

definition bcondExpr where "bcondExpr = constexpr_block ''b.() #{}''"
definition cbzExpr where "cbzExpr = constexpr_block ''cbz (), #{}''"
definition cbnzExpr where "cbnzExpr = constexpr_block ''cbnz (), #{}''"
definition tbzExpr where "tbzExpr = constexpr_block ''tbz (), {}, #{}''"
definition tbnzExpr where "tbnzExpr = constexpr_block ''tbnz (), {}, #{}''"

text \<open>\<^verbatim>\<open>out\<close> and the emitter's \<^verbatim>\<open>mOut\<close> are one vector, so the emitter carries it.\<close>

definition calcRxAddr :: "emitter \<Rightarrow> nat \<Rightarrow> u64" where
  "calcRxAddr e idx = em_rx e + of_nat idx * 4"

definition out_store :: "nat \<Rightarrow> Instr \<Rightarrow> emitter \<Rightarrow> emitter run" where
  "out_store idx w e =
    (let out = em_out e in
     abort_unless (idx < v_size out) ''at: out of range''
       (Inr (e\<lparr>em_out := out\<lparr>v_data := (v_data out)[idx := w]\<rparr>\<rparr>)))"

text \<open>
  The three conditional branches share their shape: a placeholder, the branch to the original
  target, then the placeholder is overwritten with the inverted condition over that branch.
\<close>

definition emit_inverted :: "(u64 \<Rightarrow> u64 \<Rightarrow> Instr run) \<Rightarrow> u64 \<Rightarrow> emitter \<Rightarrow> emitter run" where
  "emit_inverted inverted addr e =
    (let idx = v_size (em_out e); condPc = calcRxAddr e idx in
     bindR (emit_one 0 e) (\<lambda>e.
       bindR (emitBranch True addr False e) (\<lambda>(n, e).
         let returnPc = calcRxAddr e (v_size (em_out e)) in
         bindR (inverted returnPc condPc) (\<lambda>w. out_store idx w e))))"

definition relocate :: "Instr \<Rightarrow> u64 \<Rightarrow> bool \<Rightarrow> bool \<times> emitter \<Rightarrow> (bool \<times> emitter) run" where
  "relocate orig origAddr isLast st =
    (let (skipReturn, e) = st; keep = (\<lambda>e. Inr (skipReturn, e));
         isB = cw_test cwB orig; isBL = cw_test cwBL orig;
         isCbz = cw_test cwCbz orig; isCbnz = cw_test cwCbnz orig;
         isTbz = cw_test cwTbz orig; isTbnz = cw_test cwTbnz orig
     in
     if cw_test cwAdr orig \<or> cw_test cwAdrp orig then
       (let rd = grabRd orig; addr = grabAdrAdrpAddr orig origAddr in
        bindR (emitMovImmediate64 True rd addr e) (\<lambda>(n, e). keep e))
     else if isB \<or> isBL then
       (let addr = grabBBLAddr orig origAddr in
        abort_unless (isB \<longrightarrow> isLast) ''cannot return from this situation''
          (bindR (emitBranch True addr isBL e) (\<lambda>(n, e). Inr (if isB then True else skipReturn, e))))
     else if cw_test cwBcond orig then
       abort_unless isLast ''cannot return from this situation''
         (let addr = grabBcondCbzCbnzLdrRelativeAddr orig origAddr;
              condInv = ucast (grabBcondCond orig XOR 1) :: u8
          in bindR (emit_inverted (\<lambda>ret at. block_assembleOne bcondExpr [ucast condInv, ret] 0 at) addr e) keep)
     else if isCbz \<or> isCbnz then
       abort_unless isLast ''cannot return from this situation''
         (let rt = grabRd orig; addr = grabBcondCbzCbnzLdrRelativeAddr orig origAddr in
          bindR (emit_inverted (\<lambda>ret at.
              if isCbnz then block_assembleOne cbzExpr [ucast rt, ret] 0 at
              else block_assembleOne cbnzExpr [ucast rt, ret] 0 at) addr e) keep)
     else if isTbz \<or> isTbnz then
       abort_unless isLast ''cannot return from this situation''
         (let rt = grabRd orig; addr = grabTbzTbnzAddr orig origAddr;
              bitIdx = grabTbzTbnzBitIndex orig
          in bindR (emit_inverted (\<lambda>ret at.
              if isTbnz then block_assembleOne tbzExpr [ucast rt, ucast bitIdx, ret] 0 at
              else block_assembleOne tbnzExpr [ucast rt, ucast bitIdx, ret] 0 at) addr e) keep)
     else
       abort_unless (\<not> cw_test cwLdrLiteral orig) ''LDR(literal) not supported''
         (bindR (emit_one orig e) keep))"

section \<open>The whole trampoline\<close>

definition emitReturn :: "u64 \<Rightarrow> emitter \<Rightarrow> emitter run" where
  "emitReturn origReturnAddr e = bindR (emitB True origReturnAddr e) (\<lambda>(n, e). Inr e)"

fun relocate_loop :: "Instr list \<Rightarrow> nat \<Rightarrow> nat \<Rightarrow> u64 \<Rightarrow> bool \<times> emitter \<Rightarrow> (bool \<times> emitter) run" where
  "relocate_loop [] i n origAddr st = Inr st"
| "relocate_loop (origInstr # orig) i n origAddr st =
     bindR (relocate origInstr (origAddr + of_nat i * 4) (i = n - 1) st)
       (relocate_loop orig (i + 1) n origAddr)"

definition makeTrampolineBackup ::
  "Instr list \<Rightarrow> u64 \<Rightarrow> u64 \<Rightarrow> Instr vec \<Rightarrow> u64 \<Rightarrow> (nat \<times> Instr vec) run" where
  "makeTrampolineBackup orig origAddr origReturnAddr out trampolineRx =
    abort_unless ((origAddr - origReturnAddr) mod 4 = 0) ''AssertionFailed''
      (bindR (relocate_loop orig 0 (length orig) origAddr (False, \<lparr>em_out = out, em_rx = trampolineRx\<rparr>))
        (\<lambda>(skipReturn, e).
          bindR (if skipReturn then Inr e else emitReturn origReturnAddr e) (\<lambda>e.
            Inr (v_size (em_out e), em_out e))))"

section \<open>Backups (Trampoline.h)\<close>

text \<open>How many instructions a backup holds, by \<^verbatim>\<open>HK_HOOK_TRAMPOLINE_LEVEL\<close>.\<close>

definition TrampolineBackup_MaxNumInstrs :: "nat \<Rightarrow> nat" where
  "TrampolineBackup_MaxNumInstrs level = (if level = 0 then 2 else if level = 1 then 5 else 5 * 5)"

definition backup_new :: "nat \<Rightarrow> Instr vec" where
  "backup_new level = (let n = TrampolineBackup_MaxNumInstrs level in
     \<lparr>v_data = replicate n 0, v_size = 0, v_cap = n, v_raw = 0\<rparr>)"

text \<open>A backup is written through the writable mapping and runs from the executable one.\<close>

definition backup_getRx :: "u64 \<Rightarrow> u64 \<Rightarrow> u64 \<Rightarrow> u64" where
  "backup_getRx cTrampolinesBeginRx cTrampolineRwMap this = cTrampolinesBeginRx + (this - cTrampolineRwMap)"

definition backup_getRw :: "u64 \<Rightarrow> u64 \<Rightarrow> u64 \<Rightarrow> u64" where
  "backup_getRw cTrampolinesBeginRx cTrampolineRwMap this = cTrampolineRwMap + (this - cTrampolinesBeginRx)"

definition backup_make :: "nat \<Rightarrow> u64 \<Rightarrow> u64 \<Rightarrow> u64 \<Rightarrow> Instr list \<Rightarrow> u64 \<Rightarrow> u64 \<Rightarrow> (nat \<times> Instr vec) run" where
  "backup_make level beginRx rwMap this orig origAddr origReturnAddr =
     makeTrampolineBackup orig origAddr origReturnAddr (backup_new level) (backup_getRx beginRx rwMap this)"

definition backup_clear :: "nat \<Rightarrow> Instr list \<Rightarrow> Instr list" where
  "backup_clear level instrs = fill 0 (TrampolineBackup_MaxNumInstrs level) 0 instrs"

section \<open>Patterns and decoding\<close>

lemma all_less_upt: "(\<forall>i<n. P i) \<longleftrightarrow> list_all P [0..<n]"
  by (auto simp: list_all_iff)

lemma field_eq_iff:
  assumes "l \<le> h" "h < 32" "unat c < 2 ^ (Suc h - l)"
  shows "field h l (w :: u32) = c \<longleftrightarrow> list_all (\<lambda>i. bit w (l + i) = bit c i) [0..<Suc h - l]"
proof -
  have c: "bit c i \<Longrightarrow> i < Suc h - l" for i
    using assms(3) by (metis and_mask_eq_iff_unat bit_and_iff bit_mask_iff)
  have "field h l w = c \<longleftrightarrow> (\<forall>i. bit (field h l w) i = bit c i)" by (auto intro: bit_word_eqI)
  also have "\<dots> \<longleftrightarrow> (\<forall>i<Suc h - l. bit w (l + i) = bit c i)"
    using c assms(1) by (auto simp: bit_field dest: c)
  finally show ?thesis by (simp only: all_less_upt)
qed

lemma upt_32: "[0..<32] = [0, 1, 2, 3, 4, 5, 6, 7, 8, 9, 10, 11, 12, 13, 14, 15,
    16, 17, 18, 19, 20, 21, 22, 23, 24, 25, 26, 27, 28, 29, 30, 31]"
  by (simp add: upt_rec)

lemma cw_test_32:
  assumes "wc_of_string e \<noteq> None" "length e = 32"
  shows "cw_test (wc_of_string e) w \<longleftrightarrow>
    list_all (\<lambda>i. rev e ! i \<noteq> CHR ''?'' \<longrightarrow> (bit w i \<longleftrightarrow> rev e ! i = CHR ''1'')) [0, 1, 2, 3, 4, 5, 6, 7, 8, 9, 10, 11, 12, 13, 14, 15,
      16, 17, 18, 19, 20, 21, 22, 23, 24, 25, 26, 27, 28, 29, 30, 31]"
  using assms by (cases "wc_of_string e") (simp_all add: cw_test_def wc_of_string_test wc_matches_def all_less_upt upt_32)

lemma cwAdr_iff: "cw_test cwAdr w \<longleftrightarrow> field 28 24 w = 0b10000 \<and> \<not> bit w 31"
proof -
  have "cwAdr \<noteq> None" by code_simp
  then have e: "cw_test cwAdr w \<longleftrightarrow> list_all (\<lambda>i. rev ''0??10000????????????????????????'' ! i \<noteq> CHR ''?'' \<longrightarrow>
      (bit w i \<longleftrightarrow> rev ''0??10000????????????????????????'' ! i = CHR ''1'')) [0, 1, 2, 3, 4, 5, 6, 7, 8, 9, 10, 11, 12, 13, 14, 15,
        16, 17, 18, 19, 20, 21, 22, 23, 24, 25, 26, 27, 28, 29, 30, 31]"
    unfolding cwAdr_def by (rule cw_test_32) simp
  show ?thesis unfolding e by (simp add: field_eq_iff upt_rec conj_ac)
qed

lemma cwAdrp_iff: "cw_test cwAdrp w \<longleftrightarrow> field 28 24 w = 0b10000 \<and> bit w 31"
proof -
  have "cwAdrp \<noteq> None" by code_simp
  then have e: "cw_test cwAdrp w \<longleftrightarrow> list_all (\<lambda>i. rev ''1??10000????????????????????????'' ! i \<noteq> CHR ''?'' \<longrightarrow>
      (bit w i \<longleftrightarrow> rev ''1??10000????????????????????????'' ! i = CHR ''1'')) [0, 1, 2, 3, 4, 5, 6, 7, 8, 9, 10, 11, 12, 13, 14, 15,
        16, 17, 18, 19, 20, 21, 22, 23, 24, 25, 26, 27, 28, 29, 30, 31]"
    unfolding cwAdrp_def by (rule cw_test_32) simp
  show ?thesis unfolding e by (simp add: field_eq_iff upt_rec conj_ac)
qed

lemma cwB_iff: "cw_test cwB w \<longleftrightarrow> field 31 26 w = 0b000101"
proof -
  have "cwB \<noteq> None" by code_simp
  then have e: "cw_test cwB w \<longleftrightarrow> list_all (\<lambda>i. rev ''000101??????????????????????????'' ! i \<noteq> CHR ''?'' \<longrightarrow>
      (bit w i \<longleftrightarrow> rev ''000101??????????????????????????'' ! i = CHR ''1'')) [0, 1, 2, 3, 4, 5, 6, 7, 8, 9, 10, 11, 12, 13, 14, 15,
        16, 17, 18, 19, 20, 21, 22, 23, 24, 25, 26, 27, 28, 29, 30, 31]"
    unfolding cwB_def by (rule cw_test_32) simp
  show ?thesis unfolding e by (simp add: field_eq_iff upt_rec conj_ac)
qed

lemma cwBL_iff: "cw_test cwBL w \<longleftrightarrow> field 31 26 w = 0b100101"
proof -
  have "cwBL \<noteq> None" by code_simp
  then have e: "cw_test cwBL w \<longleftrightarrow> list_all (\<lambda>i. rev ''100101??????????????????????????'' ! i \<noteq> CHR ''?'' \<longrightarrow>
      (bit w i \<longleftrightarrow> rev ''100101??????????????????????????'' ! i = CHR ''1'')) [0, 1, 2, 3, 4, 5, 6, 7, 8, 9, 10, 11, 12, 13, 14, 15,
        16, 17, 18, 19, 20, 21, 22, 23, 24, 25, 26, 27, 28, 29, 30, 31]"
    unfolding cwBL_def by (rule cw_test_32) simp
  show ?thesis unfolding e by (simp add: field_eq_iff upt_rec conj_ac)
qed

lemma cwBcond_iff: "cw_test cwBcond w \<longleftrightarrow> field 31 24 w = 0b01010100 \<and> \<not> bit w 4"
proof -
  have "cwBcond \<noteq> None" by code_simp
  then have e: "cw_test cwBcond w \<longleftrightarrow> list_all (\<lambda>i. rev ''01010100???????????????????0????'' ! i \<noteq> CHR ''?'' \<longrightarrow>
      (bit w i \<longleftrightarrow> rev ''01010100???????????????????0????'' ! i = CHR ''1'')) [0, 1, 2, 3, 4, 5, 6, 7, 8, 9, 10, 11, 12, 13, 14, 15,
        16, 17, 18, 19, 20, 21, 22, 23, 24, 25, 26, 27, 28, 29, 30, 31]"
    unfolding cwBcond_def by (rule cw_test_32) simp
  show ?thesis unfolding e by (simp add: field_eq_iff upt_rec conj_ac)
qed

lemma cwCbz_iff: "cw_test cwCbz w \<longleftrightarrow> field 30 24 w = 0b0110100"
proof -
  have "cwCbz \<noteq> None" by code_simp
  then have e: "cw_test cwCbz w \<longleftrightarrow> list_all (\<lambda>i. rev ''?0110100????????????????????????'' ! i \<noteq> CHR ''?'' \<longrightarrow>
      (bit w i \<longleftrightarrow> rev ''?0110100????????????????????????'' ! i = CHR ''1'')) [0, 1, 2, 3, 4, 5, 6, 7, 8, 9, 10, 11, 12, 13, 14, 15,
        16, 17, 18, 19, 20, 21, 22, 23, 24, 25, 26, 27, 28, 29, 30, 31]"
    unfolding cwCbz_def by (rule cw_test_32) simp
  show ?thesis unfolding e by (simp add: field_eq_iff upt_rec conj_ac)
qed

lemma cwCbnz_iff: "cw_test cwCbnz w \<longleftrightarrow> field 30 24 w = 0b0110101"
proof -
  have "cwCbnz \<noteq> None" by code_simp
  then have e: "cw_test cwCbnz w \<longleftrightarrow> list_all (\<lambda>i. rev ''?0110101????????????????????????'' ! i \<noteq> CHR ''?'' \<longrightarrow>
      (bit w i \<longleftrightarrow> rev ''?0110101????????????????????????'' ! i = CHR ''1'')) [0, 1, 2, 3, 4, 5, 6, 7, 8, 9, 10, 11, 12, 13, 14, 15,
        16, 17, 18, 19, 20, 21, 22, 23, 24, 25, 26, 27, 28, 29, 30, 31]"
    unfolding cwCbnz_def by (rule cw_test_32) simp
  show ?thesis unfolding e by (simp add: field_eq_iff upt_rec conj_ac)
qed

lemma cwTbz_iff: "cw_test cwTbz w \<longleftrightarrow> field 30 24 w = 0b0110110"
proof -
  have "cwTbz \<noteq> None" by code_simp
  then have e: "cw_test cwTbz w \<longleftrightarrow> list_all (\<lambda>i. rev ''?0110110????????????????????????'' ! i \<noteq> CHR ''?'' \<longrightarrow>
      (bit w i \<longleftrightarrow> rev ''?0110110????????????????????????'' ! i = CHR ''1'')) [0, 1, 2, 3, 4, 5, 6, 7, 8, 9, 10, 11, 12, 13, 14, 15,
        16, 17, 18, 19, 20, 21, 22, 23, 24, 25, 26, 27, 28, 29, 30, 31]"
    unfolding cwTbz_def by (rule cw_test_32) simp
  show ?thesis unfolding e by (simp add: field_eq_iff upt_rec conj_ac)
qed

lemma cwTbnz_iff: "cw_test cwTbnz w \<longleftrightarrow> field 30 24 w = 0b0110111"
proof -
  have "cwTbnz \<noteq> None" by code_simp
  then have e: "cw_test cwTbnz w \<longleftrightarrow> list_all (\<lambda>i. rev ''?0110111????????????????????????'' ! i \<noteq> CHR ''?'' \<longrightarrow>
      (bit w i \<longleftrightarrow> rev ''?0110111????????????????????????'' ! i = CHR ''1'')) [0, 1, 2, 3, 4, 5, 6, 7, 8, 9, 10, 11, 12, 13, 14, 15,
        16, 17, 18, 19, 20, 21, 22, 23, 24, 25, 26, 27, 28, 29, 30, 31]"
    unfolding cwTbnz_def by (rule cw_test_32) simp
  show ?thesis unfolding e by (simp add: field_eq_iff upt_rec conj_ac)
qed

lemma cwLdrLiteral_iff: "cw_test cwLdrLiteral w \<longleftrightarrow> field 29 24 w = 0b011000 \<and> \<not> bit w 31"
proof -
  have "cwLdrLiteral \<noteq> None" by code_simp
  then have e: "cw_test cwLdrLiteral w \<longleftrightarrow> list_all (\<lambda>i. rev ''0?011000????????????????????????'' ! i \<noteq> CHR ''?'' \<longrightarrow>
      (bit w i \<longleftrightarrow> rev ''0?011000????????????????????????'' ! i = CHR ''1'')) [0, 1, 2, 3, 4, 5, 6, 7, 8, 9, 10, 11, 12, 13, 14, 15,
        16, 17, 18, 19, 20, 21, 22, 23, 24, 25, 26, 27, 28, 29, 30, 31]"
    unfolding cwLdrLiteral_def by (rule cw_test_32) simp
  show ?thesis unfolding e by (simp add: field_eq_iff upt_rec conj_ac)
qed

end
