(* ===== verification/TrampolineCorrect.thy ===== *)
theory TrampolineCorrect
  imports Trampoline
begin

text \<open>
  What the classification and the operand readers of the relocation mean: the patterns select
  exactly the instructions of the specification that read the program counter, and the readers
  return their operands and targets.
\<close>

lemma signExtend_sx:
  assumes "0 < n" "n \<le> 32" "unat v < 2 ^ n"
  shows "(scast (signExtend (v :: u32) n) :: u64) = sx n v"
proof (rule bit_word_eqI)
  fix k assume k: "k < LENGTH(64)"
  show "bit (scast (signExtend v n) :: u64) k = bit (sx n v) k"
  proof -
    have e: "min (min 31 k) (n - 1) = min (n - 1) k" "min 31 k < 32" using assms by simp_all
    show ?thesis
      using k assms e by (simp add: bit_simps bit_signExtend sx_def del: One_nat_def)
  qed
qed

lemma grab_fields:
  "grabRd w = ucast (field 4 0 w)"
  "grabBcondCond w = ucast (field 3 0 w)"
  "(ucast (ucast (w :: u32) AND hk_bits 26 :: u64) :: u32) = field 25 0 w"
  "(ucast (ucast (drop_bit 5 w :: u32) AND hk_bits 19 :: u64) :: u32) = field 23 5 w"
  "(ucast (ucast (drop_bit 5 w :: u32) AND hk_bits 14 :: u64) :: u32) = field 18 5 w"
  by (auto intro!: bit_word_eqI simp: grabRd_def grabBcondCond_def hk_bits_eq_mask bit_field bit_simps ac_simps)

lemma grab_targets:
  "grabBBLAddr w a = a + sx 26 (field 25 0 w) * 4"
  "grabBcondCbzCbnzLdrRelativeAddr w a = a + sx 19 (field 23 5 w) * 4"
  "grabTbzTbnzAddr w a = a + sx 14 (field 18 5 w) * 4"
  using unat_field_less [of 0 25 w] unat_field_less [of 5 23 w] unat_field_less [of 5 18 w]
  by (simp_all add: grabBBLAddr_def grabBcondCbzCbnzLdrRelativeAddr_def grabTbzTbnzAddr_def Let_def
      grab_fields signExtend_sx)

lemma grabAdrAddend_sx: "grabAdrAddend w = sx 21 (push_bit 2 (field 23 5 w) OR field 30 29 w)"
proof -
  have a: "(ucast (ucast (ucast (drop_bit 29 w :: u32) AND hk_bits 2 :: u64) :: u8) :: u32) = field 30 29 w"
    by (auto intro!: bit_word_eqI simp: hk_bits_eq_mask bit_field bit_simps ac_simps)
  have b: "unat (push_bit 2 (field 23 5 w) OR field 30 29 w) < 2 ^ 21"
  proof -
    have "(push_bit 2 (field 23 5 w) OR field 30 29 w) AND mask 21 = push_bit 2 (field 23 5 w) OR field 30 29 w"
      by (auto intro!: bit_word_eqI simp: bit_field bit_simps)
    then show ?thesis by (simp only: and_mask_eq_iff_unat)
  qed
  show ?thesis by (simp add: grabAdrAddend_def Let_def grab_fields a signExtend_sx [OF _ _ b])
qed

lemma grabTbzTbnzBitIndex_field:
  "grabTbzTbnzBitIndex w = ucast (push_bit 5 (field 31 31 w) OR field 23 19 w)"
proof -
  have "drop_bit 31 w AND 1 \<noteq> 0 \<longleftrightarrow> bit w 31"
    by (simp add: bit_iff_odd_drop_bit and_one_eq odd_iff_mod_2_eq_one)
  then show ?thesis
    by (intro bit_word_eqI) (auto simp: grabTbzTbnzBitIndex_def Let_def hk_bits_eq_mask bit_field bit_simps ac_simps)
qed

lemma grabAdrAdrpAddr_sx:
  assumes "field 28 24 w = 0b10000"
  shows "grabAdrAdrpAddr w a = (let imm = sx 21 (push_bit 2 (field 23 5 w) OR field 30 29 w) in
    if bit w 31 then (a AND NOT (mask 12)) + push_bit 12 imm else a + imm)"
  using assms
  by (simp add: grabAdrAdrpAddr_def cwAdr_iff cwAdrp_iff grabAdrpAddend_def grabAdrAddend_sx Let_def
      cPageSize_def hk_bits_eq_mask push_bit_eq_mult)

lemma decode_adr:
  "field 28 24 w = 0b10000 \<Longrightarrow> a64_decode w = Some (I_ADR (bit w 31) (field 23 5 w) (field 30 29 w) (field 4 0 w))"
  by (simp add: a64_decode_def flag_def field_eq_one)

lemma decode_bcond:
  assumes "field 31 24 w = 0b01010100" "\<not> bit w 4"
  shows "a64_decode w = Some (I_BCOND (field 23 5 w) (field 3 0 w))"
proof -
  have f: "field 28 24 w = 20"  "bit w 30" "\<not> bit w 31" "field 29 24 w = 20"
    using assms(1) by (simp_all add: field_eq_iff upt_rec)
  then show ?thesis using assms by (simp add: a64_decode_def flag_def field_eq_one)
qed

lemma decode_compare_branch:
  assumes "field 30 25 w = k" "k = 26 \<or> k = 27"
  shows "a64_decode w = Some (if k = 26 then I_CBZ (bit w 31) (bit w 24) (field 23 5 w) (field 4 0 w)
    else I_TBZ (bit w 24) (push_bit 5 (field 31 31 w) OR field 23 19 w) (field 18 5 w) (field 4 0 w))"
proof -
  have b: "bit w 28" "\<not> bit w 27" "bit w 26" "\<not> bit w 30" "bit w 29"
    using assms by (auto simp: field_eq_iff upt_rec)
  have f: "field 28 24 w \<noteq> 16" "field 28 24 w \<noteq> 17" "field 28 24 w \<noteq> 18" "field 28 24 w \<noteq> 10"
    "field 28 24 w \<noteq> 11" "field 29 26 w \<noteq> 5"
    using b by (simp_all add: field_eq_iff upt_rec)
  have "field 30 25 w = 26 \<Longrightarrow> field 29 25 w = 26" "field 30 25 w = 27 \<Longrightarrow> field 29 25 w = 27"
    by (simp_all add: field_eq_iff upt_rec)
  then have g: "field 29 25 w = k" using assms by metis
  show ?thesis
    using assms(2) f g b(4) by (elim disjE) (simp_all add: a64_decode_def flag_def field_eq_one)
qed

lemma field_30_24:
  "field 30 24 (w :: u32) = 0b0110100 \<longleftrightarrow> field 30 25 w = 26 \<and> \<not> bit w 24"
  "field 30 24 w = 0b0110101 \<longleftrightarrow> field 30 25 w = 26 \<and> bit w 24"
  "field 30 24 w = 0b0110110 \<longleftrightarrow> field 30 25 w = 27 \<and> \<not> bit w 24"
  "field 30 24 w = 0b0110111 \<longleftrightarrow> field 30 25 w = 27 \<and> bit w 24"
  by (auto simp: field_eq_iff upt_rec)

lemma decode_cbz:
  assumes "field 30 25 w = 26"
  shows "a64_decode w = Some (I_CBZ (bit w 31) (bit w 24) (field 23 5 w) (field 4 0 w))"
  using decode_compare_branch [OF assms] by simp

lemma decode_tbz:
  assumes "field 30 25 w = 27"
  shows "a64_decode w = Some (I_TBZ (bit w 24) (push_bit 5 (field 31 31 w) OR field 23 19 w)
    (field 18 5 w) (field 4 0 w))"
  using decode_compare_branch [OF assms] by simp

end
