(* ===== verification/TrampolineSim.thy ===== *)
theory TrampolineSim
  imports TrampolineCorrect
begin

text \<open>
  The trampoline theorem: calling the relocated copy of an overwritten instruction has the effect
  of executing that instruction where it was.
\<close>

section \<open>Distances\<close>

text \<open>Within branch range, with a margin for the few words of a trampoline.\<close>

definition near :: "u64 \<Rightarrow> u64 \<Rightarrow> bool" where
  "near t a \<longleftrightarrow> \<bar>sint (t - a)\<bar> \<le> 2 ^ 27 - 32"

lemma sint_add_small:
  assumes "\<bar>sint x\<bar> \<le> 2 ^ 62" "\<bar>sint y\<bar> \<le> 2 ^ 61"
  shows "sint (x + y :: u64) = sint x + sint y"
  unfolding sint_word_ariths(1) len64 using assms
  by (intro signed_take_bit_int_eq_self) auto

lemma near_branch:
  assumes "near t a" "\<bar>sint d\<bar> \<le> 31"
  shows "s64_abs (t - a + d) \<le> cMaxBranchDistance"
  using assms sint_add_small [of "t - a" d]
  by (auto simp: near_def s64_abs_le cMaxBranchDistance_uint)

section \<open>Branches within range\<close>

lemma emitBranch_near:
  assumes "room_for 1 e" "s64_abs (t - calcCurRxAddr e) \<le> cMaxBranchDistance"
  shows "\<exists>e'. emitBranch F t link e = Inr (1, e') \<and>
    emits e e' [makeUnconditionalBranch (if link then BranchLink else Branch) (calcCurRxAddr e) t]"
  using emit_one_ok [OF assms(1)] assms(2)
  by (fastforce simp: emitBranch_def Let_def makeB_def makeBL_def)

lemma out_store_emits:
  assumes "emits e e' (w # ws)" "vec_ok (em_out e)"
  shows "\<exists>e''. out_store (v_size (em_out e)) v e' = Inr e'' \<and> emits e e'' (v # ws)"
proof -
  let ?n = "v_size (em_out e)"
  have s: "?n < v_size (em_out e')" using assms(1) by (simp add: emits_def)
  have "length (elems (em_out e)) = ?n" using assms(2) by simp
  then have "(elems (em_out e'))[?n := v] = elems (em_out e) @ v # ws"
    using assms(1) by (simp add: emits_def list_update_append)
  then have "take (v_size (em_out e')) ((v_data (em_out e'))[?n := v]) = elems (em_out e) @ v # ws"
    by (simp add: elems_def take_update_swap)
  then show ?thesis
    using s assms(1) by (simp add: out_store_def Let_def emits_def vec_ok_def elems_def)
qed

lemma calcRxAddr_cur: "calcRxAddr e (v_size (em_out e)) = calcCurRxAddr e"
  by (simp add: calcRxAddr_def calcCurRxAddr_def calcCurOffset_def)

lemma emit_inverted_ok:
  assumes room: "room_for 2 e" and t: "s64_abs (t - (calcCurRxAddr e + 4)) \<le> cMaxBranchDistance"
    and w: "inverted (calcCurRxAddr e + 8) (calcCurRxAddr e) = Inr w"
  shows "\<exists>e'. emit_inverted inverted t e = Inr e' \<and> emits e e' [w, makeUnconditionalBranch Branch (calcCurRxAddr e + 4) t]"
proof -
  obtain e1 where e1: "emit_one 0 e = Inr e1" "emits e e1 [0]"
    using emit_one_ok room_for_le [OF room, of 1] by fastforce
  have r1: "room_for 1 e1" and a1: "calcCurRxAddr e1 = calcCurRxAddr e + 4"
    using room_for_emits [OF room e1(2), of 1] emits_addr [OF e1(2)] by simp_all
  obtain e2 where e2: "emitBranch True t False e1 = Inr (1, e2)"
    "emits e1 e2 [makeUnconditionalBranch Branch (calcCurRxAddr e + 4) t]"
    using emitBranch_near [OF r1, of t True False] t by (auto simp: a1)
  note e02 = emits_trans [OF e1(2) e2(2), simplified]
  have a2: "calcCurRxAddr e2 = calcCurRxAddr e + 8" using emits_addr [OF e02] by simp
  show ?thesis
    using out_store_emits [OF e02] room w
    by (auto simp: emit_inverted_def Let_def e1 e2 calcRxAddr_cur a2 room_for_def)
qed

section \<open>The inverted conditions\<close>

lemma expr_conditional:
  "assemble_expr ''b.() #{}'' = Inr [I_none\<lparr>itype := Bcond, i_imm := IImm_arg 1, i_shiftImm := IImm_arg 0\<rparr>]"
  "assemble_expr ''cbz (), #{}'' = Inr [I_none\<lparr>itype := Cbz, i_rd := IImm_regarg 0, i_imm := IImm_arg 1\<rparr>]"
  "assemble_expr ''cbnz (), #{}'' = Inr [I_none\<lparr>itype := Cbnz, i_rd := IImm_regarg 0, i_imm := IImm_arg 1\<rparr>]"
  "assemble_expr ''tbz (), {}, #{}'' =
    Inr [I_none\<lparr>itype := Tbz, i_rd := IImm_regarg 0, i_imm := IImm_arg 2, i_shiftImm := IImm_arg 1\<rparr>]"
  "assemble_expr ''tbnz (), {}, #{}'' =
    Inr [I_none\<lparr>itype := Tbnz, i_rd := IImm_regarg 0, i_imm := IImm_arg 2, i_shiftImm := IImm_arg 1\<rparr>]"
  by code_simp+

lemma reg_operand:
  assumes "unat (r :: IRegType) < 32"
  shows "(ucast r :: u64) < ucast IRegType_Max" "(ucast (ucast r :: u64) :: IRegType) = r" "sp_to_31 r = r"
    "isX r" "reg r = ucast r"
proof -
  have m: "r AND mask 5 = r" using assms by (simp add: and_mask_eq_iff_unat)
  have "unat (ucast r :: u64) = unat r"
    using assms by (auto simp: unsigned_ucast_eq intro!: take_bit_nat_eq_self)
  moreover have "unat (ucast IRegType_Max :: u64) = 223" by code_simp
  ultimately show "(ucast r :: u64) < ucast IRegType_Max" using assms by (simp add: word_less_nat_alt)
  show "(ucast (ucast r :: u64) :: IRegType) = r" by (rule bit_word_eqI) (simp add: bit_simps)
  have "unat reg_SP = 64" by code_simp
  then show "sp_to_31 r = r" using assms by (auto simp: sp_to_31_def)
  have "\<not> bit r 5" using m by (metis bit_and_iff bit_mask_iff less_irrefl)
  then have "r AND reg_Wbit = 0"
    by (simp add: reg_Wbit_def bit_iff_and_push_bit_not_eq_0 push_bit_eq_mult)
  then show "isX r" by (simp add: isX_def isW_def)
  show "reg r = ucast r" using m by (simp add: reg_def mask_eq_exp_minus_1)
qed

lemma bindR_Inr: "bindR m Inr = m"
  by (cases m) simp_all

lemma inverted_blocks:
  assumes r: "unat (r :: IRegType) < 32"
  shows "block_assembleOne bcondExpr [c, t] 0 a = asm_Bcond t c a"
    and "block_assembleOne cbzExpr [ucast r, t] 0 a = asm_Cbz True r t a"
    and "block_assembleOne cbnzExpr [ucast r, t] 0 a = asm_Cbz False r t a"
    and "block_assembleOne tbzExpr [ucast r, p, t] 0 a = asm_Tbz True r t p a"
    and "block_assembleOne tbnzExpr [ucast r, p, t] 0 a = asm_Tbz False r t p a"
  using reg_operand [OF r]
  by (simp_all add: block_assembleOne_def bcondExpr_def cbzExpr_def cbnzExpr_def tbzExpr_def tbnzExpr_def
      constexpr_block_def expr_conditional assemble_def I_none_def IInstr_default_def block_args_def Let_def bindR_Inr)

text \<open>The inverted branch skips two words, so it always assembles.\<close>

lemma skip_aligned:
  assumes "(a :: u64) AND mask 2 = 0"
  shows "(a + 8) AND mask 2 = 0" "unat (a + 8 - a) = 8" "unat (branch_diff (a + 8) a) = 2"
proof -
  have "(8 :: u64) AND mask 2 = 0" by (simp add: mask_eq_exp_minus_1)
  then show "(a + 8) AND mask 2 = 0"
    using aligned_minus_aligned [of a 2 "- 8"] assms aligned_minus_aligned [of 0 2 8] by simp
  show "unat (a + 8 - a) = 8" by simp
  then show "unat (branch_diff (a + 8) a) = 2" using assms by (simp add: unat_branch_diff)
qed

lemma skip_assembles:
  assumes "(a :: u64) AND mask 2 = 0"
  shows "unat c < 16 \<Longrightarrow> \<exists>w. asm_Bcond (a + 8) c a = Inr w"
    and "\<exists>w. asm_Cbz isCbz r (a + 8) a = Inr w"
    and "unat p < 64 \<Longrightarrow> \<exists>w. asm_Tbz isTbz r (a + 8) p a = Inr w"
proof -
  have b: "canBeImm19Neg (branch_diff (a + 8) a)" "canBeImm14Neg (branch_diff (a + 8) a)"
    by (simp_all add: canBe_branch_defs canBe_branch [simplified] skip_aligned [OF assms])
  have "unat (hk_bits 4) = 15" by code_simp
  then show "unat c < 16 \<Longrightarrow> \<exists>w. asm_Bcond (a + 8) c a = Inr w"
    using b by (simp add: asm_Bcond_def Let_def word_le_nat_alt)
  show "\<exists>w. asm_Cbz isCbz r (a + 8) a = Inr w"
    using b by (simp add: asm_Cbz_def Let_def)
  show "\<exists>w. asm_Tbz isTbz r (a + 8) p a = Inr w" if "unat p < 64"
  proof -
    have "unat (ucast p :: u32) \<le> 63"
      using that by (simp add: unsigned_ucast_eq take_bit_nat_eq_self)
    then show ?thesis using b by (simp add: asm_Tbz_def Let_def word_le_nat_alt)
  qed
qed

section \<open>One instruction\<close>

text \<open>The remaining instructions of the specification do not read the program counter.
  The flag-setting logical instruction and the supervisor call have no step there.\<close>

fun position_free :: "a64 \<Rightarrow> bool" where
  "position_free (I_ADR _ _ _ _) = False"
| "position_free (I_B _ _) = False"
| "position_free (I_BCOND _ _) = False"
| "position_free (I_CBZ _ _ _ _) = False"
| "position_free (I_TBZ _ _ _ _) = False"
| "position_free (I_LDRL _ _ _) = False"
| "position_free (I_BLR _) = False"
| "position_free (I_SVC _) = False"
| "position_free (I_LOGR _ opc _ _ _ _ _) = (opc = 0 \<or> opc = 1 \<or> opc = 2)"
| "position_free _ = True"

lemma position_free_tests:
  assumes "a64_decode w = Some ins" "position_free ins"
  shows "\<not> cw_test cwAdr w" "\<not> cw_test cwAdrp w" "\<not> cw_test cwB w" "\<not> cw_test cwBL w" "\<not> cw_test cwBcond w"
    "\<not> cw_test cwCbz w" "\<not> cw_test cwCbnz w" "\<not> cw_test cwTbz w" "\<not> cw_test cwTbnz w"
proof -
  have adr: "field 28 24 w \<noteq> 0b10000" using assms decode_adr [of w] by auto
  have b: "\<not> (field 31 26 w = 5 \<or> field 31 26 w = 37)" using assms decode_branch [of w] by auto
  have bc: "\<not> (field 31 24 w = 0b01010100 \<and> \<not> bit w 4)" 
  proof
    assume "field 31 24 w = 0b01010100 \<and> \<not> bit w 4"
    then show False using assms decode_bcond [of w] by auto
  qed
  have cb: "field 30 25 w \<noteq> 26" using assms decode_cbz [of w] by auto
  have tb: "field 30 25 w \<noteq> 27" using assms decode_tbz [of w] by auto
  show "\<not> cw_test cwAdr w" "\<not> cw_test cwAdrp w" "\<not> cw_test cwB w" "\<not> cw_test cwBL w" "\<not> cw_test cwBcond w"
    "\<not> cw_test cwCbz w" "\<not> cw_test cwCbnz w" "\<not> cw_test cwTbz w" "\<not> cw_test cwTbnz w"
    using adr b bc cb tb
    by (auto simp: cwAdr_iff cwAdrp_iff cwB_iff cwBL_iff cwBcond_iff cwCbz_iff cwCbnz_iff cwTbz_iff cwTbnz_iff field_30_24)
qed

text \<open>
  The instructions a trampoline reproduces: those that do not read the program counter, and the
  ones that do, when their target is near.  \<open>a\<close> is where the copy goes.
\<close>

definition relocatable :: "Instr \<Rightarrow> u64 \<Rightarrow> u64 \<Rightarrow> bool" where
  "relocatable w oa a =
    (case a64_decode w of
       None \<Rightarrow> False
     | Some ins \<Rightarrow> position_free ins \<or>
        (case ins of
           I_ADR page hi lo rd \<Rightarrow>
             (let imm = sx 21 (push_bit 2 hi OR lo);
                  t = (if page then (oa AND NOT (mask 12)) + push_bit 12 imm else oa + imm)
              in rd \<noteq> 31 \<and> near t a)
         | I_B link imm \<Rightarrow> \<not> link \<and> near (oa + sx 26 imm * 4) a
         | I_BCOND imm c \<Rightarrow> c < 14 \<and> near (oa + sx 19 imm * 4) a
         | I_CBZ sf nz imm rt \<Rightarrow> sf \<and> near (oa + sx 19 imm * 4) a
         | I_TBZ nz p imm rt \<Rightarrow> near (oa + sx 14 imm * 4) a
         | _ \<Rightarrow> False))"

text \<open>
  What the copy does in place of an instruction: the same, but for two forms.  The register number
  taken from a \<^verbatim>\<open>cbz\<close> or \<^verbatim>\<open>cbnz\<close> has no width, so its copy tests the whole register, and there is
  no inverse of the condition codes 14 and 15, so the copy of such a branch always skips it.
\<close>

fun copied_as :: "a64 \<Rightarrow> a64" where
  "copied_as (I_CBZ sf nz imm rt) = I_CBZ True nz imm rt"
| "copied_as (I_BCOND imm c) = (if c < 14 then I_BCOND imm c else I_NOP)"
| "copied_as ins = ins"

definition copied_do :: "Instr \<Rightarrow> (u64 \<Rightarrow> u32) \<Rightarrow> cpu \<Rightarrow> cpu option" where
  "copied_do w mem s = Option.bind (a64_decode w) (\<lambda>ins. a64_exec mem (copied_as ins) s)"

text \<open>
  The instructions that get a copy at \<open>a\<close>: those that do not look at the program counter, and
  address computations and branches without link whose target is near \<open>a\<close>.
\<close>

definition reproducible :: "a64 \<Rightarrow> u64 \<Rightarrow> u64 \<Rightarrow> bool" where
  "reproducible ins oa a \<longleftrightarrow> position_free ins \<or>
    (case ins of
       I_ADR page hi lo rd \<Rightarrow>
         (let imm = sx 21 (push_bit 2 hi OR lo);
              t = (if page then (oa AND NOT (mask 12)) + push_bit 12 imm else oa + imm)
          in rd \<noteq> 31 \<and> near t a)
     | I_B link imm \<Rightarrow> \<not> link \<and> near (oa + sx 26 imm * 4) a
     | I_BCOND imm c \<Rightarrow> near (oa + sx 19 imm * 4) a
     | I_CBZ sf nz imm rt \<Rightarrow> near (oa + sx 19 imm * 4) a
     | I_TBZ nz p imm rt \<Rightarrow> near (oa + sx 14 imm * 4) a
     | _ \<Rightarrow> False)"

lemma copied_as_free: "position_free ins \<Longrightarrow> copied_as ins = ins"
  by (cases ins) simp_all

lemma relocatable_reproducible:
  "relocatable w oa a \<Longrightarrow> \<exists>ins. a64_decode w = Some ins \<and> reproducible ins oa a \<and> copied_as ins = ins"
  by (auto simp: relocatable_def reproducible_def copied_as_free Let_def split: option.splits a64.splits if_splits)

lemma relocatable_copied_do: "relocatable w oa a \<Longrightarrow> copied_do w mem s = a64_do mem w s"
  using relocatable_reproducible [of w oa a] by (auto simp: copied_do_def a64_do_def)

text \<open>
  What the copy \<open>ws\<close> at \<open>a\<close> does when what it stands for leads from \<open>oa\<close> to a state: it reaches that state,
  or, if that went on to the next word, the end of the copy.
\<close>

definition copy_simulates :: "Instr \<Rightarrow> u64 \<Rightarrow> u64 \<Rightarrow> Instr list \<Rightarrow> bool \<Rightarrow> bool" where
  "copy_simulates w oa a ws skip \<longleftrightarrow>
    (\<forall>mem mem' s. code_at mem' a ws \<longrightarrow>
      (\<exists>k s1 s'. copied_do w mem (s\<lparr>pc := oa\<rparr>) = Some s1 \<and> a64_run mem' k (s\<lparr>pc := a\<rparr>) = Some s' \<and>
        (s' = s1 \<or> \<not> skip \<and> pc s1 = oa + 4 \<and> s' = s1\<lparr>pc := a + of_nat (length ws) * 4\<rparr>)))"

lemma copy_simulatesI:
  assumes "\<And>mem mem' s. code_at mem' a ws \<Longrightarrow>
    \<exists>k s1 s'. copied_do w mem (s\<lparr>pc := oa\<rparr>) = Some s1 \<and> a64_run mem' k (s\<lparr>pc := a\<rparr>) = Some s' \<and>
      (s' = s1 \<or> \<not> skip \<and> pc s1 = oa + 4 \<and> s' = s1\<lparr>pc := a + of_nat (length ws) * 4\<rparr>)"
  shows "copy_simulates w oa a ws skip"
  using assms unfolding copy_simulates_def by blast

lemma position_free_exec:
  assumes "position_free ins"
  shows "(\<exists>s2. \<forall>mem p. a64_exec mem ins (s\<lparr>pc := p\<rparr>) = Some (s2\<lparr>pc := p + 4\<rparr>)) \<or>
    (\<exists>s2. \<forall>mem p. a64_exec mem ins (s\<lparr>pc := p\<rparr>) = Some s2)"
proof -
  have wr: "wr_X r v (s\<lparr>pc := p\<rparr>) = (wr_X r v s)\<lparr>pc := p\<rparr>" "wr_XSP r v (s\<lparr>pc := p\<rparr>) = (wr_XSP r v s)\<lparr>pc := p\<rparr>"
    for r v p by (simp_all add: wr_X_def wr_XSP_def)
  have rd: "rd_X (s\<lparr>pc := p\<rparr>) = rd_X s" "rd_XSP (s\<lparr>pc := p\<rparr>) = rd_XSP s" for p
    by (rule ext, simp add: rd_X_def rd_XSP_def)+
  have nx: "next_pc (t\<lparr>pc := p\<rparr>) = t\<lparr>pc := p + 4\<rparr>" for t p
    by (simp add: next_pc_def)
  show ?thesis
    using assms by (cases ins) (auto simp: a64_exec_def Let_def wr rd nx)
qed

lemma simulates_free:
  assumes "a64_decode w = Some ins" "position_free ins"
  shows "copy_simulates w oa a [w] False"
proof (rule copy_simulatesI)
  fix mem mem' s assume "code_at mem' a [w]"
  then have m: "mem' a = w" by (simp add: code_at_Cons)
  have step: "a64_run mem' 1 (s\<lparr>pc := a\<rparr>) = a64_exec mem' ins (s\<lparr>pc := a\<rparr>)"
    using m assms(1) by (cases "a64_exec mem' ins (s\<lparr>pc := a\<rparr>)") (simp_all add: a64_step_def)
  have orig: "copied_do w mem (s\<lparr>pc := oa\<rparr>) = a64_exec mem ins (s\<lparr>pc := oa\<rparr>)"
    by (simp add: copied_do_def assms(1) copied_as_free [OF assms(2)])
  from position_free_exec [OF assms(2), of s]
  show "\<exists>k s1 s'. copied_do w mem (s\<lparr>pc := oa\<rparr>) = Some s1 \<and> a64_run mem' k (s\<lparr>pc := a\<rparr>) = Some s' \<and>
      (s' = s1 \<or> \<not> False \<and> pc s1 = oa + 4 \<and> s' = s1\<lparr>pc := a + of_nat (length [w]) * 4\<rparr>)"
  proof (elim disjE exE)
    fix s2 assume e: "\<forall>mem p. a64_exec mem ins (s\<lparr>pc := p\<rparr>) = Some (s2\<lparr>pc := p + 4\<rparr>)"
    show ?thesis
      by (intro exI [of _ 1] exI [of _ "s2\<lparr>pc := oa + 4\<rparr>"] exI [of _ "s2\<lparr>pc := a + 4\<rparr>"])
        (simp only: step orig e, simp)
  next
    fix s2 assume e: "\<forall>mem p. a64_exec mem ins (s\<lparr>pc := p\<rparr>) = Some s2"
    show ?thesis
      by (intro exI [of _ 1] exI [of _ s2] exI [of _ s2]) (simp only: step orig e, simp)
  qed
qed

text \<open>A conditional branch: the inverted condition skips the branch that replaces it.\<close>

lemma simulates_inverted:
  assumes al: "a AND mask 2 = 0" "t AND mask 2 = 0" and d: "s64_abs (t - (a + 4)) \<le> cMaxBranchDistance"
    and orig: "\<And>mem s. copied_do w mem (s\<lparr>pc := oa\<rparr>) = Some (if c s then s\<lparr>pc := t\<rparr> else s\<lparr>pc := oa + 4\<rparr>)"
    and inv: "\<And>mem s. a64_do mem v (s\<lparr>pc := a\<rparr>) = Some (if \<not> c s then s\<lparr>pc := a + 8\<rparr> else s\<lparr>pc := a + 4\<rparr>)"
  shows "copy_simulates w oa a [v, makeUnconditionalBranch Branch (a + 4) t] False"
proof (rule copy_simulatesI)
  fix mem mem' s assume "code_at mem' a [v, makeUnconditionalBranch Branch (a + 4) t]"
  then have m: "mem' a = v" "mem' (a + 4) = makeUnconditionalBranch Branch (a + 4) t"
    by (simp_all add: code_at_Cons)
  have "(4 :: u64) AND mask 2 = 0" by (simp add: mask_eq_exp_minus_1)
  then have "(t - (a + 4)) AND mask 2 = 0"
    using aligned_minus_aligned [OF aligned_minus_aligned [OF al(2,1)], of 4] by (simp add: diff_diff_eq)
  then have b: "a64_do mem' (makeUnconditionalBranch Branch (a + 4) t) (s\<lparr>pc := a + 4\<rparr>) = Some (s\<lparr>pc := t\<rparr>)"
    using makeBranch_do [of t "a + 4" "s\<lparr>pc := a + 4\<rparr>" mem' Branch] d by simp
  show "\<exists>k s1 s'. copied_do w mem (s\<lparr>pc := oa\<rparr>) = Some s1 \<and> a64_run mem' k (s\<lparr>pc := a\<rparr>) = Some s' \<and>
      (s' = s1 \<or> \<not> False \<and> pc s1 = oa + 4 \<and>
        s' = s1\<lparr>pc := a + of_nat (length [v, makeUnconditionalBranch Branch (a + 4) t]) * 4\<rparr>)"
  proof (cases "c s")
    case True
    have "a64_run mem' 2 (s\<lparr>pc := a\<rparr>) = Some (s\<lparr>pc := t\<rparr>)"
      using True by (simp add: numeral_2_eq_2 a64_step_do m inv b)
    then show ?thesis using True orig [of mem s]
      by (intro exI [of _ 2] exI [of _ "s\<lparr>pc := t\<rparr>"]) simp
  next
    case False
    have "a64_run mem' 1 (s\<lparr>pc := a\<rparr>) = Some (s\<lparr>pc := a + 8\<rparr>)"
      using False by (simp add: a64_step_do m inv)
    then show ?thesis using False orig [of mem s]
      by (intro exI [of _ 1] exI [of _ "s\<lparr>pc := oa + 4\<rparr>"] exI [of _ "s\<lparr>pc := a + 8\<rparr>"]) simp
  qed
qed

end
