(* ===== verification/TrampolineMain.thy ===== *)
theory TrampolineMain
  imports TrampolineSim
begin

text \<open>
  The property of trampolines: for every instruction word whose operands are within branch range,
  the relocated copy with its return branch does what the instruction did.
\<close>

section \<open>Loading a near address\<close>

lemma near_page:
  assumes "near t a"
  shows "s64_abs ((a AND NOT (hk_bits 12)) - (t AND NOT (hk_bits 12))) div cPageSize \<le> adrAdrpMaxDiff"
proof -
  let ?d = "(a AND NOT (mask 12)) - (t AND NOT (mask 12))"
  let ?l = "(t AND mask 12) - (a AND mask 12)"
  have m: "0 \<le> sint ((v :: u64) AND mask 12)" "sint ((v :: u64) AND mask 12) < 4096" for v
  proof -
    have "unat (v AND mask 12) < 4096" by (simp add: unat_and_mask)
    moreover from this have "sint (v AND mask 12) = int (unat (v AND mask 12))" by (intro sint_small) simp
    ultimately show "0 \<le> sint (v AND mask 12)" "sint (v AND mask 12) < 4096" by linarith+
  qed
  have e: "?d = (a - t) + ?l" by (simp add: and_not_mask_eq_minus)
  have "sint ?l = sint (t AND mask 12) - sint (a AND mask 12)"
    unfolding sint_word_ariths(2) len64 using m [of t] m [of a]
    by (intro signed_take_bit_int_eq_self) auto
  then have l: "\<bar>sint ?l\<bar> \<le> 4096" using m [of t] m [of a] by linarith
  have "sint (- (t - a)) = - sint (t - a)"
    by (rule sint_minus_64) (use assms in \<open>auto simp: near_def\<close>)
  then have at: "\<bar>sint (a - t)\<bar> \<le> 2 ^ 27" using assms by (simp add: near_def)
  have "\<bar>sint ?d\<bar> \<le> 2 ^ 27 + 4096"
    unfolding e using sint_add_small [of "a - t" ?l] l at by auto
  then have "\<bar>sint ?d\<bar> div 4096 \<le> (2 ^ 27 + 4096) div 4096" by (intro zdiv_mono1) simp_all
  then have "uint (s64_abs ?d) div 4096 \<le> 2 ^ 20 - 1"
    unfolding uint_s64_abs by simp
  then show ?thesis
    by (simp add: word_le_def uint_div cPageSize_def adrAdrpMaxDiff_uint hk_bits_eq_mask)
qed

lemma emitMov_near:
  assumes "near t (calcCurRxAddr e)"
  shows "emitMovImmediate64 True r t e = emitMovImmediate64 False r t e"
  using near_page [OF assms] by (simp add: emitMovImmediate64_def Let_def)

lemma decode_ldr:
  assumes "field 29 24 w = 0b011000" "\<not> bit w 31"
  shows "a64_decode w = Some (I_LDRL (bit w 30) (field 23 5 w) (field 4 0 w))"
proof -
  have b: "bit w 28" "bit w 27" "\<not> bit w 29" "\<not> bit w 26" using assms(1) by (simp_all add: field_eq_iff upt_rec)
  have f: "field 28 24 w \<noteq> 16" "field 28 24 w \<noteq> 17" "field 28 24 w \<noteq> 18" "field 28 24 w \<noteq> 10"
    "field 28 24 w \<noteq> 11" "field 29 26 w \<noteq> 5" "field 29 25 w \<noteq> 26" "field 29 25 w \<noteq> 27"
    using b by (simp_all add: field_eq_iff upt_rec)
  then show ?thesis using assms by (simp add: a64_decode_def flag_def field_eq_one)
qed


section \<open>Every relocatable instruction\<close>

lemma a64_do_simps:
  "a64_decode w = Some (I_B l i) \<Longrightarrow> a64_do mem w s =
    Some ((if l then wr_X 30 (pc s + 4) s else s)\<lparr>pc := pc s + sx 26 i * 4\<rparr>)"
  "a64_decode w = Some (I_BCOND i c) \<Longrightarrow> a64_do mem w s =
    Some (if cond_holds s c then s\<lparr>pc := pc s + sx 19 i * 4\<rparr> else next_pc s)"
  "a64_decode w = Some (I_CBZ sf nz i rt) \<Longrightarrow> a64_do mem w s =
    Some (if (sized sf (rd_X s rt) = 0) \<noteq> nz then s\<lparr>pc := pc s + sx 19 i * 4\<rparr> else next_pc s)"
  by (simp_all add: a64_do_def a64_exec_def Let_def)

lemma copied_do_simps:
  "a64_decode w = Some (I_B l i) \<Longrightarrow> copied_do w mem s =
    Some ((if l then wr_X 30 (pc s + 4) s else s)\<lparr>pc := pc s + sx 26 i * 4\<rparr>)"
  "a64_decode w = Some (I_BCOND i c) \<Longrightarrow> copied_do w mem s =
    Some (if c < 14 \<and> cond_holds s c then s\<lparr>pc := pc s + sx 19 i * 4\<rparr> else next_pc s)"
  "a64_decode w = Some (I_CBZ sf nz i rt) \<Longrightarrow> copied_do w mem s =
    Some (if (rd_X s rt = 0) \<noteq> nz then s\<lparr>pc := pc s + sx 19 i * 4\<rparr> else next_pc s)"
  "a64_decode w = Some (I_TBZ nz p i rt) \<Longrightarrow> copied_do w mem s =
    Some (if bit (rd_X s rt) (unat p) = nz then s\<lparr>pc := pc s + sx 14 i * 4\<rparr> else next_pc s)"
  by (simp_all add: copied_do_def a64_exec_def Let_def sized_def)

lemma grabRd_facts: "unat (grabRd w) < 32" "ucast (grabRd w) = field 4 0 w"
proof -
  have u: "unat (field 4 0 w) < 32" using unat_field_less [of 0 4 w] by simp
  then have "unat (grabRd w) = unat (field 4 0 w)"
    by (simp add: grab_fields unsigned_ucast_eq take_bit_nat_eq_self)
  then show "unat (grabRd w) < 32" using u by simp
  show "ucast (grabRd w) = field 4 0 w"
    by (auto intro!: bit_word_eqI simp: grab_fields bit_field bit_simps)
qed

lemma relocate_adr:
  assumes w: "field 28 24 w = 0b10000" and room: "room_for 4 e"
    and r31: "field 4 0 w \<noteq> 31" and near: "near (grabAdrAdrpAddr w oa) (calcCurRxAddr e)"
  shows "\<exists>ws e'. relocate w oa True (False, e) = Inr (False, e') \<and> emits e e' ws \<and> length ws \<le> 4 \<and>
    copy_simulates w oa (calcCurRxAddr e) ws False"
proof -
  let ?a = "calcCurRxAddr e" and ?t = "grabAdrAdrpAddr w oa" and ?r = "grabRd w"
  have "unat ?r \<noteq> 31"
  proof
    assume "unat ?r = 31"
    then have "(of_nat (unat ?r) :: u32) = 31" by simp
    then show False using r31 grabRd_facts(2) [of w] by simp
  qed
  then have r: "xreg ?r" using grabRd_facts(1) [of w] by (simp add: xreg_def)
  have tests: "cw_test cwAdr w \<or> cw_test cwAdrp w" using w by (simp add: cwAdr_iff cwAdrp_iff)
  obtain n ws e' where e': "emitMovImmediate64 True ?r ?t e = Inr (n, e')" "emits e e' ws" "length ws = n" "n \<le> 4"
    and st: "\<And>mem s. pc s = ?a \<Longrightarrow> straight mem ws s (after n ?r ?t s)"
    using emitMov_ok [OF r room, of ?t] unfolding emitMov_near [OF near, symmetric] by blast
  have orig: "copied_do w mem (s\<lparr>pc := oa\<rparr>) = Some ((set_x ?r ?t s)\<lparr>pc := oa + 4\<rparr>)" for mem s
    using r31 by (simp add: copied_do_def decode_adr [OF w] a64_exec_def grabAdrAdrpAddr_sx [OF w] Let_def
        next_pc_def wr_X_def set_x_def grabRd_facts)
  have "copy_simulates w oa ?a ws False"
  proof (rule copy_simulatesI)
    fix mem mem' s assume c: "code_at mem' ?a ws"
    have "a64_run mem' n (s\<lparr>pc := ?a\<rparr>) = Some (after n ?r ?t (s\<lparr>pc := ?a\<rparr>))"
      using run_straight [OF st [of "s\<lparr>pc := ?a\<rparr>"]] c e'(3) by simp
    then show "\<exists>k s1 s'. copied_do w mem (s\<lparr>pc := oa\<rparr>) = Some s1 \<and> a64_run mem' k (s\<lparr>pc := ?a\<rparr>) = Some s' \<and>
        (s' = s1 \<or> \<not> False \<and> pc s1 = oa + 4 \<and> s' = s1\<lparr>pc := ?a + of_nat (length ws) * 4\<rparr>)"
      by (intro exI conjI) (assumption | rule orig | simp add: after_def set_x_def e'(3))+
  qed
  then show ?thesis using tests e' by (intro exI [of _ ws] exI [of _ e']) (simp add: relocate_def)
qed

lemma relocate_b:
  assumes w: "field 31 26 w = 5" and room: "room_for 1 e"
    and t: "near (oa + sx 26 (field 25 0 w) * 4) (calcCurRxAddr e)"
    and al: "oa AND mask 2 = 0" "calcCurRxAddr e AND mask 2 = 0"
  shows "\<exists>ws e'. relocate w oa True (False, e) = Inr (True, e') \<and> emits e e' ws \<and> length ws \<le> 4 \<and>
    copy_simulates w oa (calcCurRxAddr e) ws True"
proof -
  let ?a = "calcCurRxAddr e" and ?t = "oa + sx 26 (field 25 0 w) * 4"
  have dec: "a64_decode w = Some (I_B False (field 25 0 w))" using decode_branch [of w] w by simp
  have f: "field 28 24 w \<noteq> 16" "field 31 26 w \<noteq> 37"
    using w by (auto simp: field_eq_iff upt_rec)
  have d: "s64_abs (?t - ?a) \<le> cMaxBranchDistance"
    using t near_branch [of ?t ?a 0] by simp
  obtain e' where e': "emitBranch True ?t False e = Inr (1, e')"
    "emits e e' [makeUnconditionalBranch Branch ?a ?t]"
    using emitBranch_near [OF room d, of True False] by auto
  have al': "(?t - ?a) AND mask 2 = 0"
    by (intro aligned_minus_aligned aligned_add_4 al)
  have "copy_simulates w oa ?a [makeUnconditionalBranch Branch ?a ?t] True"
  proof (rule copy_simulatesI)
    fix mem mem' s assume "code_at mem' ?a [makeUnconditionalBranch Branch ?a ?t]"
    then have "mem' ?a = makeUnconditionalBranch Branch ?a ?t" by (simp add: code_at_Cons)
    then have "a64_run mem' 1 (s\<lparr>pc := ?a\<rparr>) = Some (s\<lparr>pc := ?t\<rparr>)"
      using makeBranch_do [OF al' d, of "s\<lparr>pc := ?a\<rparr>" mem' Branch] by (simp add: a64_step_do)
    moreover have "copied_do w mem (s\<lparr>pc := oa\<rparr>) = Some (s\<lparr>pc := ?t\<rparr>)"
      by (simp add: copied_do_simps(1) [OF dec])
    ultimately show "\<exists>k s1 s'. copied_do w mem (s\<lparr>pc := oa\<rparr>) = Some s1 \<and> a64_run mem' k (s\<lparr>pc := ?a\<rparr>) = Some s' \<and>
      (s' = s1 \<or> \<not> True \<and> pc s1 = oa + 4 \<and>
        s' = s1\<lparr>pc := ?a + of_nat (length [makeUnconditionalBranch Branch ?a ?t]) * 4\<rparr>)"
      by blast
  qed
  then show ?thesis
    using e' w f by (intro exI [of _ "[makeUnconditionalBranch Branch ?a ?t]"] exI [of _ e'])
      (simp add: relocate_def cwAdr_iff cwAdrp_iff cwB_iff cwBL_iff grab_targets)
qed

lemma relocate_inverted:
  assumes room: "room_for 2 e" and al: "oa AND mask 2 = 0" "calcCurRxAddr e AND mask 2 = 0"
    and t: "near (oa + x * 4) (calcCurRxAddr e)"
    and rel: "relocate w oa True (False, e) = bindR (emit_inverted invd (oa + x * 4) e) (\<lambda>e. Inr (False, e))"
    and v: "invd (calcCurRxAddr e + 8) (calcCurRxAddr e) = Inr v"
    and orig: "\<And>mem s. copied_do w mem (s\<lparr>pc := oa\<rparr>) =
      Some (if c s then s\<lparr>pc := oa + x * 4\<rparr> else s\<lparr>pc := oa + 4\<rparr>)"
    and inverse: "\<And>mem s. a64_do mem v (s\<lparr>pc := calcCurRxAddr e\<rparr>) =
      Some (if \<not> c s then s\<lparr>pc := calcCurRxAddr e + 8\<rparr> else s\<lparr>pc := calcCurRxAddr e + 4\<rparr>)"
  shows "\<exists>ws e'. relocate w oa True (False, e) = Inr (False, e') \<and> emits e e' ws \<and> length ws \<le> 4 \<and>
    copy_simulates w oa (calcCurRxAddr e) ws False"
proof -
  let ?a = "calcCurRxAddr e" and ?t = "oa + x * 4"
  have d: "s64_abs (?t - (?a + 4)) \<le> cMaxBranchDistance"
    using near_branch [OF t, of "- 4"] by (simp add: diff_diff_eq)
  obtain e' where e': "emit_inverted invd ?t e = Inr e'"
    "emits e e' [v, makeUnconditionalBranch Branch (?a + 4) ?t]"
    using emit_inverted_ok [where inverted = invd, OF room d v] by blast
  show ?thesis
    using simulates_inverted [OF al(2) aligned_add_4 [OF al(1)] d orig inverse] e' rel
    by (intro exI [of _ "[v, makeUnconditionalBranch Branch (?a + 4) ?t]"] exI [of _ e']) simp
qed

lemma cond_holds_inverted:
  assumes "unat c < 16"
  shows "cond_holds s (c XOR 1) \<longleftrightarrow> \<not> (c < 14 \<and> cond_holds s c)"
proof -
  have "unat c \<in> set [0..<16]" using assms by simp
  then have "c \<in> of_nat ` set [0..<16]" using imageI [of "unat c" "set [0..<16]" "of_nat :: nat \<Rightarrow> u32"] by simp
  then have "c \<in> {0, 1, 2, 3, 4, 5, 6, 7, 8, 9, 10, 11, 12, 13, 14, 15}" by (simp add: upt_rec)
  then show ?thesis by (elim insertE emptyE; simp add: cond_holds_def)
qed

lemma relocate_bcond:
  assumes w: "field 31 24 w = 0b01010100" "\<not> bit w 4" and room: "room_for 2 e"
    and t: "near (oa + sx 19 (field 23 5 w) * 4) (calcCurRxAddr e)"
    and al: "oa AND mask 2 = 0" "calcCurRxAddr e AND mask 2 = 0"
  shows "\<exists>ws e'. relocate w oa True (False, e) = Inr (False, e') \<and> emits e e' ws \<and> length ws \<le> 4 \<and>
    copy_simulates w oa (calcCurRxAddr e) ws False"
proof -
  let ?a = "calcCurRxAddr e" and ?c = "field 3 0 w"
  note dec = decode_bcond [OF w]
  define ci where "ci = (ucast (ucast (grabBcondCond w XOR 1) :: u8) :: u64)"
  have ci: "field 3 0 (ucast ci :: u32) = ?c XOR 1" "unat ci < 16"
  proof -
    show "field 3 0 (ucast ci :: u32) = ?c XOR 1"
      by (rule bit_word_eqI) (auto simp: ci_def grab_fields bit_field bit_simps)
    have "ci AND mask 4 = ci"
      by (rule bit_word_eqI) (auto simp: ci_def grab_fields bit_field bit_simps)
    then show "unat ci < 16" by (simp add: and_mask_eq_iff_unat)
  qed
  obtain v where v: "asm_Bcond (?a + 8) ci ?a = Inr v" using skip_assembles(1) [OF al(2) ci(2)] by blast
  have f: "field 28 24 w \<noteq> 16" "field 31 26 w \<noteq> 5" "field 31 26 w \<noteq> 37"
    using w by (simp_all add: field_eq_iff upt_rec)
  have rl: "relocate w oa True (False, e) =
      bindR (emit_inverted (\<lambda>ret at. block_assembleOne bcondExpr [ci, ret] 0 at)
        (oa + sx 19 (field 23 5 w) * 4) e) (\<lambda>e. Inr (False, e))"
    using f w by (simp add: relocate_def cwAdr_iff cwAdrp_iff cwB_iff cwBL_iff cwBcond_iff grab_targets ci_def Let_def)
  have c: "unat ?c < 16" using unat_field_less [of 0 3 w] by simp
  show ?thesis
  proof (rule relocate_inverted [OF room al t rl, where v = v and c = "\<lambda>s. ?c < 14 \<and> cond_holds s ?c"])
    show "block_assembleOne bcondExpr [ci, ?a + 8] 0 ?a = Inr v"
      using v inverted_blocks(1) [of 0] by simp
    fix mem s
    have s: "cond_holds (s\<lparr>pc := p\<rparr>) k = cond_holds s k" for p k by (simp add: cond_holds_def)
    show "copied_do w mem (s\<lparr>pc := oa\<rparr>) =
        Some (if ?c < 14 \<and> cond_holds s ?c
          then s\<lparr>pc := oa + sx 19 (field 23 5 w) * 4\<rparr> else s\<lparr>pc := oa + 4\<rparr>)"
      by (simp add: copied_do_simps(2) [OF dec] s next_pc_def)
    show "a64_do mem v (s\<lparr>pc := ?a\<rparr>) =
        Some (if \<not> (?c < 14 \<and> cond_holds s ?c) then s\<lparr>pc := ?a + 8\<rparr> else s\<lparr>pc := ?a + 4\<rparr>)"
      using asm_Bcond_do [OF v al(2) skip_aligned(1) [OF al(2)], of "s\<lparr>pc := ?a\<rparr>" mem] skip_aligned(2) [OF al(2)]
      by (simp add: s ci cond_holds_inverted [OF c] next_pc_def)
  qed
qed

lemma relocate_cbz:
  assumes w: "field 30 25 w = 26" and room: "room_for 2 e"
    and t: "near (oa + sx 19 (field 23 5 w) * 4) (calcCurRxAddr e)"
    and al: "oa AND mask 2 = 0" "calcCurRxAddr e AND mask 2 = 0"
  shows "\<exists>ws e'. relocate w oa True (False, e) = Inr (False, e') \<and> emits e e' ws \<and> length ws \<le> 4 \<and>
    copy_simulates w oa (calcCurRxAddr e) ws False"
proof -
  let ?a = "calcCurRxAddr e" and ?r = "grabRd w" and ?nz = "bit w 24"
  note dec = decode_cbz [OF w]
  have r: "isX ?r" "reg ?r = field 4 0 w"
    using reg_operand(4,5) [OF grabRd_facts(1)] grabRd_facts(2) by simp_all
  obtain v where v: "asm_Cbz ?nz ?r (?a + 8) ?a = Inr v" using skip_assembles(2) [OF al(2)] by blast
  have f: "field 28 24 w \<noteq> 16" "field 31 26 w \<noteq> 5" "field 31 26 w \<noteq> 37" "field 31 24 w \<noteq> 0b01010100"
    using w by (simp_all add: field_eq_iff upt_rec)
  have rl: "relocate w oa True (False, e) =
      bindR (emit_inverted (\<lambda>ret at.
          if ?nz then block_assembleOne cbzExpr [ucast ?r, ret] 0 at
          else block_assembleOne cbnzExpr [ucast ?r, ret] 0 at)
        (oa + sx 19 (field 23 5 w) * 4) e) (\<lambda>e. Inr (False, e))"
    using f w by (simp add: relocate_def cwAdr_iff cwAdrp_iff cwB_iff cwBL_iff cwBcond_iff cwCbz_iff cwCbnz_iff
        field_30_24 grab_targets Let_def)
  show ?thesis
  proof (rule relocate_inverted [OF room al t rl, where v = v and c = "\<lambda>s. (rd_X s (field 4 0 w) = 0) \<noteq> ?nz"])
    show "(if ?nz then block_assembleOne cbzExpr [ucast ?r, ?a + 8] 0 ?a
        else block_assembleOne cbnzExpr [ucast ?r, ?a + 8] 0 ?a) = Inr v"
      using v inverted_blocks(2,3) [OF grabRd_facts(1)] by (cases ?nz) simp_all
    fix mem s
    have s: "rd_X (s\<lparr>pc := p\<rparr>) k = rd_X s k" for p k by (simp add: rd_X_def)
    show "copied_do w mem (s\<lparr>pc := oa\<rparr>) =
        Some (if (rd_X s (field 4 0 w) = 0) \<noteq> ?nz then s\<lparr>pc := oa + sx 19 (field 23 5 w) * 4\<rparr> else s\<lparr>pc := oa + 4\<rparr>)"
      by (simp add: copied_do_simps(3) [OF dec] s next_pc_def)
    show "a64_do mem v (s\<lparr>pc := ?a\<rparr>) =
        Some (if \<not> ((rd_X s (field 4 0 w) = 0) \<noteq> ?nz) then s\<lparr>pc := ?a + 8\<rparr> else s\<lparr>pc := ?a + 4\<rparr>)"
      using asm_Cbz_do [OF v al(2) skip_aligned(1) [OF al(2)], of "s\<lparr>pc := ?a\<rparr>" mem] skip_aligned(2) [OF al(2)]
      by (simp add: s r sized_def next_pc_def)
  qed
qed

lemma relocate_tbz:
  assumes w: "field 30 25 w = 27" and room: "room_for 2 e"
    and t: "near (oa + sx 14 (field 18 5 w) * 4) (calcCurRxAddr e)"
    and al: "oa AND mask 2 = 0" "calcCurRxAddr e AND mask 2 = 0"
  shows "\<exists>ws e'. relocate w oa True (False, e) = Inr (False, e') \<and> emits e e' ws \<and> length ws \<le> 4 \<and>
    copy_simulates w oa (calcCurRxAddr e) ws False"
proof -
  let ?a = "calcCurRxAddr e" and ?r = "grabRd w" and ?nz = "bit w 24"
  let ?p = "ucast (grabTbzTbnzBitIndex w) :: u64"
  let ?pos = "unat (push_bit 5 (field 31 31 w) OR field 23 19 w)"
  note dec = decode_tbz [OF w]
  have p: "unat ?p = ?pos" "?pos < 64"
  proof -
    have "(push_bit 5 (field 31 31 w) OR field 23 19 w) AND mask 6 = push_bit 5 (field 31 31 w) OR field 23 19 w"
      by (rule bit_word_eqI) (auto simp: bit_field bit_simps)
    then show l: "?pos < 64" by (simp add: and_mask_eq_iff_unat)
    have "?p = ucast (push_bit 5 (field 31 31 w) OR field 23 19 w)"
      by (rule bit_word_eqI) (auto simp: grabTbzTbnzBitIndex_field bit_field bit_simps)
    then show "unat ?p = ?pos"
      using l by (auto simp: unsigned_ucast_eq intro!: take_bit_nat_eq_self)
  qed
  have r: "isX ?r" "reg ?r = field 4 0 w"
    using reg_operand(4,5) [OF grabRd_facts(1)] grabRd_facts(2) by simp_all
  obtain v where v: "asm_Tbz ?nz ?r (?a + 8) ?p ?a = Inr v"
    using skip_assembles(3) [OF al(2), of ?p] p by auto
  have f: "field 28 24 w \<noteq> 16" "field 31 26 w \<noteq> 5" "field 31 26 w \<noteq> 37" "field 31 24 w \<noteq> 0b01010100"
    using w by (simp_all add: field_eq_iff upt_rec)
  have rl: "relocate w oa True (False, e) =
      bindR (emit_inverted (\<lambda>ret at.
          if ?nz then block_assembleOne tbzExpr [ucast ?r, ?p, ret] 0 at
          else block_assembleOne tbnzExpr [ucast ?r, ?p, ret] 0 at)
        (oa + sx 14 (field 18 5 w) * 4) e) (\<lambda>e. Inr (False, e))"
    using f w by (simp add: relocate_def cwAdr_iff cwAdrp_iff cwB_iff cwBL_iff cwBcond_iff cwCbz_iff cwCbnz_iff
        cwTbz_iff cwTbnz_iff field_30_24 grab_targets Let_def)
  show ?thesis
  proof (rule relocate_inverted [OF room al t rl, where v = v and c = "\<lambda>s. bit (rd_X s (field 4 0 w)) ?pos = ?nz"])
    show "(if ?nz then block_assembleOne tbzExpr [ucast ?r, ?p, ?a + 8] 0 ?a
        else block_assembleOne tbnzExpr [ucast ?r, ?p, ?a + 8] 0 ?a) = Inr v"
      using v inverted_blocks(4,5) [OF grabRd_facts(1)] by (cases ?nz) simp_all
    fix mem s
    have s: "rd_X (s\<lparr>pc := p\<rparr>) k = rd_X s k" for p k by (simp add: rd_X_def)
    show "copied_do w mem (s\<lparr>pc := oa\<rparr>) =
        Some (if bit (rd_X s (field 4 0 w)) ?pos = ?nz then s\<lparr>pc := oa + sx 14 (field 18 5 w) * 4\<rparr> else s\<lparr>pc := oa + 4\<rparr>)"
      by (simp add: copied_do_simps(4) [OF dec] s next_pc_def)
    show "a64_do mem v (s\<lparr>pc := ?a\<rparr>) =
        Some (if \<not> (bit (rd_X s (field 4 0 w)) ?pos = ?nz) then s\<lparr>pc := ?a + 8\<rparr> else s\<lparr>pc := ?a + 4\<rparr>)"
      using asm_Tbz_do [OF v _ al(2) skip_aligned(1) [OF al(2)], of "s\<lparr>pc := ?a\<rparr>" mem] skip_aligned(2) [OF al(2)] p
      by (simp add: s r next_pc_def)
  qed
qed

section \<open>The trampoline\<close>

lemma relocate_free:
  assumes dec: "a64_decode w = Some ins" "position_free ins" and room: "room_for 1 e"
  shows "\<exists>ws e'. relocate w oa True (False, e) = Inr (False, e') \<and> emits e e' ws \<and> length ws \<le> 4 \<and>
    copy_simulates w oa (calcCurRxAddr e) ws False"
proof -
  have "\<not> cw_test cwLdrLiteral w"
  proof
    assume "cw_test cwLdrLiteral w"
    then have "a64_decode w = Some (I_LDRL (bit w 30) (field 23 5 w) (field 4 0 w))"
      using decode_ldr [of w] by (simp add: cwLdrLiteral_iff)
    then show False using dec by auto
  qed
  moreover obtain e' where "emit_one w e = Inr e'" "emits e e' [w]" using emit_one_ok [OF room] by blast
  ultimately show ?thesis
    using position_free_tests [OF dec] simulates_free [OF dec, of oa "calcCurRxAddr e"]
    by (intro exI [of _ "[w]"] exI [of _ e']) (simp add: relocate_def)
qed

lemma decode_cases:
  "a64_decode w = Some (I_ADR p hi lo rd) \<Longrightarrow> field 28 24 w = 16"
  "a64_decode w = Some (I_B False imm) \<Longrightarrow> field 31 26 w = 5"
  "a64_decode w = Some (I_BCOND imm19 c) \<Longrightarrow> field 31 24 w = 0b01010100 \<and> \<not> bit w 4"
  "a64_decode w = Some (I_CBZ sf nz imm19 rt) \<Longrightarrow> field 30 25 w = 26"
  "a64_decode w = Some (I_TBZ nz q imm14 rt) \<Longrightarrow> field 30 25 w = 27"
  by (auto simp: a64_decode_def flag_def field_eq_one field_eq_iff upt_rec split: if_splits)

lemma relocate_ok:
  assumes dec: "a64_decode w = Some ins" and rep: "reproducible ins oa (calcCurRxAddr e)" and room: "room_for 4 e"
    and al: "oa AND mask 2 = 0" "calcCurRxAddr e AND mask 2 = 0"
  shows "\<exists>skip ws e'. relocate w oa True (False, e) = Inr (skip, e') \<and> emits e e' ws \<and> length ws \<le> 4 \<and>
    copy_simulates w oa (calcCurRxAddr e) ws skip"
proof -
  have r: "room_for 1 e" "room_for 2 e" using room_for_le [OF room] by simp_all
  consider "position_free ins" | (adr) p hi lo rd where "ins = I_ADR p hi lo rd" | (b) imm where "ins = I_B False imm"
    | (bcond) imm c where "ins = I_BCOND imm c" | (cbz) sf nz imm rt where "ins = I_CBZ sf nz imm rt"
    | (tbz) nz q imm rt where "ins = I_TBZ nz q imm rt"
    using rep by (auto simp: reproducible_def split: a64.splits)
  then show ?thesis
  proof cases
    case 1
    then show ?thesis using relocate_free [OF dec _ r(1)] by blast
  next
    case adr
    then have w: "field 28 24 w = 16" using dec decode_cases(1) by blast
    then have "field 4 0 w \<noteq> 31" "near (grabAdrAdrpAddr w oa) (calcCurRxAddr e)"
      using rep dec adr by (auto simp: reproducible_def decode_adr [OF w] grabAdrAdrpAddr_sx [OF w] Let_def)
    then show ?thesis using relocate_adr [OF w room] by blast
  next
    case b
    then have w: "field 31 26 w = 5" using dec decode_cases(2) by blast
    then have "near (oa + sx 26 (field 25 0 w) * 4) (calcCurRxAddr e)"
      using rep dec b by (auto simp: reproducible_def decode_branch)
    then show ?thesis using relocate_b [OF w r(1) _ al] by blast
  next
    case bcond
    then have w: "field 31 24 w = 0b01010100" "\<not> bit w 4" using dec decode_cases(3) by blast+
    then have "near (oa + sx 19 (field 23 5 w) * 4) (calcCurRxAddr e)"
      using rep dec bcond by (auto simp: reproducible_def decode_bcond [OF w])
    then show ?thesis using relocate_bcond [OF w r(2) _ al] by blast
  next
    case cbz
    then have w: "field 30 25 w = 26" using dec decode_cases(4) by blast
    then have "near (oa + sx 19 (field 23 5 w) * 4) (calcCurRxAddr e)"
      using rep dec cbz by (auto simp: reproducible_def decode_cbz [OF w])
    then show ?thesis using relocate_cbz [OF w r(2) _ al] by blast
  next
    case tbz
    then have w: "field 30 25 w = 27" using dec decode_cases(5) by blast
    then have "near (oa + sx 14 (field 18 5 w) * 4) (calcCurRxAddr e)"
      using rep dec tbz by (auto simp: reproducible_def decode_tbz [OF w])
    then show ?thesis using relocate_tbz [OF w r(2) _ al] by blast
  qed
qed

definition backup_emitter :: "nat \<Rightarrow> u64 \<Rightarrow> emitter" where
  "backup_emitter level rx = \<lparr>em_out = backup_new level, em_rx = rx\<rparr>"

lemma backup_emitter_facts:
  "calcCurRxAddr (backup_emitter level rx) = rx" "elems (em_out (backup_emitter level rx)) = []"
  "v_size (em_out (backup_emitter level rx)) = 0"
  "1 \<le> level \<Longrightarrow> room_for 5 (backup_emitter level rx)"
  by (auto simp: backup_emitter_def calcCurRxAddr_def calcCurOffset_def backup_new_def elems_def vec_ok_def Let_def
      room_for_def TrampolineBackup_MaxNumInstrs_def)

text \<open>The copy and, where the copy can fall through, the branch back behind it.\<close>

lemma backup_built:
  assumes near: "near oa rx" and al: "oa AND mask 2 = 0" "rx AND mask 2 = 0" and level: "1 \<le> level"
    and r: "relocate orig oa True (False, backup_emitter level rx) = Inr (skip, e1)"
      "emits (backup_emitter level rx) e1 ws" "length ws \<le> 4"
  shows "\<exists>n out. makeTrampolineBackup [orig] oa (oa + 4) (backup_new level) rx = Inr (n, out) \<and> n \<le> 5 \<and>
    (\<forall>mem'. code_at mem' rx (elems out) \<longrightarrow> code_at mem' rx ws \<and>
      (\<not> skip \<longrightarrow> (\<forall>s. pc s = rx + of_nat (length ws) * 4 \<longrightarrow> a64_run mem' 1 s = Some (s\<lparr>pc := oa + 4\<rparr>))))"
proof -
  let ?e = "backup_emitter level rx"
  note e = backup_emitter_facts [of level rx]
  have room1: "room_for 1 e1" by (rule room_for_emits [OF e(4) [OF level] r(2)]) (use r(3) in simp)
  have cur1: "calcCurRxAddr e1 = rx + of_nat (length ws) * 4" using emits_addr [OF r(2)] by (simp add: e)
  let ?b = "makeUnconditionalBranch Branch (rx + of_nat (length ws) * 4) (oa + 4)"
  have al1: "(oa + 4 - (rx + of_nat (length ws) * 4)) AND mask 2 = 0"
    using aligned_minus_aligned [OF aligned_add_4 [OF al(1), of 1] aligned_add_4 [OF al(2)]] by simp
  have d1: "s64_abs (oa + 4 - (rx + of_nat (length ws) * 4)) \<le> cMaxBranchDistance"
  proof -
    have "sint ((1 - of_nat (length ws)) * 4 :: u64) = (1 - int (length ws)) * 4"
      using r(3) by (cases "length ws" rule: nat.exhaust) (auto simp: le_Suc_eq numeral_eq_Suc)
    then have "\<bar>sint ((1 - of_nat (length ws)) * 4 :: u64)\<bar> \<le> 31" using r(3) by simp
    from near_branch [OF near this] show ?thesis by (simp add: algebra_simps)
  qed
  obtain e2 where e2: "emitBranch True (oa + 4) False e1 = Inr (1, e2)" "emits e1 e2 [?b]"
    using emitBranch_near [OF room1, of "oa + 4" True False] d1 by (auto simp: cur1)
  define f where "f = (if skip then e1 else e2)"
  have make: "makeTrampolineBackup [orig] oa (oa + 4) (backup_new level) rx = Inr (v_size (em_out f), em_out f)"
    using r(1) e2(1)
    by (simp add: makeTrampolineBackup_def backup_emitter_def [symmetric] emitReturn_def emitB_def f_def)
  have "elems (em_out e1) = ws" "v_size (em_out e1) = length ws"
    "elems (em_out e2) = ws @ [?b]" "v_size (em_out e2) = length ws + 1"
    using r(2) emits_trans [OF r(2) e2(2)] by (simp_all add: emits_def e)
  then have f: "elems (em_out f) = (if skip then ws else ws @ [?b])" "v_size (em_out f) \<le> 5"
    using r(3) by (simp_all add: f_def)
  have "a64_run mem' 1 s = Some (s\<lparr>pc := oa + 4\<rparr>)"
    if "code_at mem' rx (elems (em_out f))" "\<not> skip" "pc s = rx + of_nat (length ws) * 4" for mem' s
    using makeBranch_do [OF al1 d1, of s mem' Branch] that f(1)
    by (simp add: a64_step_do code_at_append code_at_Cons)
  then show ?thesis using make f by (auto simp: code_at_append)
qed

lemma backup_reproduces:
  assumes dec: "a64_decode orig = Some ins" and rep: "reproducible ins oa rx" and near: "near oa rx"
    and al: "oa AND mask 2 = 0" "rx AND mask 2 = 0" and level: "1 \<le> level"
  shows "\<exists>n out. makeTrampolineBackup [orig] oa (oa + 4) (backup_new level) rx = Inr (n, out) \<and> n \<le> 5 \<and>
    (\<forall>mem mem' s. code_at mem' rx (elems out) \<longrightarrow>
      (\<exists>k s'. a64_run mem' k (s\<lparr>pc := rx\<rparr>) = Some s' \<and> copied_do orig mem (s\<lparr>pc := oa\<rparr>) = Some s'))"
proof -
  note e = backup_emitter_facts [of level rx]
  obtain skip ws e1 where r: "relocate orig oa True (False, backup_emitter level rx) = Inr (skip, e1)"
      "emits (backup_emitter level rx) e1 ws" "length ws \<le> 4"
      and sim: "copy_simulates orig oa rx ws skip"
    using relocate_ok [OF dec, of oa "backup_emitter level rx"] rep room_for_le [OF e(4) [OF level], of 4] al
    by (auto simp: e)
  obtain n out where out: "makeTrampolineBackup [orig] oa (oa + 4) (backup_new level) rx = Inr (n, out)" "n \<le> 5"
    "\<And>mem'. code_at mem' rx (elems out) \<Longrightarrow> code_at mem' rx ws"
    "\<And>mem' s. code_at mem' rx (elems out) \<Longrightarrow> \<not> skip \<Longrightarrow> pc s = rx + of_nat (length ws) * 4 \<Longrightarrow>
      a64_run mem' 1 s = Some (s\<lparr>pc := oa + 4\<rparr>)"
    using backup_built [OF near al level r] by blast
  have "\<exists>k s'. a64_run mem' k (s\<lparr>pc := rx\<rparr>) = Some s' \<and> copied_do orig mem (s\<lparr>pc := oa\<rparr>) = Some s'"
    if c: "code_at mem' rx (elems out)" for mem mem' s
  proof -
    obtain k s1 s' where s1: "copied_do orig mem (s\<lparr>pc := oa\<rparr>) = Some s1" "a64_run mem' k (s\<lparr>pc := rx\<rparr>) = Some s'"
      and s': "s' = s1 \<or> \<not> skip \<and> pc s1 = oa + 4 \<and> s' = s1\<lparr>pc := rx + of_nat (length ws) * 4\<rparr>"
      using sim out(3) [OF c] unfolding copy_simulates_def by blast
    show ?thesis
    proof (cases "s' = s1")
      case True
      then show ?thesis using s1 by blast
    next
      case False
      then have n: "\<not> skip" "pc s1 = oa + 4" "s' = s1\<lparr>pc := rx + of_nat (length ws) * 4\<rparr>" using s' by auto
      have "a64_run mem' 1 s' = Some (s'\<lparr>pc := oa + 4\<rparr>)" using out(4) [OF c n(1), of s'] n(3) by simp
      moreover have "s'\<lparr>pc := oa + 4\<rparr> = s1" using n by simp
      ultimately have "a64_run mem' (k + 1) (s\<lparr>pc := rx\<rparr>) = Some s1"
        using s1(2) by (simp only: a64_run_add bind.simps)
      then show ?thesis using s1(1) by blast
    qed
  qed
  then show ?thesis using out(1,2) by blast
qed

text \<open>A call: the copy links to the word behind it, which branches back.\<close>

lemma backup_links:
  assumes dec: "a64_decode orig = Some (I_B True imm)" and t: "near (oa + sx 26 imm * 4) rx" and near: "near oa rx"
    and al: "oa AND mask 2 = 0" "rx AND mask 2 = 0" and level: "1 \<le> level"
  shows "\<exists>n out. makeTrampolineBackup [orig] oa (oa + 4) (backup_new level) rx = Inr (n, out) \<and> n \<le> 5 \<and>
    (\<forall>mem' s. code_at mem' rx (elems out) \<longrightarrow>
      a64_run mem' 1 (s\<lparr>pc := rx\<rparr>) = Some ((wr_X 30 (rx + 4) s)\<lparr>pc := oa + sx 26 imm * 4\<rparr>) \<and>
      a64_run mem' 1 (s\<lparr>pc := rx + 4\<rparr>) = Some (s\<lparr>pc := oa + 4\<rparr>))"
proof -
  let ?e = "backup_emitter level rx" and ?t = "oa + sx 26 imm * 4"
  note e = backup_emitter_facts [of level rx]
  have w: "field 31 26 orig = 37"
    using dec by (auto simp: a64_decode_def flag_def field_eq_one field_eq_iff upt_rec split: if_splits)
  then have imm: "imm = field 25 0 orig" using decode_branch [of orig] dec by simp
  have f: "field 28 24 orig \<noteq> 16" "field 31 26 orig \<noteq> 5" using w by (auto simp: field_eq_iff upt_rec)
  have d: "s64_abs (?t - rx) \<le> cMaxBranchDistance" using near_branch [OF t, of 0] by simp
  obtain e1 where e1: "emitBranch True ?t True ?e = Inr (1, e1)" "emits ?e e1 [makeUnconditionalBranch BranchLink rx ?t]"
    using emitBranch_near [OF room_for_le [OF e(4) [OF level], of 1], of ?t True True] d by (auto simp: e)
  have r: "relocate orig oa True (False, ?e) = Inr (False, e1)"
    using w f e1(1) by (simp add: relocate_def cwAdr_iff cwAdrp_iff cwB_iff cwBL_iff grab_targets imm)
  have al': "(?t - rx) AND mask 2 = 0" by (intro aligned_minus_aligned aligned_add_4 al)
  have step: "a64_run mem' 1 (s\<lparr>pc := rx\<rparr>) = Some ((wr_X 30 (rx + 4) s)\<lparr>pc := ?t\<rparr>)"
    if "code_at mem' rx [makeUnconditionalBranch BranchLink rx ?t]" for mem' s
    using that makeBranch_do [OF al' d, of "s\<lparr>pc := rx\<rparr>" mem' BranchLink]
    by (simp add: a64_step_do code_at_Cons wr_X_def)
  show ?thesis using backup_built [OF near al level r e1(2)] step by fastforce
qed

lemma backup_links_register:
  assumes dec: "a64_decode orig = Some (I_BLR rn)" and near: "near oa rx"
    and al: "oa AND mask 2 = 0" "rx AND mask 2 = 0" and level: "1 \<le> level"
  shows "\<exists>n out. makeTrampolineBackup [orig] oa (oa + 4) (backup_new level) rx = Inr (n, out) \<and> n \<le> 5 \<and>
    (\<forall>mem' s. code_at mem' rx (elems out) \<longrightarrow>
      a64_run mem' 1 (s\<lparr>pc := rx\<rparr>) = Some ((wr_X 30 (rx + 4) s)\<lparr>pc := rd_X s rn\<rparr>) \<and>
      a64_run mem' 1 (s\<lparr>pc := rx + 4\<rparr>) = Some (s\<lparr>pc := oa + 4\<rparr>))"
proof -
  let ?e = "backup_emitter level rx"
  note e = backup_emitter_facts [of level rx]
  have w: "field 31 10 orig = 0b1101011000111111000000"
    using dec by (auto simp: a64_decode_def split: if_splits)
  have f: "field 28 24 orig \<noteq> 16" "field 31 26 orig \<noteq> 5" "field 31 26 orig \<noteq> 37" "field 31 24 orig \<noteq> 0b01010100"
    "field 30 24 orig \<noteq> 52" "field 30 24 orig \<noteq> 53" "field 30 24 orig \<noteq> 54" "field 30 24 orig \<noteq> 55" "bit orig 31"
    using w by (auto simp: field_eq_iff upt_rec)
  obtain e1 where e1: "emit_one orig ?e = Inr e1" "emits ?e e1 [orig]"
    using emit_one_ok [OF room_for_le [OF e(4) [OF level], of 1]] by auto
  have r: "relocate orig oa True (False, ?e) = Inr (False, e1)"
    using f e1(1) by (simp add: relocate_def cwAdr_iff cwAdrp_iff cwB_iff cwBL_iff cwBcond_iff
        cwCbz_iff cwCbnz_iff cwTbz_iff cwTbnz_iff cwLdrLiteral_iff)
  have step: "a64_run mem' 1 (s\<lparr>pc := rx\<rparr>) = Some ((wr_X 30 (rx + 4) s)\<lparr>pc := rd_X s rn\<rparr>)"
    if "code_at mem' rx [orig]" for mem' s
    using that by (simp add: a64_step_def dec a64_exec_def code_at_Cons wr_X_def rd_X_def)
  show ?thesis using backup_built [OF near al level r e1(2)] step by fastforce
qed

lemma backup_literal_aborts:
  assumes "a64_decode orig = Some (I_LDRL wide imm rt)"
  shows "makeTrampolineBackup [orig] oa (oa + 4) (backup_new level) rx = Inl (Abort ''LDR(literal) not supported'')"
proof -
  have w: "field 29 24 orig = 24" "\<not> bit orig 31"
    using assms by (auto simp: a64_decode_def flag_def field_eq_one split: if_splits)
  have "field 28 24 orig \<noteq> 16" "field 31 26 orig \<noteq> 5" "field 31 26 orig \<noteq> 37" "field 31 24 orig \<noteq> 0b01010100"
    "field 30 24 orig \<noteq> 52" "field 30 24 orig \<noteq> 53" "field 30 24 orig \<noteq> 54" "field 30 24 orig \<noteq> 55"
    using w(1) by (auto simp: field_eq_iff upt_rec)
  then show ?thesis
    using w by (simp add: makeTrampolineBackup_def relocate_def cwAdr_iff cwAdrp_iff cwB_iff cwBL_iff cwBcond_iff
        cwCbz_iff cwCbnz_iff cwTbz_iff cwTbnz_iff cwLdrLiteral_iff)
qed

lemma backup_simulates:
  assumes rel: "relocatable orig oa rx" and "near oa rx"
    and al: "oa AND mask 2 = 0" "rx AND mask 2 = 0" and level: "1 \<le> level"
  shows "\<exists>n out. makeTrampolineBackup [orig] oa (oa + 4) (backup_new level) rx = Inr (n, out) \<and> n \<le> 5 \<and>
    (\<forall>mem mem' s. code_at mem' rx (elems out) \<longrightarrow>
      (\<exists>k s'. a64_run mem' k (s\<lparr>pc := rx\<rparr>) = Some s' \<and> a64_do mem orig (s\<lparr>pc := oa\<rparr>) = Some s'))"
  using relocatable_reproducible [OF rel] backup_reproduces [OF _ _ assms(2) al level]
  unfolding relocatable_copied_do [OF rel, symmetric] by blast

text \<open>
  C2: the trampoline of one overwritten instruction, for a backup of level 1 or 2 within branch
  range of the instruction, both word-aligned.
  An instruction with a modelled effect (so neither \<^verbatim>\<open>svc\<close> nor \<^verbatim>\<open>ands\<close>) that does not look at the
  program counter, or an \<^verbatim>\<open>adr\<close>/\<^verbatim>\<open>adrp\<close> (not to XZR), \<^verbatim>\<open>b\<close>,
  \<^verbatim>\<open>b.cond\<close>, \<^verbatim>\<open>cbz\<close>/\<^verbatim>\<open>cbnz\<close> or \<^verbatim>\<open>tbz\<close>/\<^verbatim>\<open>tbnz\<close> whose target is in branch range of the backup, gets a copy
  of at most five words, and running the copy leads to exactly the state, the program counter
  included, that executing \<open>copied_as\<close> of the instruction at its own address leads to.  That is the
  instruction itself in every case but two, which the copy changes: a 32-bit \<^verbatim>\<open>cbz\<close>/\<^verbatim>\<open>cbnz\<close> becomes the
  64-bit one, and a \<^verbatim>\<open>b.al\<close>/\<^verbatim>\<open>b.nv\<close> falls through.
  A call (\<^verbatim>\<open>bl\<close>, its target in range, or \<^verbatim>\<open>blr\<close>) is made from the backup, with the return address in
  the backup, where a branch leads behind the original call.  A literal load aborts the
  installation.
\<close>

theorem trampoline_simulates_original:
  assumes dec: "a64_decode orig = Some ins" and near: "near oa rx"
    and al: "oa AND mask 2 = 0" "rx AND mask 2 = 0"
    and rx: "rx = backup_getRx beginRx rwMap this" and level: "1 \<le> level"
  shows "(reproducible ins oa rx \<longrightarrow>
      (\<exists>n out. backup_make level beginRx rwMap this [orig] oa (oa + 4) = Inr (n, out) \<and> n \<le> 5 \<and>
        (\<forall>mem mem' s. code_at mem' rx (elems out) \<longrightarrow>
          (\<exists>k s'. a64_run mem' k (s\<lparr>pc := rx\<rparr>) = Some s' \<and>
            a64_exec mem (copied_as ins) (s\<lparr>pc := oa\<rparr>) = Some s')))) \<and>
    (\<forall>target. (\<exists>imm. ins = I_B True imm \<and> near (oa + sx 26 imm * 4) rx \<and> target = (\<lambda>s. oa + sx 26 imm * 4)) \<or>
        (\<exists>rn. ins = I_BLR rn \<and> target = (\<lambda>s. rd_X s rn)) \<longrightarrow>
      (\<exists>n out. backup_make level beginRx rwMap this [orig] oa (oa + 4) = Inr (n, out) \<and> n \<le> 5 \<and>
        (\<forall>mem' s. code_at mem' rx (elems out) \<longrightarrow>
          a64_run mem' 1 (s\<lparr>pc := rx\<rparr>) = Some ((wr_X 30 (rx + 4) s)\<lparr>pc := target s\<rparr>) \<and>
          a64_run mem' 1 (s\<lparr>pc := rx + 4\<rparr>) = Some (s\<lparr>pc := oa + 4\<rparr>)))) \<and>
    (\<forall>wide imm rt. ins = I_LDRL wide imm rt \<longrightarrow>
      backup_make level beginRx rwMap this [orig] oa (oa + 4) = Inl (Abort ''LDR(literal) not supported''))"
proof (intro conjI impI allI)
  assume "reproducible ins oa rx"
  from backup_reproduces [OF dec this near al level]
  show "\<exists>n out. backup_make level beginRx rwMap this [orig] oa (oa + 4) = Inr (n, out) \<and> n \<le> 5 \<and>
        (\<forall>mem mem' s. code_at mem' rx (elems out) \<longrightarrow>
          (\<exists>k s'. a64_run mem' k (s\<lparr>pc := rx\<rparr>) = Some s' \<and>
            a64_exec mem (copied_as ins) (s\<lparr>pc := oa\<rparr>) = Some s'))"
    unfolding backup_make_def rx [symmetric] by (simp add: copied_do_def dec)
next
  fix target
  assume "(\<exists>imm. ins = I_B True imm \<and> near (oa + sx 26 imm * 4) rx \<and> target = (\<lambda>s. oa + sx 26 imm * 4)) \<or>
        (\<exists>rn. ins = I_BLR rn \<and> target = (\<lambda>s. rd_X s rn))"
  then show "\<exists>n out. backup_make level beginRx rwMap this [orig] oa (oa + 4) = Inr (n, out) \<and> n \<le> 5 \<and>
        (\<forall>mem' s. code_at mem' rx (elems out) \<longrightarrow>
          a64_run mem' 1 (s\<lparr>pc := rx\<rparr>) = Some ((wr_X 30 (rx + 4) s)\<lparr>pc := target s\<rparr>) \<and>
          a64_run mem' 1 (s\<lparr>pc := rx + 4\<rparr>) = Some (s\<lparr>pc := oa + 4\<rparr>))"
    unfolding backup_make_def rx [symmetric]
    using backup_links [OF _ _ near al level] backup_links_register [OF _ near al level] dec by blast
next
  fix wide imm rt assume "ins = I_LDRL wide imm rt"
  then show "backup_make level beginRx rwMap this [orig] oa (oa + 4) = Inl (Abort ''LDR(literal) not supported'')"
    unfolding backup_make_def using backup_literal_aborts dec by simp
qed

lemma trampoline_simulates_original_witness:
  "(\<exists>n out. backup_make 1 0x8100000 0x20000000 0x20000000 [0xB4000083] 0x8000000 0x8000004 = Inr (n, out) \<and> n \<le> 5) \<and>
   (\<exists>n out. backup_make 1 0x8100000 0x20000000 0x20000000 [0x94000004] 0x8000000 0x8000004 = Inr (n, out) \<and> n \<le> 5) \<and>
   backup_make 1 0x8100000 0x20000000 0x20000000 [0x58000083] 0x8000000 0x8000004 =
     Inl (Abort ''LDR(literal) not supported'')"
proof -
  have d: "a64_decode 0xB4000083 = Some (I_CBZ True False 4 3)" "a64_decode 0x94000004 = Some (I_B True 4)"
    "a64_decode 0x58000083 = Some (I_LDRL True 4 3)"
    by code_simp+
  have n: "near 0x8000000 0x8100000" "reproducible (I_CBZ True False 4 3) 0x8000000 0x8100000"
    "near (0x8000000 + sx 26 4 * 4) 0x8100000"
    by code_simp+
  have a: "(0x8000000 :: u64) AND mask 2 = 0" "(0x8100000 :: u64) AND mask 2 = 0"
    "0x8100000 = backup_getRx 0x8100000 0x20000000 0x20000000"
    by (simp_all add: mask_eq_exp_minus_1 backup_getRx_def)
  note t = trampoline_simulates_original [OF _ n(1) a order_refl]
  show ?thesis
    using t [OF d(1), THEN conjunct1] t [OF d(2), THEN conjunct2, THEN conjunct1, rule_format, of "\<lambda>s. 0x8000000 + sx 26 4 * 4"]
      t [OF d(3), THEN conjunct2, THEN conjunct2] n(2,3) by auto
qed

definition example_out :: "Instr \<Rightarrow> Instr vec" where
  "example_out w = \<lparr>v_data = [w, 402391043, 402391039, 0, 0], v_size = 3, v_cap = 5, v_raw = 0\<rparr>"

definition example_mem :: "Instr vec \<Rightarrow> u64 \<Rightarrow> u32" where
  "example_mem out a = elems out ! (unat (a - 0x8100000) div 4)"

lemma example_words:
  "example_mem (example_out w) 0x8100000 = w" "example_mem (example_out w) 0x8100008 = 402391039"
  by (simp_all add: example_mem_def example_out_def elems_def)

lemma a64_run_2: "a64_run mem 2 s = Option.bind (a64_do mem (mem (pc s)) s) (\<lambda>s. a64_do mem (mem (pc s)) s)"
proof -
  have "Option.bind x (a64_run mem 0) = x" for x by (cases x) simp_all
  then have "a64_run mem (Suc 0) = (\<lambda>s. a64_do mem (mem (pc s)) s)" by (intro ext) (simp add: a64_step_do)
  then show ?thesis by (simp only: numeral_2_eq_2 a64_run.simps(2) a64_step_do)
qed

lemma cond_always: "cond_holds s 14" "cond_holds s 15"
  by (simp_all add: cond_holds_def)

lemma example_decode:
  "a64_decode 0x34000083 = Some (I_CBZ False False 4 3)" "a64_decode 3036676163 = Some (I_CBZ True True 2 3)"
  "a64_decode 0x5400008E = Some (I_BCOND 4 14)" "a64_decode 1409286223 = Some (I_BCOND 2 15)"
  "a64_decode 402391039 = Some (I_B False 66846719)"
  "sx 19 4 = 4" "sx 19 2 = 2" "0x8100008 + sx 26 66846719 * 4 = 0x8000004"
  by code_simp+

text \<open>
  the copy of a 32-bit \<^verbatim>\<open>cbz\<close> or \<^verbatim>\<open>cbnz\<close> tests all 64 bits.  \<^verbatim>\<open>grabRd\<close> drops the width of the
  register, so the trampoline of \<^verbatim>\<open>cbz w3, .+16\<close> falls through where the original branches, when
  the upper half of X3 is not zero.
\<close>

theorem trampoline_widens_cbz:
  "\<exists>out. backup_make 1 0x8100000 0x20000000 0x20000000 [0x34000083] 0x8000000 0x8000004 = Inr (3, out) \<and>
    (\<forall>s mem. a64_do mem 0x34000083 (s\<lparr>regs := (regs s)(3 := 2 ^ 32), pc := 0x8000000\<rparr>) =
        Some (s\<lparr>regs := (regs s)(3 := 2 ^ 32), pc := 0x8000010\<rparr>) \<and>
      a64_run (example_mem out) 2 (s\<lparr>regs := (regs s)(3 := 2 ^ 32), pc := 0x8100000\<rparr>) =
        Some (s\<lparr>regs := (regs s)(3 := 2 ^ 32), pc := 0x8000004\<rparr>))"
proof (intro exI [of _ "example_out 3036676163"] conjI allI)
  show "backup_make 1 0x8100000 0x20000000 0x20000000 [0x34000083] 0x8000000 0x8000004 =
      Inr (3, example_out 3036676163)" by code_simp
  fix s mem
  show "a64_do mem 0x34000083 (s\<lparr>regs := (regs s)(3 := 2 ^ 32), pc := 0x8000000\<rparr>) =
      Some (s\<lparr>regs := (regs s)(3 := 2 ^ 32), pc := 0x8000010\<rparr>)"
    by (simp add: a64_do_simps(3) [OF example_decode(1)] example_decode sized_def low32_def rd_X_def
        mask_eq_exp_minus_1)
  show "a64_run (example_mem (example_out 3036676163)) 2 (s\<lparr>regs := (regs s)(3 := 2 ^ 32), pc := 0x8100000\<rparr>) =
      Some (s\<lparr>regs := (regs s)(3 := 2 ^ 32), pc := 0x8000004\<rparr>)"
    by (simp add: a64_run_2 example_words a64_do_simps(3) [OF example_decode(2)]
        a64_do_simps(1) [OF example_decode(5)] example_decode sized_def rd_X_def)
qed

text \<open>
  a \<^verbatim>\<open>b.al\<close> is not reproduced.  Its condition is inverted to \<^verbatim>\<open>nv\<close>, which AArch64 executes
  always as well, so the copy skips the branch and goes on behind the original.
\<close>

theorem trampoline_drops_always_branch:
  "\<exists>out. backup_make 1 0x8100000 0x20000000 0x20000000 [0x5400008E] 0x8000000 0x8000004 = Inr (3, out) \<and>
    (\<forall>s mem. a64_do mem 0x5400008E (s\<lparr>pc := 0x8000000\<rparr>) = Some (s\<lparr>pc := 0x8000010\<rparr>) \<and>
      a64_run (example_mem out) 2 (s\<lparr>pc := 0x8100000\<rparr>) = Some (s\<lparr>pc := 0x8000004\<rparr>))"
proof (intro exI [of _ "example_out 1409286223"] conjI allI)
  show "backup_make 1 0x8100000 0x20000000 0x20000000 [0x5400008E] 0x8000000 0x8000004 =
      Inr (3, example_out 1409286223)" by code_simp
  fix s mem
  show "a64_do mem 0x5400008E (s\<lparr>pc := 0x8000000\<rparr>) = Some (s\<lparr>pc := 0x8000010\<rparr>)"
    by (simp add: a64_do_simps(2) [OF example_decode(3)] example_decode cond_always)
  show "a64_run (example_mem (example_out 1409286223)) 2 (s\<lparr>pc := 0x8100000\<rparr>) = Some (s\<lparr>pc := 0x8000004\<rparr>)"
    by (simp add: a64_run_2 example_words a64_do_simps(2) [OF example_decode(4)]
        a64_do_simps(1) [OF example_decode(5)] example_decode cond_always)
qed

end
