(* ===== verification/HashMap.thy ===== *)
theory HashMap
  imports SpanVec HkResult
begin

text \<open>
  \<^verbatim>\<open>hk::Map\<close> and \<^verbatim>\<open>hk::Set\<close> (\<^verbatim>\<open>hk/container/Map.h\<close>, \<^verbatim>\<open>Set.h\<close>): a heap vector of pairs kept in
  the order of the keys' hashes and searched by hash.  The hash function is a parameter of the
  templates, and an argument here.
\<close>

section \<open>Map\<close>

type_synonym ('k, 'v) hmap = "('k \<times> 'v) vec"

definition map_binarySearchByHash :: "('k \<Rightarrow> nat) \<Rightarrow> nat \<Rightarrow> bool \<Rightarrow> ('k, 'v) hmap \<Rightarrow> int run" where
  "map_binarySearchByHash hash h findBetween m = sp_binarySearch (\<lambda>pair. hash (fst pair)) h findBetween m"

definition map_binarySearch :: "('k \<Rightarrow> nat) \<Rightarrow> 'k \<Rightarrow> bool \<Rightarrow> ('k, 'v) hmap \<Rightarrow> int run" where
  "map_binarySearch hash key findBetween m = map_binarySearchByHash hash (hash key) findBetween m"

definition map_findByHash :: "('k \<Rightarrow> nat) \<Rightarrow> nat \<Rightarrow> ('k, 'v) hmap \<Rightarrow> 'v option run" where
  "map_findByHash hash h m =
     bindR (map_binarySearchByHash hash h False m) (\<lambda>foundIdx.
       if foundIdx = - 1 then Inr None
       else bindR (sp_at (nat foundIdx) m) (\<lambda>pair. Inr (Some (snd pair))))"

definition map_find :: "('k \<Rightarrow> nat) \<Rightarrow> 'k \<Rightarrow> ('k, 'v) hmap \<Rightarrow> 'v option run" where
  "map_find hash key m =
     bindR (map_binarySearch hash key False m) (\<lambda>foundIdx.
       if foundIdx = - 1 then Inr None
       else bindR (sp_at (nat foundIdx) m) (\<lambda>pair. Inr (Some (snd pair))))"

definition map_checkInsert :: "('k \<Rightarrow> nat) \<Rightarrow> 'k \<Rightarrow> ('k, 'v) hmap \<Rightarrow> unit run" where
  "map_checkInsert hash key m =
     bindR (map_binarySearch hash key False m) (\<lambda>i.
       abort_unless (i = - 1) ''insert: key already exists'' (Inr ()))"

definition map_insert :: "('k \<Rightarrow> nat) \<Rightarrow> 'k \<Rightarrow> 'v \<Rightarrow> ('k, 'v) hmap \<Rightarrow> ('k, 'v) hmap run" where
  "map_insert hash key x m =
     bindR (map_checkInsert hash key m) (\<lambda>_.
     bindR (map_binarySearch hash key True m) (\<lambda>insertIdx.
       hv_insert (key, x) (nat insertIdx) m))"

definition map_at :: "('k \<Rightarrow> nat) \<Rightarrow> 'k \<Rightarrow> ('k, 'v) hmap \<Rightarrow> 'v run" where
  "map_at hash key m =
     bindR (map_find hash key m) (\<lambda>found.
       abort_unless (found \<noteq> None) ''at(): key not found'' (Inr (the found)))"

definition map_remove :: "('k \<Rightarrow> nat) \<Rightarrow> 'k \<Rightarrow> ('k, 'v) hmap \<Rightarrow> (('k \<times> 'v) \<times> ('k, 'v) hmap) res run" where
  "map_remove hash key m =
     bindR (map_binarySearch hash key False m) (\<lambda>index.
       if index = - 1 then Inr (Inl ResultNoValue)
       else bindR (vec_remove (nat index) m) (\<lambda>r. Inr (Inr r)))"

text \<open>\<^verbatim>\<open>operator[]\<close> inserts the default value of the value type for an absent key.\<close>

definition map_index :: "('k \<Rightarrow> nat) \<Rightarrow> 'v \<Rightarrow> 'k \<Rightarrow> ('k, 'v) hmap \<Rightarrow> ('v \<times> ('k, 'v) hmap) run" where
  "map_index hash dflt key m =
     bindR (map_find hash key m) (\<lambda>found. case found of
       Some x \<Rightarrow> Inr (x, m)
     | None \<Rightarrow> bindR (map_insert hash key dflt m) (\<lambda>m. Inr (dflt, m)))"

definition map_forEach :: "('k \<Rightarrow> 'v \<Rightarrow> 's \<Rightarrow> 's) \<Rightarrow> ('k, 'v) hmap \<Rightarrow> 's \<Rightarrow> 's" where
  "map_forEach callback m st = sp_forEach (\<lambda>pair. callback (fst pair) (snd pair)) m st"

section \<open>Set\<close>

type_synonym 'k hset = "(nat \<times> 'k) vec"

definition set_binarySearch :: "('k \<Rightarrow> nat) \<Rightarrow> 'k \<Rightarrow> bool \<Rightarrow> 'k hset \<Rightarrow> int run" where
  "set_binarySearch hash x findBetween s = sp_binarySearch fst (hash x) findBetween s"

definition set_find :: "('k \<Rightarrow> nat) \<Rightarrow> 'k \<Rightarrow> 'k hset \<Rightarrow> 'k option run" where
  "set_find hash key s =
     bindR (set_binarySearch hash key False s) (\<lambda>foundIdx.
       if foundIdx = - 1 then Inr None
       else bindR (sp_at (nat foundIdx) s) (\<lambda>pair. Inr (Some (snd pair))))"

text \<open>An insertion that finds the hash taken returns a null pointer and changes nothing.\<close>

definition set_insert :: "('k \<Rightarrow> nat) \<Rightarrow> 'k \<Rightarrow> 'k hset \<Rightarrow> (bool \<times> 'k hset) run" where
  "set_insert hash x s =
     bindR (set_binarySearch hash x False s) (\<lambda>i.
       if i \<noteq> - 1 then Inr (False, s)
       else bindR (set_binarySearch hash x True s) (\<lambda>insertIdx.
         bindR (hv_insert (hash x, x) (nat insertIdx) s) (\<lambda>s. Inr (True, s))))"

definition set_at :: "('k \<Rightarrow> nat) \<Rightarrow> 'k \<Rightarrow> 'k hset \<Rightarrow> 'k run" where
  "set_at hash key s =
     bindR (set_find hash key s) (\<lambda>found.
       abort_unless (found \<noteq> None) ''at(): key not found'' (Inr (the found)))"

definition set_remove :: "('k \<Rightarrow> nat) \<Rightarrow> 'k \<Rightarrow> 'k hset \<Rightarrow> ('k \<times> 'k hset) res run" where
  "set_remove hash key s =
     bindR (set_binarySearch hash key False s) (\<lambda>index.
       if index = - 1 then Inr (Inl ResultNoValue)
       else bindR (vec_remove (nat index) s) (\<lambda>r. Inr (Inr (snd (fst r), snd r))))"

definition set_forEach :: "('k \<Rightarrow> 's \<Rightarrow> 's) \<Rightarrow> 'k hset \<Rightarrow> 's \<Rightarrow> 's" where
  "set_forEach callback s st = sp_forEach (\<lambda>pair. callback (snd pair)) s st"

section \<open>Ordered by rank\<close>

text \<open>
  Both containers are vectors strictly ordered by a rank of their elements: the hash of the key,
  or the stored hash.
\<close>

definition ranked :: "('e \<Rightarrow> nat) \<Rightarrow> 'e vec \<Rightarrow> bool" where
  "ranked rank v \<longleftrightarrow> vec_ok v \<and> v_size v \<le> 2 ^ 30 \<and> sorted_wrt (<) (List.map rank (elems v))"

lemma ranked_nth_less:
  assumes "ranked rank v" "i < j" "j < v_size v"
  shows "rank (elems v ! i) < rank (elems v ! j)"
  using sorted_wrt_nth_less [of "(<)" "List.map rank (elems v)" i j] assms
  by (simp add: ranked_def)

lemma ranked_search:
  assumes "ranked rank v"
  shows "\<exists>r. sp_binarySearch rank h fb v = Inr r \<and>
    (if h \<in> rank ` set (elems v) then 0 \<le> r \<and> nat r < v_size v \<and> rank (elems v ! nat r) = h
     else if fb then 0 \<le> r \<and> nat r \<le> v_size v \<and> (\<forall>i<nat r. rank (elems v ! i) < h) \<and>
       (\<forall>i<v_size v. nat r \<le> i \<longrightarrow> h < rank (elems v ! i))
     else r = - 1)"
proof -
  let ?get = "\<lambda>i. rank (v_data v ! nat i)" and ?n = "int (v_size v)"
  have ok: "vec_ok v" "v_size v \<le> 2 ^ 30" using assms by (simp_all add: ranked_def)
  have le: "rank (v_data v ! i) \<le> rank (v_data v ! j)" if "i \<le> j" "j < v_size v" for i j
    using ranked_nth_less [OF assms, of i j] that by (cases "i = j") auto
  have s: "sorted_on ?n ?get"
    unfolding sorted_on_def by (intro allI impI le) auto
  have mem: "(\<exists>i. 0 \<le> i \<and> i < ?n \<and> ?get i = h) \<longleftrightarrow> h \<in> rank ` set (elems v)"
  proof
    assume "\<exists>i. 0 \<le> i \<and> i < ?n \<and> ?get i = h"
    then obtain i where "0 \<le> i" "i < ?n" "?get i = h" by blast
    then show "h \<in> rank ` set (elems v)"
      using ok(1) nth_mem [of "nat i" "elems v"] by (auto intro!: image_eqI [of _ _ "elems v ! nat i"])
  next
    assume "h \<in> rank ` set (elems v)"
    then obtain i where "i < v_size v" "rank (elems v ! i) = h"
      using ok(1) by (auto simp: in_set_conv_nth)
    then show "\<exists>i. 0 \<le> i \<and> i < ?n \<and> ?get i = h" by (intro exI [of _ "int i"]) simp
  qed
  obtain r where r: "binarySearch ?get 0 (?n - 1) h fb = Inr r" and
    c: "if h \<in> rank ` set (elems v) then 0 \<le> r \<and> r < ?n \<and> ?get r = h
     else if fb then 0 \<le> r \<and> r \<le> ?n \<and> (\<forall>i. 0 \<le> i \<longrightarrow> i < r \<longrightarrow> ?get i < h) \<and>
       (\<forall>i. r \<le> i \<longrightarrow> i < ?n \<longrightarrow> h < ?get i)
     else r = - 1"
    unfolding binarySearch_def mem [symmetric]
    using binarySearch_loop_sorted [OF s, of 0 "?n - 1" h fb] ok by auto
  have "\<forall>i<nat r. rank (elems v ! i) < h"
    if "0 \<le> r" "r \<le> ?n" "\<forall>i. 0 \<le> i \<longrightarrow> i < r \<longrightarrow> ?get i < h"
  proof (intro allI impI)
    fix i assume "i < nat r"
    then show "rank (elems v ! i) < h" using that spec [OF that(3), of "int i"] by simp
  qed
  moreover have "\<forall>i<v_size v. nat r \<le> i \<longrightarrow> h < rank (elems v ! i)"
    if "0 \<le> r" "\<forall>i. r \<le> i \<longrightarrow> i < ?n \<longrightarrow> h < ?get i"
  proof (intro allI impI)
    fix i assume "i < v_size v" "nat r \<le> i"
    then show "h < rank (elems v ! i)" using that spec [OF that(2), of "int i"] by simp
  qed
  ultimately show ?thesis
    using r c by (intro exI [of _ r]) (auto simp: sp_binarySearch_def nat_less_iff)
qed

text \<open>An insertion at the position the search gives keeps the order.\<close>

lemma ranked_insert:
  assumes v: "ranked rank v" and h: "rank x \<notin> rank ` set (elems v)" and size: "v_size v < 2 ^ 30"
    and search: "sp_binarySearch rank (rank x) True v = Inr r"
  shows "\<exists>v'. hv_insert x (nat r) v = Inr v' \<and> ranked rank v' \<and> set (elems v') = insert x (set (elems v)) \<and>
    v_size v' = v_size v + 1"
proof -
  let ?xs = "elems v" and ?i = "nat r"
  have ok: "vec_ok v" and sw: "sorted_wrt (<) (List.map rank ?xs)" using v by (simp_all add: ranked_def)
  have r: "?i \<le> v_size v" "\<forall>i<?i. rank (?xs ! i) < rank x" "\<forall>i<v_size v. ?i \<le> i \<longrightarrow> rank x < rank (?xs ! i)"
    using ranked_search [OF v, of "rank x" True] h search by auto
  obtain v' where v': "hv_insert x ?i v = Inr v'" "vec_ok v'" "elems v' = take ?i ?xs @ x # drop ?i ?xs"
    using heap_vec.insert_law [of v ?i x] ok r(1) by auto
  have len: "v_size v' = v_size v + 1"
    using length_elems [OF v'(2)] length_elems [OF ok] r(1) v'(3) by simp
  have lo: "\<forall>y\<in>set (take ?i ?xs). rank y < rank x"
    using r ok by (auto simp: in_set_conv_nth)
  have hi: "\<forall>y\<in>set (drop ?i ?xs). rank x < rank y"
  proof
    fix y assume "y \<in> set (drop ?i ?xs)"
    then obtain j where "j < v_size v - ?i" "y = ?xs ! (?i + j)"
      using ok by (auto simp: in_set_conv_nth)
    then show "rank x < rank y" using r(1,3) by simp
  qed
  have "sorted_wrt (<) (List.map rank (take ?i ?xs @ drop ?i ?xs))" using sw by simp
  then have "sorted_wrt (<) (List.map rank (elems v'))"
    unfolding v'(3) map_append using lo hi by (auto simp: sorted_wrt_append intro: less_trans)
  moreover have "set (elems v') = insert x (set ?xs)"
    unfolding v'(3) by (metis append_take_drop_id set_append list.simps(15) Un_insert_right)
  ultimately show ?thesis using v' len size by (auto simp: ranked_def)
qed

lemma ranked_remove:
  assumes v: "ranked rank v" and i: "i < v_size v"
  shows "\<exists>v'. vec_remove i v = Inr (elems v ! i, v') \<and> ranked rank v' \<and>
    set (elems v') = set (elems v) - {elems v ! i}"
proof -
  let ?xs = "elems v"
  have ok: "vec_ok v" and sw: "sorted_wrt (<) (List.map rank ?xs)" using v by (simp_all add: ranked_def)
  obtain v' where v': "vec_remove i v = Inr (?xs ! i, v')" "vec_ok v'" "elems v' = take i ?xs @ drop (i + 1) ?xs"
    using heap_vec.remove_law [of v i] ok i by auto
  have split: "?xs = take i ?xs @ ?xs ! i # drop (i + 1) ?xs"
    using id_take_nth_drop [of i ?xs] i ok by (simp del: nth_elems)
  have d: "distinct ?xs" using sw by (simp add: strict_sorted_iff distinct_map)
  have "sorted_wrt (<) (List.map rank (take i ?xs) @ rank (?xs ! i) # List.map rank (drop (i + 1) ?xs))"
    using sw split by (metis list.simps(9) map_append)
  then have "sorted_wrt (<) (List.map rank (elems v'))"
    unfolding v'(3) by (auto simp: sorted_wrt_append)
  moreover have "set (elems v') = set ?xs - {?xs ! i}"
  proof -
    have "?xs ! i \<notin> set (take i ?xs @ drop (i + 1) ?xs)"
      using d split by (metis distinct.simps(2) distinct_append not_distinct_conv_prefix disjoint_insert(2) Un_iff set_append list.simps(15))
    moreover have "set ?xs = insert (?xs ! i) (set (take i ?xs @ drop (i + 1) ?xs))"
      by (subst split) auto
    ultimately show ?thesis unfolding v'(3) by auto
  qed
  moreover have "v_size v' \<le> 2 ^ 30"
    using length_elems [OF v'(2)] length_elems [OF ok] v v'(3) i by (auto simp: ranked_def)
  ultimately show ?thesis using v' by (auto simp: ranked_def)
qed

section \<open>The map as a partial function\<close>

definition map_ok :: "('k \<Rightarrow> nat) \<Rightarrow> ('k, 'v) hmap \<Rightarrow> bool" where
  "map_ok hash m = ranked (\<lambda>pair. hash (fst pair)) m"

definition map_abs :: "('k, 'v) hmap \<Rightarrow> 'k \<rightharpoonup> 'v" where
  "map_abs m = map_of (elems m)"

text \<open>The keys in play do not collide.\<close>

definition no_collision :: "('k \<Rightarrow> nat) \<Rightarrow> 'k \<Rightarrow> ('k, 'v) hmap \<Rightarrow> bool" where
  "no_collision hash key m \<longleftrightarrow> (\<forall>k \<in> dom (map_abs m). hash k = hash key \<longrightarrow> k = key)"

lemma dom_map_abs: "dom (map_abs m) = fst ` set (elems m)"
  by (simp add: map_abs_def dom_map_of_conv_image_fst)

lemma map_ok_distinct:
  assumes "map_ok hash m"
  shows "distinct (List.map fst (elems m))"
proof -
  have "distinct (List.map (\<lambda>p. hash (fst p)) (elems m))"
    using assms by (simp add: map_ok_def ranked_def strict_sorted_iff comp_def)
  then show ?thesis by (auto simp: distinct_map inj_on_def)
qed

lemma map_abs_iff: "map_ok hash m \<Longrightarrow> map_abs m k = Some x \<longleftrightarrow> (k, x) \<in> set (elems m)"
  unfolding map_abs_def by (rule map_of_eq_Some_iff [OF map_ok_distinct])

lemma map_abs_eqI:
  assumes "map_ok hash m" "\<And>k x. (k, x) \<in> set (elems m) \<longleftrightarrow> f k = Some x"
  shows "map_abs m = f"
proof
  fix k
  have "map_abs m k = Some x \<longleftrightarrow> f k = Some x" for x
    using map_abs_iff [OF assms(1)] assms(2) by simp
  then show "map_abs m k = f k" by (metis not_Some_eq)
qed

lemma map_search:
  assumes "map_ok hash m"
  shows "\<exists>r. map_binarySearch hash key fb m = Inr r \<and>
    (if hash key \<in> hash ` dom (map_abs m)
     then 0 \<le> r \<and> nat r < v_size m \<and> hash (fst (elems m ! nat r)) = hash key
     else if fb then True else r = - 1)"
proof -
  have "hash key \<in> hash ` dom (map_abs m) \<longleftrightarrow> hash key \<in> (\<lambda>p. hash (fst p)) ` set (elems m)"
    by (force simp: dom_map_abs)
  then show ?thesis
    using ranked_search [OF assms [unfolded map_ok_def], of "hash key" fb]
    by (auto simp: map_binarySearch_def map_binarySearchByHash_def split: if_splits)
qed

lemma map_find_eq:
  assumes ok: "map_ok hash m" and nc: "no_collision hash key m"
  shows "map_find hash key m = Inr (map_abs m key)"
proof -
  obtain r where r: "map_binarySearch hash key False m = Inr r" and
    c: "if hash key \<in> hash ` dom (map_abs m)
      then 0 \<le> r \<and> nat r < v_size m \<and> hash (fst (elems m ! nat r)) = hash key else r = - 1"
    using map_search [OF ok, of key False] unfolding if_False by blast
  have v: "vec_ok m" using ok by (simp add: map_ok_def ranked_def)
  show ?thesis
  proof (cases "hash key \<in> hash ` dom (map_abs m)")
    case True
    let ?p = "elems m ! nat r"
    have n: "nat r < length (elems m)" "0 \<le> r" using c True v by simp_all
    then have p: "?p \<in> set (elems m)" by simp
    then have "fst ?p = key" using nc c True unfolding no_collision_def dom_map_abs by auto
    then have "map_abs m key = Some (snd ?p)"
      using map_abs_iff [OF ok] p by (metis prod.collapse)
    then show ?thesis
      using r n heap_vec.get_law [OF v n(1)] by (auto simp: map_find_def simp del: nth_elems)
  next
    case False
    then have "map_abs m key = None" by (auto simp: domIff image_iff)
    then show ?thesis using r c False by (simp add: map_find_def)
  qed
qed

lemma map_insert_eq:
  assumes ok: "map_ok hash m" and nc: "no_collision hash key m" and size: "v_size m < 2 ^ 30"
  shows "if key \<in> dom (map_abs m) then map_insert hash key x m = Inl (Abort ''insert: key already exists'')
    else \<exists>m'. map_insert hash key x m = Inr m' \<and> map_ok hash m' \<and> map_abs m' = (map_abs m)(key \<mapsto> x)"
proof (cases "key \<in> dom (map_abs m)")
  case True
  then show ?thesis
    using map_search [OF ok, of key False] by (auto simp: map_insert_def map_checkInsert_def)
next
  case False
  then have h: "hash key \<notin> hash ` dom (map_abs m)"
    using nc by (auto simp: no_collision_def)
  obtain r where r: "sp_binarySearch (\<lambda>p. hash (fst p)) (hash key) True m = Inr r"
    using map_search [OF ok, of key True] by (auto simp: map_binarySearch_def map_binarySearchByHash_def)
  have "hash (fst (key, x)) \<notin> (\<lambda>p. hash (fst p)) ` set (elems m)"
    using h by (force simp: dom_map_abs)
  then obtain m' where m': "hv_insert (key, x) (nat r) m = Inr m'" "map_ok hash m'"
    "set (elems m') = insert (key, x) (set (elems m))"
    using ranked_insert [OF ok [unfolded map_ok_def], of "(key, x)" r] size r by (auto simp: map_ok_def)
  have "map_abs m' = (map_abs m)(key \<mapsto> x)"
  proof (rule map_abs_eqI [OF m'(2)])
    fix k y
    show "(k, y) \<in> set (elems m') \<longleftrightarrow> ((map_abs m)(key \<mapsto> x)) k = Some y"
      using False map_abs_iff [OF ok, of k y] by (auto simp: m'(3) dom_map_abs rev_image_eqI)
  qed
  moreover have "map_binarySearch hash key False m = Inr (- 1)"
    using map_search [OF ok, of key False] h by auto
  ultimately show ?thesis
    using m' r False
    by (auto simp: map_insert_def map_checkInsert_def map_binarySearch_def map_binarySearchByHash_def)
qed

lemma map_remove_eq:
  assumes ok: "map_ok hash m" and nc: "no_collision hash key m"
  shows "case map_abs m key of
      None \<Rightarrow> map_remove hash key m = Inr (Inl ResultNoValue)
    | Some x \<Rightarrow> \<exists>m'. map_remove hash key m = Inr (Inr ((key, x), m')) \<and> map_ok hash m' \<and>
        map_abs m' = (map_abs m)(key := None)"
proof -
  obtain r where r: "map_binarySearch hash key False m = Inr r" and
    c: "if hash key \<in> hash ` dom (map_abs m)
      then 0 \<le> r \<and> nat r < v_size m \<and> hash (fst (elems m ! nat r)) = hash key else r = - 1"
    using map_search [OF ok, of key False] unfolding if_False by blast
  have v: "vec_ok m" using ok by (simp add: map_ok_def ranked_def)
  show ?thesis
  proof (cases "map_abs m key")
    case None
    then have "hash key \<notin> hash ` dom (map_abs m)" using nc by (auto simp: no_collision_def)
    then show ?thesis using None r c by (simp add: map_remove_def)
  next
    case (Some x)
    then have "hash key \<in> hash ` dom (map_abs m)" by blast
    then have n: "nat r < v_size m" "0 \<le> r" and hr: "hash (fst (elems m ! nat r)) = hash key"
      using c by (simp_all del: nth_elems)
    have p: "elems m ! nat r \<in> set (elems m)" using n v by (simp del: nth_elems)
    then have "fst (elems m ! nat r) = key" using nc hr unfolding no_collision_def dom_map_abs by auto
    moreover have "map_abs m (fst (elems m ! nat r)) = Some (snd (elems m ! nat r))"
      using map_abs_iff [OF ok] p by (metis prod.collapse)
    ultimately have e: "elems m ! nat r = (key, x)" using Some by (metis option.inject prod.collapse)
    obtain m' where m': "vec_remove (nat r) m = Inr ((key, x), m')" "map_ok hash m'"
      "set (elems m') = set (elems m) - {(key, x)}"
      using ranked_remove [OF ok [unfolded map_ok_def] n(1)] e by (auto simp: map_ok_def)
    have "map_abs m' = (map_abs m)(key := None)"
    proof (rule map_abs_eqI [OF m'(2)])
      fix k y
      show "(k, y) \<in> set (elems m') \<longleftrightarrow> ((map_abs m)(key := None)) k = Some y"
        using Some map_abs_iff [OF ok, of k y] by (auto simp: m'(3))
    qed
    then show ?thesis using Some r n m' by (simp add: map_remove_def)
  qed
qed

section \<open>Interfaces and properties\<close>

text \<open>
  What a client of a dictionary relies on, with every operation failing by \<open>Inl\<close>; \<open>fits\<close> is
  what the implementation needs of a key.
\<close>

locale dictionary =
  fixes look :: "'k \<Rightarrow> 'm \<Rightarrow> 'v option run"
    and add :: "'k \<Rightarrow> 'v \<Rightarrow> 'm \<Rightarrow> 'm run"
    and abs :: "'m \<Rightarrow> 'k \<rightharpoonup> 'v"
    and ok :: "'m \<Rightarrow> bool"
    and fits :: "'k \<Rightarrow> 'm \<Rightarrow> bool"
    and room :: "'m \<Rightarrow> bool"
  assumes look_law: "ok m \<Longrightarrow> fits k m \<Longrightarrow> look k m = Inr (abs m k)"
    and add_law: "ok m \<Longrightarrow> fits k m \<Longrightarrow> room m \<Longrightarrow> k \<notin> dom (abs m) \<Longrightarrow>
      \<exists>m'. add k x m = Inr m' \<and> ok m' \<and> abs m' = (abs m)(k \<mapsto> x)"
    and fits_law: "fits k m \<Longrightarrow> fits k' m \<Longrightarrow> fits k' m' \<Longrightarrow> dom (abs m') = insert k (dom (abs m)) \<Longrightarrow>
      fits k m'"
begin

lemma look_added:
  assumes "ok m" "fits k m" "room m" "k \<notin> dom (abs m)" "add k x m = Inr m'" "fits k' m'"
  shows "look k' m' = Inr (if k' = k then Some x else abs m k')"
proof -
  obtain w where "add k x m = Inr w" "ok w" "abs w = (abs m)(k \<mapsto> x)"
    using add_law [OF assms(1-4), of x] by blast
  then show ?thesis using assms(5) look_law [OF _ assms(6)] by simp
qed

end

lemma no_collision_grow:
  assumes "no_collision hash k m" "dom (map_abs m') = insert k (dom (map_abs m))"
  shows "no_collision hash k m'"
  using assms by (auto simp: no_collision_def)

interpretation hk_map: dictionary "map_find hash" "map_insert hash" map_abs "map_ok hash"
    "no_collision hash" "\<lambda>m. v_size m < 2 ^ 30" for hash
proof
  fix m :: "('a, 'b) hmap" and k x
  assume "map_ok hash m" "no_collision hash k m" "v_size m < 2 ^ 30" "k \<notin> dom (map_abs m)"
  then show "\<exists>m'. map_insert hash k x m = Inr m' \<and> map_ok hash m' \<and> map_abs m' = (map_abs m)(k \<mapsto> x)"
    using map_insert_eq [of hash m k x] by simp
qed (simp_all add: map_find_eq no_collision_grow)

text \<open>
  C13: as long as no two keys in play share a hash, \<^verbatim>\<open>hk::Map\<close> is a finite map: lookup reads
  it, insertion of a new key extends it and of a present key aborts, and removal deletes the
  key or reports \<^verbatim>\<open>ResultNoValue\<close>; the order by hash is kept throughout.
\<close>

theorem map_refines_partial_function:
  assumes "map_ok hash m" "no_collision hash key m" "v_size m < 2 ^ 30"
  shows "map_find hash key m = Inr (map_abs m key) \<and>
    (if key \<in> dom (map_abs m) then map_insert hash key x m = Inl (Abort ''insert: key already exists'')
     else \<exists>m'. map_insert hash key x m = Inr m' \<and> map_ok hash m' \<and> map_abs m' = (map_abs m)(key \<mapsto> x)) \<and>
    (case map_abs m key of
      None \<Rightarrow> map_remove hash key m = Inr (Inl ResultNoValue)
    | Some y \<Rightarrow> \<exists>m'. map_remove hash key m = Inr (Inr ((key, y), m')) \<and> map_ok hash m' \<and>
        map_abs m' = (map_abs m)(key := None))"
  using hk_map.look_law [OF assms(1,2)] map_insert_eq [OF assms] map_remove_eq [OF assms(1,2)] by blast

lemma map_refines_partial_function_witness:
  "\<exists>m'. map_insert id 5 ''five'' (hv_of (0 :: nat, []) [(3, ''three''), (8, ''eight'')]) = Inr m' \<and>
     map_abs m' = [3 \<mapsto> ''three'', 8 \<mapsto> ''eight'', 5 \<mapsto> ''five'']"
proof -
  let ?m = "hv_of (0 :: nat, []) [(3, ''three''), (8, ''eight'')]"
  have abs: "map_abs ?m = [3 \<mapsto> ''three'', 8 \<mapsto> ''eight'']" by (auto simp: map_abs_def hv_of_spec)
  have "map_ok id ?m" by (simp add: map_ok_def ranked_def hv_of_spec) (simp add: hv_of_def)
  moreover have "no_collision id 5 ?m" by (simp add: no_collision_def)
  moreover have "v_size ?m < 2 ^ 30" by (simp add: hv_of_def)
  ultimately show ?thesis
    using map_refines_partial_function [of id ?m 5 "''five''"] by (auto simp add: abs)
qed

text \<open>
  two keys with the same hash are one key to \<^verbatim>\<open>hk::Map\<close>.  It compares hashes and never the
  keys: looking up an absent key whose hash is taken returns the other key's value, inserting it
  aborts, and removing it removes the other key.
\<close>

theorem map_confuses_colliding_keys:
  assumes ok: "map_ok hash m" and present: "map_abs m k = Some x" and collide: "hash k' = hash k" "k' \<noteq> k"
    and single: "\<forall>j\<in>dom (map_abs m). hash j = hash k \<longrightarrow> j = k"
  shows "map_find hash k' m = Inr (Some x) \<and>
    map_insert hash k' y m = Inl (Abort ''insert: key already exists'') \<and>
    (\<exists>m'. map_remove hash k' m = Inr (Inr ((k, x), m')) \<and> map_abs m' = (map_abs m)(k := None))"
proof -
  have same: "map_binarySearch hash k' = map_binarySearch hash k"
    by (intro ext) (simp add: map_binarySearch_def collide)
  have nc: "no_collision hash k m" using single by (simp add: no_collision_def)
  have "map_find hash k' m = map_find hash k m" "map_remove hash k' m = map_remove hash k m"
    by (simp_all add: map_find_def map_remove_def same)
  moreover have "map_insert hash k' y m = Inl (Abort ''insert: key already exists'')"
  proof -
    have "hash k' \<in> hash ` dom (map_abs m)" using present collide by (metis domI imageI)
    then obtain r where "map_binarySearch hash k' False m = Inr r" "0 \<le> r"
      using map_search [OF ok, of k' False] by auto
    then show ?thesis by (auto simp: map_insert_def map_checkInsert_def)
  qed
  ultimately show ?thesis
    using map_find_eq [OF ok nc] map_remove_eq [OF ok nc] present by auto
qed

lemma map_confuses_colliding_keys_witness:
  "map_find (\<lambda>n. n mod 10) 13 (hv_of (0 :: nat, []) [(3, ''three''), (8, ''eight'')]) = Inr (Some ''three'')"
proof -
  let ?m = "hv_of (0 :: nat, []) [(3, ''three''), (8, ''eight'')]" and ?h = "\<lambda>n :: nat. n mod 10"
  have abs: "map_abs ?m = [3 \<mapsto> ''three'', 8 \<mapsto> ''eight'']" by (auto simp: map_abs_def hv_of_spec)
  have "map_ok ?h ?m" by (simp add: map_ok_def ranked_def hv_of_spec) (simp add: hv_of_def)
  then show ?thesis
    using map_confuses_colliding_keys [of ?h ?m 3 "''three''" 13] by (auto simp: abs)
qed

end
