(* ===== verification/RtldElf.thy ===== *)
theory RtldElf
  imports HkPrelude
begin

text \<open>
  The ELF data that the runtime linker reads (\<^verbatim>\<open>rtld/elf.h\<close>, \<^verbatim>\<open>rtld/types.h\<close>, the 64-bit half) and
  the parser of the dynamic section (\<^verbatim>\<open>hk/ro/ElfUtil.h\<close>). Tables stay where they are in the code:
  in the memory of the process, behind the pointers of the parsed data. A pointer is a 64-bit address,
  a null pointer the address \<open>0\<close>.
\<close>

section \<open>Memory\<close>

type_synonym memory = "u64 \<Rightarrow> u8"

definition ld16 :: "memory \<Rightarrow> u64 \<Rightarrow> u16" where
  "ld16 m a = ucast (m a) OR push_bit 8 (ucast (m (a + 1)))"

definition ld32 :: "memory \<Rightarrow> u64 \<Rightarrow> u32" where
  "ld32 m a = ucast (m a) OR push_bit 8 (ucast (m (a + 1))) OR push_bit 16 (ucast (m (a + 2))) OR
     push_bit 24 (ucast (m (a + 3)))"

definition ld64 :: "memory \<Rightarrow> u64 \<Rightarrow> u64" where
  "ld64 m a = ucast (m a) OR push_bit 8 (ucast (m (a + 1))) OR push_bit 16 (ucast (m (a + 2))) OR
     push_bit 24 (ucast (m (a + 3))) OR push_bit 32 (ucast (m (a + 4))) OR
     push_bit 40 (ucast (m (a + 5))) OR push_bit 48 (ucast (m (a + 6))) OR push_bit 56 (ucast (m (a + 7)))"

definition st64 :: "u64 \<Rightarrow> u64 \<Rightarrow> memory \<Rightarrow> memory" where
  "st64 a v m = m(a := ucast v, a + 1 := ucast (drop_bit 8 v), a + 2 := ucast (drop_bit 16 v),
     a + 3 := ucast (drop_bit 24 v), a + 4 := ucast (drop_bit 32 v), a + 5 := ucast (drop_bit 40 v),
     a + 6 := ucast (drop_bit 48 v), a + 7 := ucast (drop_bit 56 v))"

text \<open>The text of a C string at an address; a string that never ends has none.\<close>

partial_function (option) cstr_at :: "memory \<Rightarrow> u64 \<Rightarrow> u8 list option" where
  "cstr_at m a = (if m a = 0 then Some []
     else Option.bind (cstr_at m (a + 1)) (\<lambda>cs. Some (m a # cs)))"

declare cstr_at.simps [code]

text \<open>\<^verbatim>\<open>strcmp(name, p) == 0\<close> for a name without a NUL character.\<close>

fun streq :: "memory \<Rightarrow> u8 list \<Rightarrow> u64 \<Rightarrow> bool" where
  "streq m [] a \<longleftrightarrow> m a = 0"
| "streq m (c # cs) a \<longleftrightarrow> m a = c \<and> streq m cs (a + 1)"

section \<open>ELF structures\<close>

record Elf_Sym =
  st_name :: u32
  st_info :: u8
  st_other :: u8
  st_shndx :: u16
  st_value :: u64
  st_size :: u64

record Elf_Rel =
  rel_offset :: u64
  rel_info :: u64

record Elf_Rela =
  rela_offset :: u64
  rela_info :: u64
  rela_addend :: u64  \<comment> \<open>signed, as its two's complement\<close>

record Elf_Dyn =
  d_tag :: u64
  d_un :: u64

definition read_Sym :: "memory \<Rightarrow> u64 \<Rightarrow> Elf_Sym" where
  "read_Sym m a = \<lparr>st_name = ld32 m a, st_info = m (a + 4), st_other = m (a + 5),
     st_shndx = ld16 m (a + 6), st_value = ld64 m (a + 8), st_size = ld64 m (a + 16)\<rparr>"

definition read_Rel :: "memory \<Rightarrow> u64 \<Rightarrow> Elf_Rel" where
  "read_Rel m a = \<lparr>rel_offset = ld64 m a, rel_info = ld64 m (a + 8)\<rparr>"

definition read_Rela :: "memory \<Rightarrow> u64 \<Rightarrow> Elf_Rela" where
  "read_Rela m a = \<lparr>rela_offset = ld64 m a, rela_info = ld64 m (a + 8), rela_addend = ld64 m (a + 16)\<rparr>"

definition read_Dyn :: "memory \<Rightarrow> u64 \<Rightarrow> Elf_Dyn" where
  "read_Dyn m a = \<lparr>d_tag = ld64 m a, d_un = ld64 m (a + 8)\<rparr>"

definition sizeof_Sym :: u64 where "sizeof_Sym = 24"
definition sizeof_Rel :: u64 where "sizeof_Rel = 16"
definition sizeof_Rela :: u64 where "sizeof_Rela = 24"
definition sizeof_Dyn :: u64 where "sizeof_Dyn = 16"

definition ELF_R_SYM :: "u64 \<Rightarrow> u64" where "ELF_R_SYM i = drop_bit 32 i"
definition ELF_R_TYPE :: "u64 \<Rightarrow> u64" where "ELF_R_TYPE i = i AND 0xffffffff"
definition ELF_ST_BIND :: "u8 \<Rightarrow> u8" where "ELF_ST_BIND v = drop_bit 4 v"
definition ELF_ST_VISIBILITY :: "u8 \<Rightarrow> u8" where "ELF_ST_VISIBILITY v = v AND 0x03"

definition STB_LOCAL :: u8 where "STB_LOCAL = 0"
definition STB_WEAK :: u8 where "STB_WEAK = 2"
definition STV_DEFAULT :: u8 where "STV_DEFAULT = 0"
definition SHN_COMMON :: u16 where "SHN_COMMON = 0xfff2"

definition R_AARCH64_ABS64 :: u64 where "R_AARCH64_ABS64 = 257"
definition R_AARCH64_ABS32 :: u64 where "R_AARCH64_ABS32 = 258"
definition R_AARCH64_GLOB_DAT :: u64 where "R_AARCH64_GLOB_DAT = 1025"
definition R_AARCH64_JUMP_SLOT :: u64 where "R_AARCH64_JUMP_SLOT = 1026"
definition R_AARCH64_RELATIVE :: u64 where "R_AARCH64_RELATIVE = 1027"

definition ARCH_IS_REL_ABSOLUTE :: "u64 \<Rightarrow> bool" where
  "ARCH_IS_REL_ABSOLUTE type \<longleftrightarrow> type = R_AARCH64_ABS32 \<or> type = R_AARCH64_ABS64"

definition DT_NULL :: u64 where "DT_NULL = 0"
definition DT_PLTRELSZ :: u64 where "DT_PLTRELSZ = 2"
definition DT_PLTGOT :: u64 where "DT_PLTGOT = 3"
definition DT_HASH :: u64 where "DT_HASH = 4"
definition DT_STRTAB :: u64 where "DT_STRTAB = 5"
definition DT_SYMTAB :: u64 where "DT_SYMTAB = 6"
definition DT_RELA :: u64 where "DT_RELA = 7"
definition DT_RELASZ :: u64 where "DT_RELASZ = 8"
definition DT_RELAENT :: u64 where "DT_RELAENT = 9"
definition DT_STRSZ :: u64 where "DT_STRSZ = 10"
definition DT_SYMENT :: u64 where "DT_SYMENT = 11"
definition DT_INIT :: u64 where "DT_INIT = 12"
definition DT_FINI :: u64 where "DT_FINI = 13"
definition DT_SONAME :: u64 where "DT_SONAME = 14"
definition DT_REL :: u64 where "DT_REL = 17"
definition DT_RELSZ :: u64 where "DT_RELSZ = 18"
definition DT_RELENT :: u64 where "DT_RELENT = 19"
definition DT_PLTREL :: u64 where "DT_PLTREL = 20"
definition DT_JMPREL :: u64 where "DT_JMPREL = 23"
definition DT_BIND_NOW :: u64 where "DT_BIND_NOW = 24"
definition DT_GNU_HASH :: u64 where "DT_GNU_HASH = 0x6ffffef5"

section \<open>The dynamic section\<close>

record DynamicData =
  dd_pltGot :: u64
  dd_hashTable :: u64
  dd_gnuHashTable :: u64
  dd_rel :: u64
  dd_rela :: u64
  dd_plt :: u64
  dd_dynsym :: u64
  dd_dynstr :: u64
  dd_init :: u64
  dd_fini :: u64
  dd_relSize :: u64
  dd_relaSize :: u64
  dd_relCount :: u64
  dd_relaCount :: u64
  dd_pltRelSize :: u64
  dd_dynstrSize :: u64
  dd_sonameIdx :: u64
  dd_isRela :: bool
  dd_bindNow :: bool

definition DynamicData_new :: DynamicData where
  "DynamicData_new = \<lparr>dd_pltGot = 0, dd_hashTable = 0, dd_gnuHashTable = 0, dd_rel = 0, dd_rela = 0,
     dd_plt = 0, dd_dynsym = 0, dd_dynstr = 0, dd_init = 0, dd_fini = 0, dd_relSize = 0,
     dd_relaSize = 0, dd_relCount = 0, dd_relaCount = 0, dd_pltRelSize = 0, dd_dynstrSize = 0,
     dd_sonameIdx = 0, dd_isRela = True, dd_bindNow = False\<rparr>"

text \<open>The switch of \<^verbatim>\<open>parseDynamic\<close> over the tag of one entry.\<close>

definition parseDynamic_entry :: "u64 \<Rightarrow> Elf_Dyn \<Rightarrow> DynamicData \<Rightarrow> DynamicData run" where
  "parseDynamic_entry moduleBase dyn data =
     (let tag = d_tag dyn; v = d_un dyn in
      if tag = DT_PLTRELSZ then Inr (data\<lparr>dd_pltRelSize := v\<rparr>)
      else if tag = DT_PLTGOT then Inr (data\<lparr>dd_pltGot := moduleBase + v\<rparr>)
      else if tag = DT_HASH then Inr (data\<lparr>dd_hashTable := moduleBase + v\<rparr>)
      else if tag = DT_GNU_HASH then Inr (data\<lparr>dd_gnuHashTable := moduleBase + v\<rparr>)
      else if tag = DT_STRTAB then Inr (data\<lparr>dd_dynstr := moduleBase + v\<rparr>)
      else if tag = DT_STRSZ then Inr (data\<lparr>dd_dynstrSize := v\<rparr>)
      else if tag = DT_SYMTAB then Inr (data\<lparr>dd_dynsym := moduleBase + v\<rparr>)
      else if tag = DT_REL then Inr (data\<lparr>dd_rel := moduleBase + v\<rparr>)
      else if tag = DT_RELA then Inr (data\<lparr>dd_rela := moduleBase + v\<rparr>)
      else if tag = DT_JMPREL then Inr (data\<lparr>dd_plt := moduleBase + v\<rparr>)
      else if tag = DT_RELSZ then Inr (data\<lparr>dd_relSize := v\<rparr>)
      else if tag = DT_RELASZ then Inr (data\<lparr>dd_relaSize := v\<rparr>)
      else if tag = DT_RELENT then abort_unless (v = sizeof_Rel) ''RELENT'' (Inr data)
      else if tag = DT_RELAENT then abort_unless (v = sizeof_Rela) ''RELAENT'' (Inr data)
      else if tag = DT_SYMENT then abort_unless (v = sizeof_Sym) ''SYMENT'' (Inr data)
      else if tag = DT_INIT then Inr (data\<lparr>dd_init := moduleBase + v\<rparr>)
      else if tag = DT_FINI then Inr (data\<lparr>dd_fini := moduleBase + v\<rparr>)
      else if tag = DT_PLTREL
        then abort_unless (v = DT_REL \<or> v = DT_RELA) ''PLTREL'' (Inr (data\<lparr>dd_isRela := (v = DT_RELA)\<rparr>))
      else if tag = DT_SONAME then Inr (data\<lparr>dd_sonameIdx := v\<rparr>)
      else if tag = DT_BIND_NOW then Inr (data\<lparr>dd_bindNow := True\<rparr>)
      else Inr data)"

partial_function (option) parseDynamic_loop ::
  "memory \<Rightarrow> u64 \<Rightarrow> u64 \<Rightarrow> DynamicData \<Rightarrow> DynamicData run option" where
  "parseDynamic_loop m moduleBase dyn data =
     (if d_tag (read_Dyn m dyn) = DT_NULL then Some (Inr data)
      else (case parseDynamic_entry moduleBase (read_Dyn m dyn) data of
              Inl e \<Rightarrow> Some (Inl e)
            | Inr data \<Rightarrow> parseDynamic_loop m moduleBase (dyn + sizeof_Dyn) data))"

declare parseDynamic_loop.simps [code]

definition count_relocations :: "DynamicData \<Rightarrow> DynamicData" where
  "count_relocations data =
     (let data = (if dd_relCount data = 0 then data\<lparr>dd_relCount := dd_relSize data div sizeof_Rel\<rparr> else data)
      in if dd_relaCount data = 0 then data\<lparr>dd_relaCount := dd_relaSize data div sizeof_Rela\<rparr> else data)"

definition parseDynamic :: "memory \<Rightarrow> u64 \<Rightarrow> u64 \<Rightarrow> DynamicData run option" where
  "parseDynamic m moduleBase dyn =
     map_option (map_sum id count_relocations) (parseDynamic_loop m moduleBase dyn DynamicData_new)"

section \<open>Walking the relocations\<close>

text \<open>
  The template parameter \<^verbatim>\<open>FilterAbsolute\<close> is the argument \<open>flt\<close>. A callback is given the address of
  the entry and may change the state, abort or not return; \<open>mem\<close> is the memory of a state.
\<close>

type_synonym 's callback = "u64 \<Rightarrow> 's \<Rightarrow> 's run option"

definition passes_filter :: "bool \<Rightarrow> u64 \<Rightarrow> bool" where
  "passes_filter flt info \<longleftrightarrow>
     (flt \<longrightarrow> ELF_R_TYPE info \<in> {R_AARCH64_ABS32, R_AARCH64_ABS64, R_AARCH64_JUMP_SLOT,
        R_AARCH64_RELATIVE, R_AARCH64_GLOB_DAT})"

fun forEach_entries ::
  "bool \<Rightarrow> ('s \<Rightarrow> memory) \<Rightarrow> 's callback \<Rightarrow> u64 \<Rightarrow> nat \<Rightarrow> u64 \<Rightarrow> 's \<Rightarrow> 's run option" where
  "forEach_entries flt mem cb sz 0 entry st = Some (Inr st)"
| "forEach_entries flt mem cb sz (Suc n) entry st =
     (if \<not> passes_filter flt (ld64 (mem st) (entry + 8)) then forEach_entries flt mem cb sz n (entry + sz) st
      else (case cb entry st of
              None \<Rightarrow> None
            | Some (Inl e) \<Rightarrow> Some (Inl e)
            | Some (Inr st) \<Rightarrow> forEach_entries flt mem cb sz n (entry + sz) st))"

definition forEachRel ::
  "bool \<Rightarrow> ('s \<Rightarrow> memory) \<Rightarrow> DynamicData \<Rightarrow> 's callback \<Rightarrow> 's \<Rightarrow> 's run option" where
  "forEachRel flt mem data cb st =
     (if dd_rel data = 0 \<or> dd_relSize data = 0 \<or> dd_relCount data = 0 then Some (Inr st)
      else forEach_entries flt mem cb sizeof_Rel (unat (dd_relCount data)) (dd_rel data) st)"

definition forEachRela ::
  "bool \<Rightarrow> ('s \<Rightarrow> memory) \<Rightarrow> DynamicData \<Rightarrow> 's callback \<Rightarrow> 's \<Rightarrow> 's run option" where
  "forEachRela flt mem data cb st =
     (if dd_rela data = 0 \<or> dd_relaSize data = 0 \<or> dd_relaCount data = 0 then Some (Inr st)
      else forEach_entries flt mem cb sizeof_Rela (unat (dd_relaCount data)) (dd_rela data) st)"

partial_function (option) forEachPlt_loop ::
  "bool \<Rightarrow> ('s \<Rightarrow> memory) \<Rightarrow> 's callback \<Rightarrow> u64 \<Rightarrow> u64 \<Rightarrow> 's \<Rightarrow> 's run option" where
  "forEachPlt_loop flt mem cb sz entry st =
     (if ld64 (mem st) entry = 0 then Some (Inr st)
      else if \<not> passes_filter flt (ld64 (mem st) (entry + 8)) then forEachPlt_loop flt mem cb sz (entry + sz) st
      else (case cb entry st of
              None \<Rightarrow> None
            | Some r \<Rightarrow> (case r of Inl e \<Rightarrow> Some (Inl e) | Inr st \<Rightarrow> forEachPlt_loop flt mem cb sz (entry + sz) st)))"

declare forEachPlt_loop.simps [code]

text \<open>The callback of \<^verbatim>\<open>forEachPlt\<close> gets an entry with or without addend: \<open>cb True\<close> is for the former.\<close>

definition forEachPlt ::
  "bool \<Rightarrow> ('s \<Rightarrow> memory) \<Rightarrow> DynamicData \<Rightarrow> (bool \<Rightarrow> 's callback) \<Rightarrow> 's \<Rightarrow> 's run option" where
  "forEachPlt flt mem data cb st =
     (if dd_plt data = 0 then Some (Inr st)
      else forEachPlt_loop flt mem (cb (dd_isRela data)) (if dd_isRela data then sizeof_Rela else sizeof_Rel)
             (dd_plt data) st)"

definition andThen :: "'s run option \<Rightarrow> ('s \<Rightarrow> 's run option) \<Rightarrow> 's run option" where
  "andThen r f = (case r of None \<Rightarrow> None | Some (Inl e) \<Rightarrow> Some (Inl e) | Some (Inr m) \<Rightarrow> f m)"

lemma andThen_simps [simp]:
  "andThen (Some (Inr m)) f = f m" "andThen (Some (Inl e)) f = Some (Inl e)" "andThen None f = None"
  by (simp_all add: andThen_def)

definition forEachPltRelRela ::
  "bool \<Rightarrow> ('s \<Rightarrow> memory) \<Rightarrow> DynamicData \<Rightarrow> (bool \<Rightarrow> 's callback) \<Rightarrow> 's \<Rightarrow> 's run option" where
  "forEachPltRelRela flt mem data cb st =
     andThen (andThen (forEachPlt flt mem data cb st) (forEachRel flt mem data (cb False)))
       (forEachRela flt mem data (cb True))"

definition dynamic_relocate :: "DynamicData \<Rightarrow> u64 \<Rightarrow> memory \<Rightarrow> memory run option" where
  "dynamic_relocate data moduleBase m =
     andThen
       (forEachRel True id data (\<lambda>entry m.
          let p = moduleBase + rel_offset (read_Rel m entry)
          in Some (Inr (st64 p (ld64 m p + moduleBase) m))) m)
       (forEachRela True id data (\<lambda>entry m.
          let p = moduleBase + rela_offset (read_Rela m entry)
          in Some (Inr (st64 p (moduleBase + rela_addend (read_Rela m entry)) m))))"

end
