(* ===== verification/Hash.thy ===== *)
theory Hash
  imports HkPrelude
begin

text \<open>
  The hash functions of \<^verbatim>\<open>hk/util/hash.h\<close>: MurmurHash3 at 32 bits and its 64-bit companion,
  each as an object that can be fed in pieces, the two ELF symbol hashes and CRC32.

  The templates read bytes of a type \<open>T\<close> of size one through a callback \<open>Read::read\<close>.  Here the
  callback is a function \<open>rd\<close> from offsets to bytes, and \<open>sx\<close> says whether \<open>T\<close> is a signed type:
  \<^verbatim>\<open>u8\<close> is not, and \<^verbatim>\<open>char\<close> is or is not depending on the machine the code runs on.  A C string
  is the list of its bytes up to its terminator, or longer.
\<close>

section \<open>Reading bytes\<close>

definition ofT :: "bool \<Rightarrow> u8 \<Rightarrow> 'a::len word" where
  "ofT sx b = (if sx then scast b else ucast b)"

definition ReadDefault :: "u8 list \<Rightarrow> nat \<Rightarrow> u8" where
  "ReadDefault p off = p ! off"

definition getBlock :: "bool \<Rightarrow> (nat \<Rightarrow> u8) \<Rightarrow> nat \<Rightarrow> u32" where
  "getBlock sx rd i =
     (let a = ofT sx (rd (0 + i * 4)); b = ofT sx (rd (1 + i * 4));
          c = ofT sx (rd (2 + i * 4)); d = ofT sx (rd (3 + i * 4))
      in push_bit 0 a OR push_bit 8 b OR push_bit 16 c OR push_bit 24 d)"

definition getBlock64 :: "bool \<Rightarrow> (nat \<Rightarrow> u8) \<Rightarrow> nat \<Rightarrow> u64" where
  "getBlock64 sx rd i =
     (let a = ofT sx (rd (0 + i * 8)); b = ofT sx (rd (1 + i * 8));
          c = ofT sx (rd (2 + i * 8)); d = ofT sx (rd (3 + i * 8));
          e = ofT sx (rd (4 + i * 8)); f = ofT sx (rd (5 + i * 8));
          g = ofT sx (rd (6 + i * 8)); h = ofT sx (rd (7 + i * 8))
      in push_bit 0 a OR push_bit 8 b OR push_bit 16 c OR push_bit 24 d OR
         push_bit 32 e OR push_bit 40 f OR push_bit 48 g OR push_bit 56 h)"

definition cstrlen :: "u8 list \<Rightarrow> nat" where
  "cstrlen str = length (takeWhile (\<lambda>c. c \<noteq> 0) str)"

section \<open>Murmur, 32 bits\<close>

definition rotateLeft32 :: "u32 \<Rightarrow> nat \<Rightarrow> u32" where
  "rotateLeft32 x r = push_bit r x OR drop_bit (32 - r) x"

definition finalMix :: "u32 \<Rightarrow> u32" where
  "finalMix h =
     (let h = h XOR drop_bit 16 h;
          h = h * 0x85ebca6b;
          h = h XOR drop_bit 13 h;
          h = h * 0xc2b2ae35;
          h = h XOR drop_bit 16 h
      in h)"

record HashMurmur32 =
  m32_mLen :: nat
  m32_mHashValue :: u32

definition m32_nblocks :: "nat \<Rightarrow> nat" where
  "m32_nblocks n = n div 4"

definition m32_c1 :: u32 where "m32_c1 = 0xcc9e2d51"
definition m32_c2 :: u32 where "m32_c2 = 0x1b873593"
definition m32_c3 :: u32 where "m32_c3 = 0xe6546b64"

definition m32_new :: "nat \<Rightarrow> u32 \<Rightarrow> HashMurmur32" where
  "m32_new n seed = \<lparr>m32_mLen = n, m32_mHashValue = seed\<rparr>"

definition m32_scramble :: "u32 \<Rightarrow> u32" where
  "m32_scramble k1 = rotateLeft32 (k1 * m32_c1) 15 * m32_c2"

definition m32_step :: "u32 \<Rightarrow> u32 \<Rightarrow> u32" where
  "m32_step k1 h = rotateLeft32 (h XOR m32_scramble k1) 13 * 5 + m32_c3"

definition m32_blocks :: "bool \<Rightarrow> (nat \<Rightarrow> u8) \<Rightarrow> nat \<Rightarrow> u32 \<Rightarrow> u32" where
  "m32_blocks sx rd n h = fold (\<lambda>i. m32_step (getBlock sx rd i)) [0..<n] h"

definition m32_feed :: "bool \<Rightarrow> u8 list \<Rightarrow> nat \<Rightarrow> HashMurmur32 \<Rightarrow> HashMurmur32" where
  "m32_feed sx fedData fedLen m =
     m\<lparr>m32_mHashValue := m32_blocks sx (ReadDefault fedData) (m32_nblocks fedLen) (m32_mHashValue m)\<rparr>"

definition m32_feedNullTerminated :: "bool \<Rightarrow> u8 list \<Rightarrow> HashMurmur32 \<Rightarrow> HashMurmur32" where
  "m32_feedNullTerminated sx str m =
     (let n = cstrlen str;
          m = m32_feed sx str n m;
          tail = n mod 4
      in if tail > 0
         then m32_feed sx
           (fold (\<lambda>i t. t[i := str ! (n - tail + i)]) [0..<tail] (replicate 4 0)) 4 m
         else m)"

definition m32_calcWithCallback :: "bool \<Rightarrow> (nat \<Rightarrow> u8) \<Rightarrow> HashMurmur32 \<Rightarrow> HashMurmur32" where
  "m32_calcWithCallback sx rd m =
     m\<lparr>m32_mHashValue := m32_blocks sx rd (m32_nblocks (m32_mLen m)) (m32_mHashValue m)\<rparr>"

definition m32_finalize :: "bool \<Rightarrow> (nat \<Rightarrow> u8) \<Rightarrow> HashMurmur32 \<Rightarrow> u32" where
  "m32_finalize sx rd m =
     (let n = m32_mLen m; tail = n - n mod 4; rest = n mod 4;
          k1 = (if 3 \<le> rest then push_bit 16 (ofT sx (rd (tail + 2))) else 0);
          k1 = (if 2 \<le> rest then k1 XOR push_bit 8 (ofT sx (rd (tail + 1))) else k1);
          k1 = (if 1 \<le> rest then k1 XOR ofT sx (rd (tail + 0)) else k1);
          h1 = (if 1 \<le> rest then m32_mHashValue m XOR m32_scramble k1 else m32_mHashValue m)
      in finalMix (h1 XOR word_of_nat n))"

section \<open>Murmur, 64 bits\<close>

record HashMurmur64 =
  m64_mLen :: nat
  m64_mHashValue :: u64

definition m64_nblocks :: "nat \<Rightarrow> nat" where
  "m64_nblocks n = n div 8"

definition cConstant :: u64 where "cConstant = 0xc6a4a7935bd1e995"
definition cShift :: nat where "cShift = 47"
definition cDefaultSeed :: u64 where "cDefaultSeed = 0xa9f63e6017234875"

definition finalMix64 :: "u64 \<Rightarrow> u64" where
  "finalMix64 h =
     (let h = (h XOR drop_bit cShift h) * cConstant in h XOR drop_bit cShift h)"

definition m64_new :: "nat \<Rightarrow> u64 \<Rightarrow> HashMurmur64" where
  "m64_new n seed = \<lparr>m64_mLen = n, m64_mHashValue = (word_of_nat n * cConstant) XOR seed\<rparr>"

definition m64_step :: "u64 \<Rightarrow> u64 \<Rightarrow> u64" where
  "m64_step val h =
     ((((val * cConstant) XOR drop_bit cShift (val * cConstant)) * cConstant) XOR h) * cConstant"

definition m64_blocks :: "bool \<Rightarrow> (nat \<Rightarrow> u8) \<Rightarrow> nat \<Rightarrow> u64 \<Rightarrow> u64" where
  "m64_blocks sx rd n h = fold (\<lambda>i. m64_step (getBlock64 sx rd i)) [0..<n] h"

definition m64_feed :: "bool \<Rightarrow> u8 list \<Rightarrow> nat \<Rightarrow> HashMurmur64 \<Rightarrow> HashMurmur64" where
  "m64_feed sx fedData fedLen m =
     m\<lparr>m64_mHashValue := m64_blocks sx (ReadDefault fedData) (m64_nblocks fedLen) (m64_mHashValue m)\<rparr>"

definition m64_feedNullTerminated :: "bool \<Rightarrow> u8 list \<Rightarrow> HashMurmur64 \<Rightarrow> HashMurmur64" where
  "m64_feedNullTerminated sx str m =
     (let n = cstrlen str;
          m = m64_feed sx str n m;
          tail = n mod 4
      in if tail > 0
         then m64_feed sx
           (fold (\<lambda>i t. t[i := str ! (n - tail + i)]) [0..<tail] (replicate 4 0)) 4 m
         else m)"

definition m64_calcWithCallback :: "bool \<Rightarrow> (nat \<Rightarrow> u8) \<Rightarrow> HashMurmur64 \<Rightarrow> HashMurmur64" where
  "m64_calcWithCallback sx rd m =
     m\<lparr>m64_mHashValue := m64_blocks sx rd (m64_nblocks (m64_mLen m)) (m64_mHashValue m)\<rparr>"

text \<open>The cases of the switch fall through from the longest tail to the shortest.\<close>

definition m64_finalize :: "bool \<Rightarrow> (nat \<Rightarrow> u8) \<Rightarrow> HashMurmur64 \<Rightarrow> u64" where
  "m64_finalize sx rd m =
     (let n = m64_mLen m; tail = n - n mod 8; rest = n mod 8; h1 = m64_mHashValue m;
          h1 = (if 7 \<le> rest then h1 XOR push_bit 48 (ofT sx (rd (tail + 6))) else h1);
          h1 = (if 6 \<le> rest then h1 XOR push_bit 40 (ofT sx (rd (tail + 5))) else h1);
          h1 = (if 5 \<le> rest then h1 XOR push_bit 32 (ofT sx (rd (tail + 4))) else h1);
          h1 = (if 4 \<le> rest then h1 XOR push_bit 24 (ofT sx (rd (tail + 3))) else h1);
          h1 = (if 3 \<le> rest then h1 XOR push_bit 16 (ofT sx (rd (tail + 2))) else h1);
          h1 = (if 2 \<le> rest then h1 XOR push_bit 8 (ofT sx (rd (tail + 1))) else h1);
          h1 = (if 1 \<le> rest then (h1 XOR ofT sx (rd (tail + 0))) * cConstant else h1)
      in finalMix64 h1)"

section \<open>One-shot hashes\<close>

definition hashMurmurImpl :: "bool \<Rightarrow> (nat \<Rightarrow> u8) \<Rightarrow> nat \<Rightarrow> u32 \<Rightarrow> u32" where
  "hashMurmurImpl sx rd n seed =
     m32_finalize sx rd (m32_calcWithCallback sx rd (m32_new n seed))"

definition hashMurmur64Impl :: "bool \<Rightarrow> (nat \<Rightarrow> u8) \<Rightarrow> nat \<Rightarrow> u64 \<Rightarrow> u64" where
  "hashMurmur64Impl sx rd n seed =
     m64_finalize sx rd (m64_calcWithCallback sx rd (m64_new n seed))"

definition hashMurmur :: "bool \<Rightarrow> u8 list \<Rightarrow> u32 \<Rightarrow> u32" where
  "hashMurmur sx str seed = hashMurmurImpl sx (ReadDefault str) (cstrlen str) seed"

definition hashMurmur64 :: "bool \<Rightarrow> u8 list \<Rightarrow> u64 \<Rightarrow> u64" where
  "hashMurmur64 sx str seed = hashMurmur64Impl sx (ReadDefault str) (cstrlen str) seed"

definition hashMurmur_data :: "bool \<Rightarrow> u8 list \<Rightarrow> nat \<Rightarrow> u32 \<Rightarrow> u32" where
  "hashMurmur_data sx d n seed = hashMurmurImpl sx (ReadDefault d) n seed"

definition hashMurmur64_data :: "bool \<Rightarrow> u8 list \<Rightarrow> nat \<Rightarrow> u64 \<Rightarrow> u64" where
  "hashMurmur64_data sx d n seed = hashMurmur64Impl sx (ReadDefault d) n seed"

text \<open>A value of a trivial type is hashed as the array of its bytes.\<close>

definition hashMurmurT :: "u8 list \<Rightarrow> u32 \<Rightarrow> u32" where
  "hashMurmurT v seed = hashMurmur_data False v (length v) seed"

definition hashMurmur64T :: "u8 list \<Rightarrow> u64 \<Rightarrow> u64" where
  "hashMurmur64T v seed = hashMurmur64_data False v (length v) seed"

text \<open>The functor that the containers use, on a 64-bit machine.\<close>

definition MurmurHash3_hash :: "u8 list \<Rightarrow> u64" where
  "MurmurHash3_hash v = hashMurmur64T v cDefaultSeed"

definition MurmurHash3_hash_cstr :: "bool \<Rightarrow> u8 list \<Rightarrow> u64" where
  "MurmurHash3_hash_cstr sx str = hashMurmur64 sx str cDefaultSeed"

definition isEqualStringHash :: "bool \<Rightarrow> u8 list \<Rightarrow> u8 list \<Rightarrow> u32 \<Rightarrow> bool" where
  "isEqualStringHash sx str literal seed \<longleftrightarrow> hashMurmur sx str seed = hashMurmur sx literal seed"

section \<open>The ELF hashes\<close>

fun hashElfBucket_loop :: "bool \<Rightarrow> u8 list \<Rightarrow> u64 \<Rightarrow> u64" where
  "hashElfBucket_loop sx [] h = h"
| "hashElfBucket_loop sx (c # name) h =
     (if c = 0 then h
      else let h = push_bit 4 h + ofT sx c;
               g = h AND 0xf0000000;
               h = (if g \<noteq> 0 then h XOR drop_bit 24 g else h);
               h = h AND NOT g
           in hashElfBucket_loop sx name h)"

definition hashElfBucket :: "bool \<Rightarrow> u8 list \<Rightarrow> u64" where
  "hashElfBucket sx name = hashElfBucket_loop sx name 0"

fun hashDjb2_loop :: "u8 list \<Rightarrow> u32 \<Rightarrow> u32" where
  "hashDjb2_loop [] h = h"
| "hashDjb2_loop (c # name) h = (if c = 0 then h else hashDjb2_loop name (h * 33 + ucast c))"

definition hashDjb2 :: "u8 list \<Rightarrow> u32" where
  "hashDjb2 name = hashDjb2_loop name 5381"

section \<open>CRC32\<close>

definition cLut :: "u32 list" where
  "cLut = [
    0x00000000, 0x77073096, 0xEE0E612C, 0x990951BA, 0x076DC419, 0x706AF48F, 0xE963A535, 0x9E6495A3,
    0x0EDB8832, 0x79DCB8A4, 0xE0D5E91E, 0x97D2D988, 0x09B64C2B, 0x7EB17CBD, 0xE7B82D07, 0x90BF1D91,
    0x1DB71064, 0x6AB020F2, 0xF3B97148, 0x84BE41DE, 0x1ADAD47D, 0x6DDDE4EB, 0xF4D4B551, 0x83D385C7,
    0x136C9856, 0x646BA8C0, 0xFD62F97A, 0x8A65C9EC, 0x14015C4F, 0x63066CD9, 0xFA0F3D63, 0x8D080DF5,
    0x3B6E20C8, 0x4C69105E, 0xD56041E4, 0xA2677172, 0x3C03E4D1, 0x4B04D447, 0xD20D85FD, 0xA50AB56B,
    0x35B5A8FA, 0x42B2986C, 0xDBBBC9D6, 0xACBCF940, 0x32D86CE3, 0x45DF5C75, 0xDCD60DCF, 0xABD13D59,
    0x26D930AC, 0x51DE003A, 0xC8D75180, 0xBFD06116, 0x21B4F4B5, 0x56B3C423, 0xCFBA9599, 0xB8BDA50F,
    0x2802B89E, 0x5F058808, 0xC60CD9B2, 0xB10BE924, 0x2F6F7C87, 0x58684C11, 0xC1611DAB, 0xB6662D3D,
    0x76DC4190, 0x01DB7106, 0x98D220BC, 0xEFD5102A, 0x71B18589, 0x06B6B51F, 0x9FBFE4A5, 0xE8B8D433,
    0x7807C9A2, 0x0F00F934, 0x9609A88E, 0xE10E9818, 0x7F6A0DBB, 0x086D3D2D, 0x91646C97, 0xE6635C01,
    0x6B6B51F4, 0x1C6C6162, 0x856530D8, 0xF262004E, 0x6C0695ED, 0x1B01A57B, 0x8208F4C1, 0xF50FC457,
    0x65B0D9C6, 0x12B7E950, 0x8BBEB8EA, 0xFCB9887C, 0x62DD1DDF, 0x15DA2D49, 0x8CD37CF3, 0xFBD44C65,
    0x4DB26158, 0x3AB551CE, 0xA3BC0074, 0xD4BB30E2, 0x4ADFA541, 0x3DD895D7, 0xA4D1C46D, 0xD3D6F4FB,
    0x4369E96A, 0x346ED9FC, 0xAD678846, 0xDA60B8D0, 0x44042D73, 0x33031DE5, 0xAA0A4C5F, 0xDD0D7CC9,
    0x5005713C, 0x270241AA, 0xBE0B1010, 0xC90C2086, 0x5768B525, 0x206F85B3, 0xB966D409, 0xCE61E49F,
    0x5EDEF90E, 0x29D9C998, 0xB0D09822, 0xC7D7A8B4, 0x59B33D17, 0x2EB40D81, 0xB7BD5C3B, 0xC0BA6CAD,
    0xEDB88320, 0x9ABFB3B6, 0x03B6E20C, 0x74B1D29A, 0xEAD54739, 0x9DD277AF, 0x04DB2615, 0x73DC1683,
    0xE3630B12, 0x94643B84, 0x0D6D6A3E, 0x7A6A5AA8, 0xE40ECF0B, 0x9309FF9D, 0x0A00AE27, 0x7D079EB1,
    0xF00F9344, 0x8708A3D2, 0x1E01F268, 0x6906C2FE, 0xF762575D, 0x806567CB, 0x196C3671, 0x6E6B06E7,
    0xFED41B76, 0x89D32BE0, 0x10DA7A5A, 0x67DD4ACC, 0xF9B9DF6F, 0x8EBEEFF9, 0x17B7BE43, 0x60B08ED5,
    0xD6D6A3E8, 0xA1D1937E, 0x38D8C2C4, 0x4FDFF252, 0xD1BB67F1, 0xA6BC5767, 0x3FB506DD, 0x48B2364B,
    0xD80D2BDA, 0xAF0A1B4C, 0x36034AF6, 0x41047A60, 0xDF60EFC3, 0xA867DF55, 0x316E8EEF, 0x4669BE79,
    0xCB61B38C, 0xBC66831A, 0x256FD2A0, 0x5268E236, 0xCC0C7795, 0xBB0B4703, 0x220216B9, 0x5505262F,
    0xC5BA3BBE, 0xB2BD0B28, 0x2BB45A92, 0x5CB36A04, 0xC2D7FFA7, 0xB5D0CF31, 0x2CD99E8B, 0x5BDEAE1D,
    0x9B64C2B0, 0xEC63F226, 0x756AA39C, 0x026D930A, 0x9C0906A9, 0xEB0E363F, 0x72076785, 0x05005713,
    0x95BF4A82, 0xE2B87A14, 0x7BB12BAE, 0x0CB61B38, 0x92D28E9B, 0xE5D5BE0D, 0x7CDCEFB7, 0x0BDBDF21,
    0x86D3D2D4, 0xF1D4E242, 0x68DDB3F8, 0x1FDA836E, 0x81BE16CD, 0xF6B9265B, 0x6FB077E1, 0x18B74777,
    0x88085AE6, 0xFF0F6A70, 0x66063BCA, 0x11010B5C, 0x8F659EFF, 0xF862AE69, 0x616BFFD3, 0x166CCF45,
    0xA00AE278, 0xD70DD2EE, 0x4E048354, 0x3903B3C2, 0xA7672661, 0xD06016F7, 0x4969474D, 0x3E6E77DB,
    0xAED16A4A, 0xD9D65ADC, 0x40DF0B66, 0x37D83BF0, 0xA9BCAE53, 0xDEBB9EC5, 0x47B2CF7F, 0x30B5FFE9,
    0xBDBDF21C, 0xCABAC28A, 0x53B39330, 0x24B4A3A6, 0xBAD03605, 0xCDD70693, 0x54DE5729, 0x23D967BF,
    0xB3667A2E, 0xC4614AB8, 0x5D681B02, 0x2A6F2B94, 0xB40BBE37, 0xC30C8EA1, 0x5A05DF1B, 0x2D02EF8D
  ]"

text \<open>
  The index is computed in 32 bits from the byte as \<open>T\<close> reads it.  An index past the table is
  undefined behaviour, here \<open>None\<close>.
\<close>

definition crc_step :: "bool \<Rightarrow> u8 \<Rightarrow> u32 \<Rightarrow> u32 option" where
  "crc_step sx b h =
     (let i = unat (ofT sx b XOR (h AND 0xFF))
      in if i < length cLut then Some (cLut ! i XOR drop_bit 8 h) else None)"

fun crc_loop :: "bool \<Rightarrow> u8 list \<Rightarrow> u32 \<Rightarrow> u32 option" where
  "crc_loop sx [] h = Some h"
| "crc_loop sx (b # d) h =
     (case crc_step sx b h of None \<Rightarrow> None | Some h' \<Rightarrow> crc_loop sx d h')"

definition hashCrc32 :: "bool \<Rightarrow> u8 list \<Rightarrow> nat \<Rightarrow> u32 \<Rightarrow> u32 option" where
  "hashCrc32 sx d n seed =
     (case crc_loop sx (take n d) (seed XOR 0xFFFFFFFF) of
       None \<Rightarrow> None | Some h \<Rightarrow> Some (h XOR 0xFFFFFFFF))"

definition hashCrc32_cstr :: "bool \<Rightarrow> u8 list \<Rightarrow> u32 \<Rightarrow> u32 option" where
  "hashCrc32_cstr sx str seed = hashCrc32 sx str (cstrlen str) seed"

end
