(* ===== verification/Rtld.thy ===== *)
theory Rtld
  imports RtldElf HkResult Hash
begin

text \<open>
  The runtime linker (\<^verbatim>\<open>rtld/RoModule.cpp\<close>, \<^verbatim>\<open>rtld/standalone/main.cpp\<close>): a module's tables, its
  relocation, the lookup of a symbol in the ELF and in the GNU hash table, and the binding of the
  program's symbols to the modules that define them. A lookup that walks a chain which never ends does
  not return, that is the outer \<open>None\<close>; the inner \<open>None\<close> is the null pointer. The fields of the
  module that share storage in the code's unions stand side by side, except for \<^verbatim>\<open>m_pDyn\<close>, whose
  two members are both in use.
\<close>

section \<open>Modules\<close>

record rtld_module =
  r_Base :: u64
  r_DynamicSection :: u64
  r_PltRelSz :: u64
  r_Got :: u64
  r_IsGnuHash :: bool
  r_GnuBloomFilter :: u64
  r_GnuHashMaskwords :: u32
  r_GnuHashShift2 :: u64
  r_GnuHash :: u64
  r_HashSize :: u64
  r_Symbols :: u64
  r_Buckets :: u64
  r_Chains :: u64
  r_StrTab :: u64
  r_DynSym :: u64
  r_StrSz :: u64
  r_Dyn :: u64
  r_DynRelSz :: u64
  r_DynRelaSz :: u64
  r_Init :: u64
  r_Fini :: u64
  r_IsPltRela :: bool
  r_Plt :: u64
  r_RelCount :: u64
  r_RelaCount :: u64
  r_BindNow :: bool

definition Initialize_hash :: "memory \<Rightarrow> DynamicData \<Rightarrow> rtld_module \<Rightarrow> rtld_module" where
  "Initialize_hash m data md =
     (let md = md\<lparr>r_IsGnuHash := dd_gnuHashTable data \<noteq> 0\<rparr> in
      if r_IsGnuHash md then
        md\<lparr>r_GnuBloomFilter := dd_gnuHashTable data + 16,
           r_GnuHashMaskwords := ld32 m (dd_gnuHashTable data + 8),
           r_GnuHashShift2 := ucast (ld32 m (dd_gnuHashTable data + 12)),
           r_GnuHash := dd_gnuHashTable data\<rparr>
      else
        (let hashSize = ucast (ld32 m (dd_hashTable data)) in
         md\<lparr>r_HashSize := hashSize,
            r_Symbols := ucast (ld32 m (dd_hashTable data + 4)),
            r_Buckets := dd_hashTable data + 8,
            r_Chains := dd_hashTable data + 4 * (2 + hashSize)\<rparr>))"

definition Initialize_tables :: "memory \<Rightarrow> DynamicData \<Rightarrow> rtld_module \<Rightarrow> rtld_module" where
  "Initialize_tables m data md =
     (let md = Initialize_hash m data
                 (md\<lparr>r_PltRelSz := dd_pltRelSize data, r_Got := dd_pltGot data\<rparr>);
          md = md\<lparr>r_StrTab := dd_dynstr data, r_DynSym := dd_dynsym data, r_StrSz := dd_dynstrSize data\<rparr>;
          md = (if dd_rel data \<noteq> 0 then md\<lparr>r_Dyn := dd_rel data\<rparr> else md);
          md = (if dd_rela data \<noteq> 0 then md\<lparr>r_Dyn := dd_rela data\<rparr> else md)
      in md\<lparr>r_DynRelSz := dd_relSize data, r_DynRelaSz := dd_relaSize data,
            r_Init := dd_init data, r_Fini := dd_fini data,
            r_IsPltRela := dd_isRela data, r_Plt := dd_plt data,
            r_RelCount := dd_relCount data, r_RelaCount := dd_relaCount data,
            r_BindNow := dd_bindNow data\<rparr>)"

definition Initialize :: "memory \<Rightarrow> u64 \<Rightarrow> u64 \<Rightarrow> rtld_module \<Rightarrow> rtld_module run option" where
  "Initialize m moduleBase dyn md =
     map_option (map_sum id (\<lambda>data.
         Initialize_tables m data (md\<lparr>r_Base := moduleBase, r_DynamicSection := dyn\<rparr>)))
       (parseDynamic m moduleBase dyn)"

section \<open>Relocation\<close>

text \<open>\<^verbatim>\<open>ForEachRelocation\<close> for entries of the size \<open>sz\<close>.\<close>

fun ForEachRelocation ::
  "u64 \<Rightarrow> u64 \<Rightarrow> nat \<Rightarrow> (u64 \<Rightarrow> memory \<Rightarrow> memory option) \<Rightarrow> memory \<Rightarrow> memory option" where
  "ForEachRelocation sz entry 0 func m = Some m"
| "ForEachRelocation sz entry (Suc n) func m =
     Option.bind (func entry m) (ForEachRelocation sz (entry + sz) n func)"

definition relocate_rel :: "rtld_module \<Rightarrow> u64 \<Rightarrow> memory \<Rightarrow> memory option" where
  "relocate_rel md entry m =
     (let e = read_Rel m entry; p = r_Base md + rel_offset e in
      Some (if ELF_R_TYPE (rel_info e) = R_AARCH64_RELATIVE then st64 p (ld64 m p + r_Base md) m else m))"

definition relocate_rela :: "rtld_module \<Rightarrow> u64 \<Rightarrow> memory \<Rightarrow> memory option" where
  "relocate_rela md entry m =
     (let e = read_Rela m entry; p = r_Base md + rela_offset e in
      Some (if ELF_R_TYPE (rela_info e) = R_AARCH64_RELATIVE
            then st64 p (r_Base md + rela_addend e) m else m))"

definition Relocate :: "rtld_module \<Rightarrow> memory \<Rightarrow> memory option" where
  "Relocate md m =
     Option.bind (ForEachRelocation sizeof_Rel (r_Dyn md) (unat (r_RelCount md)) (relocate_rel md) m)
       (ForEachRelocation sizeof_Rela (r_Dyn md) (unat (r_RelaCount md)) (relocate_rela md))"

section \<open>Symbol lookup\<close>

definition sym_at :: "rtld_module \<Rightarrow> u32 \<Rightarrow> u64" where
  "sym_at md i = r_DynSym md + ucast i * sizeof_Sym"

definition isCommon :: "memory \<Rightarrow> u64 \<Rightarrow> bool" where
  "isCommon m s = (if st_shndx (read_Sym m s) \<noteq> 0 then st_shndx (read_Sym m s) = SHN_COMMON else True)"

definition sym_name_ptr :: "memory \<Rightarrow> rtld_module \<Rightarrow> u64 \<Rightarrow> u64" where
  "sym_name_ptr m md s = r_StrTab md + ucast (st_name (read_Sym m s))"

definition name_matches :: "memory \<Rightarrow> rtld_module \<Rightarrow> u8 list \<Rightarrow> u64 \<Rightarrow> bool option" where
  "name_matches m md name s = Some (streq m name (sym_name_ptr m md s))"

definition murmur_matches :: "memory \<Rightarrow> rtld_module \<Rightarrow> u32 \<Rightarrow> u64 \<Rightarrow> bool option" where
  "murmur_matches m md h s = map_option (\<lambda>cs. hashMurmur False cs 0 = h) (cstr_at m (sym_name_ptr m md s))"

text \<open>The two lookups in one kind of table differ in the test of a candidate only.\<close>

definition accepts :: "memory \<Rightarrow> (u64 \<Rightarrow> bool option) \<Rightarrow> u64 \<Rightarrow> bool option" where
  "accepts m test s = (if isCommon m s then Some False else test s)"

partial_function (option) elf_chain ::
  "memory \<Rightarrow> rtld_module \<Rightarrow> (u64 \<Rightarrow> bool option) \<Rightarrow> u32 \<Rightarrow> u64 option option" where
  "elf_chain m md test i =
     (if i = 0 then Some None
      else (case accepts m test (sym_at md i) of
              None \<Rightarrow> None
            | Some b \<Rightarrow> if b then Some (Some (sym_at md i))
                else elf_chain m md test (ld32 m (r_Chains md + 4 * ucast i))))"

declare elf_chain.simps [code]

definition elf_bucket :: "memory \<Rightarrow> rtld_module \<Rightarrow> u64 \<Rightarrow> u32" where
  "elf_bucket m md h = ld32 m (r_Buckets md + 4 * (h mod r_HashSize md))"

definition GetSymbolByNameElf :: "memory \<Rightarrow> rtld_module \<Rightarrow> u8 list \<Rightarrow> u64 option option" where
  "GetSymbolByNameElf m md name =
     (let nameHash = hashElfBucket False name in
      elf_chain m md (name_matches m md name) (elf_bucket m md nameHash))"

definition GetSymbolByHashesElf :: "memory \<Rightarrow> rtld_module \<Rightarrow> u64 \<Rightarrow> u32 \<Rightarrow> u64 option option" where
  "GetSymbolByHashesElf m md bucketHash murmurHash =
     elf_chain m md (murmur_matches m md murmurHash) (elf_bucket m md bucketHash)"

partial_function (option) gnu_chain ::
  "memory \<Rightarrow> rtld_module \<Rightarrow> (u64 \<Rightarrow> bool option) \<Rightarrow> u32 \<Rightarrow> u32 \<Rightarrow> u64 \<Rightarrow> u64 option option" where
  "gnu_chain m md test nameHash symIdx chainPtr =
     (let chainhash = ld32 m chainPtr in
      case (if chainhash XOR nameHash < 2 then accepts m test (sym_at md symIdx) else Some False) of
        None \<Rightarrow> None
      | Some b \<Rightarrow> if b then Some (Some (sym_at md symIdx))
          else if chainhash AND 1 \<noteq> 0 then Some None
          else gnu_chain m md test nameHash (symIdx + 1) (chainPtr + 4))"

declare gnu_chain.simps [code]

definition bloom_mask :: "rtld_module \<Rightarrow> u32 \<Rightarrow> u64" where
  "bloom_mask md nameHash =
     (let bit1 = nameHash AND mask 6;
          bit2 = drop_bit (unat (r_GnuHashShift2 md AND mask 5)) nameHash AND mask 6
      in push_bit (unat bit1) 1 OR push_bit (unat bit2) 1)"

definition bloom_word :: "memory \<Rightarrow> rtld_module \<Rightarrow> u32 \<Rightarrow> u64" where
  "bloom_word m md nameHash =
     (let wordIdx = (r_GnuHashMaskwords md - 1) AND drop_bit 6 nameHash
      in ld64 m (r_GnuBloomFilter md + 8 * ucast wordIdx))"

definition gnu_bucket :: "memory \<Rightarrow> rtld_module \<Rightarrow> u32 \<Rightarrow> u32" where
  "gnu_bucket m md nameHash =
     (let nbuckets = ld32 m (r_GnuHash md);
          bucketIdx = (if nbuckets \<noteq> 0 then nameHash div nbuckets else 0);
          bucketsStart = r_GnuBloomFilter md + 4 * ucast (r_GnuHashMaskwords md * 2)
      in ld32 m (bucketsStart + 4 * ucast (nameHash - bucketIdx * nbuckets)))"

definition gnu_chain_ptr :: "memory \<Rightarrow> rtld_module \<Rightarrow> u32 \<Rightarrow> u64" where
  "gnu_chain_ptr m md symIdx =
     (let nbuckets = ld32 m (r_GnuHash md); symoffset = ld32 m (r_GnuHash md + 4)
      in r_GnuBloomFilter md + 4 * ucast ((symIdx + nbuckets + r_GnuHashMaskwords md * 2) - symoffset))"

definition gnu_find ::
  "memory \<Rightarrow> rtld_module \<Rightarrow> (u64 \<Rightarrow> bool option) \<Rightarrow> u32 \<Rightarrow> u64 option option" where
  "gnu_find m md test nameHash =
     (if bloom_word m md nameHash AND bloom_mask md nameHash \<noteq> bloom_mask md nameHash then Some None
      else let symIdx = gnu_bucket m md nameHash in
        if symIdx < ld32 m (r_GnuHash md + 4) then Some None
        else gnu_chain m md test nameHash symIdx (gnu_chain_ptr m md symIdx))"

definition GetSymbolByNameGnu :: "memory \<Rightarrow> rtld_module \<Rightarrow> u8 list \<Rightarrow> u64 option option" where
  "GetSymbolByNameGnu m md name = gnu_find m md (name_matches m md name) (hashDjb2 name)"

definition GetSymbolByHashesGnu :: "memory \<Rightarrow> rtld_module \<Rightarrow> u32 \<Rightarrow> u32 \<Rightarrow> u64 option option" where
  "GetSymbolByHashesGnu m md djb2Hash murmurHash =
     gnu_find m md (murmur_matches m md murmurHash) djb2Hash"

definition GetSymbolByName :: "memory \<Rightarrow> rtld_module \<Rightarrow> u8 list \<Rightarrow> u64 option option" where
  "GetSymbolByName m md name =
     (if r_IsGnuHash md then GetSymbolByNameGnu m md name else GetSymbolByNameElf m md name)"

definition GetSymbolByHashes :: "memory \<Rightarrow> rtld_module \<Rightarrow> u64 \<Rightarrow> u32 \<Rightarrow> u32 \<Rightarrow> u64 option option" where
  "GetSymbolByHashes m md bucketHash djb2Hash murmurHash =
     (if r_IsGnuHash md then GetSymbolByHashesGnu m md djb2Hash murmurHash
      else GetSymbolByHashesElf m md bucketHash murmurHash)"

section \<open>Binding\<close>

text \<open>The modules in the order in which the iterator of the list visits them.\<close>

fun LookupGlobalAuto :: "memory \<Rightarrow> rtld_module list \<Rightarrow> u8 list \<Rightarrow> u64 option" where
  "LookupGlobalAuto m [] name = Some 0"
| "LookupGlobalAuto m (md # mds) name =
     (case GetSymbolByName m md name of
        None \<Rightarrow> None
      | Some (Some s) \<Rightarrow> Some (r_Base md + st_value (read_Sym m s))
      | Some None \<Rightarrow> LookupGlobalAuto m mds name)"

type_synonym manual_lookup = "(u8 list \<Rightarrow> u64) option"

definition ResolveSymbol_sym ::
  "rtld_module list \<Rightarrow> manual_lookup \<Rightarrow> memory \<Rightarrow> rtld_module \<Rightarrow> u64 \<Rightarrow> u64 res option" where
  "ResolveSymbol_sym mods manual m md symbol =
     (let visibility = ELF_ST_VISIBILITY (st_other (read_Sym m symbol));
          weak = ELF_ST_BIND (st_info (read_Sym m symbol)) = STB_WEAK
      in Option.bind (cstr_at m (sym_name_ptr m md symbol)) (\<lambda>name.
           if visibility \<noteq> STV_DEFAULT then
             (case GetSymbolByName m md name of
                None \<Rightarrow> None
              | Some None \<Rightarrow> Some (if weak then Inr 0 else Inl ResultSymbolUnresolved)
              | Some (Some symbol) \<Rightarrow> Some (Inr (r_Base md + st_value (read_Sym m symbol))))
           else
             (case LookupGlobalAuto m mods name of
                None \<Rightarrow> None
              | Some found \<Rightarrow>
                  (let a = (case manual of Some f \<Rightarrow> if found = 0 then f name else found | None \<Rightarrow> found)
                   in Some (if a \<noteq> 0 then Inr a else Inl ResultSymbolUnresolved)))))"

text \<open>The entry has an addend if \<open>rela\<close>.\<close>

definition ResolveSymbol ::
  "rtld_module list \<Rightarrow> manual_lookup \<Rightarrow> bool \<Rightarrow> rtld_module \<Rightarrow> u64 \<Rightarrow> memory \<Rightarrow> memory option" where
  "ResolveSymbol mods manual rela md entry m =
     (let e = read_Rela m entry; type = ELF_R_TYPE (rela_info e); symIndex = ELF_R_SYM (rela_info e) in
      if ARCH_IS_REL_ABSOLUTE type \<or> type = R_AARCH64_GLOB_DAT \<or> type = R_AARCH64_RELATIVE \<or>
         type = R_AARCH64_JUMP_SLOT
      then let symbol = r_DynSym md + symIndex * sizeof_Sym; dest = r_Base md + rela_offset e in
        (case ResolveSymbol_sym mods manual m md symbol of
           None \<Rightarrow> None
         | Some (Inl _) \<Rightarrow> Some m
         | Some (Inr a) \<Rightarrow> Some (st64 dest (if rela then a + rela_addend e else ld64 m dest + a) m))
      else Some m)"

definition ResolveSymbols ::
  "rtld_module list \<Rightarrow> manual_lookup \<Rightarrow> rtld_module \<Rightarrow> memory \<Rightarrow> memory option" where
  "ResolveSymbols mods manual md m =
     (let rel = ResolveSymbol mods manual False md; rela = ResolveSymbol mods manual True md in
      Option.bind (ForEachRelocation sizeof_Rel (r_Dyn md) (unat (r_RelCount md)) rel m) (\<lambda>m.
      Option.bind (ForEachRelocation sizeof_Rela (r_Dyn md) (unat (r_RelaCount md)) rela m) (\<lambda>m.
      Option.bind
        (if r_IsPltRela md
         then ForEachRelocation sizeof_Rela (r_Plt md) (unat (r_PltRelSz md div sizeof_Rela)) rela m
         else ForEachRelocation sizeof_Rel (r_Plt md) (unat (r_PltRelSz md div sizeof_Rel)) rel m) (\<lambda>m.
      Some (if r_Got md \<noteq> 0 then st64 (r_Got md + 16) 0 m else m)))))"

end
