(* ===== verification/HashElf.thy ===== *)
theory HashElf
  imports Hash
begin

text \<open>
  CRC32 and the ELF symbol hash of \<^verbatim>\<open>hk/util/hash.h\<close> against their definitions in the
  standards: the bitwise division of IEEE 802.3 and the 32-bit recurrence of the System V ABI.
\<close>

section \<open>CRC32\<close>

definition crc_bit :: "u32 \<Rightarrow> u32" where
  "crc_bit c = (if bit c 0 then drop_bit 1 c XOR 0xEDB88320 else drop_bit 1 c)"

definition crc_byte :: "u8 \<Rightarrow> u32 \<Rightarrow> u32" where
  "crc_byte b h = (crc_bit ^^ 8) (h XOR ucast b)"

lemma crc_bit_xor: "crc_bit (x XOR y) = crc_bit x XOR crc_bit y"
  by (rule bit_word_eqI) (auto simp: crc_bit_def bit_simps)

lemma crc_bits_xor: "(crc_bit ^^ n) (x XOR y) = (crc_bit ^^ n) x XOR (crc_bit ^^ n) y"
  by (induction n) (simp_all add: crc_bit_xor)

lemma crc_bits_high: "(\<forall>i<n. \<not> bit x i) \<Longrightarrow> (crc_bit ^^ n) x = drop_bit n x"
proof (induction n arbitrary: x)
  case (Suc n)
  then have "crc_bit x = drop_bit 1 x" by (simp add: crc_bit_def)
  then show ?case using Suc by (simp add: funpow_swap1 bit_simps drop_bit_drop_bit del: funpow.simps)
      (simp add: funpow_Suc_right bit_simps del: funpow.simps)
qed simp

text \<open>The table agrees with eight steps of the division, entry by entry.\<close>

fun table_from :: "u32 \<Rightarrow> u32 list \<Rightarrow> bool" where
  "table_from x [] = True"
| "table_from x (y # ys) \<longleftrightarrow>
     crc_bit (crc_bit (crc_bit (crc_bit (crc_bit (crc_bit (crc_bit (crc_bit x))))))) = y \<and> table_from (x + 1) ys"

lemma crc_bit_code: "crc_bit c = (if c AND 1 = 0 then drop_bit 1 c else drop_bit 1 c XOR 0xEDB88320)"
  by (simp add: crc_bit_def bit_iff_odd and_one_eq odd_iff_mod_2_eq_one)

lemma cLut_table: "table_from 0 cLut"
  by (simp add: crc_bit_code cLut_def)

lemma table_from_nth:
  "table_from x ys \<Longrightarrow> i < length ys \<Longrightarrow> ys ! i = (crc_bit ^^ 8) (x + word_of_nat i)"
  by (induction x ys arbitrary: i rule: table_from.induct)
    (auto simp: nth_Cons numeral_eq_Suc ac_simps split: nat.splits)

lemma length_cLut [simp]: "length cLut = 256"
  by (simp add: cLut_def)

lemma cLut_nth: "i < 256 \<Longrightarrow> cLut ! i = (crc_bit ^^ 8) (word_of_nat i)"
  using table_from_nth [OF cLut_table, of i] by simp

lemma crc_step_unsigned: "crc_step False b h = Some (crc_byte b h)"
proof -
  define x where "x = ucast b XOR (h AND 0xFF)"
  have mask: "(0xFF :: u32) = mask 8" by (simp add: mask_eq_exp_minus_1)
  have "take_bit 8 x = x"
    unfolding x_def mask by (rule bit_word_eqI) (auto simp: bit_simps dest: bit_imp_le_length)
  then have x: "unat x < 256" using and_mask_eq_iff_unat [of x 8] by (simp add: take_bit_eq_mask)
  have "h XOR ucast b = x XOR (h AND NOT (mask 8))"
    unfolding x_def mask by (rule bit_word_eqI) (auto simp: bit_simps dest: bit_imp_le_length)
  moreover have "(crc_bit ^^ 8) (h AND NOT (mask 8)) = drop_bit 8 (h AND NOT (mask 8))"
    by (rule crc_bits_high) (simp add: bit_simps)
  moreover have "drop_bit 8 (h AND NOT (mask 8)) = drop_bit 8 h"
    by (rule bit_word_eqI) (auto simp: bit_simps dest: bit_imp_le_length)
  ultimately show ?thesis
    using x by (simp add: crc_step_def crc_byte_def ofT_def Let_def x_def [symmetric] cLut_nth crc_bits_xor)
qed

lemma crc_loop_unsigned: "crc_loop False d h = Some (fold crc_byte d h)"
  by (induction d arbitrary: h) (simp_all add: crc_step_unsigned)

text \<open>
  C37: on unsigned bytes \<^verbatim>\<open>hashCrc32\<close> never leaves its table and is the bit-by-bit division by the
  reflected polynomial \<^verbatim>\<open>0xEDB88320\<close>; and a checksum given as the seed of the next call
  continues it, so data may be summed in pieces.
\<close>

theorem crc32_is_bitwise_division:
  "hashCrc32 False (xs @ ys) (length (xs @ ys)) seed =
     Some (NOT (fold crc_byte (xs @ ys) (NOT seed))) \<and>
   hashCrc32 False (xs @ ys) (length (xs @ ys)) seed =
     Option.bind (hashCrc32 False xs (length xs) seed) (hashCrc32 False ys (length ys))"
proof -
  have n: "x XOR 0xFFFFFFFF = NOT x" for x :: u32
  proof -
    have "(0xFFFFFFFF :: u32) = - 1" by simp
    then show ?thesis by (simp only:) (rule bit_word_eqI, simp add: bit_simps)
  qed
  show ?thesis by (simp add: hashCrc32_def crc_loop_unsigned n)
qed

lemma crc_signed_leaves_table:
  assumes "bit b 7"
  shows "crc_step True b h = None"
proof -
  define x :: u32 where "x = scast b XOR (h AND 0xFF)"
  have mask: "(0xFF :: u32) = mask 8" by (simp add: mask_eq_exp_minus_1)
  have "bit x 31" unfolding x_def mask using assms by (simp add: bit_simps)
  moreover have "\<not> bit (x AND mask 8) 31" by (simp add: bit_simps)
  ultimately have "x AND mask 8 \<noteq> x" by metis
  then have "\<not> unat x < 2 ^ 8" by (simp only: and_mask_eq_iff_unat not_False_eq_True)
  then show ?thesis by (simp add: crc_step_def ofT_def x_def [symmetric])
qed

section \<open>The System V ABI hash\<close>

text \<open>The function of the ABI, whose \<^verbatim>\<open>unsigned long\<close> had 32 bits.\<close>

fun abi_hash :: "bool \<Rightarrow> u8 list \<Rightarrow> u32 \<Rightarrow> u32" where
  "abi_hash sx [] h = h"
| "abi_hash sx (c # name) h =
     (if c = 0 then h
      else let h = push_bit 4 h + ofT sx c;
               g = h AND 0xf0000000
           in abi_hash sx name ((h XOR drop_bit 24 g) AND NOT g))"

text \<open>One round of both, in the form that evaluates quickly.\<close>

definition elf_round :: "'a::len word \<Rightarrow> 'a word \<Rightarrow> 'a word" where
  "elf_round h c = (let s = push_bit 4 h + c; g = s AND 0xf0000000 in (s XOR drop_bit 24 g) AND NOT g)"

lemma elf_guard: "(if g \<noteq> 0 then s XOR drop_bit 24 g else s) = s XOR drop_bit 24 (g :: 'a::len word)"
  by simp

lemma hash_rounds:
  "hashElfBucket_loop sx (c # name) h = (if c = 0 then h else hashElfBucket_loop sx name (elf_round h (ofT sx c)))"
  "abi_hash sx (c # name) w = (if c = 0 then w else abi_hash sx name (elf_round w (ofT sx c)))"
  by (simp_all only: hashElfBucket_loop.simps abi_hash.simps elf_round_def Let_def elf_guard)

lemma ucast_ofT: "ucast (ofT sx c :: u64) = (ofT sx c :: u32)"
  by (rule bit_word_eqI) (auto simp: ofT_def bit_simps)

lemma ucast_add_low: "(ucast (a + b :: u64) :: u32) = ucast a + ucast b"
  by (simp add: word_unat_eq_iff unsigned_ucast_eq unat_word_ariths take_bit_eq_mod mod_mod_cancel mod_add_eq)

lemma ucast_push_low: "(ucast (push_bit n a :: u64) :: u32) = push_bit n (ucast a)"
  by (rule bit_word_eqI) (auto simp: bit_simps)

lemma masks_0xf0000000:
  "(0xf0000000 :: u64) = mask 32 AND NOT (mask 28)" "(0xf0000000 :: u32) = NOT (mask 28)"
  by (simp_all add: mask_eq_exp_minus_1)

lemma elf_clear_low:
  "ucast ((s XOR drop_bit 24 (s AND 0xf0000000)) AND NOT (s AND 0xf0000000) :: u64) =
    ((ucast s XOR drop_bit 24 (ucast s AND 0xf0000000)) AND NOT (ucast s AND 0xf0000000) :: u32)"
  unfolding masks_0xf0000000 by (rule bit_word_eqI) (auto simp: bit_simps dest: bit_imp_le_length)

lemma hashElfBucket_low: "ucast (hashElfBucket_loop sx name h) = abi_hash sx name (ucast h)"
proof (induction name arbitrary: h)
  case (Cons c name)
  let ?s = "push_bit 4 h + ofT sx c :: u64"
  show ?case
  proof (cases "c = 0")
    case False
    then show ?thesis
      by (simp only: hashElfBucket_loop.simps abi_hash.simps Let_def elf_guard Cons if_False)
        (simp only: elf_clear_low ucast_add_low ucast_push_low ucast_ofT)
  qed simp
qed simp

lemma abi_step_bound: "unat ((s XOR drop_bit 24 (s AND 0xf0000000)) AND NOT (s AND 0xf0000000) :: u32) < 2 ^ 28"
  unfolding masks_0xf0000000 and_mask_eq_iff_unat [symmetric]
  by (rule bit_word_eqI) (auto simp: bit_simps dest: bit_imp_le_length)

lemma abi_hash_bound: "unat h < 2 ^ 28 \<Longrightarrow> unat (abi_hash sx name h) < 2 ^ 28"
proof (induction name arbitrary: h)
  case (Cons c name)
  then show ?case using abi_step_bound by (simp add: Let_def)
qed simp

text \<open>
  \<^verbatim>\<open>hashElfBucket\<close> runs the recurrence of the System V ABI at 64 bits.  Its low 32 bits are the
  ABI's hash, which always fits 28 bits; but the carry out of bit 31 is never cleared, so for some
  ordinary names, \<^verbatim>\<open>8xxxxuyp\<close> for one, the result is another number, and the bucket another one.
\<close>

theorem elf_hash_keeps_carry:
  "ucast (hashElfBucket sx name) = abi_hash sx name 0 \<and> unat (abi_hash sx name 0) < 2 ^ 28 \<and>
   hashElfBucket False [0x38, 0x78, 0x78, 0x78, 0x78, 0x75, 0x79, 0x70] = 0x100000000 \<and>
   abi_hash False [0x38, 0x78, 0x78, 0x78, 0x78, 0x75, 0x79, 0x70] 0 = 0"
proof -
  have "hashElfBucket False [0x38, 0x78, 0x78, 0x78, 0x78, 0x75, 0x79, 0x70] = 0x100000000"
    "abi_hash False [0x38, 0x78, 0x78, 0x78, 0x78, 0x75, 0x79, 0x70] 0 = 0" by (simp_all add: hashElfBucket_def hash_rounds elf_round_def ofT_def del: hashElfBucket_loop.simps(2) abi_hash.simps(2))
  moreover have "ucast (hashElfBucket sx name) = abi_hash sx name 0"
    using hashElfBucket_low [of sx name 0] by (simp only: hashElfBucket_def unsigned_0)
  moreover have "unat (abi_hash sx name 0) < 2 ^ 28" by (rule abi_hash_bound) simp
  ultimately show ?thesis by blast
qed

end
