(* ===== verification/RtldLookup.thy ===== *)
theory RtldLookup
  imports Rtld HashElf
begin

text \<open>
  What the symbol lookups of the runtime linker promise. A table lists symbols; a lookup over a
  well-formed table returns, finds only listed symbols of the name asked for, and misses none.
\<close>

section \<open>Names in memory\<close>

lemma streq_cstr: "cstr_at m a = Some cs \<Longrightarrow> 0 \<notin> set name \<Longrightarrow> streq m name a \<longleftrightarrow> cs = name"
proof (induction name arbitrary: a cs)
  case Nil
  then show ?case
    by (subst (asm) cstr_at.simps) (auto split: if_splits bind_splits)
next
  case (Cons c name)
  from Cons.prems(1) show ?case
  proof (subst (asm) cstr_at.simps, cases "m a = 0")
    case True
    then show ?thesis using Cons.prems by (subst (asm) cstr_at.simps) auto
  next
    case False
    then obtain ds where "cstr_at m (a + 1) = Some ds" "cs = m a # ds"
      using Cons.prems(1) by (subst (asm) cstr_at.simps) (auto split: bind_splits)
    then show ?thesis using Cons by auto
  qed
qed

lemma cstr_no_nul: "cstr_at m a = Some cs \<Longrightarrow> 0 \<notin> set cs"
proof (induction cs arbitrary: a)
  case (Cons c cs)
  then show ?case
    by (subst (asm) cstr_at.simps) (auto split: if_splits bind_splits)
qed simp

section \<open>The interface of a symbol table\<close>

text \<open>
  \<open>listed\<close> are the symbols of a table, \<open>named\<close> says that a symbol is defined and has a name,
  \<open>fits\<close> is what a table must satisfy for the lookup of a name to be trusted.
\<close>

locale symbol_table =
  fixes lookup :: "'t \<Rightarrow> 'n \<Rightarrow> u64 option option"
    and listed :: "'t \<Rightarrow> u64 set"
    and named :: "'t \<Rightarrow> 'n \<Rightarrow> u64 \<Rightarrow> bool"
    and fits :: "'t \<Rightarrow> 'n \<Rightarrow> bool"
  assumes returns: "fits t n \<Longrightarrow> lookup t n \<noteq> None"
    and sound: "fits t n \<Longrightarrow> lookup t n = Some (Some s) \<Longrightarrow> s \<in> listed t \<and> named t n s"
    and complete: "fits t n \<Longrightarrow> lookup t n = Some None \<Longrightarrow> s \<in> listed t \<Longrightarrow> \<not> named t n s"
begin

lemma missing_iff: "fits t n \<Longrightarrow> lookup t n = Some None \<longleftrightarrow> (\<forall>s\<in>listed t. \<not> named t n s)"
  using returns sound complete by (metis not_None_eq)

lemma unique_found:
  assumes "fits t n" "s \<in> listed t" "named t n s" "\<And>s'. s' \<in> listed t \<Longrightarrow> named t n s' \<Longrightarrow> s' = s"
  shows "lookup t n = Some (Some s)"
  using assms returns sound complete by (metis not_None_eq)

text \<open>A search through several tables stops at the first that names the symbol.\<close>

lemma first_table:
  assumes "\<And>t. t \<in> set (ts @ [t1]) \<Longrightarrow> fits t n"
    and "\<And>t s. t \<in> set ts \<Longrightarrow> s \<in> listed t \<Longrightarrow> \<not> named t n s"
    and "s1 \<in> listed t1" "named t1 n s1"
  obtains s where "\<And>t. t \<in> set ts \<Longrightarrow> lookup t n = Some None"
    and "lookup t1 n = Some (Some s)" "s \<in> listed t1" "named t1 n s"
proof -
  have "lookup t n = Some None" if "t \<in> set ts" for t
    using that assms(1,2) missing_iff by simp
  moreover obtain s where "lookup t1 n = Some (Some s)"
    using assms returns complete by (metis in_set_conv_decomp not_None_eq)
  moreover from this have "s \<in> listed t1" "named t1 n s"
    using sound [of t1 n s] assms(1) [of t1] by simp_all
  ultimately show thesis by (intro that) auto
qed

end

section \<open>The ELF hash table\<close>

primrec elf_path :: "memory \<Rightarrow> rtld_module \<Rightarrow> u32 \<Rightarrow> u32 list \<Rightarrow> bool" where
  "elf_path m md i [] \<longleftrightarrow> i = 0"
| "elf_path m md i (j # js) \<longleftrightarrow> i = j \<and> j \<noteq> 0 \<and> elf_path m md (ld32 m (r_Chains md + 4 * ucast j)) js"

lemma elf_chain_path:
  assumes "elf_path m md i is" "\<And>j. j \<in> set is \<Longrightarrow> accepts m test (sym_at md j) \<noteq> None"
  shows "elf_chain m md test i =
    Some (find (\<lambda>s. accepts m test s = Some True) (map (sym_at md) is))"
  using assms
proof (induction "is" arbitrary: i)
  case Nil
  then show ?case by (subst elf_chain.simps) simp
next
  case (Cons j js)
  then obtain b where "accepts m test (sym_at md j) = Some b" by fastforce
  then show ?case using Cons by (subst elf_chain.simps) auto
qed

definition defined_as :: "memory \<times> rtld_module \<Rightarrow> u8 list \<Rightarrow> u64 \<Rightarrow> bool" where
  "defined_as = (\<lambda>(m, md) name s. \<not> isCommon m s \<and> streq m name (sym_name_ptr m md s))"

lemma accepts_name [simp]:
  "accepts m (name_matches m md name) s = Some (defined_as (m, md) name s)"
  by (simp add: accepts_def name_matches_def defined_as_def)

definition elf_listed :: "memory \<times> rtld_module \<Rightarrow> u64 set" where
  "elf_listed = (\<lambda>(m, md). {sym_at md j | j b is. b < r_HashSize md \<and>
     elf_path m md (elf_bucket m md b) is \<and> j \<in> set is})"

text \<open>
  A table as the linker writes it: every chain ends, and a symbol stands in the chain of the bucket of
  its name's hash, the 32-bit hash of the ABI.
\<close>

definition elf_wf :: "memory \<times> rtld_module \<Rightarrow> bool" where
  "elf_wf = (\<lambda>(m, md). r_HashSize md \<noteq> 0 \<and>
     (\<forall>b<r_HashSize md. \<exists>is. elf_path m md (elf_bucket m md b) is \<and>
        (\<forall>j\<in>set is. \<exists>nm. cstr_at m (sym_name_ptr m md (sym_at md j)) = Some nm \<and>
           ucast (abi_hash False nm 0) mod r_HashSize md = b)))"

definition elf_fits :: "memory \<times> rtld_module \<Rightarrow> u8 list \<Rightarrow> bool" where
  "elf_fits = (\<lambda>t name. elf_wf t \<and> 0 \<notin> set name \<and> hashElfBucket False name < 2 ^ 28)"

lemma elf_hash_small:
  assumes "hashElfBucket False name < 2 ^ 28"
  shows "ucast (abi_hash False name 0) = hashElfBucket False name"
proof -
  have "abi_hash False name 0 = ucast (hashElfBucket False name)"
    by (simp add: hashElfBucket_def hashElfBucket_low)
  with assms show ?thesis
    by (simp add: word_unat_eq_iff word_less_nat_alt unsigned_ucast_eq take_bit_eq_mod)
qed

lemma elf_path_unique: "elf_path m md i is \<Longrightarrow> elf_path m md i js \<Longrightarrow> is = js"
proof (induction "is" arbitrary: i js)
  case Nil
  then show ?case by (cases js) auto
next
  case (Cons a "is")
  then show ?case by (cases js) auto
qed

lemma elf_lookup_bucket:
  assumes "elf_fits (m, md) name"
  obtains "is" where "elf_path m md (elf_bucket m md (hashElfBucket False name)) is"
    and "GetSymbolByNameElf m md name = Some (find (defined_as (m, md) name) (map (sym_at md) is))"
    and "\<And>s. s \<in> elf_listed (m, md) \<Longrightarrow> defined_as (m, md) name s \<Longrightarrow> s \<in> sym_at md ` set is"
    and "sym_at md ` set is \<subseteq> elf_listed (m, md)"
proof -
  let ?h = "hashElfBucket False name"
  let ?b = "?h mod r_HashSize md"
  have wf: "elf_wf (m, md)" and name: "0 \<notin> set name" and small: "?h < 2 ^ 28"
    using assms by (simp_all add: elf_fits_def)
  from wf have size: "?b < r_HashSize md" by (simp add: elf_wf_def word_mod_less_divisor word_gt_0)
  with wf obtain "is" where "is": "elf_path m md (elf_bucket m md ?b) is"
    by (auto simp: elf_wf_def)
  have "?b mod r_HashSize md = ?b"
    by (simp add: word_unat_eq_iff unat_mod)
  then have same: "elf_bucket m md ?b = elf_bucket m md ?h"
    by (simp only: elf_bucket_def)
  have "GetSymbolByNameElf m md name = Some (find (defined_as (m, md) name) (map (sym_at md) is))"
    using "is" same by (simp add: GetSymbolByNameElf_def elf_chain_path)
  moreover have "sym_at md ` set is \<subseteq> elf_listed (m, md)"
    using "is" size by (auto simp: elf_listed_def)
  moreover have "s \<in> sym_at md ` set is" if s: "s \<in> elf_listed (m, md)" "defined_as (m, md) name s" for s
  proof -
    from s(1) obtain j b js where j: "s = sym_at md j" "b < r_HashSize md"
      "elf_path m md (elf_bucket m md b) js" "j \<in> set js"
      by (auto simp: elf_listed_def)
    from wf j(2) obtain js' where js': "elf_path m md (elf_bucket m md b) js'"
      "\<forall>j\<in>set js'. \<exists>nm. cstr_at m (sym_name_ptr m md (sym_at md j)) = Some nm \<and>
         ucast (abi_hash False nm 0) mod r_HashSize md = b"
      unfolding elf_wf_def by auto
    then obtain nm where nm: "cstr_at m (sym_name_ptr m md s) = Some nm"
      "ucast (abi_hash False nm 0) mod r_HashSize md = b"
      using j elf_path_unique [OF j(3) js'(1)] by auto
    with s(2) name have "nm = name" by (simp add: defined_as_def streq_cstr)
    moreover have "ucast (abi_hash False name 0) = ?h"
      using small elf_hash_small by simp
    ultimately have "b = ?b" using nm(2) by simp
    with j "is" have "js = is" by (auto dest: elf_path_unique)
    with j show ?thesis by simp
  qed
  ultimately show thesis using that "is" same by simp
qed

lemma find_spec:
  assumes "r = Some (find P ss)" "\<And>s. s \<in> L \<Longrightarrow> P s \<Longrightarrow> s \<in> set ss" "set ss \<subseteq> L"
  shows "r \<noteq> None \<and> (r = Some (Some s) \<longrightarrow> s \<in> L \<and> P s) \<and> (r = Some None \<longrightarrow> s \<in> L \<longrightarrow> \<not> P s)"
  using assms by (auto simp: find_Some_iff find_None_iff)

lemma elf_lookup_spec:
  assumes "elf_fits (m, md) name" "r = GetSymbolByNameElf m md name"
  shows "r \<noteq> None \<and> (r = Some (Some s) \<longrightarrow> s \<in> elf_listed (m, md) \<and> defined_as (m, md) name s) \<and>
    (r = Some None \<longrightarrow> s \<in> elf_listed (m, md) \<longrightarrow> \<not> defined_as (m, md) name s)"
proof -
  obtain "is" where "r = Some (find (defined_as (m, md) name) (map (sym_at md) is))"
    "\<And>s. s \<in> elf_listed (m, md) \<Longrightarrow> defined_as (m, md) name s \<Longrightarrow> s \<in> set (map (sym_at md) is)"
    "set (map (sym_at md) is) \<subseteq> elf_listed (m, md)"
    using elf_lookup_bucket [OF assms(1)] assms(2) by (metis set_map)
  then show ?thesis by (rule find_spec)
qed

interpretation elf: symbol_table "\<lambda>(m, md). GetSymbolByNameElf m md" elf_listed defined_as elf_fits
  by unfold_locales (use elf_lookup_spec in fastforce)+

section \<open>The GNU hash table\<close>

text \<open>The entries of a chain, each with its index in the symbol table and its hash word.\<close>

primrec gnu_path :: "memory \<Rightarrow> u32 \<Rightarrow> u64 \<Rightarrow> (u32 \<times> u32) list \<Rightarrow> bool" where
  "gnu_path m i p [] \<longleftrightarrow> False"
| "gnu_path m i p (x # xs) \<longleftrightarrow> x = (i, ld32 m p) \<and>
     (if ld32 m p AND 1 \<noteq> 0 then xs = [] else gnu_path m (i + 1) (p + 4) xs)"

definition gnu_candidates :: "rtld_module \<Rightarrow> u32 \<Rightarrow> (u32 \<times> u32) list \<Rightarrow> u64 list" where
  "gnu_candidates md nh xs = map (\<lambda>x. sym_at md (fst x)) (filter (\<lambda>x. snd x XOR nh < 2) xs)"

lemma gnu_chain_path:
  assumes "gnu_path m i p xs" "\<And>s. s \<in> set (gnu_candidates md nh xs) \<Longrightarrow> accepts m test s \<noteq> None"
  shows "gnu_chain m md test nh i p =
    Some (find (\<lambda>s. accepts m test s = Some True) (gnu_candidates md nh xs))"
  using assms
proof (induction xs arbitrary: i p)
  case (Cons x xs)
  show ?case
  proof (cases "ld32 m p XOR nh < 2")
    case True
    with Cons.prems obtain b where "accepts m test (sym_at md i) = Some b"
      by (fastforce simp: gnu_candidates_def)
    with True Cons show ?thesis
      by (subst gnu_chain.simps) (auto simp: gnu_candidates_def Let_def split: if_splits)
  next
    case False
    with Cons show ?thesis
      by (subst gnu_chain.simps) (auto simp: gnu_candidates_def Let_def split: if_splits)
  qed
qed simp

lemma gnu_path_unique: "gnu_path m i p xs \<Longrightarrow> gnu_path m i p ys \<Longrightarrow> xs = ys"
proof (induction xs arbitrary: i p ys)
  case (Cons x xs)
  then show ?case by (cases ys) (auto split: if_splits)
qed simp

definition gnu_nbuckets :: "memory \<Rightarrow> rtld_module \<Rightarrow> u32" where
  "gnu_nbuckets m md = ld32 m (r_GnuHash md)"

definition gnu_group :: "memory \<Rightarrow> rtld_module \<Rightarrow> u32 \<Rightarrow> (u32 \<times> u32) list \<Rightarrow> bool" where
  "gnu_group m md b xs \<longleftrightarrow>
     (let i = gnu_bucket m md b in
      if i < ld32 m (r_GnuHash md + 4) then xs = [] else gnu_path m i (gnu_chain_ptr m md i) xs)"

definition gnu_listed :: "memory \<times> rtld_module \<Rightarrow> u64 set" where
  "gnu_listed = (\<lambda>(m, md). {sym_at md (fst x) | x b xs. b < gnu_nbuckets m md \<and>
     gnu_group m md b xs \<and> x \<in> set xs})"

definition gnu_wf :: "memory \<times> rtld_module \<Rightarrow> bool" where
  "gnu_wf = (\<lambda>(m, md). gnu_nbuckets m md \<noteq> 0 \<and>
     (\<forall>b<gnu_nbuckets m md. \<exists>xs. gnu_group m md b xs \<and>
        (\<forall>x\<in>set xs. \<exists>nm. cstr_at m (sym_name_ptr m md (sym_at md (fst x))) = Some nm \<and>
           hashDjb2 nm mod gnu_nbuckets m md = b \<and> snd x XOR hashDjb2 nm < 2 \<and>
           bloom_word m md (hashDjb2 nm) AND bloom_mask md (hashDjb2 nm) = bloom_mask md (hashDjb2 nm))))"

definition gnu_fits :: "memory \<times> rtld_module \<Rightarrow> u8 list \<Rightarrow> bool" where
  "gnu_fits = (\<lambda>t name. gnu_wf t \<and> 0 \<notin> set name)"

lemma gnu_group_unique: "gnu_group m md b xs \<Longrightarrow> gnu_group m md b ys \<Longrightarrow> xs = ys"
  by (auto simp: gnu_group_def Let_def dest: gnu_path_unique split: if_splits)

lemma gnu_bucket_mod:
  "gnu_nbuckets m md \<noteq> 0 \<Longrightarrow> gnu_bucket m md (h mod gnu_nbuckets m md) = gnu_bucket m md h"
proof -
  assume nb: "gnu_nbuckets m md \<noteq> 0"
  have sub: "x - x div gnu_nbuckets m md * gnu_nbuckets m md = x mod gnu_nbuckets m md" for x
    by (simp add: minus_div_mult_eq_mod)
  have "h mod gnu_nbuckets m md mod gnu_nbuckets m md = h mod gnu_nbuckets m md"
    by (simp add: word_unat_eq_iff unat_mod)
  with sub nb show ?thesis
    by (simp only: gnu_bucket_def gnu_nbuckets_def [symmetric] Let_def if_False if_True simp_thms)
qed

lemma gnu_find_group:
  assumes "gnu_group m md h xs"
    and "bloom_word m md h AND bloom_mask md h = bloom_mask md h"
    and "\<And>s. s \<in> set (gnu_candidates md h xs) \<Longrightarrow> accepts m test s \<noteq> None"
  shows "gnu_find m md test h =
    Some (find (\<lambda>s. accepts m test s = Some True) (gnu_candidates md h xs))"
proof (cases "gnu_bucket m md h < ld32 m (r_GnuHash md + 4)")
  case True
  with assms(1,2) show ?thesis
    by (simp add: gnu_find_def gnu_group_def gnu_candidates_def)
next
  case False
  with assms(1) have "gnu_path m (gnu_bucket m md h) (gnu_chain_ptr m md (gnu_bucket m md h)) xs"
    by (simp add: gnu_group_def Let_def)
  with False assms(2) show ?thesis
    using gnu_chain_path [OF _ assms(3)] by (simp add: gnu_find_def Let_def)
qed

lemma gnu_lookup_bucket:
  assumes "gnu_fits (m, md) name"
  obtains ss where "GetSymbolByNameGnu m md name = Some (find (defined_as (m, md) name) ss)"
    and "\<And>s. s \<in> gnu_listed (m, md) \<Longrightarrow> defined_as (m, md) name s \<Longrightarrow> s \<in> set ss"
    and "set ss \<subseteq> gnu_listed (m, md)"
proof -
  let ?h = "hashDjb2 name" and ?nb = "gnu_nbuckets m md"
  let ?b = "?h mod ?nb"
  have nb: "?nb \<noteq> 0" and name: "0 \<notin> set name"
    and wf: "\<forall>b<?nb. \<exists>xs. gnu_group m md b xs \<and>
        (\<forall>x\<in>set xs. \<exists>nm. cstr_at m (sym_name_ptr m md (sym_at md (fst x))) = Some nm \<and>
           hashDjb2 nm mod ?nb = b \<and> snd x XOR hashDjb2 nm < 2 \<and>
           bloom_word m md (hashDjb2 nm) AND bloom_mask md (hashDjb2 nm) = bloom_mask md (hashDjb2 nm))"
    using assms by (simp_all add: gnu_fits_def gnu_wf_def)
  from nb have size: "?b < ?nb" by (simp add: word_mod_less_divisor word_gt_0)
  with wf obtain xs where b: "gnu_group m md ?b xs" by auto
  with nb have h: "gnu_group m md ?h xs" by (simp add: gnu_group_def gnu_bucket_mod)
  have listed: "set (gnu_candidates md ?h xs) \<subseteq> gnu_listed (m, md)"
    using b size by (fastforce simp: gnu_listed_def gnu_candidates_def)
  have found: "s \<in> set (gnu_candidates md ?h xs) \<and>
      bloom_word m md ?h AND bloom_mask md ?h = bloom_mask md ?h"
    if s: "s \<in> gnu_listed (m, md)" "defined_as (m, md) name s" for s
  proof -
    from s(1) obtain x c ys where x: "s = sym_at md (fst x)" "c < ?nb" "gnu_group m md c ys" "x \<in> set ys"
      by (auto simp: gnu_listed_def)
    from wf x(2) obtain ys' where ys': "gnu_group m md c ys'"
      "\<forall>x\<in>set ys'. \<exists>nm. cstr_at m (sym_name_ptr m md (sym_at md (fst x))) = Some nm \<and>
         hashDjb2 nm mod ?nb = c \<and> snd x XOR hashDjb2 nm < 2 \<and>
         bloom_word m md (hashDjb2 nm) AND bloom_mask md (hashDjb2 nm) = bloom_mask md (hashDjb2 nm)"
      by auto
    then obtain nm where nm: "cstr_at m (sym_name_ptr m md s) = Some nm" "hashDjb2 nm mod ?nb = c"
      "snd x XOR hashDjb2 nm < 2"
      "bloom_word m md (hashDjb2 nm) AND bloom_mask md (hashDjb2 nm) = bloom_mask md (hashDjb2 nm)"
      using x gnu_group_unique [OF x(3) ys'(1)] by auto
    from nm(1) s(2) name have "nm = name" by (simp add: defined_as_def streq_cstr)
    with nm x b have "ys = xs" by (auto dest: gnu_group_unique)
    with \<open>nm = name\<close> nm x show ?thesis by (auto simp: gnu_candidates_def)
  qed
  show thesis
  proof (cases "bloom_word m md ?h AND bloom_mask md ?h = bloom_mask md ?h")
    case True
    then have "GetSymbolByNameGnu m md name =
        Some (find (defined_as (m, md) name) (gnu_candidates md ?h xs))"
      using gnu_find_group [OF h] by (simp add: GetSymbolByNameGnu_def)
    with that listed found show thesis by blast
  next
    case False
    then have "GetSymbolByNameGnu m md name = Some (find (defined_as (m, md) name) [])"
      by (simp add: GetSymbolByNameGnu_def gnu_find_def)
    moreover have "\<not> defined_as (m, md) name s" if "s \<in> gnu_listed (m, md)" for s
      using that found False by blast
    ultimately show thesis by (intro that [of "[]"]) auto
  qed
qed

lemma gnu_lookup_spec:
  assumes "gnu_fits (m, md) name" "r = GetSymbolByNameGnu m md name"
  shows "r \<noteq> None \<and> (r = Some (Some s) \<longrightarrow> s \<in> gnu_listed (m, md) \<and> defined_as (m, md) name s) \<and>
    (r = Some None \<longrightarrow> s \<in> gnu_listed (m, md) \<longrightarrow> \<not> defined_as (m, md) name s)"
proof -
  obtain ss where "r = Some (find (defined_as (m, md) name) ss)"
    "\<And>s. s \<in> gnu_listed (m, md) \<Longrightarrow> defined_as (m, md) name s \<Longrightarrow> s \<in> set ss"
    "set ss \<subseteq> gnu_listed (m, md)"
    using gnu_lookup_bucket [OF assms(1)] assms(2) by metis
  then show ?thesis by (rule find_spec)
qed

interpretation gnu: symbol_table "\<lambda>(m, md). GetSymbolByNameGnu m md" gnu_listed defined_as gnu_fits
  by unfold_locales (use gnu_lookup_spec in fastforce)+

section \<open>Both kinds of table\<close>

definition listed_symbols :: "memory \<times> rtld_module \<Rightarrow> u64 set" where
  "listed_symbols t = (if r_IsGnuHash (snd t) then gnu_listed t else elf_listed t)"

definition fits_name :: "memory \<times> rtld_module \<Rightarrow> u8 list \<Rightarrow> bool" where
  "fits_name t name \<longleftrightarrow> (if r_IsGnuHash (snd t) then gnu_fits t name else elf_fits t name)"

lemma name_lookup_cases:
  "(\<lambda>(m, md). GetSymbolByName m md) t name =
     (if r_IsGnuHash (snd t) then (\<lambda>(m, md). GetSymbolByNameGnu m md) t name
      else (\<lambda>(m, md). GetSymbolByNameElf m md) t name)"
  by (simp add: GetSymbolByName_def split: prod.split)

interpretation tab: symbol_table "\<lambda>(m, md). GetSymbolByName m md" listed_symbols defined_as fits_name
  by unfold_locales
    (unfold name_lookup_cases listed_symbols_def fits_name_def,
     auto split: if_splits dest: elf.returns gnu.returns elf.sound gnu.sound elf.complete gnu.complete)

text \<open>The search through the modules.\<close>

lemma LookupGlobalAuto_append:
  assumes "\<And>md. md \<in> set mds \<Longrightarrow> GetSymbolByName m md name = Some None"
  shows "LookupGlobalAuto m (mds @ rest) name = LookupGlobalAuto m rest name"
  using assms by (induction mds) simp_all

end
