(* ===== verification/RtldMain.thy ===== *)
theory RtldMain
  imports RtldLookup
begin

text \<open>
  The symbol lookup of the runtime linker, at the level of its callers: by name, by the hashes of a
  name, and through all loaded modules. The examples are two small modules, one with an ELF hash table
  and one with a GNU hash table.
\<close>

section \<open>Two modules\<close>

text \<open>A memory that is zero but for the bytes listed for each of its 256-byte pages.\<close>

definition sparse :: "(u64 \<times> (u64 \<times> u8) list) list \<Rightarrow> memory" where
  "sparse pages a =
     (case map_of pages (a AND 0xFFFFFFFFFFFFFF00) of
        None \<Rightarrow> 0
      | Some bs \<Rightarrow> (case map_of bs a of None \<Rightarrow> 0 | Some b \<Rightarrow> b))"

text \<open>
  A hash table, a string table and a symbol table each. The first module has the names ab and
  8xxxxuyp in an ELF hash table of three buckets, the second the name ab in a GNU hash table of one.
  The last page holds a table of three relocations: two of type RELATIVE, and one for the PLT, of the
  symbol with index 1, between them.
\<close>

definition name_ab :: "u8 list" where "name_ab = [0x61, 0x62]"
definition name_carry :: "u8 list" where
  "name_carry = [0x38, 0x78, 0x78, 0x78, 0x78, 0x75, 0x79, 0x70]"

definition two_modules :: memory where
  "two_modules a = sparse
    [
     (0x1000, [(0x1000, 0x3), (0x1004, 0x3), (0x1008, 0x1), (0x1018, 0x2)]), (0x1100, [(0x1101,
      0x61), (0x1102, 0x62), (0x1104, 0x38), (0x1105, 0x78), (0x1106, 0x78), (0x1107, 0x78),
      (0x1108, 0x78), (0x1109, 0x75), (0x110a, 0x79), (0x110b, 0x70)]), (0x1200, [(0x1218, 0x1),
      (0x121c, 0x12), (0x121e, 0x1), (0x1220, 0x40), (0x1228, 0x8), (0x1230, 0x4), (0x1234, 0x12),
      (0x1236, 0x1), (0x1238, 0x80), (0x1240, 0x8)]), (0x2000, [(0x2000, 0x1), (0x2004, 0x1),
      (0x2008, 0x1), (0x200c, 0x6), (0x2010, 0xff), (0x2011, 0xff), (0x2012, 0xff), (0x2013, 0xff),
      (0x2014, 0xff), (0x2015, 0xff), (0x2016, 0xff), (0x2017, 0xff), (0x2018, 0x1), (0x201c, 0x29),
      (0x201d, 0x77), (0x201e, 0x59)]), (0x2100, [(0x2101, 0x61), (0x2102, 0x62)]), (0x2200,
      [(0x2218, 0x1), (0x221c, 0x12), (0x221e, 0x1), (0x2220, 0x40), (0x2221, 0x1), (0x2228, 0x8)]),
     (0x3000, [(0x3001, 0x01), (0x3008, 0x03), (0x3009, 0x04), (0x3010, 0x05),
      (0x3018, 0x10), (0x3019, 0x01), (0x3020, 0x02), (0x3021, 0x04), (0x3024, 0x01),
      (0x3030, 0x08), (0x3031, 0x01), (0x3038, 0x03), (0x3039, 0x04), (0x3040, 0x07)])
    ] a"

definition blank_module :: rtld_module where
  "blank_module = \<lparr>r_Base = 0, r_DynamicSection = 0, r_PltRelSz = 0, r_Got = 0, r_IsGnuHash = False,
     r_GnuBloomFilter = 0, r_GnuHashMaskwords = 0, r_GnuHashShift2 = 0, r_GnuHash = 0, r_HashSize = 0,
     r_Symbols = 0, r_Buckets = 0, r_Chains = 0, r_StrTab = 0, r_DynSym = 0, r_StrSz = 0, r_Dyn = 0,
     r_DynRelSz = 0, r_DynRelaSz = 0, r_Init = 0, r_Fini = 0, r_IsPltRela = True, r_Plt = 0,
     r_RelCount = 0, r_RelaCount = 0, r_BindNow = False\<rparr>"

definition elf_module :: rtld_module where
  "elf_module = Initialize_hash two_modules (DynamicData_new\<lparr>dd_hashTable := 0x1000\<rparr>)
     (blank_module\<lparr>r_Base := 0x1000, r_StrTab := 0x1100, r_DynSym := 0x1200\<rparr>)"

definition gnu_module :: rtld_module where
  "gnu_module = Initialize_hash two_modules (DynamicData_new\<lparr>dd_gnuHashTable := 0x2000\<rparr>)
     (blank_module\<lparr>r_Base := 0x2000, r_StrTab := 0x2100, r_DynSym := 0x2200\<rparr>)"

lemma elf_module_eval [code]:
  "elf_module = blank_module\<lparr>r_Base := 0x1000, r_StrTab := 0x1100, r_DynSym := 0x1200, r_HashSize := 3,
     r_Symbols := 3, r_Buckets := 0x1008, r_Chains := 0x1014\<rparr>"
proof -
  have "ld32 two_modules 0x1000 = 3" "ld32 two_modules 0x1004 = 3" by code_simp+
  then show ?thesis
    by (simp add: elf_module_def Initialize_hash_def Let_def DynamicData_new_def blank_module_def)
qed

lemma gnu_module_eval [code]:
  "gnu_module = blank_module\<lparr>r_Base := 0x2000, r_StrTab := 0x2100, r_DynSym := 0x2200, r_IsGnuHash := True,
     r_GnuBloomFilter := 0x2010, r_GnuHashMaskwords := 1, r_GnuHashShift2 := 6, r_GnuHash := 0x2000\<rparr>"
proof -
  have "ld32 two_modules 0x2008 = 1" "ld32 two_modules 0x200C = 6" by code_simp+
  then show ?thesis
    by (simp add: gnu_module_def Initialize_hash_def Let_def DynamicData_new_def blank_module_def)
qed

lemma elf_example_eval:
  "r_HashSize elf_module = 3" "r_IsGnuHash elf_module = False"
  "elf_path two_modules elf_module (elf_bucket two_modules elf_module 0) [1, 2]"
  "elf_path two_modules elf_module (elf_bucket two_modules elf_module 1) []"
  "elf_path two_modules elf_module (elf_bucket two_modules elf_module 2) []"
  "cstr_at two_modules (sym_name_ptr two_modules elf_module (sym_at elf_module 1)) = Some name_ab"
  "cstr_at two_modules (sym_name_ptr two_modules elf_module (sym_at elf_module 2)) = Some name_carry"
  "ucast (abi_hash False name_ab 0) mod (3 :: u64) = 0"
  "ucast (abi_hash False name_carry 0) mod (3 :: u64) = 0"
  by code_simp+

lemma gnu_example_eval:
  "r_IsGnuHash gnu_module = True" "gnu_nbuckets two_modules gnu_module = 1"
  "gnu_group two_modules gnu_module 0 [(1, 0x597729)]"
  "cstr_at two_modules (sym_name_ptr two_modules gnu_module (sym_at gnu_module 1)) = Some name_ab"
  "hashDjb2 name_ab = 0x597728"
  "bloom_word two_modules gnu_module 0x597728 AND bloom_mask gnu_module 0x597728 =
     bloom_mask gnu_module 0x597728"
  by code_simp+

lemma below_3: "(b :: u64) < 3 \<Longrightarrow> b = 0 \<or> b = 1 \<or> b = 2"
  by (simp add: word_unat_eq_iff word_less_nat_alt) linarith

lemma elf_example_wf: "elf_wf (two_modules, elf_module)"
proof -
  have "\<exists>is. elf_path two_modules elf_module (elf_bucket two_modules elf_module b) is \<and>
     (\<forall>j\<in>set is. \<exists>nm. cstr_at two_modules (sym_name_ptr two_modules elf_module (sym_at elf_module j)) = Some nm \<and>
        ucast (abi_hash False nm 0) mod (3 :: u64) = b)" if "b < 3" for b
    using below_3 [OF that] elf_example_eval
    by (elim disjE) (rule exI [of _ "[1, 2]"], simp, rule exI [of _ "[]"], simp, rule exI [of _ "[]"], simp)
  then show ?thesis by (simp add: elf_wf_def elf_example_eval)
qed

lemma gnu_example_wf: "gnu_wf (two_modules, gnu_module)"
proof -
  have "0x597729 XOR 0x597728 < (2 :: u32)" "0x597728 mod 1 = (0 :: u32)" by simp_all
  then show ?thesis
    using gnu_example_eval by (auto simp: gnu_wf_def intro!: exI [of _ "[(1, 0x597729)]"])
qed

lemma example_fits:
  "fits_name (two_modules, elf_module) name_ab" "fits_name (two_modules, gnu_module) name_ab"
  "fits_name (two_modules, gnu_module) name_carry"
proof -
  have "hashElfBucket False name_ab < 2 ^ 28" "0 \<notin> set name_ab" "0 \<notin> set name_carry" by code_simp+
  then show "fits_name (two_modules, elf_module) name_ab" "fits_name (two_modules, gnu_module) name_ab"
    "fits_name (two_modules, gnu_module) name_carry"
    by (simp_all add: fits_name_def elf_fits_def gnu_fits_def elf_example_wf gnu_example_wf elf_example_eval
        gnu_example_eval)
qed

lemma example_symbols:
  "sym_at elf_module 1 = 0x1218" "sym_at elf_module 2 = 0x1230" "sym_at gnu_module 1 = 0x2218"
  "\<not> isCommon two_modules 0x1218" "\<not> isCommon two_modules 0x1230" "\<not> isCommon two_modules 0x2218"
  "st_value (read_Sym two_modules 0x1218) = 0x40" "st_value (read_Sym two_modules 0x2218) = 0x140"
  "r_Base elf_module = 0x1000" "r_Base gnu_module = 0x2000" "name_ab \<noteq> name_carry"
  "0 \<notin> set name_ab" "0 \<notin> set name_carry"
proof -
  have "ld16 two_modules 0x121E = 1" "ld16 two_modules 0x1236 = 1" "ld16 two_modules 0x221E = 1"
    "ld64 two_modules 0x1220 = 0x40" "ld64 two_modules 0x2220 = 0x140" by code_simp+
  then show "\<not> isCommon two_modules 0x1218" "\<not> isCommon two_modules 0x1230"
    "\<not> isCommon two_modules 0x2218" "st_value (read_Sym two_modules 0x1218) = 0x40"
    "st_value (read_Sym two_modules 0x2218) = 0x140"
    by (simp_all add: isCommon_def read_Sym_def SHN_COMMON_def)
qed code_simp+

lemma example_hashes:
  "hashElfBucket False name_ab = 0x672" "hashElfBucket False name_carry = 0x100000000"
  "elf_bucket two_modules elf_module 0x672 = 1" "elf_bucket two_modules elf_module 0x100000000 = 0"
  "elf_path two_modules elf_module 1 [1, 2]"
  "hashDjb2 name_carry mod 1 = 0"
  by code_simp+

lemma example_defined:
  "0 \<notin> set name \<Longrightarrow> defined_as (two_modules, elf_module) name 0x1218 \<longleftrightarrow> name = name_ab"
  "0 \<notin> set name \<Longrightarrow> defined_as (two_modules, elf_module) name 0x1230 \<longleftrightarrow> name = name_carry"
  "0 \<notin> set name \<Longrightarrow> defined_as (two_modules, gnu_module) name 0x2218 \<longleftrightarrow> name = name_ab"
  using elf_example_eval gnu_example_eval example_symbols
  by (auto simp: defined_as_def streq_cstr)

lemma gnu_example_listed: "listed_symbols (two_modules, gnu_module) = {0x2218}"
proof -
  have "b < (1 :: u32) \<longleftrightarrow> b = 0" for b
    by (simp add: word_less_nat_alt word_unat_eq_iff)
  moreover have "gnu_group two_modules gnu_module 0 xs \<longleftrightarrow> xs = [(1, 0x597729)]" for xs
    using gnu_example_eval(3) gnu_group_unique by metis
  ultimately show ?thesis
    by (auto simp: listed_symbols_def gnu_listed_def gnu_example_eval example_symbols)
qed

lemma example_lookups:
  "GetSymbolByName two_modules elf_module name_ab = Some (Some 0x1218)"
  "GetSymbolByName two_modules elf_module name_carry = Some None"
  "GetSymbolByName two_modules gnu_module name_ab = Some (Some 0x2218)"
  "GetSymbolByName two_modules gnu_module name_carry = Some None"
proof -
  show "GetSymbolByName two_modules elf_module name_ab = Some (Some 0x1218)"
    using elf_chain_path [OF example_hashes(5), where test = "name_matches two_modules elf_module name_ab"]
    by (simp add: GetSymbolByName_def GetSymbolByNameElf_def elf_example_eval example_hashes
        example_symbols example_defined)
  show "GetSymbolByName two_modules elf_module name_carry = Some None"
    using elf_chain_path [of two_modules elf_module 0 "[]"
        "name_matches two_modules elf_module name_carry"]
    by (simp add: GetSymbolByName_def GetSymbolByNameElf_def elf_example_eval example_hashes)
  show "GetSymbolByName two_modules gnu_module name_ab = Some (Some 0x2218)"
    using tab.unique_found [OF example_fits(2), of "0x2218"] example_defined(3) [OF example_symbols(12)]
    unfolding gnu_example_listed by simp
  show "GetSymbolByName two_modules gnu_module name_carry = Some None"
    using tab.missing_iff [OF example_fits(3)] example_defined(3) [OF example_symbols(13)]
      example_symbols(11)
    unfolding gnu_example_listed by simp
qed

section \<open>Lookup by name\<close>



text \<open>
  In an ELF hash table as the ABI prescribes it, a defined symbol can not be found by its name when
  the computation of the name's hash carries out of 32 bits: the lookup searches another bucket.
\<close>

theorem carry_hides_symbol:
  "elf_wf (two_modules, elf_module) \<and>
   sym_at elf_module 2 \<in> elf_listed (two_modules, elf_module) \<and>
   defined_as (two_modules, elf_module) name_carry (sym_at elf_module 2) \<and>
   GetSymbolByName two_modules elf_module name_carry = Some None"
proof -
  have "sym_at elf_module 2 \<in> elf_listed (two_modules, elf_module)"
    unfolding elf_listed_def using elf_example_eval
    by (auto intro!: exI [of _ "2 :: u32"] exI [of _ "0 :: u64"] exI [of _ "[1, 2] :: u32 list"])
  moreover have "defined_as (two_modules, elf_module) name_carry (sym_at elf_module 2)"
    by (simp add: example_symbols example_defined)
  ultimately show ?thesis using elf_example_wf example_lookups(2) by blast
qed

text \<open>
  C21: The search through the loaded modules returns the address of the name in the first module, in the
  order of the list, that defines it: the module's base plus the value of a symbol of that name in that
  module. If no module defines the name, it returns 0. The modules searched have well-formed tables, and
  for those with an ELF table the name must have a hash below 2^28 (\<open>fits_name\<close>, as in C6).
\<close>

theorem first_provider_wins:
  assumes "\<And>md'. md' \<in> set (mds @ [md]) \<Longrightarrow> fits_name (m, md') name"
    and "\<And>md' s. md' \<in> set mds \<Longrightarrow> s \<in> listed_symbols (m, md') \<Longrightarrow> \<not> defined_as (m, md') name s"
  shows "if \<exists>s\<in>listed_symbols (m, md). defined_as (m, md) name s
    then \<exists>s. s \<in> listed_symbols (m, md) \<and> defined_as (m, md) name s \<and>
      LookupGlobalAuto m (mds @ md # rest) name = Some (r_Base md + st_value (read_Sym m s))
    else LookupGlobalAuto m (mds @ [md]) name = Some 0"
proof -
  have skip: "LookupGlobalAuto m (mds @ ms) name = LookupGlobalAuto m ms name" for ms
  proof (rule LookupGlobalAuto_append)
    fix md' assume md': "md' \<in> set mds"
    show "GetSymbolByName m md' name = Some None"
      using tab.missing_iff [of "(m, md')" name] assms md' by auto
  qed
  show ?thesis
  proof (cases "\<exists>s\<in>listed_symbols (m, md). defined_as (m, md) name s")
    case True
    then obtain s where "GetSymbolByName m md name = Some (Some s)"
      "s \<in> listed_symbols (m, md)" "defined_as (m, md) name s"
      using tab.missing_iff [of "(m, md)" name] tab.returns [of "(m, md)" name] tab.sound [of "(m, md)" name]
        assms(1) [of md] by fastforce
    with True skip show ?thesis by auto
  next
    case False
    then have "GetSymbolByName m md name = Some None"
      using tab.missing_iff [of "(m, md)" name] assms(1) [of md] by auto
    with False skip show ?thesis by auto
  qed
qed

theorem first_provider_wins_witness:
  "LookupGlobalAuto two_modules [elf_module, gnu_module] name_ab = Some 0x1040 \<and>
   LookupGlobalAuto two_modules [gnu_module, elf_module] name_ab = Some 0x2140 \<and>
   (\<exists>s. s \<in> listed_symbols (two_modules, gnu_module) \<and> defined_as (two_modules, gnu_module) name_ab s \<and>
      LookupGlobalAuto two_modules ([] @ gnu_module # [elf_module]) name_ab =
        Some (r_Base gnu_module + st_value (read_Sym two_modules s)))"
  using first_provider_wins [of "[]" gnu_module two_modules name_ab "[elf_module]"] example_fits
  by (simp add: example_lookups example_symbols gnu_example_listed example_defined)

end
