(* ===== verification/RtldHashes.thy ===== *)
theory RtldHashes
  imports RtldMain
begin

text \<open>
  The lookup by the hashes of a name, which the symbol database uses, against the lookup by the name.
\<close>

lemma elf_bucket_path:
  assumes "elf_wf (m, md)"
  obtains "is" where "elf_path m md (elf_bucket m md h) is"
    and "\<And>j. j \<in> set is \<Longrightarrow> sym_at md j \<in> elf_listed (m, md) \<and>
      cstr_at m (sym_name_ptr m md (sym_at md j)) \<noteq> None"
proof -
  let ?b = "h mod r_HashSize md"
  have size: "?b < r_HashSize md"
    using assms by (simp add: elf_wf_def word_mod_less_divisor word_gt_0)
  then obtain "is" where "is": "elf_path m md (elf_bucket m md ?b) is"
    "\<And>j. j \<in> set is \<Longrightarrow> cstr_at m (sym_name_ptr m md (sym_at md j)) \<noteq> None"
    using assms by (fastforce simp: elf_wf_def)
  moreover have "sym_at md j \<in> elf_listed (m, md)" if "j \<in> set is" for j
    using that "is"(1) size by (auto simp: elf_listed_def)
  moreover have "?b mod r_HashSize md = ?b"
    by (simp add: word_unat_eq_iff unat_mod)
  then have "elf_bucket m md ?b = elf_bucket m md h"
    by (simp only: elf_bucket_def)
  ultimately show thesis using that by simp
qed

lemma gnu_bucket_path:
  assumes "gnu_wf (m, md)"
  obtains xs where "gnu_group m md h xs"
    and "\<And>s. s \<in> set (gnu_candidates md h xs) \<Longrightarrow> s \<in> gnu_listed (m, md) \<and>
      cstr_at m (sym_name_ptr m md s) \<noteq> None"
proof -
  let ?b = "h mod gnu_nbuckets m md"
  have nb: "gnu_nbuckets m md \<noteq> 0" and size: "?b < gnu_nbuckets m md"
    using assms by (simp_all add: gnu_wf_def word_mod_less_divisor word_gt_0)
  then obtain xs where xs: "gnu_group m md ?b xs"
    "\<And>x. x \<in> set xs \<Longrightarrow> cstr_at m (sym_name_ptr m md (sym_at md (fst x))) \<noteq> None"
    using assms by (fastforce simp: gnu_wf_def)
  moreover have "sym_at md (fst x) \<in> gnu_listed (m, md)" if "x \<in> set xs" for x
    using that xs(1) size by (simp add: gnu_listed_def) (metis prod.collapse)
  moreover have "gnu_group m md h xs"
    using xs(1) nb by (simp add: gnu_group_def gnu_bucket_mod)
  ultimately show thesis
    by (intro that [of xs]) (fastforce simp: gnu_candidates_def)+
qed

text \<open>Within a table, the hash of a name tells it from the names of all other symbols.\<close>

definition murmur_unique :: "memory \<times> rtld_module \<Rightarrow> u8 list \<Rightarrow> bool" where
  "murmur_unique = (\<lambda>(m, md) name. \<forall>s cs. s \<in> listed_symbols (m, md) \<longrightarrow> \<not> isCommon m s \<longrightarrow>
     cstr_at m (sym_name_ptr m md s) = Some cs \<longrightarrow>
     hashMurmur False cs 0 = hashMurmur False name 0 \<longrightarrow> cs = name)"

lemma accepts_murmur:
  assumes "murmur_unique (m, md) name" "0 \<notin> set name" "s \<in> listed_symbols (m, md)"
    and "cstr_at m (sym_name_ptr m md s) \<noteq> None"
  shows "accepts m (murmur_matches m md (hashMurmur False name 0)) s = Some (defined_as (m, md) name s)"
  using assms by (auto simp: accepts_def murmur_matches_def defined_as_def murmur_unique_def streq_cstr)

text \<open>
  C30: The lookup by the three hashes of a name gives the same symbol as the lookup by the name itself,
  in both kinds of tables, unless another symbol of the table has a name with the same Murmur hash.
\<close>

theorem lookup_by_hashes_agrees:
  assumes "fits_name (m, md) name" "murmur_unique (m, md) name"
  shows "GetSymbolByHashes m md (hashElfBucket False name) (hashDjb2 name) (hashMurmur False name 0) =
    GetSymbolByName m md name"
proof (cases "r_IsGnuHash md")
  case True
  let ?h = "hashDjb2 name"
  have wf: "gnu_wf (m, md)" and name: "0 \<notin> set name"
    using True assms(1) by (simp_all add: fits_name_def gnu_fits_def)
  obtain xs where xs: "gnu_group m md ?h xs"
    "\<And>s. s \<in> set (gnu_candidates md ?h xs) \<Longrightarrow>
       s \<in> gnu_listed (m, md) \<and> cstr_at m (sym_name_ptr m md s) \<noteq> None"
    using gnu_bucket_path [OF wf] by metis
  then have same: "accepts m (murmur_matches m md (hashMurmur False name 0)) s =
      Some (defined_as (m, md) name s)" if "s \<in> set (gnu_candidates md ?h xs)" for s
    using that True accepts_murmur [OF assms(2) name] by (simp add: listed_symbols_def)
  show ?thesis
  proof (cases "bloom_word m md ?h AND bloom_mask md ?h = bloom_mask md ?h")
    case bloom: True
    show ?thesis
      using True gnu_find_group [OF xs(1) bloom, of "murmur_matches m md (hashMurmur False name 0)"]
        gnu_find_group [OF xs(1) bloom, of "name_matches m md name"] same
      by (simp add: GetSymbolByHashes_def GetSymbolByHashesGnu_def GetSymbolByName_def
          GetSymbolByNameGnu_def cong: find_cong)
  next
    case False
    then show ?thesis
      using True by (simp add: GetSymbolByHashes_def GetSymbolByHashesGnu_def GetSymbolByName_def
          GetSymbolByNameGnu_def gnu_find_def)
  qed
next
  case False
  have wf: "elf_wf (m, md)" and name: "0 \<notin> set name"
    using False assms(1) by (simp_all add: fits_name_def elf_fits_def)
  obtain "is" where "is": "elf_path m md (elf_bucket m md (hashElfBucket False name)) is"
    "\<And>j. j \<in> set is \<Longrightarrow> sym_at md j \<in> elf_listed (m, md) \<and>
       cstr_at m (sym_name_ptr m md (sym_at md j)) \<noteq> None"
    using elf_bucket_path [OF wf] by metis
  then have same: "accepts m (murmur_matches m md (hashMurmur False name 0)) (sym_at md j) =
      Some (defined_as (m, md) name (sym_at md j))" if "j \<in> set is" for j
    using that False accepts_murmur [OF assms(2) name] by (simp add: listed_symbols_def)
  from same have "find (\<lambda>s. accepts m (murmur_matches m md (hashMurmur False name 0)) s = Some True)
      (map (sym_at md) is) = find (defined_as (m, md) name) (map (sym_at md) is)"
    by (intro find_cong) auto
  moreover have "accepts m (murmur_matches m md (hashMurmur False name 0)) (sym_at md j) \<noteq> None"
    if "j \<in> set is" for j
    using that same by simp
  ultimately show ?thesis
    using False elf_chain_path [OF "is"(1), of "murmur_matches m md (hashMurmur False name 0)"]
      elf_chain_path [OF "is"(1), of "name_matches m md name"]
    by (simp add: GetSymbolByHashes_def GetSymbolByHashesElf_def GetSymbolByName_def GetSymbolByNameElf_def)
qed

lemma elf_example_listed: "listed_symbols (two_modules, elf_module) = {0x1218, 0x1230}"
proof -
  have paths: "elf_path two_modules elf_module (elf_bucket two_modules elf_module 0) is \<longleftrightarrow> is = [1, 2]"
    "elf_path two_modules elf_module (elf_bucket two_modules elf_module 1) is \<longleftrightarrow> is = []"
    "elf_path two_modules elf_module (elf_bucket two_modules elf_module 2) is \<longleftrightarrow> is = []" for "is"
    using elf_example_eval(3,4,5) elf_path_unique by metis+
  have "s = 0x1218 \<or> s = 0x1230" if s: "s \<in> elf_listed (two_modules, elf_module)" for s
  proof -
    from s obtain j b "is" where j: "s = sym_at elf_module j" "b < 3" "j \<in> set is"
      "elf_path two_modules elf_module (elf_bucket two_modules elf_module b) is"
      by (auto simp: elf_listed_def elf_example_eval(1))
    from below_3 [OF j(2)] j(3,4) have "j = 1 \<or> j = 2"
      by (elim disjE) (simp_all add: paths)
    with j(1) example_symbols(1,2) show ?thesis by auto
  qed
  moreover have "sym_at elf_module j \<in> elf_listed (two_modules, elf_module)" if "j \<in> set [1, 2]" for j
    unfolding elf_listed_def using elf_example_eval(1,3) that
    by (auto intro!: exI [of _ j] exI [of _ "0 :: u64"] exI [of _ "[1, 2] :: u32 list"])
  then have "{0x1218, 0x1230} \<subseteq> elf_listed (two_modules, elf_module)"
    using example_symbols(1,2) by (metis insert_subset empty_subsetI list.set_intros)
  ultimately show ?thesis
    unfolding listed_symbols_def by (simp add: elf_example_eval(2)) blast
qed

theorem lookup_by_hashes_agrees_witness:
  "GetSymbolByHashes two_modules elf_module 0x672 0x597728 0x9BBFD75F = Some (Some 0x1218) \<and>
   GetSymbolByHashes two_modules gnu_module 0x672 0x597728 0x9BBFD75F = Some (Some 0x2218)"
proof -
  have h: "hashElfBucket False name_ab = 0x672" "hashDjb2 name_ab = 0x597728"
    "hashMurmur False name_ab 0 = 0x9BBFD75F" "hashMurmur False name_carry 0 \<noteq> 0x9BBFD75F" by code_simp+
  have "s = 0x2218" if "s \<in> listed_symbols (two_modules, gnu_module)" for s
    using that gnu_example_listed by simp
  then have "murmur_unique (two_modules, gnu_module) name_ab"
    using gnu_example_eval(4) example_symbols(3) by (auto simp: murmur_unique_def)
  moreover have "murmur_unique (two_modules, elf_module) name_ab"
    using elf_example_listed elf_example_eval(6,7) example_symbols(1,2) h
    by (auto simp: murmur_unique_def)
  ultimately show ?thesis
    using lookup_by_hashes_agrees [OF example_fits(1)] lookup_by_hashes_agrees [OF example_fits(2)]
      example_lookups h by simp
qed

end
