(* ===== verification/RtldRelocate.thy ===== *)
theory RtldRelocate
  imports RtldMain
begin

text \<open>
  What relocating a module and binding its symbols writes. A table of relocations is a list of entries
  read from memory; the writes go to 8-byte slots, and the theorems ask that the slots neither overlap
  each other nor the table.
\<close>

section \<open>Words in memory\<close>

definition in_slot :: "u64 \<Rightarrow> u64 \<Rightarrow> bool" where
  "in_slot a x \<longleftrightarrow> x - a < 8"

lemma st64_other: "\<not> in_slot a x \<Longrightarrow> st64 a v m x = m x"
  by (auto simp: st64_def in_slot_def)

lemma st64_slot:
  "st64 a v m a = ucast v" "st64 a v m (a + 1) = ucast (drop_bit 8 v)"
  "st64 a v m (a + 2) = ucast (drop_bit 16 v)" "st64 a v m (a + 3) = ucast (drop_bit 24 v)"
  "st64 a v m (a + 4) = ucast (drop_bit 32 v)" "st64 a v m (a + 5) = ucast (drop_bit 40 v)"
  "st64 a v m (a + 6) = ucast (drop_bit 48 v)" "st64 a v m (a + 7) = ucast (drop_bit 56 v)"
  by (simp_all add: st64_def)

lemma bit_byte_at:
  "bit (push_bit k (ucast (ucast (drop_bit k v :: u64) :: u8)) :: u64) n \<longleftrightarrow>
     k \<le> n \<and> n < k + 8 \<and> n < 64 \<and> bit v n"
  by (auto simp: bit_simps le_diff_conv less_diff_conv2)

lemma ld64_st64 [simp]: "ld64 (st64 a v m) a = v"
proof (rule bit_eqI)
  fix n assume "possible_bit TYPE(u64) n"
  then have n: "n < 64" by simp
  then have cover: "n < 8 \<or> 8 \<le> n \<and> n < 16 \<or> 16 \<le> n \<and> n < 24 \<or> 24 \<le> n \<and> n < 32 \<or>
      32 \<le> n \<and> n < 40 \<or> 40 \<le> n \<and> n < 48 \<or> 48 \<le> n \<and> n < 56 \<or> 56 \<le> n" by linarith
  have low: "bit (ucast (ucast v :: u8) :: u64) n \<longleftrightarrow> n < 8 \<and> bit v n"
    by (auto simp: bit_simps)
  have "bit (ld64 (st64 a v m) a) n \<longleftrightarrow> (n < 8 \<or> 8 \<le> n \<and> n < 16 \<or> 16 \<le> n \<and> n < 24 \<or>
      24 \<le> n \<and> n < 32 \<or> 32 \<le> n \<and> n < 40 \<or> 40 \<le> n \<and> n < 48 \<or> 48 \<le> n \<and> n < 56 \<or> 56 \<le> n) \<and> bit v n"
    unfolding ld64_def st64_slot bit_or_iff bit_byte_at low using n by (simp, blast)
  with cover show "bit (ld64 (st64 a v m) a) n = bit v n" by blast
qed

lemma ld64_cong: "(\<And>x. in_slot a x \<Longrightarrow> m x = m' x) \<Longrightarrow> ld64 m a = ld64 m' a"
  by (simp add: ld64_def in_slot_def)

definition apart :: "u64 \<Rightarrow> u64 \<Rightarrow> bool" where
  "apart a b \<longleftrightarrow> (\<forall>x. \<not> (in_slot a x \<and> in_slot b x))"

lemma ld64_st64_apart: "apart a b \<Longrightarrow> ld64 (st64 a v m) b = ld64 m b"
  by (rule ld64_cong) (metis apart_def st64_other)

section \<open>Many writes\<close>

fun put_all :: "(u64 \<times> u64) list \<Rightarrow> memory \<Rightarrow> memory" where
  "put_all [] m = m"
| "put_all ((a, v) # ws) m = put_all ws (st64 a v m)"

lemma put_all_append: "put_all (ws @ vs) m = put_all vs (put_all ws m)"
  by (induction ws m rule: put_all.induct) simp_all

lemma put_all_other: "\<forall>w\<in>set ws. \<not> in_slot (fst w) x \<Longrightarrow> put_all ws m x = m x"
  by (induction ws m rule: put_all.induct) (auto simp: st64_other)

lemma ld64_put_all_other: "\<forall>w\<in>set ws. apart (fst w) b \<Longrightarrow> ld64 (put_all ws m) b = ld64 m b"
  by (induction ws m rule: put_all.induct) (auto simp: ld64_st64_apart)

text \<open>The writes of a loop: entry \<open>i\<close> writes what \<open>w i\<close> says, if anything.\<close>

definition loop_writes :: "(nat \<Rightarrow> (u64 \<times> u64) option) \<Rightarrow> nat \<Rightarrow> (u64 \<times> u64) list" where
  "loop_writes w n = concat (map (\<lambda>i. case w i of None \<Rightarrow> [] | Some p \<Rightarrow> [p]) [0..<n])"

lemma loop_writes_simps [simp]:
  "loop_writes w 0 = []"
  "loop_writes w (Suc n) = loop_writes w n @ (case w n of None \<Rightarrow> [] | Some p \<Rightarrow> [p])"
  by (simp_all add: loop_writes_def)

lemma set_loop_writes: "set (loop_writes w n) = {p. \<exists>i<n. w i = Some p}"
  by (induction n) (auto simp: less_Suc_eq split: option.splits)

lemma loop_writes_read:
  assumes "\<And>i j p q. i < n \<Longrightarrow> j < n \<Longrightarrow> i \<noteq> j \<Longrightarrow> w i = Some p \<Longrightarrow> w j = Some q \<Longrightarrow> apart (fst q) (fst p)"
    and "k < n" "w k = Some (a, v)"
  shows "ld64 (put_all (loop_writes w n) m) a = v"
  using assms
proof (induction n)
  case (Suc n)
  show ?case
  proof (cases "k = n")
    case True
    with Suc.prems(3) show ?thesis by (simp add: put_all_append)
  next
    case False
    with Suc.prems(2) have k: "k < n" by simp
    have "ld64 (put_all (loop_writes w n) m) a = v"
      by (rule Suc.IH [OF _ k Suc.prems(3)]) (use Suc.prems(1) less_SucI in blast)
    moreover have "apart (fst q) a" if "w n = Some q" for q
      using that Suc.prems(1) [of k n "(a, v)" q] k Suc.prems(3) by simp
    ultimately show ?thesis
      by (auto simp: put_all_append ld64_st64_apart split: option.split)
  qed
qed simp

text \<open>A loop whose entries write the same whatever the other entries have written.\<close>

lemma ForEachRelocation_snoc:
  "ForEachRelocation sz a (Suc n) f m =
     Option.bind (ForEachRelocation sz a n f m) (f (a + of_nat n * sz))"
proof (induction n arbitrary: a m)
  case 0
  have "ForEachRelocation sz (a + sz) 0 f = Some" by (rule ext) simp
  then show ?case by simp
next
  case (Suc n)
  have addr: "a + sz + of_nat n * sz = a + of_nat (Suc n) * sz" by (simp add: algebra_simps)
  have "ForEachRelocation sz a (Suc (Suc n)) f m =
      Option.bind (f a m) (ForEachRelocation sz (a + sz) (Suc n) f)"
    by (rule ForEachRelocation.simps(2))
  also have "ForEachRelocation sz (a + sz) (Suc n) f =
      (\<lambda>m. Option.bind (ForEachRelocation sz (a + sz) n f m) (f (a + of_nat (Suc n) * sz)))"
    by (rule ext) (simp only: Suc addr)
  finally show ?case by (simp add: Option.bind_assoc)
qed

definition differs_at :: "(u64 \<Rightarrow> bool) \<Rightarrow> memory \<Rightarrow> memory \<Rightarrow> bool" where
  "differs_at T m m' \<longleftrightarrow> (\<forall>x. \<not> T x \<longrightarrow> m' x = m x)"

lemma loop_is_put_all:
  assumes "\<And>i m'. i < n \<Longrightarrow> differs_at T m0 m' \<Longrightarrow>
      f (a + of_nat i * sz) m' = Some (case w i of None \<Rightarrow> m' | Some (p, v) \<Rightarrow> st64 p v m')"
    and "\<And>i p v x. i < n \<Longrightarrow> w i = Some (p, v) \<Longrightarrow> in_slot p x \<Longrightarrow> T x"
    and "differs_at T m0 m"
  shows "ForEachRelocation sz a n f m = Some (put_all (loop_writes w n) m) \<and>
    differs_at T m0 (put_all (loop_writes w n) m)"
proof -
  have same: "differs_at T m0 (put_all (loop_writes w k) m)" if k: "k \<le> n" for k
    unfolding differs_at_def
  proof (intro allI impI)
    fix x assume x: "\<not> T x"
    have "put_all (loop_writes w k) m x = m x"
    proof (intro put_all_other ballI)
      fix p assume "p \<in> set (loop_writes w k)"
      then obtain i where "i < k" and wi: "w i = Some (fst p, snd p)" by (auto simp: set_loop_writes)
      with k have "i < n" by linarith
      then show "\<not> in_slot (fst p) x" using x wi assms(2) [of i "fst p" "snd p" x] by auto
    qed
    with x assms(3) show "put_all (loop_writes w k) m x = m0 x" by (simp add: differs_at_def)
  qed
  have "ForEachRelocation sz a k f m = Some (put_all (loop_writes w k) m)" if "k \<le> n" for k
    using that
  proof (induction k)
    case (Suc k)
    then have "ForEachRelocation sz a k f m = Some (put_all (loop_writes w k) m)" by simp
    with Suc.prems assms(1) [of k] same [of k] show ?case
      by (simp add: ForEachRelocation_snoc put_all_append del: ForEachRelocation.simps split: option.splits)
  qed simp
  with same show ?thesis by simp
qed

lemma differs_at_refl [simp]: "differs_at T m m"
  by (simp add: differs_at_def)

section \<open>Relocating a module\<close>

definition rela_at :: "memory \<Rightarrow> u64 \<Rightarrow> nat \<Rightarrow> Elf_Rela" where
  "rela_at m a i = read_Rela m (a + of_nat i * sizeof_Rela)"

definition is_relative :: "Elf_Rela \<Rightarrow> bool" where
  "is_relative e \<longleftrightarrow> ELF_R_TYPE (rela_info e) = R_AARCH64_RELATIVE"

definition slot_of :: "rtld_module \<Rightarrow> Elf_Rela \<Rightarrow> u64" where
  "slot_of md e = r_Base md + rela_offset e"

text \<open>The slots of the chosen entries are apart from each other and from the table itself.\<close>

definition separate_slots :: "memory \<Rightarrow> rtld_module \<Rightarrow> u64 \<Rightarrow> nat \<Rightarrow> (Elf_Rela \<Rightarrow> bool) \<Rightarrow> bool" where
  "separate_slots m md a n chosen \<longleftrightarrow>
     (\<forall>i<n. chosen (rela_at m a i) \<longrightarrow>
        (\<forall>j<n. (i \<noteq> j \<longrightarrow> chosen (rela_at m a j) \<longrightarrow> apart (slot_of md (rela_at m a i)) (slot_of md (rela_at m a j))) \<and>
           (\<forall>x. x - (a + of_nat j * sizeof_Rela) < sizeof_Rela \<longrightarrow> \<not> in_slot (slot_of md (rela_at m a i)) x)))"

lemma read_Rela_cong: "(\<And>x. x - a < sizeof_Rela \<Longrightarrow> m' x = m x) \<Longrightarrow> read_Rela m' a = read_Rela m a"
  by (simp add: read_Rela_def ld64_def sizeof_Rela_def add.assoc)

lemma relocate_loop:
  assumes "separate_slots m md a n is_relative"
    and "w = (\<lambda>i. let e = rela_at m a i in
      if is_relative e then Some (slot_of md e, r_Base md + rela_addend e) else None)"
  shows "ForEachRelocation sizeof_Rela a n (relocate_rela md) m = Some (put_all (loop_writes w n) m)"
proof (rule conjunct1 [OF loop_is_put_all])
  let ?T = "\<lambda>x. \<exists>i<n. is_relative (rela_at m a i) \<and> in_slot (slot_of md (rela_at m a i)) x"
  show "relocate_rela md (a + of_nat i * sizeof_Rela) m' =
      Some (case w i of None \<Rightarrow> m' | Some (p, v) \<Rightarrow> st64 p v m')"
    if i: "i < n" and m': "differs_at ?T m m'" for i m'
  proof -
    have "read_Rela m' (a + of_nat i * sizeof_Rela) = rela_at m a i"
      unfolding rela_at_def using i m' assms(1)
      by (intro read_Rela_cong) (auto simp: separate_slots_def differs_at_def)
    then show ?thesis
      by (simp add: relocate_rela_def assms(2) is_relative_def slot_of_def Let_def)
  qed
  show "?T x" if "i < n" "w i = Some (p, v)" "in_slot p x" for i p v x
    using that by (auto simp: assms(2) Let_def split: if_splits)
qed simp

lemma loop_writes_other:
  assumes "\<And>i p v. i < n \<Longrightarrow> w i = Some (p, v) \<Longrightarrow> \<not> in_slot p x"
  shows "put_all (loop_writes w n) m x = m x"
  using assms by (intro put_all_other) (auto simp: set_loop_writes)

text \<open>
  C14: Relocating a module whose relocations all carry addends writes base plus addend into the slot of
  every entry of type RELATIVE and changes no other byte, if these slots overlap neither each other nor
  the table.
\<close>

theorem relocate_exact:
  assumes "r_RelCount md = 0"
    and "separate_slots m md (r_Dyn md) (unat (r_RelaCount md)) is_relative"
  shows "\<exists>m'. Relocate md m = Some m' \<and>
    (\<forall>i<unat (r_RelaCount md). is_relative (rela_at m (r_Dyn md) i) \<longrightarrow>
       ld64 m' (slot_of md (rela_at m (r_Dyn md) i)) = r_Base md + rela_addend (rela_at m (r_Dyn md) i)) \<and>
    (\<forall>x. (\<forall>i<unat (r_RelaCount md). is_relative (rela_at m (r_Dyn md) i) \<longrightarrow>
            \<not> in_slot (slot_of md (rela_at m (r_Dyn md) i)) x) \<longrightarrow> m' x = m x)"
proof -
  let ?n = "unat (r_RelaCount md)"
  define w where "w = (\<lambda>i. let e = rela_at m (r_Dyn md) i in
      if is_relative e then Some (slot_of md e, r_Base md + rela_addend e) else None)"
  let ?m = "put_all (loop_writes w ?n) m"
  have "Relocate md m = Some ?m"
    using assms(1) relocate_loop [OF assms(2) w_def] by (simp add: Relocate_def)
  moreover have "ld64 ?m (slot_of md (rela_at m (r_Dyn md) i)) = r_Base md + rela_addend (rela_at m (r_Dyn md) i)"
    if "i < ?n" "is_relative (rela_at m (r_Dyn md) i)" for i
  proof (rule loop_writes_read [where k = i])
    show "apart (fst q) (fst p)" if "i < ?n" "j < ?n" "i \<noteq> j" "w i = Some p" "w j = Some q" for i j p q
      using that assms(2) by (auto simp: w_def separate_slots_def Let_def split: if_splits)
  qed (use that in \<open>simp_all add: w_def Let_def\<close>)
  moreover have "?m x = m x"
    if "\<forall>i<?n. is_relative (rela_at m (r_Dyn md) i) \<longrightarrow> \<not> in_slot (slot_of md (rela_at m (r_Dyn md) i)) x" for x
    using that by (intro loop_writes_other) (auto simp: w_def Let_def split: if_splits)
  ultimately show ?thesis by blast
qed

lemma far_ranges:
  assumes "x - a < (k :: u64)" "k \<le> b - a" "l \<le> a - b"
  shows "\<not> x - b < l"
proof
  assume l: "x - b < l"
  have d: "b - a = (x - a) - (x - b)" "a - b = (x - b) - (x - a)" by (simp_all add: algebra_simps)
  show False
  proof (cases "x - b \<le> x - a")
    case True
    then have "b - a \<le> x - a" unfolding d(1) by (rule word_sub_le)
    with assms(2) have "k \<le> x - a" by (rule order_trans)
    with assms(1) show False by (simp add: not_less [symmetric])
  next
    case False
    then have "x - a \<le> x - b" by simp
    then have "a - b \<le> x - b" unfolding d(2) by (rule word_sub_le)
    with assms(3) have "l \<le> x - b" by (rule order_trans)
    with l show False by (simp add: not_less [symmetric])
  qed
qed

lemma apart_far: "8 \<le> b - a \<Longrightarrow> 8 \<le> a - b \<Longrightarrow> apart a b"
  using far_ranges by (auto simp: apart_def in_slot_def)

text \<open>The table of relocations at the end of the example memory.\<close>

definition rela_module :: rtld_module where
  "rela_module = blank_module\<lparr>r_Base := 0x10000, r_Dyn := 0x3000, r_RelaCount := 3\<rparr>"

lemma rela_example_entries:
  "rela_at two_modules 0x3000 0 = \<lparr>rela_offset = 0x100, rela_info = 0x403, rela_addend = 5\<rparr>"
  "rela_at two_modules 0x3000 (Suc 0) = \<lparr>rela_offset = 0x110, rela_info = 0x100000402, rela_addend = 0\<rparr>"
  "rela_at two_modules 0x3000 2 = \<lparr>rela_offset = 0x108, rela_info = 0x403, rela_addend = 7\<rparr>"
  by code_simp+

lemma below_three: "(\<forall>i<3. P i) \<longleftrightarrow> P 0 \<and> P (Suc 0) \<and> P (2 :: nat)"
  by (auto simp: numeral_3_eq_3 numeral_2_eq_2 less_Suc_eq)

lemma rela_example_slots:
  "separate_slots two_modules rela_module (r_Dyn rela_module) (unat (r_RelaCount rela_module)) is_relative"
proof -
  have rel: "is_relative \<lparr>rela_offset = a, rela_info = 0x403, rela_addend = v\<rparr>"
    "\<not> is_relative \<lparr>rela_offset = a, rela_info = 0x100000402, rela_addend = v\<rparr>" for a v
    by (simp_all add: is_relative_def ELF_R_TYPE_def R_AARCH64_RELATIVE_def)
  have far: "\<not> in_slot b x" if "x - a < sizeof_Rela" "24 \<le> b - a" "8 \<le> a - b" for a b x
    using that far_ranges [of x a 24 b 8] by (simp add: in_slot_def sizeof_Rela_def)
  have n: "unat (r_RelaCount rela_module) = 3" "r_Dyn rela_module = 0x3000" "r_Base rela_module = 0x10000"
    by (simp_all add: rela_module_def)
  show ?thesis
    unfolding separate_slots_def n below_three rela_example_entries
    by (simp add: rel slot_of_def n apart_far sizeof_Rela_def far [unfolded sizeof_Rela_def])
qed

theorem relocate_exact_witness:
  "\<exists>m'. Relocate rela_module two_modules = Some m' \<and>
     ld64 m' 0x10100 = 0x10005 \<and> ld64 m' 0x10108 = 0x10007 \<and> m' 0x10110 = 0"
proof -
  have n: "unat (r_RelaCount rela_module) = 3" "r_Dyn rela_module = 0x3000" "r_Base rela_module = 0x10000"
    "r_RelCount rela_module = 0" by (simp_all add: rela_module_def blank_module_def)
  have "two_modules 0x10110 = 0" by code_simp
  then show ?thesis
    using relocate_exact [OF n(4) rela_example_slots] unfolding n below_three rela_example_entries
    by (auto simp: is_relative_def ELF_R_TYPE_def R_AARCH64_RELATIVE_def slot_of_def n in_slot_def)
qed

end
