(* ===== verification/RtldBind.thy ===== *)
theory RtldBind
  imports RtldRelocate
begin

text \<open>
  Binding the symbols of a module: what the slots of its relocations hold after \<^verbatim>\<open>ResolveSymbols\<close>. The
  relocations carry addends and stand in two tables, the dynamic one and that of the PLT.
\<close>

definition bindable :: "Elf_Rela \<Rightarrow> bool" where
  "bindable e \<longleftrightarrow> (let type = ELF_R_TYPE (rela_info e) in
     ARCH_IS_REL_ABSOLUTE type \<or> type = R_AARCH64_GLOB_DAT \<or> type = R_AARCH64_RELATIVE \<or>
     type = R_AARCH64_JUMP_SLOT)"

definition symbol_of :: "rtld_module \<Rightarrow> Elf_Rela \<Rightarrow> u64" where
  "symbol_of md e = r_DynSym md + ELF_R_SYM (rela_info e) * sizeof_Sym"

text \<open>The value that an entry binds its slot to, if its symbol can be resolved.\<close>

definition bound_value ::
  "rtld_module list \<Rightarrow> manual_lookup \<Rightarrow> memory \<Rightarrow> rtld_module \<Rightarrow> Elf_Rela \<Rightarrow> u64 option" where
  "bound_value mods manual m md e =
     (if bindable e then
        (case ResolveSymbol_sym mods manual m md (symbol_of md e) of
           Some (Inr a) \<Rightarrow> Some (a + rela_addend e)
         | _ \<Rightarrow> None)
      else None)"

lemma ResolveSymbol_bound:
  assumes "bindable (read_Rela m a) \<Longrightarrow>
      ResolveSymbol_sym mods manual m md (symbol_of md (read_Rela m a)) \<noteq> None"
  shows "ResolveSymbol mods manual True md a m =
    Some (case bound_value mods manual m md (read_Rela m a) of
            None \<Rightarrow> m | Some v \<Rightarrow> st64 (slot_of md (read_Rela m a)) v m)"
  using assms
  by (auto simp: ResolveSymbol_def bound_value_def bindable_def symbol_of_def slot_of_def Let_def
      split: sum.splits)

text \<open>The entries of both tables, in the order in which they are resolved.\<close>

definition dyn_entries :: "rtld_module \<Rightarrow> nat" where
  "dyn_entries md = unat (r_RelaCount md)"

definition plt_entries :: "rtld_module \<Rightarrow> nat" where
  "plt_entries md = unat (r_PltRelSz md div sizeof_Rela)"

definition entry_addr :: "rtld_module \<Rightarrow> nat \<Rightarrow> u64" where
  "entry_addr md k = (if k < dyn_entries md then r_Dyn md + of_nat k * sizeof_Rela
     else r_Plt md + of_nat (k - dyn_entries md) * sizeof_Rela)"

definition entry :: "memory \<Rightarrow> rtld_module \<Rightarrow> nat \<Rightarrow> Elf_Rela" where
  "entry m md k = read_Rela m (entry_addr md k)"

definition in_bound_slot ::
  "rtld_module list \<Rightarrow> manual_lookup \<Rightarrow> memory \<Rightarrow> rtld_module \<Rightarrow> u64 \<Rightarrow> bool" where
  "in_bound_slot mods manual m md x \<longleftrightarrow> (\<exists>k<dyn_entries md + plt_entries md.
     bound_value mods manual m md (entry m md k) \<noteq> None \<and> in_slot (slot_of md (entry m md k)) x)"

text \<open>
  The slots overlap neither each other nor the tables nor the word of the GOT that is cleared, and the
  symbols are looked up in memory outside the slots.
\<close>

definition binding_ok :: "rtld_module list \<Rightarrow> manual_lookup \<Rightarrow> memory \<Rightarrow> rtld_module \<Rightarrow> bool" where
  "binding_ok mods manual m md \<longleftrightarrow> (\<forall>k<dyn_entries md + plt_entries md.
     (\<forall>x. x - entry_addr md k < sizeof_Rela \<longrightarrow> \<not> in_bound_slot mods manual m md x) \<and>
     (bindable (entry m md k) \<longrightarrow>
        ResolveSymbol_sym mods manual m md (symbol_of md (entry m md k)) \<noteq> None \<and>
        (\<forall>m'. differs_at (in_bound_slot mods manual m md) m m' \<longrightarrow>
           ResolveSymbol_sym mods manual m' md (symbol_of md (entry m md k)) =
           ResolveSymbol_sym mods manual m md (symbol_of md (entry m md k)))) \<and>
     (bound_value mods manual m md (entry m md k) \<noteq> None \<longrightarrow>
        (r_Got md \<noteq> 0 \<longrightarrow> apart (r_Got md + 16) (slot_of md (entry m md k))) \<and>
        (\<forall>j<dyn_entries md + plt_entries md. j \<noteq> k \<longrightarrow> bound_value mods manual m md (entry m md j) \<noteq> None \<longrightarrow>
           apart (slot_of md (entry m md j)) (slot_of md (entry m md k)))))"

definition slot_write ::
  "rtld_module list \<Rightarrow> manual_lookup \<Rightarrow> memory \<Rightarrow> rtld_module \<Rightarrow> nat \<Rightarrow> (u64 \<times> u64) option" where
  "slot_write mods manual m md k =
     map_option (\<lambda>v. (slot_of md (entry m md k), v)) (bound_value mods manual m md (entry m md k))"

lemma resolve_entry:
  assumes ok: "binding_ok mods manual m md" and k: "k < dyn_entries md + plt_entries md"
    and m': "differs_at (in_bound_slot mods manual m md) m m'"
  shows "ResolveSymbol mods manual True md (entry_addr md k) m' =
    Some (case slot_write mods manual m md k of None \<Rightarrow> m' | Some (p, v) \<Rightarrow> st64 p v m')"
proof -
  note b = mp [OF spec [OF ok [unfolded binding_ok_def], of k] k]
  have same: "read_Rela m' (entry_addr md k) = entry m md k"
    unfolding entry_def
    by (intro read_Rela_cong) (use conjunct1 [OF b] m' in \<open>simp add: differs_at_def\<close>)
  have sym: "bindable (entry m md k) \<Longrightarrow>
      ResolveSymbol_sym mods manual m' md (symbol_of md (entry m md k)) =
      ResolveSymbol_sym mods manual m md (symbol_of md (entry m md k)) \<and>
      ResolveSymbol_sym mods manual m md (symbol_of md (entry m md k)) \<noteq> None"
    using conjunct1 [OF conjunct2 [OF b]] m' by blast
  then have "bound_value mods manual m' md (entry m md k) = bound_value mods manual m md (entry m md k)"
    by (simp add: bound_value_def)
  then show ?thesis
    using ResolveSymbol_bound [of m' "entry_addr md k" mods manual md] sym
    by (simp add: same slot_write_def split: option.split)
qed

lemma loop_writes_add: "loop_writes w (n + k) = loop_writes w n @ loop_writes (\<lambda>i. w (n + i)) k"
  by (induction k) simp_all

lemma resolve_tables:
  assumes ok: "binding_ok mods manual m md"
    and m1: "m1 = put_all (loop_writes (slot_write mods manual m md) (dyn_entries md + plt_entries md)) m"
  shows "Option.bind (ForEachRelocation sizeof_Rela (r_Dyn md) (dyn_entries md) (ResolveSymbol mods manual True md) m)
     (ForEachRelocation sizeof_Rela (r_Plt md) (plt_entries md) (ResolveSymbol mods manual True md)) = Some m1"
proof -
  let ?T = "in_bound_slot mods manual m md" and ?w = "slot_write mods manual m md"
  let ?n = "dyn_entries md" and ?k = "plt_entries md"
  have T: "?T x" if "i < ?n + ?k" "?w i = Some (p, v)" "in_slot p x" for i p v x
    using that by (auto simp: in_bound_slot_def slot_write_def)
  let ?m = "put_all (loop_writes ?w ?n) m"
  have 1: "ForEachRelocation sizeof_Rela (r_Dyn md) ?n (ResolveSymbol mods manual True md) m = Some ?m \<and>
      differs_at ?T m ?m"
  proof (rule loop_is_put_all)
    show "ResolveSymbol mods manual True md (r_Dyn md + of_nat i * sizeof_Rela) m' =
        Some (case ?w i of None \<Rightarrow> m' | Some (p, v) \<Rightarrow> st64 p v m')" if "i < ?n" "differs_at ?T m m'" for i m'
      using resolve_entry [OF ok, of i m'] that by (simp add: entry_addr_def)
  qed (rule T, simp_all)
  have 2: "ForEachRelocation sizeof_Rela (r_Plt md) ?k (ResolveSymbol mods manual True md) ?m =
      Some (put_all (loop_writes (\<lambda>i. ?w (?n + i)) ?k) ?m) \<and>
      differs_at ?T m (put_all (loop_writes (\<lambda>i. ?w (?n + i)) ?k) ?m)"
  proof (rule loop_is_put_all)
    show "ResolveSymbol mods manual True md (r_Plt md + of_nat i * sizeof_Rela) m' =
        Some (case ?w (?n + i) of None \<Rightarrow> m' | Some (p, v) \<Rightarrow> st64 p v m')"
      if "i < ?k" "differs_at ?T m m'" for i m'
      using resolve_entry [OF ok, of "?n + i" m'] that by (simp add: entry_addr_def)
  qed (rule T, use 1 in simp_all)
  show ?thesis
    using 1 2 by (simp add: m1 loop_writes_add put_all_append)
qed

text \<open>
  C5: Binding the symbols of a module gives the slot of every relocation, of the dynamic table and of
  the PLT, the address of the symbol plus the addend if the symbol can be resolved, clears the third
  word of the GOT, and leaves all other memory as it was, the slots of unresolved symbols included.
\<close>

theorem symbols_are_bound:
  assumes "r_RelCount md = 0" "r_IsPltRela md" "binding_ok mods manual m md"
  shows "\<exists>m'. ResolveSymbols mods manual md m = Some m' \<and>
    (\<forall>k v. k < dyn_entries md + plt_entries md \<longrightarrow>
       bound_value mods manual m md (entry m md k) = Some v \<longrightarrow> ld64 m' (slot_of md (entry m md k)) = v) \<and>
    (r_Got md \<noteq> 0 \<longrightarrow> ld64 m' (r_Got md + 16) = 0) \<and>
    (\<forall>x. \<not> in_bound_slot mods manual m md x \<longrightarrow> (r_Got md \<noteq> 0 \<longrightarrow> \<not> in_slot (r_Got md + 16) x) \<longrightarrow> m' x = m x)"
proof -
  let ?n = "dyn_entries md + plt_entries md" and ?w = "slot_write mods manual m md"
  let ?m = "put_all (loop_writes ?w ?n) m"
  let ?m' = "if r_Got md \<noteq> 0 then st64 (r_Got md + 16) 0 ?m else ?m"
  have "ResolveSymbols mods manual md m = Some ?m'"
    using resolve_tables [OF assms(3) refl] assms(1,2)
    by (auto simp: ResolveSymbols_def Let_def dyn_entries_def plt_entries_def bind_eq_Some_conv)
  moreover have "ld64 ?m' (slot_of md (entry m md k)) = v"
    if k: "k < ?n" and v: "bound_value mods manual m md (entry m md k) = Some v" for k v
  proof -
    note b = conjunct2 [OF conjunct2 [OF mp [OF spec [OF assms(3) [unfolded binding_ok_def], of k] k]]]
    have "ld64 ?m (slot_of md (entry m md k)) = v"
    proof (rule loop_writes_read [where k = k])
      show "apart (fst q) (fst p)" if "i < ?n" "j < ?n" "i \<noteq> j" "?w i = Some p" "?w j = Some q" for i j p q
        using conjunct2 [OF conjunct2 [OF mp [OF spec [OF assms(3) [unfolded binding_ok_def], of i] that(1)]]] that(2-)
        by (auto simp: slot_write_def)
    qed (use k v in \<open>simp_all add: slot_write_def\<close>)
    with b v show ?thesis by (simp add: ld64_st64_apart)
  qed
  moreover have "?m x = m x" if "\<not> in_bound_slot mods manual m md x" for x
    using that by (intro loop_writes_other) (auto simp: slot_write_def in_bound_slot_def)
  ultimately show ?thesis
    by (intro exI [of _ ?m']) (auto simp: st64_other)
qed

text \<open>
  A module whose PLT has one entry, for the symbol ab, which the module with the GNU hash table provides.
\<close>

definition client_module :: rtld_module where
  "client_module = elf_module\<lparr>r_Base := 0x10000, r_Plt := 0x3018, r_PltRelSz := 24, r_IsPltRela := True\<rparr>"

lemma ld_below:
  assumes "\<And>x. x < 0x10000 \<Longrightarrow> m' x = (m x :: u8)" "a < 0xFF00"
  shows "ld16 m' a = ld16 m a" "ld32 m' a = ld32 m a" "ld64 m' a = ld64 m a"
proof -
  have "a + k < 0x10000" if "k < 8" for k
    using assms(2) that by (simp add: word_less_nat_alt unat_word_ariths)
  then have "m' (a + k) = m (a + k)" if "k < 8" for k
    using that assms(1) by simp
  from this [of 0] this [of 1] this [of 2] this [of 3] this [of 4] this [of 5] this [of 6] this [of 7]
  show "ld16 m' a = ld16 m a" "ld32 m' a = ld32 m a" "ld64 m' a = ld64 m a"
    by (simp_all add: ld16_def ld32_def ld64_def)
qed

lemma client_loads:
  "ld64 two_modules 0x2010 = 0xFFFFFFFFFFFFFFFF" "ld32 two_modules 0x2000 = 1" "ld32 two_modules 0x2004 = 1"
  "ld32 two_modules 0x2018 = 1" "ld32 two_modules 0x201C = 0x597729" "ld16 two_modules 0x221E = 1"
  "ld32 two_modules 0x2218 = 1" "ld64 two_modules 0x2220 = 0x140" "ld32 two_modules 0x1218 = 1"
  "two_modules 0x121D = 0" "two_modules 0x1101 = 0x61" "two_modules 0x1102 = 0x62" "two_modules 0x1103 = 0"
  "two_modules 0x2101 = 0x61" "two_modules 0x2102 = 0x62" "two_modules 0x2103 = 0"
  by code_simp+

lemma client_lookup:
  assumes "\<And>x. x < 0x10000 \<Longrightarrow> m x = two_modules x"
  shows "ResolveSymbol_sym [gnu_module] None m client_module 0x1218 = Some (Inr 0x2140)"
proof -
  note ld = ld_below [of m two_modules, OF assms]
  have name: "cstr_at m 0x1101 = Some name_ab"
    by (subst cstr_at.simps, subst cstr_at.simps, subst cstr_at.simps)
      (simp add: assms client_loads name_ab_def)
  have here: "st_name (read_Sym m 0x1218) = 1" "st_other (read_Sym m 0x1218) = 0"
    by (simp_all add: read_Sym_def ld assms client_loads)
  have there: "\<not> isCommon m 0x2218" "st_value (read_Sym m 0x2218) = 0x140" "st_name (read_Sym m 0x2218) = 1"
    by (simp_all add: isCommon_def read_Sym_def ld assms client_loads SHN_COMMON_def)
  have "accepts m (name_matches m gnu_module name_ab) 0x2218 = Some True"
    by (simp add: accepts_def name_matches_def there sym_name_ptr_def name_ab_def assms client_loads
        gnu_module_eval blank_module_def)
  moreover have "gnu_bucket m gnu_module 0x597728 = 1" "gnu_chain_ptr m gnu_module 1 = 0x201C"
    "bloom_word m gnu_module 0x597728 = 0xFFFFFFFFFFFFFFFF"
    by (simp_all add: gnu_bucket_def gnu_chain_ptr_def bloom_word_def gnu_module_eval blank_module_def
        ld client_loads Let_def)
  moreover have full: "(0xFFFFFFFFFFFFFFFF :: u64) = - 1" by simp
  have "0xFFFFFFFFFFFFFFFF AND x = x" for x :: u64 unfolding full by simp
  ultimately have "GetSymbolByName m gnu_module name_ab = Some (Some 0x2218)"
    using gnu_example_eval example_symbols(3)
    by (simp add: GetSymbolByName_def GetSymbolByNameGnu_def gnu_find_def gnu_chain.simps [of _ _ _ _ 1 "0x201C"]
        ld client_loads gnu_module_eval blank_module_def Let_def)
  then show ?thesis
    by (simp add: ResolveSymbol_sym_def Let_def here there name STV_DEFAULT_def ELF_ST_VISIBILITY_def
        sym_name_ptr_def client_module_def elf_module_eval example_symbols blank_module_def)
qed

lemma client_fields:
  "r_Base client_module = 0x10000" "r_Plt client_module = 0x3018" "r_PltRelSz client_module = 24"
  "r_IsPltRela client_module" "r_RelCount client_module = 0" "r_RelaCount client_module = 0"
  "r_Got client_module = 0" "r_DynSym client_module = 0x1200"
  by (simp_all add: client_module_def elf_module_eval blank_module_def)

lemma client_entry:
  "dyn_entries client_module = 0" "plt_entries client_module = 1" "entry_addr client_module 0 = 0x3018"
  "entry two_modules client_module 0 = \<lparr>rela_offset = 0x110, rela_info = 0x100000402, rela_addend = 0\<rparr>"
  "symbol_of client_module (entry two_modules client_module 0) = 0x1218"
  "slot_of client_module (entry two_modules client_module 0) = 0x10110"
  "bindable (entry two_modules client_module 0)"
  "bound_value [gnu_module] None two_modules client_module (entry two_modules client_module 0) = Some 0x2140"
  "in_bound_slot [gnu_module] None two_modules client_module x \<longleftrightarrow> in_slot 0x10110 x"
proof -
  show n: "dyn_entries client_module = 0" "plt_entries client_module = 1" and a: "entry_addr client_module 0 = 0x3018"
    by (simp_all add: dyn_entries_def plt_entries_def entry_addr_def client_fields sizeof_Rela_def)
  show e: "entry two_modules client_module 0 = \<lparr>rela_offset = 0x110, rela_info = 0x100000402, rela_addend = 0\<rparr>"
    using rela_example_entries(2) by (simp add: entry_def a rela_at_def sizeof_Rela_def)
  show b: "bindable (entry two_modules client_module 0)"
    and s: "symbol_of client_module (entry two_modules client_module 0) = 0x1218"
    and p: "slot_of client_module (entry two_modules client_module 0) = 0x10110"
    unfolding e
    by (simp_all add: bindable_def ELF_R_TYPE_def R_AARCH64_JUMP_SLOT_def symbol_of_def ELF_R_SYM_def
        sizeof_Sym_def slot_of_def client_fields)
  show v: "bound_value [gnu_module] None two_modules client_module (entry two_modules client_module 0) = Some 0x2140"
    using client_lookup [of two_modules] b s unfolding bound_value_def by (simp add: e)
  show "in_bound_slot [gnu_module] None two_modules client_module x \<longleftrightarrow> in_slot 0x10110 x"
    by (simp add: in_bound_slot_def n v p)
qed

theorem symbols_are_bound_witness:
  "\<exists>m'. ResolveSymbols [gnu_module] None client_module two_modules = Some m' \<and>
     ld64 m' 0x10110 = 0x2140 \<and> m' 0x10118 = 0"
proof -
  have far: "\<not> in_slot 0x10110 x" if "x - 0x3018 < sizeof_Rela" for x
    using that far_ranges [of x "0x3018" 24 "0x10110" 8] by (simp add: in_slot_def sizeof_Rela_def)
  have low: "\<not> in_slot 0x10110 x" if "x < 0x10000" for x
    using that far_ranges [of x 0 "0x10000" "0x10110" 8] by (simp add: in_slot_def)
  have "ResolveSymbol_sym [gnu_module] None m' client_module 0x1218 = Some (Inr 0x2140)"
    if "\<forall>x. \<not> in_slot 0x10110 x \<longrightarrow> m' x = two_modules x" for m'
    using that low by (intro client_lookup) simp
  then have "binding_ok [gnu_module] None two_modules client_module"
    unfolding binding_ok_def using far
    by (simp add: client_entry(1,2,3,5-) differs_at_def client_fields)
  moreover have "two_modules 0x10118 = 0" by code_simp
  ultimately show ?thesis
    using symbols_are_bound [of client_module "[gnu_module]" None two_modules]
    by (auto simp: client_entry(1,2,5-) client_fields in_slot_def)
qed

end
