(* ===== verification/RtldList.thy ===== *)
theory RtldList
  imports HkPrelude
begin

text \<open>
  The intrusive list of loaded modules (\<^verbatim>\<open>rtld/RoModuleList.h\<close>). The list object is cast to a module
  and closes the ring: its \<^verbatim>\<open>front\<close> and \<^verbatim>\<open>back\<close> lie where a module has \<^verbatim>\<open>next\<close> and \<^verbatim>\<open>prev\<close>, so
  both are the links of the node \<open>s\<close>, the address of the list object.
\<close>

section \<open>The operations\<close>

record links =
  l_next :: "u64 \<Rightarrow> u64"
  l_prev :: "u64 \<Rightarrow> u64"

definition set_next :: "u64 \<Rightarrow> u64 \<Rightarrow> links \<Rightarrow> links" where
  "set_next a v h = h\<lparr>l_next := (l_next h)(a := v)\<rparr>"

definition set_prev :: "u64 \<Rightarrow> u64 \<Rightarrow> links \<Rightarrow> links" where
  "set_prev a v h = h\<lparr>l_prev := (l_prev h)(a := v)\<rparr>"

definition RoModuleList_new :: "u64 \<Rightarrow> links \<Rightarrow> links" where
  "RoModuleList_new s h = set_prev s s (set_next s s h)"

definition list_empty :: "u64 \<Rightarrow> links \<Rightarrow> bool" where
  "list_empty s h \<longleftrightarrow> l_next h s = s"

definition pushFront :: "u64 \<Rightarrow> u64 \<Rightarrow> links \<Rightarrow> links" where
  "pushFront s module h =
     (if module = 0 then h
      else let h = set_prev module s h;
               h = set_next module (l_next h s) h;
               h = set_prev (l_next h s) module h
           in set_next s module h)"

definition pushBack :: "u64 \<Rightarrow> u64 \<Rightarrow> links \<Rightarrow> links" where
  "pushBack s module h =
     (if module = 0 then h
      else let h = set_next module s h;
               h = set_prev module (l_prev h s) h;
               h = set_next (l_prev h s) module h
           in set_prev s module h)"

definition popFront :: "u64 \<Rightarrow> links \<Rightarrow> links" where
  "popFront s h =
     (if list_empty s h then h
      else let oldFront = l_next h s;
               h = set_next s (l_next h oldFront) h;
               h = set_prev (l_next h s) s h;
               h = set_prev oldFront oldFront h
           in set_next oldFront oldFront h)"

definition popBack :: "u64 \<Rightarrow> links \<Rightarrow> links" where
  "popBack s h =
     (if list_empty s h then h
      else let oldBack = l_prev h s;
               h = set_prev s (l_prev h oldBack) h;
               h = set_next (l_prev h s) s h;
               h = set_prev oldBack oldBack h
           in set_next oldBack oldBack h)"

definition insertBefore :: "u64 \<Rightarrow> u64 \<Rightarrow> u64 \<Rightarrow> links \<Rightarrow> links" where
  "insertBefore s pos module h =
     (if pos = 0 \<or> module = 0 then h
      else let h = set_next module pos h;
               h = set_prev module (l_prev h pos) h;
               h = set_next (l_prev h pos) module h;
               h = set_prev pos module h
           in if pos = l_next h s then set_next s module h else h)"

definition insertAfter :: "u64 \<Rightarrow> u64 \<Rightarrow> u64 \<Rightarrow> links \<Rightarrow> links" where
  "insertAfter s pos module h =
     (if pos = 0 \<or> module = 0 then h
      else let h = set_prev module pos h;
               h = set_next module (l_next h pos) h;
               h = set_prev (l_next h pos) module h;
               h = set_next pos module h
           in if pos = l_prev h s then set_prev s module h else h)"

definition list_remove :: "u64 \<Rightarrow> u64 \<Rightarrow> links \<Rightarrow> links" where
  "list_remove s module h =
     (if module = 0 \<or> module = s then h
      else let h = (if module = l_next h s
                    then set_next s (if l_next h module = s then s else l_next h module) h else h);
               h = (if module = l_prev h s
                    then set_prev s (if l_prev h module = s then s else l_prev h module) h else h);
               h = set_next (l_prev h module) (l_next h module) h;
               h = set_prev (l_next h module) (l_prev h module) h;
               h = set_prev module module h
           in set_next module module h)"

partial_function (option) list_clear :: "u64 \<Rightarrow> links \<Rightarrow> links option" where
  "list_clear s h = (if list_empty s h then Some h else list_clear s (popFront s h))"

declare list_clear.simps [code]

text \<open>
  The iterators. The loop \<^verbatim>\<open>for (auto* m : list)\<close> runs from \<^verbatim>\<open>begin()\<close>, which is the back, along the
  \<^verbatim>\<open>prev\<close> links; the reverted iterator starts at the front. A loop collects the modules it visits.
\<close>

definition iter_step :: "bool \<Rightarrow> links \<Rightarrow> u64 \<Rightarrow> u64" where
  "iter_step reverted h cur = (if cur \<noteq> 0 then if reverted then l_next h cur else l_prev h cur else cur)"

partial_function (option) iter_loop :: "bool \<Rightarrow> links \<Rightarrow> u64 \<Rightarrow> u64 \<Rightarrow> u64 list option" where
  "iter_loop reverted h s cur =
     (if cur = s then Some []
      else Option.bind (iter_loop reverted h s (iter_step reverted h cur)) (\<lambda>ms. Some (cur # ms)))"

declare iter_loop.simps [code]

definition iterate :: "u64 \<Rightarrow> links \<Rightarrow> u64 list option" where
  "iterate s h = iter_loop False h s (l_prev h s)"

definition iterate_reverted :: "u64 \<Rightarrow> links \<Rightarrow> u64 list option" where
  "iterate_reverted s h = iter_loop True h s (l_next h s)"

section \<open>The ring\<close>

primrec seg :: "links \<Rightarrow> u64 \<Rightarrow> u64 list \<Rightarrow> u64 \<Rightarrow> bool" where
  "seg h a [] b \<longleftrightarrow> l_next h a = b \<and> l_prev h b = a"
| "seg h a (x # xs) b \<longleftrightarrow> l_next h a = x \<and> l_prev h x = a \<and> seg h x xs b"

definition holds :: "links \<Rightarrow> u64 \<Rightarrow> u64 list \<Rightarrow> bool" where
  "holds h s xs \<longleftrightarrow> seg h s xs s \<and> distinct (s # xs) \<and> 0 \<notin> set (s # xs)"

lemma links_simps [simp]:
  "l_next (set_next a v h) = (l_next h)(a := v)" "l_prev (set_next a v h) = l_prev h"
  "l_prev (set_prev a v h) = (l_prev h)(a := v)" "l_next (set_prev a v h) = l_next h"
  by (simp_all add: set_next_def set_prev_def)

lemma seg_append: "seg h a (xs @ y # ys) b \<longleftrightarrow> seg h a xs y \<and> seg h y ys b"
  by (induction xs arbitrary: a) auto

lemma seg_snoc: "seg h a (xs @ [y]) b \<longleftrightarrow> seg h a xs y \<and> l_next h y = b \<and> l_prev h b = y"
  by (simp add: seg_append)

lemma seg_set_next: "n \<noteq> a \<Longrightarrow> n \<notin> set xs \<Longrightarrow> seg (set_next n v h) a xs b = seg h a xs b"
  by (induction xs arbitrary: a) auto

lemma seg_set_prev: "n \<notin> set xs \<Longrightarrow> n \<noteq> b \<Longrightarrow> seg (set_prev n v h) a xs b = seg h a xs b"
  by (induction xs arbitrary: a) auto

lemma seg_ends:
  "seg h a xs b \<Longrightarrow> l_next h a = (case xs of [] \<Rightarrow> b | x # _ \<Rightarrow> x)"
  "seg h a xs b \<Longrightarrow> l_prev h b = (if xs = [] then a else last xs)"
  by (induction xs arbitrary: a) auto

text \<open>Linking a node between two neighbours, and taking one out, the rest of the ring unchanged.\<close>

definition link_between :: "u64 \<Rightarrow> u64 \<Rightarrow> u64 \<Rightarrow> links \<Rightarrow> links" where
  "link_between a n b h = set_prev b n (set_next a n (set_prev n a (set_next n b h)))"

definition unlink :: "u64 \<Rightarrow> u64 \<Rightarrow> u64 \<Rightarrow> links \<Rightarrow> links" where
  "unlink a n b h = set_next n n (set_prev n n (set_prev b a (set_next a b h)))"

lemmas seg_frame = seg_set_next seg_set_prev

lemma seg_link:
  assumes "seg h a (ys @ zs) b" "distinct (a # ys @ zs)" "b \<notin> set (ys @ zs)" "n \<notin> set (a # b # ys @ zs)"
  shows "seg (link_between (last (a # ys)) n (hd (zs @ [b])) h) a (ys @ n # zs) b"
  using assms
proof (induction ys arbitrary: a)
  case Nil
  then show ?case by (cases zs) (auto simp: link_between_def seg_frame)
next
  case (Cons y ys)
  then have "seg (link_between (last (y # ys)) n (hd (zs @ [b])) h) y (ys @ n # zs) b" by simp
  moreover have "last (y # ys) \<noteq> a" using Cons.prems(2) last_in_set [of "y # ys"] by auto
  moreover have "hd (zs @ [b]) \<noteq> y" using Cons.prems(2,3) by (cases zs) auto
  ultimately show ?case using Cons.prems by (auto simp: link_between_def)
qed

lemma seg_unlink:
  assumes "seg h a (ys @ n # zs) b" "distinct (a # ys @ n # zs)" "b \<notin> set (ys @ n # zs)"
  shows "seg (unlink (last (a # ys)) n (hd (zs @ [b])) h) a (ys @ zs) b"
  using assms
proof (induction ys arbitrary: a)
  case Nil
  then show ?case by (cases zs) (auto simp: unlink_def seg_frame)
next
  case (Cons y ys)
  then have "seg (unlink (last (y # ys)) n (hd (zs @ [b])) h) y (ys @ zs) b" by simp
  moreover have "last (y # ys) \<noteq> a" using Cons.prems(2) last_in_set [of "y # ys"] by auto
  moreover have "hd (zs @ [b]) \<noteq> y" using Cons.prems(2,3) by (cases zs) auto
  ultimately show ?case using Cons.prems by (auto simp: unlink_def)
qed

lemma holds_link:
  "holds h s (ys @ zs) \<Longrightarrow> n \<notin> set (s # ys @ zs) \<Longrightarrow> n \<noteq> 0 \<Longrightarrow>
   holds (link_between (last (s # ys)) n (hd (zs @ [s])) h) s (ys @ n # zs)"
  unfolding holds_def by (intro conjI seg_link) auto

lemma holds_unlink:
  "holds h s (ys @ n # zs) \<Longrightarrow> holds (unlink (last (s # ys)) n (hd (zs @ [s])) h) s (ys @ zs)"
  unfolding holds_def by (intro conjI seg_unlink) auto

lemma holds_neighbours:
  assumes "holds h s (ys @ n # zs)"
  shows "l_prev h n = last (s # ys)" "l_next h n = hd (zs @ [s])"
  using assms seg_ends(2) [of h s ys n] seg_ends(1) [of h n zs s]
  by (auto simp: holds_def seg_append split: list.splits)

lemma holds_ends:
  assumes "holds h s xs"
  shows "l_next h s = hd (xs @ [s])" "l_prev h s = last (s # xs)" "list_empty s h \<longleftrightarrow> xs = []"
  using assms seg_ends [of h s xs s]
  by (auto simp: holds_def list_empty_def split: list.splits)

lemma links_eqI: "l_next h = l_next h' \<Longrightarrow> l_prev h = l_prev h' \<Longrightarrow> h = (h' :: links)"
  by simp

section \<open>The operations on the ring\<close>

lemma holds_new: "s \<noteq> 0 \<Longrightarrow> holds (RoModuleList_new s h) s []"
  by (simp add: holds_def RoModuleList_new_def)

lemma holds_pushFront:
  assumes "holds h s xs" "n \<notin> set (s # xs)" "n \<noteq> 0"
  shows "holds (pushFront s n h) s (n # xs)"
proof -
  have "pushFront s n h = link_between s n (l_next h s) h"
    using assms(2,3) by (auto simp: pushFront_def link_between_def Let_def intro!: links_eqI)
  with holds_link [of h s "[]" xs n] assms holds_ends(1) [OF assms(1)] show ?thesis by simp
qed

lemma holds_pushBack:
  assumes "holds h s xs" "n \<notin> set (s # xs)" "n \<noteq> 0"
  shows "holds (pushBack s n h) s (xs @ [n])"
proof -
  have "pushBack s n h = link_between (l_prev h s) n s h"
    using assms(2,3) by (auto simp: pushBack_def link_between_def Let_def intro!: links_eqI)
  with holds_link [of h s xs "[]" n] assms holds_ends(2) [OF assms(1)] show ?thesis by simp
qed

lemma holds_popFront: "holds h s xs \<Longrightarrow> holds (popFront s h) s (tl xs)"
proof (cases xs)
  case Nil
  assume "holds h s xs"
  with Nil show ?thesis by (simp add: popFront_def holds_ends)
next
  case (Cons x zs)
  assume h: "holds h s xs"
  with Cons have n: "l_next h s = x" "l_next h x = hd (zs @ [s])" "s \<noteq> x"
    using holds_ends(1) [OF h] holds_neighbours(2) [of h s "[]" x zs] by (auto simp: holds_def)
  then have "popFront s h = unlink s x (hd (zs @ [s])) h"
    using Cons h by (auto simp: popFront_def unlink_def Let_def holds_ends intro!: links_eqI)
  with holds_unlink [of h s "[]" x zs] Cons h show ?thesis by simp
qed

lemma holds_popBack: "holds h s xs \<Longrightarrow> holds (popBack s h) s (butlast xs)"
proof (cases xs rule: rev_cases)
  case Nil
  assume "holds h s xs"
  with Nil show ?thesis by (simp add: popBack_def holds_ends)
next
  case (snoc ys y)
  assume h: "holds h s xs"
  with snoc have n: "l_prev h s = y" "l_prev h y = last (s # ys)" "s \<noteq> y"
    using holds_ends(2) [OF h] holds_neighbours(1) [of h s ys y "[]"] by (auto simp: holds_def)
  then have "popBack s h = unlink (last (s # ys)) y s h"
    using snoc h by (auto simp: popBack_def unlink_def Let_def holds_ends intro!: links_eqI)
  with holds_unlink [of h s ys y "[]"] snoc h show ?thesis by simp
qed

lemma holds_insertBefore:
  assumes h: "holds h s (ys @ p # zs)" and n: "n \<notin> set (s # ys @ p # zs)" "n \<noteq> 0"
  shows "holds (insertBefore s p n h) s (ys @ n # p # zs)"
proof -
  have p: "n \<noteq> 0" "p \<noteq> 0" "p \<noteq> s" "n \<noteq> p" "n \<noteq> s" "l_prev h p = last (s # ys)" "l_next h s = hd (ys @ [p])"
    using h n holds_neighbours [OF h] holds_ends(1) [OF h] by (auto simp: holds_def hd_append)
  have "last (s # ys) = s \<longleftrightarrow> ys = []" and "p \<notin> set ys"
    using h last_in_set [of ys] by (auto simp: holds_def)
  with p have "insertBefore s p n h = link_between (last (s # ys)) n p h"
    by (cases ys) (auto simp: insertBefore_def link_between_def Let_def intro!: links_eqI)
  with holds_link [of h s ys "p # zs" n] h n show ?thesis by simp
qed

lemma holds_insertAfter:
  assumes h: "holds h s (ys @ p # zs)" and n: "n \<notin> set (s # ys @ p # zs)" "n \<noteq> 0"
  shows "holds (insertAfter s p n h) s (ys @ p # n # zs)"
proof -
  have p: "n \<noteq> 0" "p \<noteq> 0" "p \<noteq> s" "n \<noteq> p" "n \<noteq> s" "l_next h p = hd (zs @ [s])" "l_prev h s = last (p # zs)"
    using h n holds_neighbours [OF h] holds_ends(2) [OF h] by (auto simp: holds_def)
  have "hd (zs @ [s]) = s \<longleftrightarrow> zs = []" and "p \<notin> set zs"
    using h by (cases zs; auto simp: holds_def)+
  with p have "insertAfter s p n h = link_between p n (hd (zs @ [s])) h"
    by (cases zs rule: rev_cases) (auto simp: insertAfter_def link_between_def Let_def intro!: links_eqI)
  with holds_link [of h s "ys @ [p]" zs n] h n show ?thesis by simp
qed

lemma remove_unlink:
  assumes "n \<noteq> 0" "n \<noteq> s" "l_prev h n = a" "l_next h n = b" "a \<noteq> n" "b \<noteq> n"
    and "n = l_next h s \<longleftrightarrow> a = s" "n = l_prev h s \<longleftrightarrow> b = s"
  shows "list_remove s n h = unlink a n b h"
  using assms
  by (cases "a = s"; cases "b = s") (simp_all add: list_remove_def unlink_def Let_def links_eqI)

lemma holds_remove:
  assumes h: "holds h s (ys @ n # zs)"
  shows "holds (list_remove s n h) s (ys @ zs)"
proof -
  have "n \<notin> set (ys @ zs)" "s \<notin> set (ys @ n # zs)" "n \<noteq> 0" using h by (auto simp: holds_def)
  moreover from this have "last (s # ys) \<noteq> n" "hd (zs @ [s]) \<noteq> n"
    "n = hd (ys @ [n]) \<longleftrightarrow> last (s # ys) = s" "n = last (n # zs) \<longleftrightarrow> hd (zs @ [s]) = s"
    using last_in_set [of ys] last_in_set [of zs] by (cases ys; cases zs; force)+
  ultimately have "list_remove s n h = unlink (last (s # ys)) n (hd (zs @ [s])) h"
    using h holds_neighbours [OF h] holds_ends(1,2) [OF h]
    by (intro remove_unlink) (auto simp: hd_append)
  with holds_unlink [OF h] show ?thesis by simp
qed

lemma holds_clear: "holds h s xs \<Longrightarrow> \<exists>h'. list_clear s h = Some h' \<and> holds h' s []"
proof (induction xs arbitrary: h)
  case Nil
  then show ?case by (subst list_clear.simps) (simp add: holds_ends)
next
  case (Cons x xs)
  have "holds (popFront s h) s xs" using holds_popFront [OF Cons.prems] by simp
  with Cons show ?case by (subst list_clear.simps) (simp add: holds_ends)
qed

lemma iter_forward:
  "seg h a xs s \<Longrightarrow> s \<notin> set xs \<Longrightarrow> 0 \<notin> set xs \<Longrightarrow> iter_loop True h s (hd (xs @ [s])) = Some xs"
proof (induction xs arbitrary: a)
  case Nil
  then show ?case by (subst iter_loop.simps) simp
next
  case (Cons x xs)
  then have "l_next h x = hd (xs @ [s])" using seg_ends(1) [of h x xs s] by (simp split: list.splits)
  with Cons show ?case by (subst iter_loop.simps) (auto simp: iter_step_def)
qed

lemma iter_backward:
  "seg h s xs b \<Longrightarrow> s \<notin> set xs \<Longrightarrow> 0 \<notin> set xs \<Longrightarrow> iter_loop False h s (last (s # xs)) = Some (rev xs)"
proof (induction xs arbitrary: b rule: rev_induct)
  case Nil
  then show ?case by (subst iter_loop.simps) simp
next
  case (snoc x xs)
  then have x: "seg h s xs x" by (simp add: seg_append)
  have "l_prev h x = last (s # xs)" using seg_ends(2) [OF x] by simp
  with snoc x show ?case by (subst iter_loop.simps) (auto simp: iter_step_def)
qed

lemma holds_iterate:
  assumes "holds h s xs"
  shows "iterate s h = Some (rev xs)" "iterate_reverted s h = Some xs"
  using assms iter_forward [of h s xs s] iter_backward [of h s xs s] holds_ends(1,2) [OF assms]
  by (simp_all add: holds_def iterate_def iterate_reverted_def)

section \<open>The interface of a sequence\<close>

text \<open>What the linker's start-up relies on: modules are added at the front and visited from the back.\<close>

locale module_sequence =
  fixes rep :: "'h \<Rightarrow> 'a list \<Rightarrow> bool"
    and may_add :: "'a \<Rightarrow> bool"
    and add :: "'a \<Rightarrow> 'h \<Rightarrow> 'h"
    and visit :: "'h \<Rightarrow> 'a list option"
  assumes rep_add: "rep h xs \<Longrightarrow> may_add x \<Longrightarrow> x \<notin> set xs \<Longrightarrow> rep (add x h) (x # xs)"
    and rep_visit: "rep h xs \<Longrightarrow> visit h = Some (rev xs)"
begin

lemma rep_adds:
  "rep h xs \<Longrightarrow> distinct ns \<Longrightarrow> set ns \<inter> set xs = {} \<Longrightarrow> \<forall>n\<in>set ns. may_add n \<Longrightarrow> rep (fold add ns h) (rev ns @ xs)"
proof (induction ns arbitrary: h xs)
  case (Cons n ns)
  then have "rep (fold add ns (add n h)) (rev ns @ n # xs)" by (intro Cons.IH rep_add) auto
  then show ?case by simp
qed simp

lemma visited_in_order:
  assumes "rep h []" "distinct ns" "\<forall>n\<in>set ns. may_add n"
  shows "visit (fold add ns h) = Some ns"
  using rep_visit [OF rep_adds [OF assms(1,2)]] assms(3) by simp

end

interpretation modlist: module_sequence "\<lambda>h xs. holds h s xs" "\<lambda>n. n \<noteq> s \<and> n \<noteq> 0" "pushFront s" "iterate s" for s
  by unfold_locales (auto intro: holds_pushFront simp: holds_iterate)

text \<open>
  C15: The intrusive list of modules implements a sequence: pushing, popping, inserting beside a member,
  removing a member, clearing and both iterators do to the ring of links what the operations of their
  names do to the list of its members, and a removed node is left linked to itself.
\<close>

theorem module_list_is_sequence:
  assumes "holds h s (ys @ p # zs)" "n \<notin> set (s # ys @ p # zs)" "n \<noteq> 0"
  shows "holds (pushFront s n h) s (n # ys @ p # zs) \<and>
    holds (pushBack s n h) s (ys @ p # zs @ [n]) \<and>
    holds (popFront s h) s (tl (ys @ p # zs)) \<and>
    holds (popBack s h) s (butlast (ys @ p # zs)) \<and>
    holds (insertBefore s p n h) s (ys @ n # p # zs) \<and>
    holds (insertAfter s p n h) s (ys @ p # n # zs) \<and>
    holds (list_remove s p h) s (ys @ zs) \<and>
    l_next (list_remove s p h) p = p \<and> l_prev (list_remove s p h) p = p \<and>
    (\<exists>h'. list_clear s h = Some h' \<and> holds h' s []) \<and>
    iterate s h = Some (rev (ys @ p # zs)) \<and> iterate_reverted s h = Some (ys @ p # zs)"
proof (intro conjI)
  show "holds (pushBack s n h) s (ys @ p # zs @ [n])"
    using holds_pushBack [OF assms] by simp
  have "p \<noteq> 0" "p \<noteq> s" using assms(1) by (auto simp: holds_def)
  then show "l_next (list_remove s p h) p = p" "l_prev (list_remove s p h) p = p"
    by (simp_all add: list_remove_def Let_def)
qed (rule holds_pushFront holds_popFront holds_popBack holds_insertBefore holds_insertAfter
    holds_remove holds_clear holds_iterate, (rule assms)+)+

theorem module_list_is_sequence_witness:
  "\<forall>h. holds (list_remove 1 2 (insertAfter 1 2 4 (pushFront 1 3 (pushBack 1 2 (RoModuleList_new 1 h))))) 1 [3, 4]"
proof
  fix h
  let ?h = "pushFront 1 3 (pushBack 1 2 (RoModuleList_new 1 h))"
  have "holds (pushBack 1 2 (RoModuleList_new 1 h)) 1 [2]"
    using holds_pushBack [OF holds_new, of 1 2 h] by simp
  then have "holds ?h 1 ([3] @ 2 # [])" using holds_pushFront [of _ 1 "[2]" 3] by simp
  then have "holds (insertAfter 1 2 4 ?h) 1 ([3] @ 2 # [4])"
    using module_list_is_sequence [of ?h 1 "[3]" 2 "[]" 4] by simp
  then show "holds (list_remove 1 2 (insertAfter 1 2 4 ?h)) 1 [3, 4]"
    using module_list_is_sequence [of _ 1 "[3]" 2 "[4]" 5] by simp
qed

end
