(* ===== verification/RoMem.thy ===== *)
theory RoMem
  imports HkResult A64Instr
begin

text \<open>
  Memory of a process whose modules are mapped read-only, and the second, writable mapping that
  hooking goes through: \<^verbatim>\<open>hk/hook/MapUtil.cpp\<close> and \<^verbatim>\<open>hk/ro/RoModule.cpp\<close>.

  The kernel is a parameter: a record of what its calls answer.  Its answers may depend on the
  mappings made so far.  A mapping made by \<^verbatim>\<open>svc::MapProcessMemory\<close> makes the pages at the
  destination the same memory as the pages at the source, so the contents of memory are kept by
  the address of the original, and \<open>canon\<close> finds it.
\<close>

section \<open>The kernel and the memory\<close>

record MemoryInfo =
  mi_base :: u64
  mi_size :: u64
  mi_state :: u32
  mi_perm :: u32

definition MemoryState_Free :: u32 where "MemoryState_Free = 0"
definition MemoryPermission_ReadWrite :: u32 where "MemoryPermission_ReadWrite = 3"
definition MemoryPermission_ReadExecute :: u32 where "MemoryPermission_ReadExecute = 5"

datatype InfoType = AliasRegionAddress | AliasRegionSize | HeapRegionAddress | HeapRegionSize
  | AslrRegionAddress | AslrRegionSize | StackRegionAddress | StackRegionSize

type_synonym mappings = "(u64 \<times> u64 \<times> u64) list"  \<comment> \<open>destination, source, size\<close>

record kernel =
  k_GetInfo :: "InfoType \<Rightarrow> u64 res"
  k_QueryMemory :: "mappings \<Rightarrow> u64 \<Rightarrow> MemoryInfo res"
  k_getProcessHandle :: "u32 res"
  k_MapProcessMemory :: "mappings \<Rightarrow> u64 \<Rightarrow> u32 \<Rightarrow> u64 \<Rightarrow> u64 \<Rightarrow> unit res"
  k_random :: "nat \<Rightarrow> u64"

record world =
  w_mem :: "u64 \<Rightarrow> u8"
  w_maps :: mappings
  w_rand :: nat
  w_cleared :: "(u64 \<times> u64) list"

fun canon :: "mappings \<Rightarrow> u64 \<Rightarrow> u64" where
  "canon [] a = a"
| "canon ((d, s, n) # ms) a = (if a - d < n then s + (a - d) else canon ms a)"

definition load_byte :: "world \<Rightarrow> u64 \<Rightarrow> u8" where
  "load_byte w a = w_mem w (canon (w_maps w) a)"

definition store_bytes :: "u64 \<Rightarrow> u8 list \<Rightarrow> world \<Rightarrow> world" where
  "store_bytes a bs w =
     w\<lparr>w_mem := fold (\<lambda>i m. m(canon (w_maps w) (a + of_nat i) := bs ! i)) [0..<length bs] (w_mem w)\<rparr>"

section \<open>Finding room for a mapping (MapUtil.cpp)\<close>

definition regionsOverlap :: "u64 \<Rightarrow> u64 \<Rightarrow> u64 \<Rightarrow> u64 \<Rightarrow> bool" where
  "regionsOverlap a aSize b bSize \<longleftrightarrow> a < b + bSize \<and> b < a + aSize"

definition unwrap :: "'a res \<Rightarrow> 'a run" where
  "unwrap r = (case r of Inl e \<Rightarrow> Inl (Abort ''result unwrapped'') | Inr x \<Rightarrow> Inr x)"

text \<open>The \<open>n\<close>-th random number is drawn in each round.\<close>

partial_function (option) findMap_loop ::
  "kernel \<Rightarrow> mappings \<Rightarrow> u64 \<Rightarrow> u64 \<Rightarrow> u64 \<Rightarrow> u64 \<times> u64 \<Rightarrow> u64 \<times> u64 \<Rightarrow> nat \<Rightarrow> (u64 \<times> nat) run option" where
  "findMap_loop k maps searchSize regionStart maxPage alias heap n =
     (let randomPage = k_random k n mod maxPage;
          attempt = regionStart + randomPage * cPageSize
      in case k_QueryMemory k maps attempt of
           Inl e \<Rightarrow> Some (Inl (Abort ''QueryMemory failed''))
         | Inr memInfo \<Rightarrow>
             if mi_state memInfo = MemoryState_Free \<and> attempt + searchSize \<le> mi_base memInfo + mi_size memInfo \<and>
               \<not> regionsOverlap attempt searchSize (fst alias) (snd alias) \<and>
               \<not> regionsOverlap attempt searchSize (fst heap) (snd heap)
             then Some (Inr (attempt, Suc n))
             else findMap_loop k maps searchSize regionStart maxPage alias heap (Suc n))"

definition findMap :: "kernel \<Rightarrow> mappings \<Rightarrow> u64 \<Rightarrow> InfoType \<Rightarrow> InfoType \<Rightarrow> nat \<Rightarrow> (u64 \<times> nat) run option" where
  "findMap k maps searchSize0 searchRegionAddr searchRegionSize n =
     (let searchSize = alignUpPage searchSize0 in
      case bindR (unwrap (k_GetInfo k searchRegionAddr)) (\<lambda>regionStart.
           bindR (unwrap (k_GetInfo k searchRegionSize)) (\<lambda>regionSize.
           bindR (unwrap (k_GetInfo k AliasRegionAddress)) (\<lambda>aliasStart.
           bindR (unwrap (k_GetInfo k AliasRegionSize)) (\<lambda>aliasSize.
           bindR (unwrap (k_GetInfo k HeapRegionAddress)) (\<lambda>heapStart.
           bindR (unwrap (k_GetInfo k HeapRegionSize)) (\<lambda>heapSize.
             Inr (regionStart, (regionSize - searchSize) div cPageSize,
               (aliasStart, aliasSize), (heapStart, heapSize)))))))) of
        Inl e \<Rightarrow> Some (Inl e)
      | Inr (regionStart, maxPage, alias, heap) \<Rightarrow>
          if maxPage = 0 then Some (Inl (Abort ''modulo zero''))
          else findMap_loop k maps searchSize regionStart maxPage alias heap n)"

definition findAslr :: "kernel \<Rightarrow> mappings \<Rightarrow> u64 \<Rightarrow> nat \<Rightarrow> (u64 \<times> nat) run option" where
  "findAslr k maps searchSize n = findMap k maps searchSize AslrRegionAddress AslrRegionSize n"

definition findStack :: "kernel \<Rightarrow> mappings \<Rightarrow> u64 \<Rightarrow> nat \<Rightarrow> (u64 \<times> nat) run option" where
  "findStack k maps searchSize n = findMap k maps searchSize StackRegionAddress StackRegionSize n"

definition mapRoToRw :: "kernel \<Rightarrow> u64 \<Rightarrow> u64 \<Rightarrow> world \<Rightarrow> (u64 res \<times> world) run option" where
  "mapRoToRw k addr mapSize w =
     (let srcAligned = alignDownPage addr;
          ptrToAlignedDiff = addr - srcAligned;
          uppedSize = alignUpPage (mapSize + ptrToAlignedDiff)
      in case findAslr k (w_maps w) uppedSize (w_rand w) of
           None \<Rightarrow> None
         | Some (Inl e) \<Rightarrow> Some (Inl e)
         | Some (Inr (dest, n)) \<Rightarrow>
             let w = w\<lparr>w_rand := n\<rparr> in
             Some (Inr (case k_getProcessHandle k of
               Inl r \<Rightarrow> (Inl r, w)
             | Inr curProcess \<Rightarrow>
                 (case k_MapProcessMemory k (w_maps w) dest curProcess srcAligned uppedSize of
                    Inl r \<Rightarrow> (Inl r, w)
                  | Inr _ \<Rightarrow> (Inr (dest + ptrToAlignedDiff),
                      w\<lparr>w_maps := (dest, srcAligned, uppedSize) # w_maps w\<rparr>)))))"

section \<open>Modules (RoModule.h, RoModule.cpp)\<close>

record Range =
  mStart :: u64
  mSize :: u64

definition range_end :: "Range \<Rightarrow> u64" where
  "range_end r = mStart r + mSize r"

record RoModule =
  m_Base :: u64
  mTextRange :: Range
  mRodataRange :: Range
  mDataRange :: Range
  mTextRwMapping :: Range
  mRodataRwMapping :: Range
  mBuildId :: u64

definition mod_range :: "RoModule \<Rightarrow> Range" where
  "mod_range m = \<lparr>mStart = mStart (mTextRange m),
     mSize = mSize (mTextRange m) + mSize (mRodataRange m) + mSize (mDataRange m)\<rparr>"

text \<open>The loop that skips further read-only regions; the kernel decides when it ends.\<close>

partial_function (option) skip_readonly :: "(u64 \<Rightarrow> MemoryInfo res) \<Rightarrow> MemoryInfo \<Rightarrow> MemoryInfo res option" where
  "skip_readonly query cur =
     (if mi_perm cur = MemoryPermission_Read
      then (case query (mi_base cur + mi_size cur) of
          Inl r \<Rightarrow> Some (Inl r)
        | Inr nxt \<Rightarrow> skip_readonly query nxt)
      else Some (Inr cur))"

definition range_of_info :: "MemoryInfo \<Rightarrow> Range" where
  "range_of_info i = \<lparr>mStart = mi_base i, mSize = mi_size i\<rparr>"

definition findRanges_data :: "(u64 \<Rightarrow> MemoryInfo res) \<Rightarrow> MemoryInfo \<Rightarrow> RoModule \<Rightarrow> (unit res \<times> RoModule) run option" where
  "findRanges_data query ro m =
     (let m = m\<lparr>mRodataRange := range_of_info ro\<rparr> in
      case skip_readonly query ro of
        None \<Rightarrow> None
      | Some (Inl r) \<Rightarrow> Some (Inr (Inl r, m))
      | Some (Inr d) \<Rightarrow>
          if mi_perm d = MemoryPermission_ReadWrite
          then Some (Inr (Inr (), m\<lparr>mDataRange := range_of_info d\<rparr>))
          else Some (Inr (Inl ResultUnusualSectionLayout, m)))"

definition findRanges :: "(u64 \<Rightarrow> MemoryInfo res) \<Rightarrow> RoModule \<Rightarrow> (unit res \<times> RoModule) run option" where
  "findRanges query m =
     (case query (m_Base m) of
        Inl r \<Rightarrow> Some (Inr (Inl r, m))
      | Inr cur \<Rightarrow>
          if mi_base cur \<noteq> m_Base m then Some (Inl (Abort ''AssertionFailed''))
          else if mi_perm cur \<noteq> MemoryPermission_ReadExecute
          then Some (Inr (Inl ResultUnusualSectionLayout, m))
          else (let m = m\<lparr>mTextRange := range_of_info cur\<rparr> in
            case query (mi_base cur + mi_size cur) of
              Inl r \<Rightarrow> Some (Inr (Inl r, m))
            | Inr ro \<Rightarrow>
                if mi_perm ro \<noteq> MemoryPermission_Read
                then Some (Inr (Inl ResultUnusualSectionLayout, m))
                else findRanges_data query ro m))"

definition mapRw :: "kernel \<Rightarrow> RoModule \<Rightarrow> world \<Rightarrow> (unit res \<times> RoModule \<times> world) run option" where
  "mapRw k m w =
     (if mStart (mTextRwMapping m) \<noteq> 0 \<or> mStart (mRodataRwMapping m) \<noteq> 0
      then Some (Inr (Inl ResultAlreadyMapped, m, w))
      else case mapRoToRw k (mStart (mTextRange m)) (mSize (mTextRange m)) w of
        None \<Rightarrow> None
      | Some (Inl e) \<Rightarrow> Some (Inl e)
      | Some (Inr (Inl r, w)) \<Rightarrow> Some (Inr (Inl r, m, w))
      | Some (Inr (Inr rw, w)) \<Rightarrow>
          (let m = m\<lparr>mTextRwMapping := \<lparr>mStart = rw, mSize = mSize (mTextRange m)\<rparr>\<rparr> in
           case mapRoToRw k (mStart (mRodataRange m)) (mSize (mRodataRange m)) w of
             None \<Rightarrow> None
           | Some (Inl e) \<Rightarrow> Some (Inl e)
           | Some (Inr (Inl r, w)) \<Rightarrow> Some (Inr (Inl r, m, w))
           | Some (Inr (Inr rw, w)) \<Rightarrow> Some (Inr (Inr (),
               m\<lparr>mRodataRwMapping := \<lparr>mStart = rw, mSize = mSize (mRodataRange m)\<rparr>\<rparr>, w))))"

text \<open>The search for the build id goes down from the end of the read-only data, two pages far.\<close>

partial_function (option) findBuildId_loop :: "world \<Rightarrow> u64 \<Rightarrow> u64 \<Rightarrow> u64 option option" where
  "findBuildId_loop w low search =
     (if low \<le> search then
        (if load_byte w search = 0x47 \<and> load_byte w (search + 1) = 0x4E \<and>
            load_byte w (search + 2) = 0x55 \<and> load_byte w (search + 3) = 0
         then Some (Some (search + 4))
         else findBuildId_loop w low (search - 1))
      else Some None)"

definition findBuildId :: "world \<Rightarrow> RoModule \<Rightarrow> (unit res \<times> RoModule) option" where
  "findBuildId w m =
     (let rodataEnd = range_end (mRodataRange m) in
      case findBuildId_loop w (rodataEnd - cPageSize * 2) rodataEnd of
        None \<Rightarrow> None
      | Some (Some buildId) \<Rightarrow> Some (Inr (), m\<lparr>mBuildId := buildId\<rparr>)
      | Some None \<Rightarrow> Some (Inl ResultGnuHashMissing, m))"

text \<open>The callback that a client may set sees every write, and is an argument here.\<close>

type_synonym RoWriteCallback = "RoModule \<Rightarrow> u64 \<Rightarrow> u8 list \<Rightarrow> world \<Rightarrow> world"

definition writeRo :: "RoWriteCallback option \<Rightarrow> RoModule \<Rightarrow> u64 \<Rightarrow> u8 list \<Rightarrow> world \<Rightarrow> unit res \<times> world" where
  "writeRo cb m offset source w =
     (if mStart (mTextRwMapping m) = 0 then (Inl ResultNotMapped, w)
      else if mStart (mRodataRwMapping m) = 0 then (Inl ResultNotMapped, w)
      else let roPtr = mStart (mTextRange m) + offset in
        if \<not> mStart (mTextRange m) \<le> roPtr then (Inl ResultOutOfRange, w)
        else if \<not> roPtr + of_nat (length source) \<le> range_end (mRodataRange m) then (Inl ResultOutOfRange, w)
        else let isText = (\<not> mStart (mRodataRange m) \<le> roPtr);
                 rwPtr = (if isText then mStart (mTextRwMapping m) + offset
                   else mStart (mRodataRwMapping m) + offset - mSize (mTextRange m));
                 w = (case cb of None \<Rightarrow> w | Some f \<Rightarrow> f m offset source w);
                 w = store_bytes rwPtr source w
             in (Inr (), if isText then w\<lparr>w_cleared := (roPtr, of_nat (length source)) # w_cleared w\<rparr> else w))"

text \<open>
  The attributes at the start of the read-only data: an array of tags, each followed by its
  value, that ends with the module's name.
\<close>

definition load_u32 :: "world \<Rightarrow> u64 \<Rightarrow> u32" where
  "load_u32 w a = ucast (load_byte w a) OR push_bit 8 (ucast (load_byte w (a + 1))) OR
     push_bit 16 (ucast (load_byte w (a + 2))) OR push_bit 24 (ucast (load_byte w (a + 3)))"

definition RodataAttribute_ModuleName :: u32 where "RodataAttribute_ModuleName = 0"
definition RodataAttribute_Unknown :: u32 where "RodataAttribute_Unknown = 1"
definition RodataAttribute_Max :: u32 where "RodataAttribute_Max = 2"

partial_function (option) findRodataAttribute_loop :: "world \<Rightarrow> u32 \<Rightarrow> u32 \<Rightarrow> u64 \<Rightarrow> u64 run option" where
  "findRodataAttribute_loop w type current iter =
     (let iter = iter + 4 in
      if current = type then Some (Inr iter)
      else if current = RodataAttribute_ModuleName then Some (Inr 0)
      else if current = RodataAttribute_Unknown
      then findRodataAttribute_loop w type (load_u32 w (iter + 8)) (iter + 8)
      else Some (Inl (Abort ''Unknown RodataAttribute'')))"

definition findRodataAttribute :: "world \<Rightarrow> RoModule \<Rightarrow> u32 \<Rightarrow> u64 run option" where
  "findRodataAttribute w m type =
     (let iter = mStart (mRodataRange m); current = load_u32 w iter in
      if RodataAttribute_Max \<le> load_u32 w iter then Some (Inr 0)
      else findRodataAttribute_loop w type current iter)"

definition getModuleName :: "world \<Rightarrow> RoModule \<Rightarrow> u64 run option" where
  "getModuleName w m =
     (case findRodataAttribute w m RodataAttribute_ModuleName of
        Some (Inr name) \<Rightarrow> Some (Inr (if name \<noteq> 0 then name + 4 else 0))
      | r \<Rightarrow> r)"

section \<open>The list of modules (RoUtil.cpp)\<close>

definition getModuleByIndex :: "RoModule list \<Rightarrow> int \<Rightarrow> RoModule option" where
  "getModuleByIndex modules idx =
     (if of_nat (length modules) \<le> (word_of_int idx :: u64) then None else Some (modules ! nat idx))"

text \<open>Under the homebrew loader there is no module of the runtime linker in front of the program.\<close>

definition getMainModule :: "bool \<Rightarrow> RoModule list \<Rightarrow> RoModule option" where
  "getMainModule hbloader modules = getModuleByIndex modules (if hbloader then 0 else 1)"

definition getRtldModule :: "RoModule list \<Rightarrow> RoModule option" where
  "getRtldModule modules = getModuleByIndex modules 0"

definition getSdkModule :: "RoModule list \<Rightarrow> RoModule option" where
  "getSdkModule modules = getModuleByIndex modules (int (length modules) - 1)"

fun getModuleContaining :: "RoModule list \<Rightarrow> u64 \<Rightarrow> RoModule option" where
  "getModuleContaining [] addr = None"
| "getModuleContaining (m # modules) addr =
     (if mStart (mod_range m) \<le> addr \<and> addr \<le> range_end (mod_range m) then Some m
      else getModuleContaining modules addr)"

definition getModuleBuildIdByIndex :: "world \<Rightarrow> RoModule list \<Rightarrow> int \<Rightarrow> u8 list res run" where
  "getModuleBuildIdByIndex w modules idx =
     (case getModuleByIndex modules idx of
        None \<Rightarrow> Inl (Abort ''null module'')
      | Some m \<Rightarrow> Inr (if mBuildId m \<noteq> 0
          then Inr (List.map (\<lambda>i. load_byte w (mBuildId m + of_nat i)) [0..<16])
          else Inl ResultGnuHashMissing))"

text \<open>
  Symbols are searched in every module in turn; \<open>getSym\<close> is the runtime linker's lookup in one
  module, the offset of the symbol if it has it.
\<close>

fun lookupSymbol :: "(RoModule \<Rightarrow> u64 option) \<Rightarrow> RoModule list \<Rightarrow> u64" where
  "lookupSymbol getSym [] = 0"
| "lookupSymbol getSym (m # modules) =
     (case getSym m of Some val \<Rightarrow> m_Base m + val | None \<Rightarrow> lookupSymbol getSym modules)"

text \<open>The loops evaluate by their equations.\<close>

declare findMap_loop.simps [code]
declare skip_readonly.simps [code]
declare findBuildId_loop.simps [code]
declare findRodataAttribute_loop.simps [code]

section \<open>Regions that lie one behind the other\<close>

text \<open>
  What \<^verbatim>\<open>svc::QueryMemory\<close> documents: it answers with the whole region that begins at the address,
  for regions that lie one behind the other.
\<close>

fun layout_at :: "(u64 \<Rightarrow> MemoryInfo res) \<Rightarrow> u64 \<Rightarrow> (u64 \<times> u32) list \<Rightarrow> bool" where
  "layout_at query a [] = True"
| "layout_at query a ((n, perm) # regions) \<longleftrightarrow>
     (\<exists>state. query a = Inr \<lparr>mi_base = a, mi_size = n, mi_state = state, mi_perm = perm\<rparr>) \<and>
     layout_at query (a + n) regions"

lemma skip_readonly_layout:
  assumes "mi_perm cur = MemoryPermission_Read"
    "layout_at query (mi_base cur + mi_size cur) (List.map (\<lambda>n. (n, MemoryPermission_Read)) gaps @ [(dn, perm)])"
    "perm \<noteq> MemoryPermission_Read"
  shows "\<exists>state. skip_readonly query cur = Some (Inr \<lparr>mi_base = mi_base cur + mi_size cur + sum_list gaps,
    mi_size = dn, mi_state = state, mi_perm = perm\<rparr>)"
  using assms
proof (induction gaps arbitrary: cur)
  case Nil
  then show ?case
    by (auto simp: skip_readonly.simps [of _ cur]) (simp add: skip_readonly.simps)
next
  case (Cons g gaps)
  then obtain state where q: "query (mi_base cur + mi_size cur) =
      Inr \<lparr>mi_base = mi_base cur + mi_size cur, mi_size = g, mi_state = state, mi_perm = MemoryPermission_Read\<rparr>"
    by auto
  define cur' where "cur' = \<lparr>mi_base = mi_base cur + mi_size cur, mi_size = g, mi_state = state, mi_perm = MemoryPermission_Read\<rparr>"
  have "skip_readonly query cur = skip_readonly query cur'"
    using Cons.prems(1) q by (subst skip_readonly.simps) (simp add: cur'_def)
  then show ?case
    using Cons.IH [of cur'] Cons.prems(2,3) by (simp add: cur'_def add.assoc)
qed

end
