(* ===== verification/RtldStart.thy ===== *)
theory RtldStart
  imports Rtld RtldList RoMem
begin

text \<open>
  The start of the standalone linker (\<^verbatim>\<open>rtld/standalone/main.cpp\<close>, \<^verbatim>\<open>hk/init/module.h\<close>,
  \<^verbatim>\<open>hk/ro/RoUtil.h\<close>): every module of the process is found in the memory map, initialized, relocated
  and put into the list; then the modules' references to the linker's own lists are set, their symbols
  are bound, and their initializers are called. The objects of class \<^verbatim>\<open>RoModule\<close>, which lie in the
  modules' bss, are kept by their addresses beside the memory, and so are the links of the list.
\<close>

section \<open>State\<close>

record rtld_state =
  rs_mem :: memory
  rs_mods :: "u64 \<Rightarrow> rtld_module"
  rs_links :: links

record ModuleHeader =
  h_magic :: u32
  h_dynamicOffset :: u32
  h_bssOffset :: u32
  h_bssEndOffset :: u32
  h_unwindStartOffset :: u32
  h_unwindEndOffset :: u32
  h_moduleOffset :: u32

definition read_ModuleHeader :: "memory \<Rightarrow> u64 \<Rightarrow> ModuleHeader" where
  "read_ModuleHeader m a = \<lparr>h_magic = ld32 m a, h_dynamicOffset = ld32 m (a + 4),
     h_bssOffset = ld32 m (a + 8), h_bssEndOffset = ld32 m (a + 12), h_unwindStartOffset = ld32 m (a + 16),
     h_unwindEndOffset = ld32 m (a + 20), h_moduleOffset = ld32 m (a + 24)\<rparr>"

definition isValidMagic :: "ModuleHeader \<Rightarrow> bool" where
  "isValidMagic h \<longleftrightarrow> h_magic h = 0x30444F4D"

definition memset_zero :: "u64 \<Rightarrow> u64 \<Rightarrow> memory \<Rightarrow> memory" where
  "memset_zero start len m = (\<lambda>a. if a - start < len then 0 else m a)"

definition zero_module :: rtld_module where
  "zero_module = \<lparr>r_Base = 0, r_DynamicSection = 0, r_PltRelSz = 0, r_Got = 0, r_IsGnuHash = False,
     r_GnuBloomFilter = 0, r_GnuHashMaskwords = 0, r_GnuHashShift2 = 0, r_GnuHash = 0, r_HashSize = 0,
     r_Symbols = 0, r_Buckets = 0, r_Chains = 0, r_StrTab = 0, r_DynSym = 0, r_StrSz = 0, r_Dyn = 0,
     r_DynRelSz = 0, r_DynRelaSz = 0, r_Init = 0, r_Fini = 0, r_IsPltRela = False, r_Plt = 0,
     r_RelCount = 0, r_RelaCount = 0, r_BindNow = False\<rparr>"

text \<open>\<open>self\<close> is the address of the linker's own module object. The result is the module's address.\<close>

definition module_address :: "memory \<Rightarrow> u64 \<Rightarrow> u64" where
  "module_address m moduleBase =
     (let header = moduleBase + ucast (ld32 m (moduleBase + 4))
      in header + ucast (h_moduleOffset (read_ModuleHeader m header)))"

text \<open>\<^verbatim>\<open>Initialize\<close> also links the module to itself.\<close>

definition self_link :: "u64 \<Rightarrow> links \<Rightarrow> links" where
  "self_link n h = set_prev n n (set_next n n h)"

definition initializeRtldModule ::
  "u64 \<Rightarrow> u64 \<Rightarrow> bool \<Rightarrow> rtld_state \<Rightarrow> (u64 \<times> rtld_state) run option" where
  "initializeRtldModule self moduleBase ignoreSelf st =
     (let m = rs_mem st;
          header = moduleBase + ucast (ld32 m (moduleBase + 4));
          h = read_ModuleHeader m header;
          dyn = header + ucast (h_dynamicOffset h);
          module = module_address m moduleBase;
          bssStart = header + ucast (h_bssOffset h);
          bssSize = ucast (h_bssEndOffset h - h_bssOffset h)
      in if ignoreSelf \<and> module = self then Some (Inr (module, st))
         else let m = memset_zero bssStart bssSize m in
           case Initialize m moduleBase dyn zero_module of
             None \<Rightarrow> None
           | Some (Inl e) \<Rightarrow> Some (Inl e)
           | Some (Inr md) \<Rightarrow> Option.bind (Relocate md m) (\<lambda>m.
               Some (Inr (module, st\<lparr>rs_mem := m, rs_mods := (rs_mods st)(module := md),
                 rs_links := self_link module (rs_links st)\<rparr>))))"

section \<open>Finding the modules\<close>

text \<open>
  The loop over the memory map, with the query and the function called for each module as arguments.
  The function gets the start of the module's text.
\<close>

partial_function (option) forEachAutoLoadModule ::
  "(u64 \<Rightarrow> MemoryInfo res) \<Rightarrow> (u64 \<Rightarrow> 's \<Rightarrow> 's run option) \<Rightarrow> u64 \<Rightarrow> 's \<Rightarrow> (unit res \<times> 's) run option" where
  "forEachAutoLoadModule query func a st =
     (case query a of
        Inl r \<Rightarrow> Some (Inr (Inl r, st))
      | Inr text \<Rightarrow>
          if mi_state text = MemoryState_Free then Some (Inr (Inr (), st))
          else if mi_perm text \<noteq> MemoryPermission_ReadExecute then Some (Inr (Inl ResultUnusualSectionLayout, st))
          else case query (mi_base text + mi_size text) of
            Inl r \<Rightarrow> Some (Inr (Inl r, st))
          | Inr ro \<Rightarrow>
              if mi_perm ro \<noteq> MemoryPermission_Read then Some (Inr (Inl ResultUnusualSectionLayout, st))
              else case skip_readonly query ro of
                None \<Rightarrow> None
              | Some r \<Rightarrow> (case r of
                  Inl r \<Rightarrow> Some (Inr (Inl r, st))
                | Inr bss \<Rightarrow>
                    if mi_perm bss \<noteq> MemoryPermission_ReadWrite
                    then Some (Inr (Inl ResultUnusualSectionLayout, st))
                    else (case func (mi_base text) st of
                        None \<Rightarrow> None
                      | Some r \<Rightarrow> (case r of
                          Inl e \<Rightarrow> Some (Inl e)
                        | Inr st \<Rightarrow> forEachAutoLoadModule query func (mi_base bss + mi_size bss) st))))"

declare forEachAutoLoadModule.simps [code]

section \<open>The start\<close>

text \<open>The addresses of the linker's own objects.\<close>

record rtld_globals =
  g_self :: u64
  g_AutoLoad :: u64
  g_ManualLoad :: u64
  g_manualPtr :: u64

definition load_module :: "rtld_globals \<Rightarrow> u64 \<Rightarrow> rtld_state \<Rightarrow> rtld_state run option" where
  "load_module g textBase st =
     (case initializeRtldModule (g_self g) textBase True st of
        None \<Rightarrow> None
      | Some (Inl e) \<Rightarrow> Some (Inl e)
      | Some (Inr (module, st)) \<Rightarrow>
          Some (Inr (st\<lparr>rs_links := pushFront (g_AutoLoad g) module (rs_links st)\<rparr>)))"

definition bytes_of :: "string \<Rightarrow> u8 list" where
  "bytes_of s = map of_char s"

definition applyByReference :: "rtld_module \<Rightarrow> string \<Rightarrow> u64 \<Rightarrow> memory \<Rightarrow> memory option" where
  "applyByReference md name v m =
     Option.bind (GetSymbolByName m md (bytes_of name)) (\<lambda>found. Some
       (case found of
          Some s \<Rightarrow> if ELF_ST_BIND (st_info (read_Sym m s)) \<noteq> STB_LOCAL
                    then st64 (r_Base md + st_value (read_Sym m s)) v m else m
        | None \<Rightarrow> m))"

definition apply_references :: "rtld_globals \<Rightarrow> rtld_module \<Rightarrow> memory \<Rightarrow> memory option" where
  "apply_references g md m =
     Option.bind (applyByReference md ''_ZN2nn2ro6detail15g_pAutoLoadListE'' (g_AutoLoad g) m) (\<lambda>m.
     Option.bind (applyByReference md ''_ZN2nn2ro6detail17g_pManualLoadListE'' (g_ManualLoad g) m)
       (applyByReference md ''_ZN2nn2ro6detail36g_pLookupGlobalManualFunctionPointerE'' (g_manualPtr g)))"

text \<open>The body of a loop over the list is run for the modules visited, in order.\<close>

fun for_modules :: "('a \<Rightarrow> memory \<Rightarrow> memory option) \<Rightarrow> 'a list \<Rightarrow> memory \<Rightarrow> memory option" where
  "for_modules f [] m = Some m"
| "for_modules f (x # xs) m = Option.bind (f x m) (for_modules f xs)"

definition visited :: "rtld_globals \<Rightarrow> rtld_state \<Rightarrow> rtld_module list option" where
  "visited g st = map_option (map (rs_mods st)) (iterate (g_AutoLoad g) (rs_links st))"

definition bind_modules :: "rtld_globals \<Rightarrow> manual_lookup \<Rightarrow> rtld_state \<Rightarrow> rtld_state option" where
  "bind_modules g manual st =
     Option.bind (visited g st) (\<lambda>mods.
     Option.bind (for_modules (apply_references g) mods (rs_mem st)) (\<lambda>m.
     Option.bind (for_modules (ResolveSymbols mods manual) mods m) (\<lambda>m. Some (st\<lparr>rs_mem := m\<rparr>))))"

definition rtld_initialize ::
  "(u64 \<Rightarrow> MemoryInfo res) \<Rightarrow> rtld_globals \<Rightarrow> manual_lookup \<Rightarrow> u64 \<Rightarrow> rtld_state \<Rightarrow> rtld_state run option" where
  "rtld_initialize query g manual selfModuleBase st =
     (case forEachAutoLoadModule query (load_module g) selfModuleBase st of
        None \<Rightarrow> None
      | Some (Inl e) \<Rightarrow> Some (Inl e)
      | Some (Inr (Inl r, st)) \<Rightarrow> Some (Inl (Abort ''forEachAutoLoadModule''))
      | Some (Inr (Inr _, st)) \<Rightarrow> map_option Inr (bind_modules g manual st))"

text \<open>The addresses of the initializers, in the order in which they are called.\<close>

definition initModules :: "rtld_globals \<Rightarrow> rtld_state \<Rightarrow> u64 list option" where
  "initModules g st = map_option (\<lambda>ms. filter (\<lambda>p. p \<noteq> 0) (map (\<lambda>a. r_Init (rs_mods st a)) ms))
     (iterate_reverted (g_AutoLoad g) (rs_links st))"

section \<open>Orders\<close>

text \<open>The list after the modules \<open>ms\<close> have been added in turn, newly initialized ones or not.\<close>

fun enlisted :: "u64 \<Rightarrow> u64 list \<Rightarrow> links \<Rightarrow> links \<Rightarrow> bool" where
  "enlisted s [] h h' \<longleftrightarrow> h' = h"
| "enlisted s (n # ms) h h' \<longleftrightarrow>
     enlisted s ms (pushFront s n h) h' \<or> enlisted s ms (pushFront s n (self_link n h)) h'"

lemma pushFront_self_link: "n \<noteq> s \<Longrightarrow> n \<noteq> 0 \<Longrightarrow> pushFront s n (self_link n h) = pushFront s n h"
  by (auto simp: pushFront_def self_link_def Let_def intro!: links_eqI)

lemma enlisted_fold:
  "enlisted s ms h h' \<Longrightarrow> s \<notin> set ms \<Longrightarrow> 0 \<notin> set ms \<Longrightarrow> h' = fold (pushFront s) ms h"
  by (induction ms arbitrary: h) (auto simp: pushFront_self_link)

lemma map_sum_eq_Inr: "map_sum f g x = Inr y \<longleftrightarrow> (\<exists>z. x = Inr z \<and> y = g z)"
  by (cases x) auto

lemma Initialize_base: "Initialize m b dyn md = Some (Inr md') \<Longrightarrow> r_Base md' = b"
  by (auto simp: Initialize_def Initialize_tables_def Initialize_hash_def Let_def map_sum_eq_Inr split: if_splits)

lemma load_module_spec:
  assumes "load_module g b st = Some (Inr st')"
  defines "n \<equiv> module_address (rs_mem st) b"
  shows "rs_links st' = pushFront (g_AutoLoad g) n (rs_links st) \<or>
      rs_links st' = pushFront (g_AutoLoad g) n (self_link n (rs_links st))"
    and "n \<noteq> g_self g \<Longrightarrow> r_Base (rs_mods st' n) = b"
    and "k \<noteq> n \<Longrightarrow> rs_mods st' k = rs_mods st k"
  using assms(1) unfolding n_def
  by (auto simp: load_module_def initializeRtldModule_def Let_def bind_eq_Some_conv Initialize_base
      split: option.splits sum.splits if_splits)

text \<open>
  A memory map that holds modules one behind the other and then free memory.  Each module is its code,
  read-only data, perhaps more read-only regions, and its data.
\<close>

fun modules_at :: "(u64 \<Rightarrow> MemoryInfo res) \<Rightarrow> u64 \<Rightarrow> (u64 \<times> u64 \<times> u64 list \<times> u64) list \<Rightarrow> bool" where
  "modules_at query a [] \<longleftrightarrow> (case query a of Inr info \<Rightarrow> mi_state info = MemoryState_Free | Inl _ \<Rightarrow> False)"
| "modules_at query a ((tn, rn, gaps, dn) # mods) \<longleftrightarrow>
     (case query a of Inr info \<Rightarrow> mi_state info \<noteq> MemoryState_Free | Inl _ \<Rightarrow> False) \<and>
     layout_at query a ([(tn, MemoryPermission_ReadExecute), (rn, MemoryPermission_Read)] @
       map (\<lambda>n. (n, MemoryPermission_Read)) gaps @ [(dn, MemoryPermission_ReadWrite)]) \<and>
     modules_at query (a + tn + rn + sum_list gaps + dn) mods"

text \<open>The addresses at which the modules start.\<close>

fun text_bases :: "u64 \<Rightarrow> (u64 \<times> u64 \<times> u64 list \<times> u64) list \<Rightarrow> u64 list" where
  "text_bases a [] = []"
| "text_bases a ((tn, rn, gaps, dn) # mods) = a # text_bases (a + tn + rn + sum_list gaps + dn) mods"

text \<open>A function called for each address in turn, until one call fails.\<close>

fun for_bases :: "(u64 \<Rightarrow> 's \<Rightarrow> 's run option) \<Rightarrow> u64 list \<Rightarrow> 's \<Rightarrow> 's run option" where
  "for_bases func [] st = Some (Inr st)"
| "for_bases func (b # bs) st =
     (case func b st of
        None \<Rightarrow> None
      | Some r \<Rightarrow> (case r of Inl e \<Rightarrow> Some (Inl e) | Inr st \<Rightarrow> for_bases func bs st))"

lemma walk_in_order:
  "modules_at query a mods \<Longrightarrow>
     forEachAutoLoadModule query func a st = map_option (map_sum id (Pair (Inr ()))) (for_bases func (text_bases a mods) st)"
proof (induction mods arbitrary: a st)
  case Nil
  then show ?case by (auto simp: forEachAutoLoadModule.simps split: sum.splits)
next
  case (Cons x mods)
  obtain tn rn gaps dn where x: "x = (tn, rn, gaps, dn)" by (cases x)
  let ?behind = "a + tn + rn + sum_list gaps + dn"
  obtain s1 s2 where q: "query a = Inr \<lparr>mi_base = a, mi_size = tn, mi_state = s1, mi_perm = MemoryPermission_ReadExecute\<rparr>"
    "s1 \<noteq> MemoryState_Free"
    "query (a + tn) = Inr \<lparr>mi_base = a + tn, mi_size = rn, mi_state = s2, mi_perm = MemoryPermission_Read\<rparr>"
    and l: "layout_at query (a + tn + rn) (map (\<lambda>n. (n, MemoryPermission_Read)) gaps @ [(dn, MemoryPermission_ReadWrite)])"
    and rest: "modules_at query ?behind mods"
    using Cons.prems by (auto simp: x)
  have p: "MemoryPermission_ReadWrite \<noteq> MemoryPermission_Read" by (simp add: MemoryPermission_ReadWrite_def MemoryPermission_Read_def)
  define ro where "ro = \<lparr>mi_base = a + tn, mi_size = rn, mi_state = s2, mi_perm = MemoryPermission_Read\<rparr>"
  obtain s3 where "skip_readonly query ro = Some (Inr \<lparr>mi_base = a + tn + rn + sum_list gaps, mi_size = dn,
      mi_state = s3, mi_perm = MemoryPermission_ReadWrite\<rparr>)"
    using skip_readonly_layout [of ro query gaps dn MemoryPermission_ReadWrite] l p by (auto simp: ro_def)
  then have "forEachAutoLoadModule query func a st = (case func a st of None \<Rightarrow> None
      | Some r \<Rightarrow> (case r of Inl e \<Rightarrow> Some (Inl e) | Inr st \<Rightarrow> forEachAutoLoadModule query func ?behind st))"
    using q by (subst forEachAutoLoadModule.simps) (simp add: ro_def [symmetric], simp add: ro_def split: option.splits sum.splits)
  then show ?case
    by (auto simp: x Cons.IH [OF rest] split: option.splits sum.splits)
qed

text \<open>The addresses of the module objects, each as its header gives it when the module is loaded.\<close>

fun found_modules :: "rtld_globals \<Rightarrow> u64 list \<Rightarrow> rtld_state \<Rightarrow> u64 list" where
  "found_modules g [] st = []"
| "found_modules g (b # bs) st = module_address (rs_mem st) b #
     (case load_module g b st of Some (Inr st) \<Rightarrow> found_modules g bs st | _ \<Rightarrow> [])"

lemma loaded_links:
  "for_bases (load_module g) bs st = Some (Inr st') \<Longrightarrow>
     enlisted (g_AutoLoad g) (found_modules g bs st) (rs_links st) (rs_links st') \<and>
     length (found_modules g bs st) = length bs"
proof (induction bs arbitrary: st)
  case (Cons b bs)
  then obtain st1 where l: "load_module g b st = Some (Inr st1)" and rest: "for_bases (load_module g) bs st1 = Some (Inr st')"
    by (auto split: option.splits sum.splits)
  from Cons.IH [OF rest] load_module_spec(1) [OF l] show ?case by (auto simp: l)
qed simp

lemma loaded_unchanged:
  "for_bases (load_module g) bs st = Some (Inr st') \<Longrightarrow> k \<notin> set (found_modules g bs st) \<Longrightarrow> rs_mods st' k = rs_mods st k"
proof (induction bs arbitrary: st)
  case (Cons b bs)
  then obtain st1 where l: "load_module g b st = Some (Inr st1)" and rest: "for_bases (load_module g) bs st1 = Some (Inr st')"
    by (auto split: option.splits sum.splits)
  then show ?case using Cons.IH [OF rest] load_module_spec(3) [OF l] Cons.prems(2) by simp
qed simp

lemma loaded_bases:
  assumes "for_bases (load_module g) bs st = Some (Inr st')" "distinct (found_modules g bs st)" "i < length bs"
    "found_modules g bs st ! i \<noteq> g_self g"
  shows "r_Base (rs_mods st' (found_modules g bs st ! i)) = bs ! i"
  using assms
proof (induction bs arbitrary: st i)
  case (Cons b bs)
  then obtain st1 where l: "load_module g b st = Some (Inr st1)" and rest: "for_bases (load_module g) bs st1 = Some (Inr st')"
    by (auto split: option.splits sum.splits)
  show ?case
  proof (cases i)
    case 0
    then show ?thesis
      using Cons.prems(2,4) loaded_unchanged [OF rest] load_module_spec(2) [OF l] by (simp add: l)
  next
    case (Suc j)
    then show ?thesis using Cons.IH [OF rest, of j] Cons.prems(2-4) by (simp add: l)
  qed
qed simp

text \<open>
  C19: The linker's start, with an empty list, over a memory map that holds modules one behind the other,
  up to free memory.  If it does not abort, it has loaded every module of the map, in the order of their addresses, and the
  list visits exactly their module objects in that order (each at the address its header gives, and
  with the module's start as its base, but for the linker's own, which it does not initialize again).
  Symbols are looked up in that order, and the initializers are called in the opposite order.  The
  objects of the modules have to be different from one another and from the list's own node and from null.
\<close>

theorem lookup_and_init_order:
  assumes "modules_at query a mods" "holds (rs_links st) (g_AutoLoad g) []"
    and "forEachAutoLoadModule query (load_module g) a st = Some (Inr (r, st'))"
  shows "\<exists>ms. ms = found_modules g (text_bases a mods) st \<and> r = Inr () \<and> length ms = length mods \<and>
    (distinct (g_AutoLoad g # ms) \<and> 0 \<notin> set ms \<longrightarrow>
       visited g st' = Some (map (rs_mods st') ms) \<and>
       (\<forall>i<length mods. ms ! i \<noteq> g_self g \<longrightarrow> r_Base (rs_mods st' (ms ! i)) = text_bases a mods ! i) \<and>
       initModules g st' = Some (filter (\<lambda>p. p \<noteq> 0) (map (\<lambda>n. r_Init (rs_mods st' n)) (rev ms))))"
proof -
  define ms where "ms = found_modules g (text_bases a mods) st"
  have r: "r = Inr ()" and loads: "for_bases (load_module g) (text_bases a mods) st = Some (Inr st')"
    using assms(3) walk_in_order [OF assms(1), of "load_module g" st] by (auto simp: map_sum_eq_Inr)
  have len: "length (text_bases b mods) = length mods" for b
    by (induction b mods rule: text_bases.induct) simp_all
  note links = loaded_links [OF loads, folded ms_def]
  have "iterate (g_AutoLoad g) (rs_links st') = Some ms \<and> iterate_reverted (g_AutoLoad g) (rs_links st') = Some (rev ms)"
    if "distinct (g_AutoLoad g # ms)" "0 \<notin> set ms"
  proof -
    have ok: "\<forall>n\<in>set ms. n \<noteq> g_AutoLoad g \<and> n \<noteq> 0" using that by auto
    have links: "rs_links st' = fold (pushFront (g_AutoLoad g)) ms (rs_links st)"
      using that enlisted_fold links by simp
    with that ok modlist.rep_adds [OF assms(2), of ms] have "holds (rs_links st') (g_AutoLoad g) (rev ms)"
      by simp
    with that ok modlist.visited_in_order [OF assms(2), of ms] show ?thesis
      by (simp add: links holds_iterate)
  qed
  moreover have "r_Base (rs_mods st' (ms ! i)) = text_bases a mods ! i"
    if "distinct ms" "i < length mods" "ms ! i \<noteq> g_self g" for i
    using loaded_bases [OF loads] that by (simp add: ms_def len)
  ultimately show ?thesis
    using r links by (intro exI [of _ ms]) (auto simp: visited_def initModules_def len ms_def)
qed

text \<open>Two modules of three regions each, with one initializer each.\<close>

definition start_memory :: memory where
  "start_memory a = (let off = a AND 0xFFF in
     if a AND 0xFFFFFFFFFFFFF000 = 0x5000 \<or> a AND 0xFFFFFFFFFFFFF000 = 0x6000
     then (if off = 4 then 0x10 else if off = 0x14 then 0x40 else if off = 0x29 then 2
           else if off = 0x50 then 12 else if off = 0x58 then 0x20 else 0)
     else 0)"

definition start_query :: "u64 \<Rightarrow> MemoryInfo res" where
  "start_query a =
     (let region = a AND 0xFFFFFFFFFFFFFC00 in
      Inr (if region = 0x5000 \<or> region = 0x6000
           then \<lparr>mi_base = region, mi_size = 0x400, mi_state = 3, mi_perm = MemoryPermission_ReadExecute\<rparr>
           else if region = 0x5400 \<or> region = 0x6400
           then \<lparr>mi_base = region, mi_size = 0x400, mi_state = 3, mi_perm = MemoryPermission_Read\<rparr>
           else if region = 0x5800 \<or> region = 0x6800
           then \<lparr>mi_base = region, mi_size = 0x800, mi_state = 3, mi_perm = MemoryPermission_ReadWrite\<rparr>
           else \<lparr>mi_base = region, mi_size = 0x1000, mi_state = MemoryState_Free, mi_perm = 0\<rparr>))"

definition start_globals :: rtld_globals where
  "start_globals = \<lparr>g_self = 0x100, g_AutoLoad = 0x200, g_ManualLoad = 0x300, g_manualPtr = 0x400\<rparr>"

definition start_state :: rtld_state where
  "start_state = \<lparr>rs_mem = start_memory, rs_mods = (\<lambda>_. zero_module),
     rs_links = RoModuleList_new 0x200 \<lparr>l_next = (\<lambda>_. 0), l_prev = (\<lambda>_. 0)\<rparr>\<rparr>"

lemma start_run:
  "map_option (map_sum id (\<lambda>(r, st'). (r, initModules start_globals st')))
     (forEachAutoLoadModule start_query (load_module start_globals) 0x5000 start_state) =
   Some (Inr (Inr (), Some [0x6020, 0x5020]))"
  by code_simp

lemma start_found: "found_modules start_globals [0x5000, 0x6000] start_state = [0x5210, 0x6210]"
proof -
  have a: "module_address (rs_mem start_state) 0x5000 = 0x5210" by code_simp
  have b: "(case load_module start_globals 0x5000 start_state of
      Some (Inr st) \<Rightarrow> Some (module_address (rs_mem st) 0x6000) | _ \<Rightarrow> None) = Some 0x6210"
    by code_simp
  then obtain st where "load_module start_globals 0x5000 start_state = Some (Inr st)"
    "module_address (rs_mem st) 0x6000 = 0x6210"
    by (auto split: option.splits sum.splits)
  then show ?thesis by (simp add: a split: option.split sum.split)
qed

lemma start_layout: "modules_at start_query 0x5000 [(0x400, 0x400, [], 0x800), (0x400, 0x400, [], 0x800)]"
proof -
  have "start_query 0x5000 = Inr \<lparr>mi_base = 0x5000, mi_size = 0x400, mi_state = 3, mi_perm = MemoryPermission_ReadExecute\<rparr>"
    "start_query 0x5400 = Inr \<lparr>mi_base = 0x5400, mi_size = 0x400, mi_state = 3, mi_perm = MemoryPermission_Read\<rparr>"
    "start_query 0x5800 = Inr \<lparr>mi_base = 0x5800, mi_size = 0x800, mi_state = 3, mi_perm = MemoryPermission_ReadWrite\<rparr>"
    "start_query 0x6000 = Inr \<lparr>mi_base = 0x6000, mi_size = 0x400, mi_state = 3, mi_perm = MemoryPermission_ReadExecute\<rparr>"
    "start_query 0x6400 = Inr \<lparr>mi_base = 0x6400, mi_size = 0x400, mi_state = 3, mi_perm = MemoryPermission_Read\<rparr>"
    "start_query 0x6800 = Inr \<lparr>mi_base = 0x6800, mi_size = 0x800, mi_state = 3, mi_perm = MemoryPermission_ReadWrite\<rparr>"
    "start_query 0x7000 = Inr \<lparr>mi_base = 0x7000, mi_size = 0x1000, mi_state = MemoryState_Free, mi_perm = 0\<rparr>"
    by code_simp+
  then show ?thesis by (simp add: MemoryState_Free_def)
qed

theorem lookup_and_init_order_witness:
  "\<exists>st'. forEachAutoLoadModule start_query (load_module start_globals) 0x5000 start_state = Some (Inr (Inr (), st')) \<and>
     visited start_globals st' = Some (map (rs_mods st') [0x5210, 0x6210]) \<and>
     r_Base (rs_mods st' 0x5210) = 0x5000 \<and> r_Base (rs_mods st' 0x6210) = 0x6000 \<and>
     initModules start_globals st' = Some [0x6020, 0x5020]"
proof -
  let ?mods = "[(0x400, 0x400, [], 0x800), (0x400, 0x400, [], 0x800)] :: (u64 \<times> u64 \<times> u64 list \<times> u64) list"
  obtain st' where st': "forEachAutoLoadModule start_query (load_module start_globals) 0x5000 start_state =
      Some (Inr (Inr (), st'))" "initModules start_globals st' = Some [0x6020, 0x5020]"
  proof -
    from start_run obtain z where z: "forEachAutoLoadModule start_query (load_module start_globals) 0x5000 start_state = Some z"
      "map_sum id (\<lambda>(r, st'). (r, initModules start_globals st')) z = Inr (Inr (), Some [0x6020, 0x5020])" by auto
    then show thesis using that by (cases z) auto
  qed
  have "holds (rs_links start_state) (g_AutoLoad start_globals) []"
    by (simp add: start_state_def start_globals_def holds_new)
  note t = lookup_and_init_order [OF start_layout this st'(1)]
  have bases: "text_bases 0x5000 ?mods = [0x5000, 0x6000]" by simp
  from t obtain ms where ms: "ms = [0x5210, 0x6210]"
    and out: "distinct (g_AutoLoad start_globals # ms) \<and> 0 \<notin> set ms \<longrightarrow>
      visited start_globals st' = Some (map (rs_mods st') ms) \<and>
      (\<forall>i<length ?mods. ms ! i \<noteq> g_self start_globals \<longrightarrow> r_Base (rs_mods st' (ms ! i)) = [0x5000, 0x6000] ! i)"
    unfolding bases start_found by blast
  have "g_AutoLoad start_globals = 0x200" "g_self start_globals = 0x100" by (simp_all add: start_globals_def)
  then have "visited start_globals st' = Some (map (rs_mods st') [0x5210, 0x6210])"
    "r_Base (rs_mods st' 0x5210) = 0x5000" "r_Base (rs_mods st' 0x6210) = 0x6000"
    using out [unfolded ms] by (auto dest: spec [of _ 0] spec [of _ 1])
  with st' show ?thesis by blast
qed

end
