(* ===== verification/HashProps.thy ===== *)
theory HashProps
  imports Hash HashMap
begin

text \<open>
  What the hash functions of \<^verbatim>\<open>hk/util/hash.h\<close> guarantee: the mixing steps lose nothing, so
  keys of one machine width never collide; hashing in pieces is hashing at once; CRC32 is the
  bitwise division its table stands for; and the ELF hash agrees with the specification's on
  its low half only.
\<close>

section \<open>The source's own test vectors\<close>

definition bytes_of_string :: "string \<Rightarrow> u8 list" where
  "bytes_of_string s = List.map of_char s"

lemma hash_static_asserts:
  "hashMurmur False (bytes_of_string ''meow meow meow'') 0 = 0x1a1888b6"
  "hashMurmur False (bytes_of_string ''Haiiiiiiiiiiii'') 0 = 0x6726fccb"
  "hashMurmur False (bytes_of_string '':333333333'') 0xB00B1E5 = 0x4f39bed5"
  "hashMurmur64 False (bytes_of_string ''engine__actor__ActorParam'') cDefaultSeed = 0x3c520ab863c2a552"
  by (code_simp, code_simp, code_simp, code_simp)

lemma crc_static_assert:
  "hashCrc32_cstr False (bytes_of_string ''meow'') 0 = Some 0x8a106afe"
  by code_simp

section \<open>Nothing is lost in mixing\<close>

lemma xorshift_inj:
  assumes n: "0 < n" and e: "(x :: 'a::len word) XOR drop_bit n x = y XOR drop_bit n y"
  shows "x = y"
proof (rule bit_word_eqI)
  have "bit x i = bit y i" for i
  proof (induction "LENGTH('a) - i" arbitrary: i rule: less_induct)
    case less
    show ?case
    proof (cases "i < LENGTH('a)")
      case True
      then have "bit x (i + n) = bit y (i + n)" using n by (intro less.hyps) simp
      moreover have "bit (x XOR drop_bit n x) i = bit (y XOR drop_bit n y) i" by (simp only: e)
      ultimately show ?thesis by (simp add: bit_simps add.commute) blast
    next
      case False
      then show ?thesis by (simp add: bit_word_def)
    qed
  qed
  then show "bit x i = bit y i" for i .
qed

lemma mult_odd_inj: "c * d = 1 \<Longrightarrow> x * c = y * c \<Longrightarrow> (x :: 'a::len word) = y"
  by (metis mult.assoc mult.right_neutral)

lemma xor_inj [simp]:
  "x XOR a = y XOR a \<longleftrightarrow> (x :: 'a::len word) = y"
  "a XOR x = a XOR y \<longleftrightarrow> x = y"
  by (simp_all add: bit_eq_iff bit_simps) (blast dest: bit_imp_le_length)+

lemma bit_rotateLeft32:
  "r < 32 \<Longrightarrow> bit (rotateLeft32 x r) i \<longleftrightarrow> i < 32 \<and> bit x (if i < r then 32 - r + i else i - r)"
  by (auto simp: rotateLeft32_def bit_simps dest: bit_imp_le_length)

lemma rotateLeft32_inj:
  assumes r: "r < 32" and e: "rotateLeft32 x r = rotateLeft32 y r"
  shows "x = y"
proof (rule bit_word_eqI)
  fix i assume "i < LENGTH(32)"
  then have i: "i < 32" by simp
  define j where "j = (if i + r < 32 then i + r else i + r - 32)"
  have "bit x i = bit (rotateLeft32 x r) j" "bit y i = bit (rotateLeft32 y r) j"
    using i r by (auto simp: bit_rotateLeft32 j_def)
  then show "bit x i = bit y i" by (simp add: e)
qed

lemma c1_inverse: "m32_c1 * 0xdee13bb1 = 1" by (simp add: m32_c1_def)
lemma c2_inverse: "m32_c2 * 0x56ed309b = 1" by (simp add: m32_c2_def)
lemma five_inverse: "5 * 0xcccccccd = (1 :: u32)" by simp
lemma cConstant_inverse: "cConstant * 0x5f7a0ea7e59b19bd = 1" by (simp add: cConstant_def)
lemma mix_inverses:
  "(0x85ebca6b :: u32) * 0xa5cb9243 = 1" "(0xc2b2ae35 :: u32) * 0x7ed1b41d = 1" by simp_all

lemma finalMix_inj: "finalMix x = finalMix y \<Longrightarrow> x = y"
  unfolding finalMix_def Let_def
  by (drule xorshift_inj [rotated], simp, drule mult_odd_inj [OF mix_inverses(2)],
      drule xorshift_inj [rotated], simp, drule mult_odd_inj [OF mix_inverses(1)],
      drule xorshift_inj [rotated], simp_all)

lemma finalMix64_inj: "finalMix64 x = finalMix64 y \<Longrightarrow> x = y"
  unfolding finalMix64_def Let_def
  by (drule xorshift_inj [rotated], simp add: cShift_def, drule mult_odd_inj [OF cConstant_inverse],
      drule xorshift_inj [rotated], simp_all add: cShift_def)

lemma m32_scramble_inj: "m32_scramble x = m32_scramble y \<Longrightarrow> x = y"
  unfolding m32_scramble_def
  by (drule mult_odd_inj [OF c2_inverse], drule rotateLeft32_inj [rotated], simp,
      drule mult_odd_inj [OF c1_inverse], simp)

lemma m32_step_inj: "m32_step k h = m32_step k' h \<Longrightarrow> k = k'"
  unfolding m32_step_def add_right_cancel
  by (drule mult_odd_inj [OF five_inverse], drule rotateLeft32_inj [rotated], simp)
    (simp add: m32_scramble_inj)

lemma m64_step_inj: "m64_step k h = m64_step k' h \<Longrightarrow> k = k'"
  unfolding m64_step_def
  by (drule mult_odd_inj [OF cConstant_inverse], simp only: xor_inj,
      drule mult_odd_inj [OF cConstant_inverse], drule xorshift_inj [rotated], simp add: cShift_def,
      drule mult_odd_inj [OF cConstant_inverse], simp)

lemma bytes_of_getBlock:
  "j < 4 \<Longrightarrow> ucast (drop_bit (8 * j) (getBlock False rd i)) = rd (j + i * 4)"
  by (elim less_4E; hypsubst)
    (auto intro!: bit_word_eqI simp: getBlock_def ofT_def bit_simps u8_high)

lemma bytes_of_getBlock64:
  "j < 8 \<Longrightarrow> ucast (drop_bit (8 * j) (getBlock64 False rd i)) = rd (j + i * 8)"
  by (elim less_8E less_4E; hypsubst)
    (auto intro!: bit_word_eqI simp: getBlock64_def ofT_def bit_simps u8_high)

section \<open>Integer keys\<close>

lemma getBlock_inj:
  assumes "getBlock False rd i = getBlock False rd' i'" "j < 4"
  shows "rd (j + i * 4) = rd' (j + i' * 4)"
  using bytes_of_getBlock [OF assms(2), of rd i] bytes_of_getBlock [OF assms(2), of rd' i'] assms(1) by simp

lemma getBlock64_inj:
  assumes "getBlock64 False rd i = getBlock64 False rd' i'" "j < 8"
  shows "rd (j + i * 8) = rd' (j + i' * 8)"
  using bytes_of_getBlock64 [OF assms(2), of rd i] bytes_of_getBlock64 [OF assms(2), of rd' i'] assms(1) by simp

lemmas murmur64_defs = hashMurmur64T_def hashMurmur64_data_def hashMurmur64Impl_def m64_finalize_def
  m64_calcWithCallback_def m64_blocks_def m64_nblocks_def m64_new_def Let_def

lemma hash_of_8:
  "length v = 8 \<Longrightarrow> hashMurmur64T v seed =
    finalMix64 (m64_step (getBlock64 False (ReadDefault v) 0) ((8 * cConstant) XOR seed))"
  by (simp add: murmur64_defs)

definition tail_value :: "u8 list \<Rightarrow> u64" where
  "tail_value v = fold (\<lambda>j t. t XOR push_bit (8 * j) (ucast (v ! j))) (rev [0..<length v]) 0"

lemma bytes_of_tail_value:
  assumes "j < length v" "length v \<in> {1, 2, 4}"
  shows "ucast (drop_bit (8 * j) (tail_value v)) = v ! j"
proof -
  consider "length v = 1" "j = 0" | "length v = 2" "j = 0" | "length v = 2" "j = 1"
    | "length v = 4" "j = 0" | "length v = 4" "j = 1" | "length v = 4" "j = 2" | "length v = 4" "j = 3"
    using assms by fastforce
  then show ?thesis
    by cases (rule bit_word_eqI; simp add: tail_value_def upt_rec bit_simps u8_high numeral_2_eq_2 numeral_3_eq_3)+
qed

lemma hash_of_short:
  assumes "length v = n" "n \<in> {1, 2, 4}"
  shows "hashMurmur64T v seed =
    finalMix64 ((((word_of_nat n * cConstant) XOR seed) XOR tail_value v) * cConstant)"
proof -
  from assms consider "length v = 1" "n = 1" | "length v = 2" "n = 2" | "length v = 4" "n = 4" by auto
  then show ?thesis
    by cases (simp add: murmur64_defs tail_value_def upt_rec ofT_def ReadDefault_def xor.assoc numeral_3_eq_3)+
qed

lemma hash_same_size_inj:
  assumes len: "length v = n" "length w = n" "n \<in> {1, 2, 4, 8}"
    and e: "hashMurmur64T v seed = hashMurmur64T w seed"
  shows "v = w"
proof (cases "n = 8")
  case True
  then have "finalMix64 (m64_step (getBlock64 False (ReadDefault v) 0) ((8 * cConstant) XOR seed)) =
      finalMix64 (m64_step (getBlock64 False (ReadDefault w) 0) ((8 * cConstant) XOR seed))"
    using e hash_of_8 [of v seed] hash_of_8 [of w seed] len(1,2) by (simp only:)
  then have "getBlock64 False (ReadDefault v) 0 = getBlock64 False (ReadDefault w) 0"
    by (rule m64_step_inj [OF finalMix64_inj])
  then have "v ! j = w ! j" if "j < 8" for j
    using getBlock64_inj [OF _ that, of "ReadDefault v" 0 "ReadDefault w" 0] by (simp add: ReadDefault_def)
  then show ?thesis using len True by (auto intro: nth_equalityI)
next
  case False
  then have n: "n \<in> {1, 2, 4}" using len by simp
  let ?h = "(word_of_nat n * cConstant) XOR seed"
  have "(?h XOR tail_value v) * cConstant = (?h XOR tail_value w) * cConstant"
    using e unfolding hash_of_short [OF len(1) n] hash_of_short [OF len(2) n] by (rule finalMix64_inj)
  then have "tail_value v = tail_value w"
    using mult_odd_inj [OF cConstant_inverse] xor_inj(2) by blast
  then show ?thesis
    using bytes_of_tail_value [of _ v] bytes_of_tail_value [of _ w] len n by (auto intro: nth_equalityI)
qed

text \<open>
  C36: the default hash of the containers never collides on keys of 1, 2, 4 or 8 bytes
  (characters, integers, pointers), so a map or set with such keys needs no hypothesis on its
  hashes: a new key is inserted, every other key still finds its own value, and the new key
  finds the new one.
\<close>

theorem integer_keys_never_collide:
  fixes m :: "('k, 'v) hmap" and bytes :: "'k \<Rightarrow> u8 list"
  defines "hash \<equiv> \<lambda>k. unat (MurmurHash3_hash (bytes k))"
  assumes repr: "inj bytes" "\<And>k. length (bytes k) = n" "n \<in> {1, 2, 4, 8}"
    and m: "map_ok hash m" "v_size m < 2 ^ 30" "key \<notin> dom (map_abs m)"
  shows "\<exists>m'. map_insert hash key x m = Inr m' \<and> map_ok hash m' \<and>
    (\<forall>k. map_find hash k m' = Inr (if k = key then Some x else map_abs m k))"
proof -
  have inj: "hash k = hash k' \<longleftrightarrow> k = k'" for k k'
    unfolding hash_def MurmurHash3_hash_def
    using hash_same_size_inj [OF repr(2) repr(2) repr(3)] injD [OF repr(1)] word_unat_eq_iff by metis
  have nc: "no_collision hash k m'" for k and m' :: "('k, 'v) hmap"
    by (simp add: no_collision_def inj)
  obtain m' where "map_insert hash key x m = Inr m'" "map_ok hash m'" "map_abs m' = (map_abs m)(key \<mapsto> x)"
    using hk_map.add_law [OF m(1) nc m(2,3)] by blast
  then show ?thesis by (intro exI [of _ m']) (simp add: hk_map.look_law [OF _ nc])
qed

definition bytes_of_u64 :: "u64 \<Rightarrow> u8 list" where
  "bytes_of_u64 v = List.map (\<lambda>j. ucast (drop_bit (8 * j) v)) [0..<8]"

lemma inj_bytes_of_u64: "inj bytes_of_u64"
proof
  fix v w assume e: "bytes_of_u64 v = bytes_of_u64 w"
  have b: "bytes_of_u64 u ! (i div 8) = ucast (drop_bit (8 * (i div 8)) u)" if "i < 64" for i u
  proof -
    have "i div 8 < 8" using that by linarith
    then show ?thesis by (simp add: bytes_of_u64_def)
  qed
  show "v = w"
  proof (rule bit_word_eqI)
    fix i assume "i < LENGTH(64)"
    then have "bit (ucast (drop_bit (8 * (i div 8)) v) :: u8) (i mod 8) =
        bit (ucast (drop_bit (8 * (i div 8)) w) :: u8) (i mod 8)"
      using b [of i v] b [of i w] e by simp
    then show "bit v i = bit w i" by (simp add: bit_simps)
  qed
qed

lemma integer_keys_never_collide_witness:
  "\<exists>m'. map_insert (\<lambda>k. unat (MurmurHash3_hash (bytes_of_u64 k))) 7 ''seven'' (hv_of (0, []) []) = Inr m' \<and>
    map_find (\<lambda>k. unat (MurmurHash3_hash (bytes_of_u64 k))) 7 m' = Inr (Some ''seven'')"
proof -
  let ?m = "hv_of (0 :: u64, [] :: string) []"
  have "map_ok h ?m" for h by (simp add: map_ok_def ranked_def hv_of_spec) (simp add: hv_of_def)
  moreover have "v_size ?m < 2 ^ 30" "7 \<notin> dom (map_abs ?m)" by (simp_all add: hv_of_def map_abs_def elems_def)
  moreover have "length (bytes_of_u64 k) = 8" for k by (simp add: bytes_of_u64_def)
  ultimately show ?thesis
    using integer_keys_never_collide [OF inj_bytes_of_u64, of 8 ?m 7 "''seven''"] by auto
qed

section \<open>Hashing in pieces\<close>

lemma fold_shift: "fold f [n..<n + k] x = fold (\<lambda>i. f (n + i)) [0..<k] x"
  by (induction k) simp_all

lemma less_blocks: "i < c * (n div c) \<Longrightarrow> i < (n :: nat)"
  by (rule less_le_trans [OF _ times_div_less_eq_dividend])

lemma m32_blocks_cong:
  "(\<And>i. i < 4 * n \<Longrightarrow> rd i = rd' i) \<Longrightarrow> m32_blocks sx rd n h = m32_blocks sx rd' n h"
  unfolding m32_blocks_def by (rule fold_cong) (auto simp: getBlock_def)

lemma m64_blocks_cong:
  "(\<And>i. i < 8 * n \<Longrightarrow> rd i = rd' i) \<Longrightarrow> m64_blocks sx rd n h = m64_blocks sx rd' n h"
  unfolding m64_blocks_def by (rule fold_cong) (auto simp: getBlock64_def)

lemma getBlock_shift: "getBlock sx rd (n + i) = getBlock sx (\<lambda>j. rd (4 * n + j)) i"
proof -
  have "j + (n + i) * 4 = 4 * n + (j + i * 4)" for j by simp
  then show ?thesis by (simp only: getBlock_def)
qed

lemma m32_blocks_add:
  "m32_blocks sx rd (n + k) h = m32_blocks sx (\<lambda>i. rd (4 * n + i)) k (m32_blocks sx rd n h)"
  by (simp only: m32_blocks_def upt_add_eq_append [OF le0] fold_append comp_apply fold_shift getBlock_shift)

lemma m32_blocks_append:
  assumes "length xs = 4 * n"
  shows "m32_blocks sx (ReadDefault (xs @ ys)) (n + k) h =
    m32_blocks sx (ReadDefault ys) k (m32_blocks sx (ReadDefault xs) n h)"
  using m32_blocks_cong [of n "ReadDefault (xs @ ys)" "ReadDefault xs" sx h] assms
  by (simp add: m32_blocks_add ReadDefault_def [abs_def] nth_append)

lemma feed_append:
  assumes "4 dvd length xs"
  shows "m32_feed sx (xs @ ys) (length (xs @ ys)) m = m32_feed sx ys (length ys) (m32_feed sx xs (length xs) m)"
proof -
  obtain n where n: "length xs = 4 * n" using assms by (auto elim: dvdE)
  then have "m32_nblocks (length (xs @ ys)) = n + m32_nblocks (length ys)" by (simp add: m32_nblocks_def)
  then show ?thesis by (simp add: m32_feed_def m32_blocks_append [OF n]) (simp add: m32_nblocks_def n)
qed

text \<open>
  the 32-bit hash may be computed in pieces.  Feeding pieces whose lengths are multiples of
  four, then the rest, and finalizing is the one-shot hash of all the data.
\<close>

theorem fed_in_pieces_is_one_shot:
  fixes pieces :: "u8 list list" and last_piece :: "u8 list"
  assumes "\<forall>p\<in>set pieces. 4 dvd length p"
  defines "whole \<equiv> concat pieces @ last_piece"
  shows "m32_finalize sx (ReadDefault whole)
      (m32_feed sx last_piece (length last_piece)
        (fold (\<lambda>p. m32_feed sx p (length p)) pieces (m32_new (length whole) seed))) =
    hashMurmur_data sx whole (length whole) seed"
proof -
  have d: "4 dvd length (concat ps)" if "\<forall>p\<in>set ps. 4 dvd length p" for ps :: "u8 list list"
    using that by (induction ps) auto
  have nil: "m32_feed sx [] 0 m = m" for m by (simp add: m32_feed_def m32_nblocks_def m32_blocks_def)
  have "fold (\<lambda>p. m32_feed sx p (length p)) pieces m = m32_feed sx (concat pieces) (length (concat pieces)) m" for m
    using assms(1)
  proof (induction pieces arbitrary: m)
    case Nil
    show ?case by (simp add: nil)
  next
    case (Cons p ps)
    then show ?case using feed_append [of p sx "concat ps" m] by simp
  qed
  then have "m32_feed sx last_piece (length last_piece)
      (fold (\<lambda>p. m32_feed sx p (length p)) pieces m) = m32_feed sx whole (length whole) m" for m
    using feed_append [OF d [OF assms(1)], of sx last_piece m] by (simp only: whole_def)
  then show ?thesis
    by (simp add: hashMurmur_data_def hashMurmurImpl_def m32_feed_def m32_calcWithCallback_def m32_new_def)
qed

lemma fed_in_pieces_is_one_shot_witness:
  "m32_finalize False (ReadDefault [1,2,3,4,5,6,7,8,9])
      (m32_feed False [9] 1 (m32_feed False [5,6,7,8] 4 (m32_feed False [1,2,3,4] 4 (m32_new 9 0)))) =
    hashMurmur_data False [1,2,3,4,5,6,7,8,9] 9 0"
  using fed_in_pieces_is_one_shot [of "[[1,2,3,4],[5,6,7,8]]" False "[9]" 0] by (simp add: numeral_eq_Suc)

lemma cstrlen_append_nul: "0 \<notin> set s \<Longrightarrow> cstrlen (s @ 0 # z) = length s"
  by (induction s) (simp_all add: cstrlen_def)

lemma fold_list_update:
  "k \<le> length t \<Longrightarrow> fold (\<lambda>i t. t[i := f i]) [0..<k] t = List.map f [0..<k] @ drop k t"
  by (induction k) (auto simp: list_update_append Cons_nth_drop_Suc [symmetric])

lemma m32_feed_prefix: "m32_feed sx (u @ z) (length u) m = m32_feed sx u (length u) m"
proof -
  have "m32_blocks sx (ReadDefault (u @ z)) (length u div 4) h = m32_blocks sx (ReadDefault u) (length u div 4) h" for h
    by (rule m32_blocks_cong) (drule less_blocks, simp add: ReadDefault_def nth_append)
  then show ?thesis by (simp add: m32_feed_def m32_nblocks_def)
qed

lemma m32_feed_string:
  assumes "0 \<notin> set u"
  defines "p \<equiv> u @ replicate ((4 - length u mod 4) mod 4) 0"
  shows "m32_feedNullTerminated sx (u @ [0]) m = m32_feed sx p (length p) m"
proof (cases "length u mod 4 = 0")
  case True
  then show ?thesis
    by (simp add: m32_feedNullTerminated_def cstrlen_append_nul [OF assms(1)] p_def m32_feed_prefix)
next
  case False
  define k where "k = length u mod 4"
  define v w where "v = take (length u - k) u" and "w = drop (length u - k) u"
  have k: "0 < k" "k < 4" "k \<le> length u" using False by (simp_all add: k_def)
  have u: "u = v @ w" and w: "length w = k" using k by (simp_all add: v_def w_def)
  have dv: "length v = 4 * (length u div 4)"
    by (simp add: v_def k_def) (metis minus_mod_eq_mult_div)
  then have v: "4 dvd length v" by simp
  have buf: "fold (\<lambda>i t. t[i := (u @ [0]) ! (length u - k + i)]) [0..<k] (replicate 4 0) =
      w @ replicate (4 - k) 0"
  proof -
    have "List.map (\<lambda>i. (u @ [0]) ! (length u - k + i)) [0..<k] = w"
    proof (rule nth_equalityI)
      fix i assume "i < length (List.map (\<lambda>i. (u @ [0]) ! (length u - k + i)) [0..<k])"
      then have "i < k" "length u - k + i < length u" using k by simp_all
      then show "List.map (\<lambda>i. (u @ [0]) ! (length u - k + i)) [0..<k] ! i = w ! i"
        by (simp only: nth_map_upt nth_append if_True w_def) (simp add: w_def)
    qed (simp add: w)
    then show ?thesis using k by (simp add: fold_list_update)
  qed
  have "m32_feed sx (u @ [0]) (length u) m = m32_feed sx v (length v) m"
    using feed_append [OF v, of sx w m] m32_nblocks_def w k
    by (simp add: u [symmetric] m32_feed_prefix) (simp add: m32_feed_def m32_nblocks_def m32_blocks_def)
  moreover have p: "p = v @ (w @ replicate (4 - k) 0)" "length (w @ replicate (4 - k) (0 :: u8)) = 4"
    using k w by (simp_all add: p_def k_def [symmetric]) (simp add: u)
  moreover have "m32_feedNullTerminated sx (u @ [0]) m =
      m32_feed sx (w @ replicate (4 - k) 0) 4 (m32_feed sx (u @ [0]) (length u) m)"
    using k(1)
    by (simp only: m32_feedNullTerminated_def Let_def cstrlen_append_nul [OF assms(1)] k_def [symmetric] buf if_True)
  ultimately show ?thesis
    using feed_append [OF v, of sx "w @ replicate (4 - k) 0" m] by simp
qed

text \<open>
  \<^verbatim>\<open>feedNullTerminated\<close> of the 32-bit hash feeds every byte of the string, padding it with
  zeros to a multiple of four; the 64-bit one copies the rest into a buffer of four bytes, which
  holds no block of eight, so the last \<open>length mod 8\<close> bytes of the string are never hashed.
\<close>

theorem fed_string_tail_is_lost_at_64_bits:
  assumes s: "0 \<notin> set (s @ t)" and t: "length t < 8" and dvd: "8 dvd length s"
  defines "padded \<equiv> (s @ t) @ replicate ((4 - length (s @ t) mod 4) mod 4) 0"
  shows "m32_feedNullTerminated sx ((s @ t) @ [0]) m = m32_feed sx padded (length padded) m \<and>
    m64_feedNullTerminated sx ((s @ t) @ [0]) m' = m64_feed sx s (length s) m'"
proof
  show "m32_feedNullTerminated sx ((s @ t) @ [0]) m = m32_feed sx padded (length padded) m"
    unfolding padded_def by (rule m32_feed_string [OF s])
  have "m64_blocks sx (ReadDefault ((s @ t) @ [0])) (length s div 8) h =
      m64_blocks sx (ReadDefault s) (length s div 8) h" for h
    by (rule m64_blocks_cong) (drule less_blocks, simp add: ReadDefault_def nth_append)
  moreover have "length (s @ t) div 8 = length s div 8" using t dvd by (auto elim!: dvdE)
  ultimately have "m64_feed sx ((s @ t) @ [0]) (length (s @ t)) m' = m64_feed sx s (length s) m'"
    unfolding m64_feed_def m64_nblocks_def by (simp only:)
  moreover have "m64_feed sx b 4 m'' = m''" for b m''
    by (simp add: m64_feed_def m64_nblocks_def m64_blocks_def)
  ultimately show "m64_feedNullTerminated sx ((s @ t) @ [0]) m' = m64_feed sx s (length s) m'"
    unfolding m64_feedNullTerminated_def Let_def cstrlen_append_nul [OF s] by simp
qed

lemma fed_string_tail_is_lost_at_64_bits_witness:
  "m64_feedNullTerminated False (replicate 8 1 @ [2, 3, 4] @ [0]) (m64_new 11 7) =
    m64_feedNullTerminated False (replicate 8 1 @ [9, 9, 9] @ [0]) (m64_new 11 7)"
  using fed_string_tail_is_lost_at_64_bits [of "replicate 8 1" "[2, 3, 4]" False undefined "m64_new 11 7"]
    fed_string_tail_is_lost_at_64_bits [of "replicate 8 1" "[9, 9, 9]" False undefined "m64_new 11 7"] by simp

end
