(* ===== verification/SailHash.thy ===== *)
theory SailHash
  imports HashElf HashProps
begin

text \<open>
  The hashes of the host tool (\<^verbatim>\<open>sail/include/hash.h\<close>) and their agreement with the ones the
  patched program computes on the console: \<^verbatim>\<open>sail\<close> stores hashes of symbol and version names, and
  \<^verbatim>\<open>hk/util/hash.h\<close> looks them up.
\<close>

section \<open>The host's functions\<close>

definition sail_getBlock :: "bool \<Rightarrow> (nat \<Rightarrow> u8) \<Rightarrow> nat \<Rightarrow> u32" where
  "sail_getBlock sx rd i =
     (let a = ofT sx (rd (0 + i * 4)); b = ofT sx (rd (1 + i * 4));
          c = ofT sx (rd (2 + i * 4)); d = ofT sx (rd (3 + i * 4))
      in push_bit 0 a OR push_bit 8 b OR push_bit 16 c OR push_bit 24 d)"

definition sail_rotateLeft32 :: "u32 \<Rightarrow> nat \<Rightarrow> u32" where
  "sail_rotateLeft32 x r = push_bit r x OR drop_bit (32 - r) x"

definition sail_finalMix :: "u32 \<Rightarrow> u32" where
  "sail_finalMix h =
     (let h = h XOR drop_bit 16 h;
          h = h * 0x85ebca6b;
          h = h XOR drop_bit 13 h;
          h = h * 0xc2b2ae35;
          h = h XOR drop_bit 16 h
      in h)"

definition sail_hashMurmurImpl :: "bool \<Rightarrow> (nat \<Rightarrow> u8) \<Rightarrow> nat \<Rightarrow> u32 \<Rightarrow> u32" where
  "sail_hashMurmurImpl sx rd n seed =
     (let nblocks = n div 4; c1 = 0xcc9e2d51; c2 = 0x1b873593; c3 = 0xe6546b64;
          h1 = fold (\<lambda>i h1.
            let k1 = sail_getBlock sx rd i;
                k1 = k1 * c1;
                k1 = sail_rotateLeft32 k1 15;
                k1 = k1 * c2;
                h1 = h1 XOR k1;
                h1 = sail_rotateLeft32 h1 13
            in h1 * 5 + c3) [0..<nblocks] seed;
          tail = n - n mod 4; rest = n mod 4;
          k1 = (if 3 \<le> rest then push_bit 16 (ofT sx (rd (tail + 2))) else 0);
          k1 = (if 2 \<le> rest then k1 XOR push_bit 8 (ofT sx (rd (tail + 1))) else k1);
          k1 = (if 1 \<le> rest then sail_rotateLeft32 ((k1 XOR ofT sx (rd (tail + 0))) * c1) 15 * c2 else k1);
          h1 = (if 1 \<le> rest then h1 XOR k1 else h1);
          h1 = h1 XOR word_of_nat n
      in sail_finalMix h1)"

definition sail_hashMurmur :: "bool \<Rightarrow> u8 list \<Rightarrow> u32 \<Rightarrow> u32" where
  "sail_hashMurmur sx str seed = sail_hashMurmurImpl sx (ReadDefault str) (cstrlen str) seed"

definition sail_hashMurmur_data :: "bool \<Rightarrow> u8 list \<Rightarrow> nat \<Rightarrow> u32 \<Rightarrow> u32" where
  "sail_hashMurmur_data sx d n seed = sail_hashMurmurImpl sx (ReadDefault d) n seed"

fun rtldElfHash_loop :: "bool \<Rightarrow> u8 list \<Rightarrow> u64 \<Rightarrow> u64" where
  "rtldElfHash_loop sx [] h = h"
| "rtldElfHash_loop sx (c # name) h =
     (if c = 0 then h
      else let h = push_bit 4 h + ofT sx c;
               g = h AND 0xf0000000;
               h = (if g \<noteq> 0 then h XOR drop_bit 24 g else h);
               h = h AND NOT g
           in rtldElfHash_loop sx name h)"

definition rtldElfHash :: "bool \<Rightarrow> u8 list \<Rightarrow> u64" where
  "rtldElfHash sx name = rtldElfHash_loop sx name 0"

fun djb2Hash_loop :: "u8 list \<Rightarrow> u32 \<Rightarrow> u32" where
  "djb2Hash_loop [] h = h"
| "djb2Hash_loop (c # name) h = (if c = 0 then h else djb2Hash_loop name (h * 33 + ucast c))"

definition djb2Hash :: "u8 list \<Rightarrow> u32" where
  "djb2Hash name = djb2Hash_loop name 5381"

section \<open>Agreement\<close>

lemma sail_hashMurmurImpl_eq: "sail_hashMurmurImpl = hashMurmurImpl"
  by (intro ext)
    (simp add: sail_hashMurmurImpl_def hashMurmurImpl_def m32_finalize_def m32_calcWithCallback_def
      m32_new_def m32_blocks_def m32_nblocks_def m32_step_def [abs_def] m32_scramble_def m32_c1_def m32_c2_def
      m32_c3_def sail_getBlock_def getBlock_def sail_rotateLeft32_def rotateLeft32_def
      sail_finalMix_def finalMix_def Let_def)

lemma rtldElfHash_loop_eq: "rtldElfHash_loop sx name h = hashElfBucket_loop sx name h"
  by (induction sx name h rule: hashElfBucket_loop.induct) (simp_all add: Let_def)

lemma djb2Hash_loop_eq: "djb2Hash_loop name h = hashDjb2_loop name h"
  by (induction name h rule: hashDjb2_loop.induct) simp_all

lemma ofT_ascii: "b < 128 \<Longrightarrow> ofT sx b = (ofT False b :: 'a::len word)"
proof -
  assume "b < 128"
  then have "b AND mask 7 = b" by (simp add: and_mask_eq_iff_unat word_less_nat_alt)
  moreover have "\<not> bit (b AND mask 7) 7" by (simp add: bit_simps)
  ultimately have "\<not> bit b 7" by metis
  then have "bit b (min 7 n) = bit b n" for n
    using u8_high [of n b] by (cases "n < 7"; cases "n = 7") (auto simp: min_def not_less)
  then show ?thesis by (auto simp: ofT_def bit_simps intro!: bit_word_eqI)
qed

lemma tail_cases: "n mod 4 = 0 \<or> n mod 4 = 1 \<or> n mod 4 = 2 \<or> n mod 4 = (3 :: nat)"
  by linarith

lemma hashMurmurImpl_ascii:
  assumes "\<And>i. i < n \<Longrightarrow> rd i < 128"
  shows "hashMurmurImpl sx rd n seed = hashMurmurImpl False rd n seed"
proof -
  have o: "ofT sx (rd i) = (ofT False (rd i) :: u32)" if "i < n" for i by (rule ofT_ascii [OF assms [OF that]])
  have "m32_blocks sx rd (n div 4) seed = m32_blocks False rd (n div 4) seed"
    unfolding m32_blocks_def by (rule fold_cong) (auto simp: getBlock_def o)
  moreover define T where "T = n - n mod 4"
  have t: "ofT sx (rd (T + j)) = (ofT False (rd (T + j)) :: u32)" if "j < n mod 4" for j
  proof (rule o)
    have "n mod 4 \<le> n" by simp
    then show "T + j < n" using that by (simp only: T_def)
  qed
  have "m32_finalize sx rd \<lparr>m32_mLen = n, m32_mHashValue = h\<rparr> =
      m32_finalize False rd \<lparr>m32_mLen = n, m32_mHashValue = h\<rparr>" for h
    unfolding m32_finalize_def HashMurmur32.simps T_def [symmetric] Let_def
    using tail_cases [of n] t [of 0] t [of 1] t [of 2] by (elim disjE) simp_all
  ultimately show ?thesis
    by (simp add: hashMurmurImpl_def m32_calcWithCallback_def m32_new_def m32_nblocks_def)
qed

lemma elf_loop_ascii:
  "\<forall>b\<in>set name. b < 128 \<Longrightarrow> hashElfBucket_loop sx name h = hashElfBucket_loop False name h"
  by (induction name arbitrary: h) (simp_all add: Let_def ofT_ascii [of _ sx])

text \<open>
  C38: the tool on the host and the program on the console compute the same hashes for every name
  in ASCII, although \<^verbatim>\<open>char\<close> is signed on the one machine and unsigned on the other; for a name
  with a byte past 127 the Murmur hashes differ, so such a symbol is not found.
\<close>

theorem host_and_console_hashes_agree:
  assumes "\<forall>b\<in>set name. b < 128"
  shows "sail_hashMurmur True name seed = hashMurmur False name seed \<and>
    rtldElfHash True name = hashElfBucket False name \<and> djb2Hash name = hashDjb2 name \<and>
    sail_hashMurmur True [0xC3, 0xA9] 0 \<noteq> hashMurmur False [0xC3, 0xA9] 0"
proof -
  have "ReadDefault name i < 128" if "i < cstrlen name" for i
  proof -
    have "cstrlen name \<le> length name" by (simp add: cstrlen_def length_takeWhile_le)
    then show ?thesis using assms that by (simp add: ReadDefault_def)
  qed
  moreover have "sail_hashMurmur True [0xC3, 0xA9] 0 \<noteq> hashMurmur False [0xC3, 0xA9] 0"
    unfolding sail_hashMurmur_def sail_hashMurmurImpl_eq hashMurmur_def by code_simp
  ultimately show ?thesis
    using hashMurmurImpl_ascii [of "cstrlen name" "ReadDefault name" True seed] elf_loop_ascii [OF assms, of True 0]
    by (simp add: sail_hashMurmur_def sail_hashMurmurImpl_eq hashMurmur_def rtldElfHash_def rtldElfHash_loop_eq
        hashElfBucket_def djb2Hash_def djb2Hash_loop_eq hashDjb2_def)
qed

lemma host_and_console_hashes_agree_witness:
  "sail_hashMurmur True [0x6d, 0x65, 0x6f, 0x77] 0 = hashMurmur False [0x6d, 0x65, 0x6f, 0x77] 0"
  using host_and_console_hashes_agree [of "[0x6d, 0x65, 0x6f, 0x77]" 0] by simp

end
