(* ===== verification/HookInstall.thy ===== *)
theory HookInstall
  imports RoMem TrampolineMain
begin

text \<open>
  Installing hooks: \<^verbatim>\<open>hk/hook/Hook.h\<close>, \<^verbatim>\<open>Replace.h\<close>, the installation of trampolines
  (\<^verbatim>\<open>hk/hook/Trampoline.cpp\<close>) and of assembled blocks (\<^verbatim>\<open>hk/hook/a64/Assembler.h\<close>).
  A hook keeps the module and offset it was installed at and the instructions it replaced.
\<close>

section \<open>Instructions in memory\<close>

definition bytes_of_instr :: "Instr \<Rightarrow> u8 list" where
  "bytes_of_instr i = [ucast i, ucast (drop_bit 8 i), ucast (drop_bit 16 i), ucast (drop_bit 24 i)]"

definition bytes_of_instrs :: "Instr list \<Rightarrow> u8 list" where
  "bytes_of_instrs is = concat (List.map bytes_of_instr is)"

definition load_instrs :: "world \<Rightarrow> u64 \<Rightarrow> nat \<Rightarrow> Instr list" where
  "load_instrs w at n = List.map (\<lambda>i. load_u32 w (at + of_nat i * 4)) [0..<n]"

section \<open>HookNInstr (Hook.h)\<close>

definition cHookMaxOverwriteSize :: "nat \<Rightarrow> nat" where
  "cHookMaxOverwriteSize level = (if level = 0 then 1 else if level = 1 then 2 else 5)"

record hook =
  mModule :: "RoModule option"
  mOffset :: u64
  mOrigInstrs :: "Instr list"

definition hook_new :: "nat \<Rightarrow> hook" where
  "hook_new n = \<lparr>mModule = None, mOffset = 0, mOrigInstrs = replicate n 0\<rparr>"

definition hook_clear :: "hook \<Rightarrow> hook" where
  "hook_clear h = \<lparr>mModule = None, mOffset = 0, mOrigInstrs = fill 0 (length (mOrigInstrs h)) 0 (mOrigInstrs h)\<rparr>"

definition hook_isInstalled :: "hook \<Rightarrow> bool" where
  "hook_isInstalled h \<longleftrightarrow> mOrigInstrs h ! 0 \<noteq> 0"

definition hook_installAtOffset ::
  "RoWriteCallback option \<Rightarrow> RoModule \<Rightarrow> u64 \<Rightarrow> Instr list \<Rightarrow> hook \<times> world \<Rightarrow> unit res \<times> hook \<times> world" where
  "hook_installAtOffset cb module offset instrs st =
     (let (h, w) = st in
      if hook_isInstalled h then (Inl ResultAlreadyInstalled, h, w)
      else let at = mStart (mod_range module) + offset;
               h = h\<lparr>mModule := Some module, mOffset := offset,
                 mOrigInstrs := load_instrs w at (length (mOrigInstrs h))\<rparr>
           in case writeRo cb module offset (bytes_of_instrs instrs) w of
                (Inl rc, w) \<Rightarrow> (Inl rc, hook_clear h, w)
              | (Inr _, w) \<Rightarrow> (Inr (), h, w))"

definition hook_uninstall :: "RoWriteCallback option \<Rightarrow> hook \<times> world \<Rightarrow> (unit res \<times> hook \<times> world) run" where
  "hook_uninstall cb st =
     (let (h, w) = st in
      if \<not> hook_isInstalled h then Inr (Inl ResultNotInstalled, h, w)
      else case mModule h of
        None \<Rightarrow> Inl (Abort ''null module'')
      | Some module \<Rightarrow>
          (case writeRo cb module (mOffset h) (bytes_of_instrs (mOrigInstrs h)) w of
             (Inl rc, w) \<Rightarrow> Inr (Inl rc, h, w)
           | (Inr _, w) \<Rightarrow> Inr (Inr (), hook_clear h, w)))"

definition hookone_installAtOffset ::
  "RoWriteCallback option \<Rightarrow> RoModule \<Rightarrow> u64 \<Rightarrow> Instr \<Rightarrow> hook \<times> world \<Rightarrow> unit res \<times> hook \<times> world" where
  "hookone_installAtOffset cb module offset instr st = hook_installAtOffset cb module offset [instr] st"

text \<open>
  \<^verbatim>\<open>HookOperations\<close> finds the module of an address for any hook; \<open>inst\<close> is the hook's own
  \<^verbatim>\<open>installAtOffset\<close> and \<open>st\<close> its state and the memory's.
\<close>

definition hookops_installAtPtr ::
  "(RoModule \<Rightarrow> u64 \<Rightarrow> 's \<Rightarrow> (unit res \<times> 's) run) \<Rightarrow> RoModule list \<Rightarrow> u64 \<Rightarrow> 's \<Rightarrow> (unit res \<times> 's) run" where
  "hookops_installAtPtr inst modules addr st =
     (if addr = 0 then Inr (Inl ResultInvalidAddress, st)
      else case getModuleContaining modules addr of
        None \<Rightarrow> Inr (Inl ResultOutOfBounds, st)
      | Some module \<Rightarrow> inst module (addr - mStart (mod_range module)) st)"

definition hookops_installAtMainOffset ::
  "bool \<Rightarrow> (RoModule \<Rightarrow> u64 \<Rightarrow> 's \<Rightarrow> (unit res \<times> 's) run) \<Rightarrow> RoModule list \<Rightarrow> u64 \<Rightarrow> 's \<Rightarrow> (unit res \<times> 's) run" where
  "hookops_installAtMainOffset hbloader inst modules offset st =
     (case getMainModule hbloader modules of
        None \<Rightarrow> Inl (Abort ''null module'')
      | Some module \<Rightarrow> inst module offset st)"

text \<open>A virtual function table entry is overwritten in place.\<close>

definition bytes_of_ptr :: "u64 \<Rightarrow> u8 list" where
  "bytes_of_ptr v = List.map (\<lambda>i. ucast (drop_bit (8 * i) v)) [0..<8]"

definition writeVftHook :: "u64 \<Rightarrow> u64 \<Rightarrow> u64 \<Rightarrow> u64 \<Rightarrow> world \<Rightarrow> unit res \<times> world" where
  "writeVftHook vtableSym destAddress destOffset hookAddr w =
     (if destAddress \<noteq> 0 then (Inl ResultInvalidAddress, w)
      else let loc = vtableSym + 8 * 2 + destOffset in
        if hookAddr = 0 then (Inl ResultInvalidAddress, w)
        else (Inr (), store_bytes loc (bytes_of_ptr hookAddr) w))"

definition writeUnconditionalBranch ::
  "RoWriteCallback option \<Rightarrow> UnconditionalBranchOp \<Rightarrow> RoModule \<Rightarrow> u64 \<Rightarrow> u64 \<Rightarrow> world \<Rightarrow> unit res \<times> world" where
  "writeUnconditionalBranch cb operand module offset branchToAddr w =
     writeRo cb module offset
       (bytes_of_instr (makeUnconditionalBranch operand (mStart (mod_range module) + offset) branchToAddr)) w"

section \<open>Replace\<close>

text \<open>A vector over an array of \<open>n\<close> zeroed instructions.\<close>

definition instr_buffer :: "nat \<Rightarrow> Instr vec" where
  "instr_buffer n = \<lparr>v_data = replicate n 0, v_size = 0, v_cap = n, v_raw = 0\<rparr>"

definition replace_installAtOffset ::
  "RoWriteCallback option \<Rightarrow> nat \<Rightarrow> u64 \<Rightarrow> RoModule \<Rightarrow> u64 \<Rightarrow> hook \<times> world \<Rightarrow> (unit res \<times> hook \<times> world) run" where
  "replace_installAtOffset cb n to module offset st =
     (let at = mStart (mod_range module) + offset in
      if hook_isInstalled (fst st) then Inr (Inl ResultAlreadyInstalled, st)
      else bindR (emitB False to \<lparr>em_out = instr_buffer n, em_rx = at\<rparr>) (\<lambda>(k, e).
        Inr (hook_installAtOffset cb module offset (elems (em_out e)) st)))"

section \<open>Trampolines\<close>

text \<open>
  The backup is made first, whether or not the hook can then be installed.  The state also holds
  the backup's instructions; \<open>rx\<close> is the address they run from.
\<close>

definition trampoline_installAtOffset ::
  "RoWriteCallback option \<Rightarrow> nat \<Rightarrow> u64 \<Rightarrow> u64 \<Rightarrow> RoModule \<Rightarrow> u64 \<Rightarrow> Instr vec \<times> hook \<times> world \<Rightarrow>
    (unit res \<times> Instr vec \<times> hook \<times> world) run" where
  "trampoline_installAtOffset cb level rx to module offset st =
     (let (backup, h, w) = st;
          at = mStart (mod_range module) + offset;
          n = cHookMaxOverwriteSize level
      in bindR (emitB False to \<lparr>em_out = instr_buffer n, em_rx = at\<rparr>) (\<lambda>(k, e).
         let numInstrs = v_size (em_out e); orig = load_instrs w at numInstrs in
         bindR (makeTrampolineBackup orig at (at + of_nat numInstrs * 4) (backup_new level) rx) (\<lambda>(k, backup).
           let (r, h, w) = hook_installAtOffset cb module offset (elems (em_out e)) (h, w) in
           Inr (r, backup, h, w))))"

section \<open>Assembled blocks\<close>

record asm_block =
  ab_instrs :: "IInstr list"
  ab_args :: "u64 list"
  ab_uninstallable :: bool
  ab_module :: "RoModule option"
  ab_offset :: u64
  ab_orig :: "Instr list"

definition block_isInstalled :: "asm_block \<Rightarrow> bool" where
  "block_isInstalled b \<longleftrightarrow> ab_offset b \<noteq> 0"

definition block_tryInstallAtOffset ::
  "RoWriteCallback option \<Rightarrow> RoModule \<Rightarrow> u64 \<Rightarrow> asm_block \<times> world \<Rightarrow> (unit res \<times> asm_block \<times> world) run" where
  "block_tryInstallAtOffset cb module offset st =
     (let (b, w) = st; at = mStart (mod_range module) + offset in
      if ab_uninstallable b \<and> block_isInstalled b then Inr (Inl ResultAlreadyInstalled, b, w)
      else bindR (block_assemble (ab_instrs b) (ab_args b) at) (\<lambda>instrs.
        let b = (if ab_uninstallable b then b\<lparr>ab_orig := load_instrs w at (length (ab_instrs b))\<rparr> else b) in
        Inr (case writeRo cb module offset (bytes_of_instrs instrs) w of
          (Inl rc, w) \<Rightarrow> (Inl rc, b, w)
        | (Inr _, w) \<Rightarrow> (Inr (), b\<lparr>ab_offset := offset, ab_module := Some module\<rparr>, w))))"

definition block_uninstall :: "RoWriteCallback option \<Rightarrow> asm_block \<times> world \<Rightarrow> (unit res \<times> asm_block \<times> world) run" where
  "block_uninstall cb st =
     (let (b, w) = st in
      if \<not> ab_uninstallable b then Inr (Inl ResultNotUninstallable, b, w)
      else if \<not> block_isInstalled b then Inr (Inl ResultNotInstalled, b, w)
      else case ab_module b of
        None \<Rightarrow> Inl (Abort ''null module'')
      | Some module \<Rightarrow>
          Inr (case writeRo cb module (ab_offset b) (bytes_of_instrs (ab_orig b)) w of
            (Inl rc, w) \<Rightarrow> (Inl rc, b, w)
          | (Inr _, w) \<Rightarrow> (Inr (), b\<lparr>ab_offset := 0, ab_module := None\<rparr>, w)))"

definition block_tryInstallAtMainOffset ::
  "bool \<Rightarrow> RoWriteCallback option \<Rightarrow> RoModule list \<Rightarrow> u64 \<Rightarrow> asm_block \<times> world \<Rightarrow> (unit res \<times> asm_block \<times> world) run" where
  "block_tryInstallAtMainOffset hbloader cb modules offset st =
     (case getMainModule hbloader modules of
        None \<Rightarrow> Inl (Abort ''null module'')
      | Some module \<Rightarrow> block_tryInstallAtOffset cb module offset st)"

definition block_tryInstallAtPtr ::
  "RoWriteCallback option \<Rightarrow> RoModule list \<Rightarrow> u64 \<Rightarrow> asm_block \<times> world \<Rightarrow> (unit res \<times> asm_block \<times> world) run" where
  "block_tryInstallAtPtr cb modules addr st =
     (case getModuleContaining modules addr of
        None \<Rightarrow> Inr (Inl ResultOutOfBounds, st)
      | Some module \<Rightarrow> block_tryInstallAtOffset cb module (addr - mStart (mod_range module)) st)"

text \<open>The installers that can be chained drop the result.\<close>

definition block_installAtOffset ::
  "RoWriteCallback option \<Rightarrow> RoModule \<Rightarrow> u64 \<Rightarrow> asm_block \<times> world \<Rightarrow> (asm_block \<times> world) run" where
  "block_installAtOffset cb module offset st =
     bindR (block_tryInstallAtOffset cb module offset st) (\<lambda>(r, st). Inr st)"

end
