(* ===== verification/HookMem.thy ===== *)
theory HookMem
  imports HookInstall
begin

text \<open>
  Reading and writing instructions through the two mappings of a module: the laws of patching,
  as an interface and as facts of the model's memory.
\<close>

section \<open>Memory as a function\<close>

definition poke :: "u64 \<Rightarrow> u8 list \<Rightarrow> (u64 \<Rightarrow> u8) \<Rightarrow> (u64 \<Rightarrow> u8)" where
  "poke b bs mem = (\<lambda>p. if unat (p - b) < length bs then bs ! unat (p - b) else mem p)"

definition word_at :: "(u64 \<Rightarrow> u8) \<Rightarrow> u64 \<Rightarrow> u32" where
  "word_at mem a = ucast (mem a) OR push_bit 8 (ucast (mem (a + 1))) OR
     push_bit 16 (ucast (mem (a + 2))) OR push_bit 24 (ucast (mem (a + 3)))"

definition words_at :: "u64 \<Rightarrow> nat \<Rightarrow> (u64 \<Rightarrow> u8) \<Rightarrow> u32 list" where
  "words_at a n mem = List.map (\<lambda>i. word_at mem (a + of_nat i * 4)) [0..<n]"

definition patch :: "u64 \<Rightarrow> Instr list \<Rightarrow> (u64 \<Rightarrow> u8) \<Rightarrow> (u64 \<Rightarrow> u8)" where
  "patch a is mem = poke a (bytes_of_instrs is) mem"

lemma length_bytes_of_instrs [simp]: "length (bytes_of_instrs is) = 4 * length is"
  by (induction "is") (simp_all add: bytes_of_instrs_def bytes_of_instr_def)

lemma nth_bytes_of_instrs:
  "j < 4 * length is \<Longrightarrow> bytes_of_instrs is ! j = ucast (drop_bit (8 * (j mod 4)) (is ! (j div 4)))"
proof (induction "is" arbitrary: j)
  case (Cons i "is")
  show ?case
  proof (cases "j < 4")
    case True
    then show ?thesis by (elim less_4E) (simp_all add: bytes_of_instrs_def bytes_of_instr_def)
  next
    case False
    then obtain k where k: "j = k + 4" by (metis add.commute le_Suc_ex not_less)
    then have "bytes_of_instrs (i # is) ! j = bytes_of_instrs is ! k"
      by (simp add: bytes_of_instrs_def bytes_of_instr_def)
    moreover have "(k + 4) div 4 = Suc (k div 4)" "(k + 4) mod 4 = k mod 4" by simp_all
    ultimately show ?thesis using Cons k by (simp del: div_add_self2)
  qed
qed simp

lemma byte_of_word_at:
  assumes "r < 4"
  shows "ucast (drop_bit (8 * r) (word_at mem a)) = mem (a + of_nat r)"
  using assms
  by (elim less_4E; hypsubst) (auto intro!: bit_word_eqI simp: word_at_def bit_simps u8_high)

lemma word_at_bytes:
  assumes "\<And>r. r < 4 \<Longrightarrow> mem (a + of_nat r) = ucast (drop_bit (8 * r) w)"
  shows "word_at mem a = w"
proof -
  have m: "mem a = ucast w" "mem (a + 1) = ucast (drop_bit 8 w)" "mem (a + 2) = ucast (drop_bit 16 w)"
    "mem (a + 3) = ucast (drop_bit 24 w)"
    using assms [of 0] assms [of 1] assms [of 2] assms [of 3] by simp_all
  show ?thesis
  proof (rule bit_word_eqI)
    fix n assume "n < LENGTH(32)"
    then consider "n < 8" | "8 \<le> n" "n < 16" | "16 \<le> n" "n < 24" | "24 \<le> n" "n < 32" by fastforce
    then show "bit (word_at mem a) n = bit w n" by cases (auto simp: word_at_def m bit_simps)
  qed
qed

lemma offset_unat: "n < 2 ^ 64 \<Longrightarrow> unat (of_nat n :: u64) = n"
  by (simp add: unat_of_nat)

lemma bytes_of_words_at:
  assumes "unat (p - a) < 4 * n" "4 * n \<le> 2 ^ 64"
  shows "bytes_of_instrs (words_at a n mem) ! unat (p - a) = mem p"
proof -
  define j where "j = unat (p - a)"
  have j: "j < 4 * n" "p = a + of_nat j" using assms by (simp_all add: j_def)
  have q: "j div 4 < n" using j by simp
  have "of_nat j = (of_nat (j div 4) * 4 + of_nat (j mod 4) :: u64)"
    by (metis (no_types, lifting) div_mult_mod_eq of_nat_add of_nat_mult of_nat_numeral)
  then have p: "p = a + of_nat (j div 4) * 4 + of_nat (j mod 4)" by (simp only: j(2) add.assoc)
  have w: "words_at a n mem ! (j div 4) = word_at mem (a + of_nat (j div 4) * 4)"
    using q by (simp add: words_at_def)
  have "length (words_at a n mem) = n" by (simp add: words_at_def)
  then have "bytes_of_instrs (words_at a n mem) ! j =
      ucast (drop_bit (8 * (j mod 4)) (words_at a n mem ! (j div 4)))"
    using j(1) by (simp only: nth_bytes_of_instrs)
  also have "\<dots> = mem p" unfolding w p by (rule byte_of_word_at) simp
  finally show ?thesis by (simp only: j_def)
qed

section \<open>The laws of patching\<close>

text \<open>
  What hooks rely on: a patch is read back; it changes no instruction outside it; and writing
  back what was read, as far as the patch and further, undoes it.
\<close>

locale patching =
  fixes fetch :: "'a \<Rightarrow> nat \<Rightarrow> 'm \<Rightarrow> 'i list"
    and put :: "'a \<Rightarrow> 'i list \<Rightarrow> 'm \<Rightarrow> 'm"
    and fits :: "'a \<Rightarrow> nat \<Rightarrow> bool"
    and apart :: "'a \<Rightarrow> nat \<Rightarrow> 'a \<Rightarrow> nat \<Rightarrow> bool"
  assumes fetch_length: "length (fetch a n m) = n"
    and fetch_put: "fits a (length is) \<Longrightarrow> fetch a (length is) (put a is m) = is"
    and fetch_apart: "apart a (length is) b n \<Longrightarrow> fetch b n (put a is m) = fetch b n m"
    and put_back: "fits a n \<Longrightarrow> length is \<le> n \<Longrightarrow> put a (fetch a n m) (put a is m) = m"
    and put_commute: "apart a (length is) b (length js) \<Longrightarrow> put a is (put b js m) = put b js (put a is m)"
begin

text \<open>Patches are undone in the reverse order, or in any order when they are apart.\<close>

lemma undo_nested:
  assumes "fits a n" "length is \<le> n" "fits b k" "length js \<le> k"
  shows "put a (fetch a n m) (put b (fetch b k (put a is m)) (put b js (put a is m))) = m"
  using assms by (simp add: put_back)

lemma undo_apart:
  assumes "fits a n" "length is \<le> n" "apart b (length js) a n"
  shows "put a (fetch a n m) (put b js (put a is m)) = put b js m"
proof -
  have "put b js (put a (fetch a n m) (put a is m)) = put a (fetch a n m) (put b js (put a is m))"
    using assms(3) by (intro put_commute) (simp add: fetch_length)
  then show ?thesis using assms(1,2) by (simp add: put_back)
qed

end

lemma poke_eq_patch: "unat (p - a) < 4 * length is \<Longrightarrow>
    patch a is mem p = ucast (drop_bit (8 * (unat (p - a) mod 4)) (is ! (unat (p - a) div 4)))"
  by (simp add: patch_def poke_def nth_bytes_of_instrs)

lemma patch_outside: "\<not> unat (p - a) < 4 * length is \<Longrightarrow> patch a is mem p = mem p"
  by (simp add: patch_def poke_def)

definition code_fits :: "u64 \<Rightarrow> nat \<Rightarrow> bool" where
  "code_fits a n \<longleftrightarrow> 4 * n \<le> 2 ^ 64"

definition code_apart :: "u64 \<Rightarrow> nat \<Rightarrow> u64 \<Rightarrow> nat \<Rightarrow> bool" where
  "code_apart a n b k \<longleftrightarrow> (\<forall>p. \<not> (unat (p - a) < 4 * n \<and> unat (p - b) < 4 * k)) \<and> 4 * k \<le> 2 ^ 64"

interpretation code: patching words_at patch code_fits code_apart
proof
  fix a :: u64 and n and m :: "u64 \<Rightarrow> u8" and "is" :: "Instr list"
  show "length (words_at a n m) = n" by (simp add: words_at_def)
  assume fits: "code_fits a (length is)"
  show "words_at a (length is) (patch a is m) = is"
  proof (rule nth_equalityI)
    fix i assume "i < length (words_at a (length is) (patch a is m))"
    then have i: "i < length is" by (simp add: words_at_def)
    have "patch a is m (a + of_nat i * 4 + of_nat r) = ucast (drop_bit (8 * r) (is ! i))" if "r < 4" for r
    proof -
      have "of_nat i * 4 + of_nat r = (of_nat (4 * i + r) :: u64)" by simp
      moreover have "4 * i + r < 2 ^ 64" "4 * i + r < 4 * length is" using i that fits by (simp_all add: code_fits_def)
      ultimately have "unat (a + of_nat i * 4 + of_nat r - a) = 4 * i + r"
        by (metis add.assoc add_diff_cancel_left' offset_unat)
      then show ?thesis using poke_eq_patch [of "a + of_nat i * 4 + of_nat r" a "is" m] that i by simp
    qed
    then show "words_at a (length is) (patch a is m) ! i = is ! i"
      using i by (simp add: words_at_def) (rule word_at_bytes, simp)
  qed (simp add: words_at_def)
next
  fix a b :: u64 and n and m :: "u64 \<Rightarrow> u8" and "is" :: "Instr list"
  assume ap: "code_apart a (length is) b n"
  have "word_at (patch a is m) (b + of_nat i * 4) = word_at m (b + of_nat i * 4)" if "i < n" for i
  proof (rule word_at_bytes)
    fix r :: nat assume r: "r < 4"
    have "of_nat i * 4 + of_nat r = (of_nat (4 * i + r) :: u64)" by simp
    moreover have "4 * i + r < 2 ^ 64" "4 * i + r < 4 * n" using that r ap by (simp_all add: code_apart_def)
    ultimately have "unat (b + of_nat i * 4 + of_nat r - b) < 4 * n"
      by (metis add.assoc add_diff_cancel_left' offset_unat)
    then have "\<not> unat (b + of_nat i * 4 + of_nat r - a) < 4 * length is"
      using ap by (auto simp: code_apart_def)
    then show "patch a is m (b + of_nat i * 4 + of_nat r) = ucast (drop_bit (8 * r) (word_at m (b + of_nat i * 4)))"
      using byte_of_word_at [OF r, of m "b + of_nat i * 4"] by (simp add: patch_outside)
  qed
  then show "words_at b n (patch a is m) = words_at b n m" by (simp add: words_at_def)
next
  fix a :: u64 and n and m :: "u64 \<Rightarrow> u8" and "is" :: "Instr list"
  assume "code_fits a n" "length is \<le> n"
  then show "patch a (words_at a n m) (patch a is m) = m"
    using bytes_of_words_at [of _ a n m]
    by (intro ext) (simp add: patch_def poke_def words_at_def [of a n] code_fits_def)
next
  fix a b :: u64 and m :: "u64 \<Rightarrow> u8" and "is" js :: "Instr list"
  assume "code_apart a (length is) b (length js)"
  then show "patch a is (patch b js m) = patch b js (patch a is m)"
    by (intro ext) (auto simp: patch_def poke_def code_apart_def)
qed

end
