(* ===== verification/HookProps.thy ===== *)
theory HookProps
  imports HookMem
begin

text \<open>
  What hooks guarantee: \<^verbatim>\<open>writeRo\<close> changes exactly the bytes it is given, installation and removal
  cancel, and the orders and sites for which they do not.
\<close>

section \<open>Writing through the second mapping\<close>

text \<open>
  A module as \<^verbatim>\<open>findRanges\<close> and \<^verbatim>\<open>mapRw\<close> leave it: read-only data right behind the code, both
  mapped a second time.
\<close>

definition mapped :: "mappings \<Rightarrow> RoModule \<Rightarrow> bool" where
  "mapped ms m \<longleftrightarrow>
     (let ts = mStart (mTextRange m); tn = mSize (mTextRange m); rn = mSize (mRodataRange m);
          rwt = mStart (mTextRwMapping m); rwr = mStart (mRodataRwMapping m)
      in mStart (mRodataRange m) = ts + tn \<and> unat ts + unat tn + unat rn < 2 ^ 62 \<and> rwt \<noteq> 0 \<and> rwr \<noteq> 0 \<and>
         (\<forall>i<tn. canon ms (rwt + i) = ts + i) \<and> (\<forall>i<rn. canon ms (rwr + i) = ts + tn + i) \<and>
         (\<forall>i<tn + rn. canon ms (ts + i) = ts + i))"

lemma store_fold:
  "n \<le> 2 ^ 64 \<Longrightarrow> (\<And>i. i < n \<Longrightarrow> f i = b + of_nat i) \<Longrightarrow>
    fold (\<lambda>i m. m(f i := g i)) [0..<n] mem = (\<lambda>p :: u64. if unat (p - b) < n then g (unat (p - b)) else mem p)"
proof (induction n)
  case (Suc n)
  have "p = b + of_nat n \<longleftrightarrow> unat (p - b) = n" for p
  proof
    assume "p = b + of_nat n"
    then show "unat (p - b) = n" using Suc.prems(1) by (simp add: offset_unat)
  next
    assume "unat (p - b) = n"
    then have "p - b = of_nat n" by auto
    then show "p = b + of_nat n" by (metis add.commute diff_add_cancel)
  qed
  then show ?case using Suc by (auto simp: fun_eq_iff less_Suc_eq)
qed simp

lemma store_bytes_poke:
  assumes "length bs \<le> 2 ^ 64" "\<And>i. i < length bs \<Longrightarrow> canon (w_maps w) (a + of_nat i) = b + of_nat i"
  shows "store_bytes a bs w = w\<lparr>w_mem := poke b bs (w_mem w)\<rparr>"
  unfolding store_bytes_def poke_def
  by (simp only: store_fold [OF assms(1), of "\<lambda>i. canon (w_maps w) (a + of_nat i)", OF assms(2)])

lemma unat_add_nowrap: "unat a + unat b < 2 ^ 64 \<Longrightarrow> unat (a + b :: u64) = unat a + unat b"
  by (simp add: unat_word_ariths)

lemma writeRo_unfold:
  assumes "mapped (w_maps w) m" "length src < 2 ^ 62"
    "unat off + length src \<le> unat (mSize (mTextRange m)) + unat (mSize (mRodataRange m))"
  shows "writeRo None m off src w =
    (let text = off < mSize (mTextRange m);
         w' = store_bytes (if text then mStart (mTextRwMapping m) + off
           else mStart (mRodataRwMapping m) + (off - mSize (mTextRange m))) src w
     in (Inr (), if text then w'\<lparr>w_cleared := (mStart (mTextRange m) + off, of_nat (length src)) # w_cleared w\<rparr> else w'))"
proof -
  let ?ts = "mStart (mTextRange m)" and ?tn = "mSize (mTextRange m)" and ?rn = "mSize (mRodataRange m)"
  have m: "mStart (mRodataRange m) = ?ts + ?tn" "unat ?ts + unat ?tn + unat ?rn < 2 ^ 62"
    "mStart (mTextRwMapping m) \<noteq> 0" "mStart (mRodataRwMapping m) \<noteq> 0"
    using assms(1) by (simp_all add: mapped_def Let_def)
  have u: "unat (?ts + off) = unat ?ts + unat off" "unat (?ts + ?tn) = unat ?ts + unat ?tn"
    using m(2) assms(3) by (simp_all add: unat_add_nowrap)
  then have e: "unat (range_end (mRodataRange m)) = unat ?ts + unat ?tn + unat ?rn"
    "unat (?ts + off + of_nat (length src)) = unat ?ts + unat off + length src"
    using m(2) assms(2,3) by (simp_all add: range_end_def m(1) unat_add_nowrap offset_unat)
  have "?ts \<le> ?ts + off" "?ts + off + of_nat (length src) \<le> range_end (mRodataRange m)"
    "\<not> ?ts + ?tn \<le> ?ts + off \<longleftrightarrow> off < ?tn"
    unfolding word_le_nat_alt word_less_nat_alt e u using assms(3) by auto
  then show ?thesis
    using m(3,4) by (simp add: writeRo_def Let_def m(1) add_diff_eq store_bytes_def)
qed

lemma writeRo_ok:
  assumes "mapped (w_maps w) m" "length src < 2 ^ 62"
    "unat off + length src \<le> unat (mSize (mTextRange m)) + unat (mSize (mRodataRange m))"
    "unat off + length src \<le> unat (mSize (mTextRange m)) \<or> mSize (mTextRange m) \<le> off"
  shows "\<exists>cleared. writeRo None m off src w =
    (Inr (), w\<lparr>w_mem := poke (mStart (mTextRange m) + off) src (w_mem w), w_cleared := cleared\<rparr>) \<and>
    cleared = (if off < mSize (mTextRange m)
      then (mStart (mTextRange m) + off, of_nat (length src)) # w_cleared w else w_cleared w)"
proof -
  let ?ts = "mStart (mTextRange m)" and ?tn = "mSize (mTextRange m)" and ?rn = "mSize (mRodataRange m)"
  let ?rw = "if off < ?tn then mStart (mTextRwMapping m) + off else mStart (mRodataRwMapping m) + (off - ?tn)"
  have m: "unat ?ts + unat ?tn + unat ?rn < 2 ^ 62"
    "\<And>i. i < ?tn \<Longrightarrow> canon (w_maps w) (mStart (mTextRwMapping m) + i) = ?ts + i"
    "\<And>i. i < ?rn \<Longrightarrow> canon (w_maps w) (mStart (mRodataRwMapping m) + i) = ?ts + ?tn + i"
    using assms(1) by (simp_all add: mapped_def Let_def)
  have "store_bytes ?rw src w = w\<lparr>w_mem := poke (?ts + off) src (w_mem w)\<rparr>"
  proof (rule store_bytes_poke)
    fix i assume i: "i < length src"
    then have oi: "unat (off + of_nat i) = unat off + i"
      using m(1) assms(2,3) by (simp add: unat_add_nowrap offset_unat)
    show "canon (w_maps w) (?rw + of_nat i) = ?ts + off + of_nat i"
    proof (cases "off < ?tn")
      case True
      then have "off + of_nat i < ?tn"
        using oi i assms(4) by (auto simp: word_less_nat_alt word_le_nat_alt)
      then show ?thesis using m(2) [of "off + of_nat i"] True by (simp add: add.assoc)
    next
      case False
      then have "unat (off - ?tn) = unat off - unat ?tn" by (simp add: unat_sub not_less)
      then have "unat (off - ?tn + of_nat i) = unat off - unat ?tn + i"
        using m(1) assms(2,3) i by (simp add: unat_add_nowrap offset_unat)
      then have "off - ?tn + of_nat i < ?rn"
        using False i assms(3) by (simp add: word_less_nat_alt)
      then show ?thesis using m(3) [of "off - ?tn + of_nat i"] False by (simp add: algebra_simps)
    qed
  qed (use assms(2) in simp)
  then show ?thesis using writeRo_unfold [OF assms(1-3)]
    by (cases "off < ?tn"; cases w) (simp_all add: Let_def)
qed


text \<open>A module of two pages at a fixed place, mapped once more at another.\<close>

definition example_module :: RoModule where
  "example_module = \<lparr>m_Base = 0x8000, mTextRange = \<lparr>mStart = 0x8000, mSize = 0x1000\<rparr>,
     mRodataRange = \<lparr>mStart = 0x9000, mSize = 0x1000\<rparr>, mDataRange = \<lparr>mStart = 0xA000, mSize = 0x1000\<rparr>,
     mTextRwMapping = \<lparr>mStart = 0x100000, mSize = 0x1000\<rparr>,
     mRodataRwMapping = \<lparr>mStart = 0x200000, mSize = 0x1000\<rparr>, mBuildId = 0\<rparr>"

definition example_world :: "(u64 \<Rightarrow> u8) \<Rightarrow> world" where
  "example_world mem = \<lparr>w_mem = mem, w_maps = [(0x200000, 0x9000, 0x1000), (0x100000, 0x8000, 0x1000)],
     w_rand = 0, w_cleared = []\<rparr>"

lemma example_mapped: "mapped (w_maps (example_world mem)) example_module"
proof -
  have "\<not> 0x100000 + i - 0x200000 < (0x1000 :: u64)" if "i < 0x1000" for i using that by (uint_arith; simp)
  moreover have "\<not> 0x8000 + i - 0x200000 < (0x1000 :: u64)" if "i < 0x2000" for i using that by (uint_arith; simp)
  moreover have "\<not> 0x8000 + i - 0x100000 < (0x1000 :: u64)" if "i < 0x2000" for i using that by (uint_arith; simp)
  ultimately show ?thesis by (simp add: mapped_def Let_def example_world_def example_module_def)
qed


end
