(* ===== verification/HookMain.thy ===== *)
theory HookMain
  imports HookProps
begin

text \<open>
  Installing and removing hooks in a mapped module: what one hook does, what several do to each
  other, and what the processor then executes.
\<close>

section \<open>One hook\<close>

text \<open>The window of \<open>n\<close> instructions at an offset lies in the code of the module.\<close>

definition window :: "RoModule \<Rightarrow> u64 \<Rightarrow> nat \<Rightarrow> bool" where
  "window m off n \<longleftrightarrow> unat off + 4 * n \<le> unat (mSize (mTextRange m))"

definition site :: "RoModule \<Rightarrow> u64 \<Rightarrow> u64" where
  "site m off = mStart (mTextRange m) + off"

lemma site_mod_range: "mStart (mod_range m) + off = site m off"
  by (simp add: site_def mod_range_def)

lemma load_u32_word_at:
  assumes "\<And>r. r < 4 \<Longrightarrow> canon (w_maps w) (a + of_nat r) = a + of_nat r"
  shows "load_u32 w a = word_at (w_mem w) a"
  using assms [of 0] assms [of 1] assms [of 2] assms [of 3]
  by (simp add: load_u32_def word_at_def load_byte_def)

lemma window_small:
  assumes "mapped ms m" "window m off n"
  shows "unat (mStart (mTextRange m)) + unat off + 4 * n < 2 ^ 62"
  using assms by (simp add: mapped_def window_def Let_def)

lemma window_fits: "mapped ms m \<Longrightarrow> window m off n \<Longrightarrow> code_fits a n"
  using window_small [of ms m off n] by (simp add: code_fits_def)

lemma load_window:
  assumes m: "mapped (w_maps w) m" and win: "window m off n"
  shows "load_instrs w (site m off) n = words_at (site m off) n (w_mem w)"
proof -
  have "load_u32 w (site m off + of_nat i * 4) = word_at (w_mem w) (site m off + of_nat i * 4)" if "i < n" for i
  proof (rule load_u32_word_at)
    fix r :: nat assume "r < 4"
    define d where "d = off + of_nat (4 * i + r)"
    have "unat d = unat off + (4 * i + r)"
      using window_small [OF m win] that \<open>r < 4\<close>
      by (simp add: d_def unat_add_nowrap offset_unat del: of_nat_add of_nat_mult)
    then have "d < mSize (mTextRange m)" using win that \<open>r < 4\<close> by (simp add: window_def word_less_nat_alt)
    moreover have "mSize (mTextRange m) \<le> mSize (mTextRange m) + mSize (mRodataRange m)"
      using m by (simp add: word_le_nat_alt unat_add_nowrap mapped_def Let_def)
    ultimately have "canon (w_maps w) (mStart (mTextRange m) + d) = mStart (mTextRange m) + d"
      using m by (auto simp: mapped_def Let_def dest: less_le_trans)
    moreover have "mStart (mTextRange m) + d = site m off + of_nat i * 4 + of_nat r"
      by (simp add: site_def d_def algebra_simps)
    ultimately show "canon (w_maps w) (site m off + of_nat i * 4 + of_nat r) = site m off + of_nat i * 4 + of_nat r"
      by simp
  qed
  then show ?thesis by (simp add: load_instrs_def words_at_def)
qed

lemma writeRo_window:
  assumes "mapped (w_maps w) m" "window m off n" "length is \<le> n"
  shows "\<exists>w'. writeRo None m off (bytes_of_instrs is) w = (Inr (), w') \<and> w_maps w' = w_maps w \<and>
    w_mem w' = patch (site m off) is (w_mem w)"
proof -
  have "length (bytes_of_instrs is) < 2 ^ 62"
    "unat off + length (bytes_of_instrs is) \<le> unat (mSize (mTextRange m))"
    using window_small [OF assms(1,2)] assms(2,3) by (simp_all add: window_def)
  then show ?thesis
    using writeRo_ok [OF assms(1), of "bytes_of_instrs is" off] by (auto simp: patch_def site_def)
qed

lemma hook_install_ok:
  assumes "mapped (w_maps w) m" "window m off (length (mOrigInstrs h))" "length is \<le> length (mOrigInstrs h)"
    "\<not> hook_isInstalled h"
  shows "\<exists>w'. hook_installAtOffset None m off is (h, w) =
      (Inr (), \<lparr>mModule = Some m, mOffset = off,
        mOrigInstrs = words_at (site m off) (length (mOrigInstrs h)) (w_mem w)\<rparr>, w') \<and>
    w_maps w' = w_maps w \<and> w_mem w' = patch (site m off) is (w_mem w)"
  using writeRo_window [OF assms(1-3)] assms(4) load_window [OF assms(1,2)]
  by (cases h) (auto simp: hook_installAtOffset_def Let_def site_mod_range)

lemma hook_uninstall_ok:
  assumes "mapped (w_maps w) m" "window m (mOffset h) (length (mOrigInstrs h))"
    "hook_isInstalled h" "mModule h = Some m"
  shows "\<exists>w'. hook_uninstall None (h, w) = Inr (Inr (), hook_new (length (mOrigInstrs h)), w') \<and>
    w_maps w' = w_maps w \<and> w_mem w' = patch (site m (mOffset h)) (mOrigInstrs h) (w_mem w)"
proof -
  have "hook_clear h = hook_new (length (mOrigInstrs h))"
    by (simp add: hook_clear_def hook_new_def fill_eq)
  then show ?thesis
    using writeRo_window [OF assms(1,2), of "mOrigInstrs h"] assms(3,4)
    by (auto simp: hook_uninstall_def Let_def)
qed

lemma hook_new_facts [simp]:
  "length (mOrigInstrs (hook_new n)) = n" "0 < n \<Longrightarrow> \<not> hook_isInstalled (hook_new n)"
  by (simp_all add: hook_new_def hook_isInstalled_def)

lemma words_at_0: "0 < n \<Longrightarrow> words_at a n mem ! 0 = word_at mem a"
  by (simp add: words_at_def)

text \<open>The first saved word decides whether a hook takes itself for installed.\<close>

lemma hook_over_live_word:
  assumes "mapped (w_maps w) m" "window m off n" "0 < n" "length is \<le> n"
    and live: "word_at (w_mem w) (site m off) \<noteq> 0"
  shows "\<exists>h w1 w2. hook_installAtOffset None m off is (hook_new n, w) = (Inr (), h, w1) \<and> w_maps w1 = w_maps w \<and>
    words_at (site m off) (length is) (w_mem w1) = is \<and>
    (\<forall>m' off' is'. hook_installAtOffset None m' off' is' (h, w1) = (Inl ResultAlreadyInstalled, h, w1)) \<and>
    hook_uninstall None (h, w1) = Inr (Inr (), hook_new n, w2) \<and> w_mem w2 = w_mem w \<and> w_maps w2 = w_maps w"
proof -
  define h where "h = \<lparr>mModule = Some m, mOffset = off, mOrigInstrs = words_at (site m off) n (w_mem w)\<rparr>"
  obtain w1 where w1: "hook_installAtOffset None m off is (hook_new n, w) = (Inr (), h, w1)"
      "w_maps w1 = w_maps w" "w_mem w1 = patch (site m off) is (w_mem w)"
    using hook_install_ok [of w m off "hook_new n" "is"] assms(1-4) by (auto simp: h_def)
  have inst: "hook_isInstalled h" using live assms(3) by (simp add: hook_isInstalled_def h_def words_at_0)
  have len: "length (mOrigInstrs h) = n" by (simp add: h_def code.fetch_length)
  obtain w2 where w2: "hook_uninstall None (h, w1) = Inr (Inr (), hook_new n, w2)"
      "w_maps w2 = w_maps w1" "w_mem w2 = patch (site m off) (words_at (site m off) n (w_mem w)) (w_mem w1)"
    using hook_uninstall_ok [of w1 m h] assms(1,2) inst len w1(2) by (auto simp: h_def)
  have fits: "code_fits (site m off) k" if "k \<le> n" for k
    using window_fits [OF assms(1,2), of "site m off"] that by (simp add: code_fits_def)
  have "w_mem w2 = w_mem w" unfolding w2(3) w1(3) by (rule code.put_back [OF fits assms(4)]) simp
  moreover have "words_at (site m off) (length is) (w_mem w1) = is"
    unfolding w1(3) by (rule code.fetch_put [OF fits [OF assms(4)]])
  moreover have "hook_installAtOffset None m' off' is' (h, w1) = (Inl ResultAlreadyInstalled, h, w1)" for m' off' is'
    using inst by (simp add: hook_installAtOffset_def)
  ultimately show ?thesis using w1 w2 by auto
qed

lemma example_window: "off \<le> 0xF00 \<Longrightarrow> n \<le> 5 \<Longrightarrow> window example_module off n"
  by (simp add: window_def example_module_def word_le_nat_alt)

text \<open>
  a hook over an instruction word of zero takes itself for not installed.  It is written and
  reported as a success, but cannot be removed, and the next installation succeeds and saves the
  hooked code as the original.
\<close>

theorem hook_over_zero_word_is_stuck:
  assumes "mapped (w_maps w) m" "window m off n" "0 < n" "length is \<le> n"
    and zero: "word_at (w_mem w) (site m off) = 0"
  shows "\<exists>h w1. hook_installAtOffset None m off is (hook_new n, w) = (Inr (), h, w1) \<and>
    w_maps w1 = w_maps w \<and> w_mem w1 = patch (site m off) is (w_mem w) \<and>
    words_at (site m off) (length is) (w_mem w1) = is \<and>
    hook_uninstall None (h, w1) = Inr (Inl ResultNotInstalled, h, w1) \<and>
    (\<exists>h' w2. hook_installAtOffset None m off is (h, w1) = (Inr (), h', w2) \<and>
      take (length is) (mOrigInstrs h') = is)"
proof -
  define h where "h = \<lparr>mModule = Some m, mOffset = off, mOrigInstrs = words_at (site m off) n (w_mem w)\<rparr>"
  obtain w1 where w1: "hook_installAtOffset None m off is (hook_new n, w) = (Inr (), h, w1)"
      "w_maps w1 = w_maps w" "w_mem w1 = patch (site m off) is (w_mem w)"
    using hook_install_ok [of w m off "hook_new n" "is"] assms(1-4) by (auto simp: h_def)
  have inst: "\<not> hook_isInstalled h" using zero assms(3) by (simp add: hook_isInstalled_def h_def words_at_0)
  have len: "length (mOrigInstrs h) = n" by (simp add: h_def code.fetch_length)
  have put: "words_at (site m off) (length is) (w_mem w1) = is"
    unfolding w1(3) using window_fits [OF assms(1,2), of "site m off"] assms(4)
    by (intro code.fetch_put) (simp add: code_fits_def)
  have "take (length is) (words_at (site m off) n (w_mem w1)) = words_at (site m off) (length is) (w_mem w1)"
    using assms(4) by (simp add: words_at_def take_map min_absorb1)
  also note put
  finally have again: "\<exists>h' w2. hook_installAtOffset None m off is (h, w1) = (Inr (), h', w2) \<and>
      take (length is) (mOrigInstrs h') = is"
    using hook_install_ok [of w1 m off h "is"] assms(1,2,4) inst len w1(2) by auto
  show ?thesis using w1 inst put again by (auto simp: hook_uninstall_def)
qed

lemma hook_over_zero_word_is_stuck_witness:
  "\<exists>h w1. hook_installAtOffset None example_module 16 [0x14000000] (hook_new 1, example_world (\<lambda>p. 0)) = (Inr (), h, w1) \<and>
    hook_uninstall None (h, w1) = Inr (Inl ResultNotInstalled, h, w1)"
proof -
  have "word_at (w_mem (example_world (\<lambda>p. 0))) (site example_module 16) = 0"
    by (simp add: word_at_def example_world_def)
  from hook_over_zero_word_is_stuck [OF example_mapped example_window [of 16 1] _ _ this, of "[0x14000000]"]
  show ?thesis by auto
qed

text \<open>
  C22: one hook, over any code.  Installing a new hook anywhere in the code of a mapped module, with
  no more instructions than it has room for, succeeds and puts exactly its instructions there.
  If the first overwritten word is not zero, a second installation is then refused and
  changes nothing, and removing the hook restores the memory and leaves the hook as new.  If that
  word is zero, the hook takes itself for not installed: it cannot be removed, and a further
  installation succeeds and saves the hooked code as the original.
\<close>

theorem install_then_uninstall_restores:
  assumes "mapped (w_maps w) m" "window m off n" "0 < n" "length is \<le> n"
  shows "\<exists>h w1. hook_installAtOffset None m off is (hook_new n, w) = (Inr (), h, w1) \<and>
    words_at (site m off) (length is) (w_mem w1) = is \<and> w_maps w1 = w_maps w \<and>
    (if word_at (w_mem w) (site m off) \<noteq> 0 then
       (\<forall>m' off' is'. hook_installAtOffset None m' off' is' (h, w1) = (Inl ResultAlreadyInstalled, h, w1)) \<and>
       (\<exists>w2. hook_uninstall None (h, w1) = Inr (Inr (), hook_new n, w2) \<and> w_mem w2 = w_mem w \<and> w_maps w2 = w_maps w)
     else
       hook_uninstall None (h, w1) = Inr (Inl ResultNotInstalled, h, w1) \<and>
       (\<exists>h' w2. hook_installAtOffset None m off is (h, w1) = (Inr (), h', w2) \<and> take (length is) (mOrigInstrs h') = is))"
  using hook_over_live_word [OF assms] hook_over_zero_word_is_stuck [OF assms] by fastforce

lemma install_then_uninstall_restores_witness:
  "(\<exists>h w1 w2. hook_installAtOffset None example_module 16 [0x14000000] (hook_new 5, example_world (\<lambda>p. 1)) = (Inr (), h, w1) \<and>
    hook_uninstall None (h, w1) = Inr (Inr (), hook_new 5, w2) \<and> w_mem w2 = (\<lambda>p. 1)) \<and>
   (\<exists>h w1. hook_installAtOffset None example_module 16 [0x14000000] (hook_new 5, example_world (\<lambda>p. 0)) = (Inr (), h, w1) \<and>
    hook_uninstall None (h, w1) = Inr (Inl ResultNotInstalled, h, w1))"
proof -
  have a: "word_at (w_mem (example_world (\<lambda>p. 1))) (site example_module 16) \<noteq> 0"
    "word_at (w_mem (example_world (\<lambda>p. 0))) (site example_module 16) = 0" "w_mem (example_world (\<lambda>p. 1)) = (\<lambda>p. 1)"
    by (simp_all add: word_at_def example_world_def)
  note t = install_then_uninstall_restores [OF example_mapped example_window [of 16 5], of "[0x14000000]"]
  show ?thesis using t [of "\<lambda>p. 1"] t [of "\<lambda>p. 0"] a by fastforce
qed

section \<open>Several hooks\<close>

text \<open>
  A session of hooks of one size in one module, as a transition system.  A client may install any
  hook anywhere in the code as long as the whole window it saves is apart from those of the
  installed ones and does not start with a zero word, and remove any hook at any time; what it
  gets back is the result of the operation, errors included.
\<close>

inductive hook_step :: "RoModule \<Rightarrow> nat \<Rightarrow> hook list \<times> world \<Rightarrow> hook list \<times> world \<Rightarrow> bool" for m n where
  step_install: "i < length hs \<Longrightarrow> window m off n \<Longrightarrow> length instrs \<le> n \<Longrightarrow>
    word_at (w_mem w) (site m off) \<noteq> 0 \<Longrightarrow>
    (\<forall>j<length hs. hook_isInstalled (hs ! j) \<longrightarrow> code_apart (site m off) n (site m (mOffset (hs ! j))) n) \<Longrightarrow>
    hook_installAtOffset None m off instrs (hs ! i, w) = (r, h, w') \<Longrightarrow>
    hook_step m n (hs, w) (hs[i := h], w')"
| step_uninstall: "i < length hs \<Longrightarrow> hook_uninstall None (hs ! i, w) = Inr (r, h, w') \<Longrightarrow>
    hook_step m n (hs, w) (hs[i := h], w')"

inductive_cases hook_stepE: "hook_step m n s s'"

definition hook_saved :: "RoModule \<Rightarrow> nat \<Rightarrow> (u64 \<Rightarrow> u8) \<Rightarrow> hook \<Rightarrow> bool" where
  "hook_saved m n m0 h \<longleftrightarrow> length (mOrigInstrs h) = n \<and> (hook_isInstalled h \<longrightarrow>
     mModule h = Some m \<and> window m (mOffset h) n \<and> mOrigInstrs h = words_at (site m (mOffset h)) n m0)"

text \<open>What stays true of a session that began with memory \<open>m0\<close> and no hook installed.\<close>

definition session_inv :: "RoModule \<Rightarrow> nat \<Rightarrow> (u64 \<Rightarrow> u8) \<Rightarrow> hook list \<times> world \<Rightarrow> bool" where
  "session_inv m n m0 s \<longleftrightarrow>
     (let (hs, w) = s in
      mapped (w_maps w) m \<and> (\<forall>h\<in>set hs. hook_saved m n m0 h) \<and>
      (\<forall>i<length hs. \<forall>j<length hs. i \<noteq> j \<and> hook_isInstalled (hs ! i) \<and> hook_isInstalled (hs ! j) \<longrightarrow>
         code_apart (site m (mOffset (hs ! i))) n (site m (mOffset (hs ! j))) n) \<and>
      (\<forall>p. (\<forall>h\<in>set hs. hook_isInstalled h \<longrightarrow> \<not> unat (p - site m (mOffset h)) < 4 * n) \<longrightarrow>
         w_mem w p = m0 p))"

lemma words_at_cong:
  assumes "\<And>p. unat (p - a) < 4 * n \<Longrightarrow> mem p = mem' p" "4 * n \<le> 2 ^ 64"
  shows "words_at a n mem = words_at a n mem'"
proof -
  have "word_at mem (a + of_nat i * 4) = word_at mem' (a + of_nat i * 4)" if "i < n" for i
  proof (rule word_at_bytes)
    fix r :: nat assume r: "r < 4"
    have "a + of_nat i * 4 + of_nat r - a = of_nat (4 * i + r)" by simp
    then have "unat (a + of_nat i * 4 + of_nat r - a) < 4 * n"
      using that r assms(2) by (simp add: offset_unat del: of_nat_add of_nat_mult)
    then show "mem (a + of_nat i * 4 + of_nat r) = ucast (drop_bit (8 * r) (word_at mem' (a + of_nat i * 4)))"
      using assms(1) byte_of_word_at [OF r, of mem' "a + of_nat i * 4"] by simp
  qed
  then show ?thesis by (simp add: words_at_def)
qed

lemma code_apart_sym: "code_apart a n b n \<Longrightarrow> code_apart b n a n"
  by (auto simp: code_apart_def)

lemma session_invI:
  assumes "mapped (w_maps w) m" "\<And>h. h \<in> set hs \<Longrightarrow> hook_saved m n m0 h"
    "\<And>i j. i < length hs \<Longrightarrow> j < length hs \<Longrightarrow> i \<noteq> j \<Longrightarrow> hook_isInstalled (hs ! i) \<Longrightarrow> hook_isInstalled (hs ! j) \<Longrightarrow>
      code_apart (site m (mOffset (hs ! i))) n (site m (mOffset (hs ! j))) n"
    "\<And>p. \<forall>h\<in>set hs. hook_isInstalled h \<longrightarrow> \<not> unat (p - site m (mOffset h)) < 4 * n \<Longrightarrow> w_mem w p = m0 p"
  shows "session_inv m n m0 (hs, w)"
  using assms unfolding session_inv_def Let_def by simp

lemma set_update_cases: "g \<in> set (hs[i := h]) \<Longrightarrow> g = h \<or> g \<in> set hs"
  using set_update_subset_insert [of hs i h] by blast

lemma all_but_updated:
  assumes "\<forall>g\<in>set (hs[i := h]). P g" "P (hs ! i)"
  shows "\<forall>g\<in>set hs. P g"
proof
  fix g assume "g \<in> set hs"
  then obtain j where "j < length hs" "g = hs ! j" by (auto simp: in_set_conv_nth)
  then show "P g" using assms by (cases "j = i") (auto simp: all_set_conv_all_nth)
qed

lemma session_install:
  assumes inv: "session_inv m n m0 (hs, w)" and i: "i < length hs" and n: "0 < n"
    and st: "window m off n" "length is \<le> n" "word_at (w_mem w) (site m off) \<noteq> 0"
      "\<forall>j<length hs. hook_isInstalled (hs ! j) \<longrightarrow> code_apart (site m off) n (site m (mOffset (hs ! j))) n"
    and inst: "hook_installAtOffset None m off is (hs ! i, w) = (r, h, w')"
  shows "session_inv m n m0 (hs[i := h], w')"
proof (cases "hook_isInstalled (hs ! i)")
  case True
  then have "h = hs ! i" "w' = w" using inst by (auto simp: hook_installAtOffset_def Let_def)
  then show ?thesis using inv by simp
next
  case False
  note inv' = inv [unfolded session_inv_def Let_def prod.case]
  have len: "length (mOrigInstrs (hs ! i)) = n" using inv' i by (auto simp: hook_saved_def)
  have maps: "mapped (w_maps w) m" using inv' by blast
  have w': "h = \<lparr>mModule = Some m, mOffset = off, mOrigInstrs = words_at (site m off) n (w_mem w)\<rparr>"
      "w_maps w' = w_maps w" "w_mem w' = patch (site m off) is (w_mem w)"
    using hook_install_ok [of w m off "hs ! i" "is"] maps st(1,2) len False inst by auto
  have clean: "w_mem w p = m0 p" if "unat (p - site m off) < 4 * n" for p
  proof -
    have "\<not> unat (p - site m (mOffset g)) < 4 * n" if "g \<in> set hs" "hook_isInstalled g" for g
      using st(4) that \<open>unat (p - site m off) < 4 * n\<close> by (auto simp: in_set_conv_nth code_apart_def)
    then show ?thesis using inv' by blast
  qed
  have small: "4 * n \<le> 2 ^ 64" using window_fits [OF maps st(1)] by (simp add: code_fits_def)
  have saved: "words_at (site m off) n (w_mem w) = words_at (site m off) n m0"
    by (rule words_at_cong [OF clean small])
  have h: "hook_isInstalled h" using st(3) n by (simp add: w'(1) hook_isInstalled_def words_at_0)
  have sh: "hook_saved m n m0 h" using st(1) saved by (simp add: hook_saved_def w'(1) code.fetch_length)
  have ap: "code_apart (site m (mOffset (hs[i := h] ! j))) n (site m (mOffset (hs[i := h] ! k))) n"
    if "j < length hs" "k < length hs" "j \<noteq> k" "hook_isInstalled (hs[i := h] ! j)" "hook_isInstalled (hs[i := h] ! k)" for j k
    using that inv' st(4) i by (auto simp: nth_list_update w'(1) intro: code_apart_sym split: if_splits)
  have rest: "w_mem w' p = m0 p"
    if out: "\<forall>g\<in>set (hs[i := h]). hook_isInstalled g \<longrightarrow> \<not> unat (p - site m (mOffset g)) < 4 * n" for p
  proof -
    have "\<not> unat (p - site m off) < 4 * n" using out h i by (auto simp: w'(1) set_update_memI)
    moreover have "\<forall>g\<in>set hs. hook_isInstalled g \<longrightarrow> \<not> unat (p - site m (mOffset g)) < 4 * n"
      by (rule all_but_updated [OF out]) (simp add: False)
    ultimately show ?thesis using inv' st(2) by (simp add: w'(3) patch_outside)
  qed
  have sg: "hook_saved m n m0 g" if "g \<in> set (hs[i := h])" for g
    using set_update_cases [OF that] inv' sh by blast
  have "mapped (w_maps w') m" using maps w'(2) by simp
  then show ?thesis by (rule session_invI [OF _ sg ap rest]) simp_all
qed

lemma session_uninstall:
  assumes inv: "session_inv m n m0 (hs, w)" and i: "i < length hs" and n: "0 < n"
    and un: "hook_uninstall None (hs ! i, w) = Inr (r, h, w')"
  shows "session_inv m n m0 (hs[i := h], w')"
proof (cases "hook_isInstalled (hs ! i)")
  case False
  then have "h = hs ! i" "w' = w" using un by (auto simp: hook_uninstall_def Let_def)
  then show ?thesis using inv by simp
next
  case True
  note inv' = inv [unfolded session_inv_def Let_def prod.case]
  let ?a = "site m (mOffset (hs ! i))"
  have saved: "hook_saved m n m0 (hs ! i)" and maps: "mapped (w_maps w) m" using inv' i by auto
  then have w': "h = hook_new n" "w_maps w' = w_maps w" "w_mem w' = patch ?a (words_at ?a n m0) (w_mem w)"
    using hook_uninstall_ok [of w m "hs ! i"] True un by (auto simp: hook_saved_def)
  have small: "4 * n \<le> 2 ^ 64"
    using window_fits [OF maps] saved True by (auto simp: code_fits_def hook_saved_def)
  have sh: "hook_saved m n m0 h" using n by (simp add: hook_saved_def w'(1))
  have ap: "code_apart (site m (mOffset (hs[i := h] ! j))) n (site m (mOffset (hs[i := h] ! k))) n"
    if "j < length hs" "k < length hs" "j \<noteq> k" "hook_isInstalled (hs[i := h] ! j)" "hook_isInstalled (hs[i := h] ! k)" for j k
    using that inv' n i by (auto simp: nth_list_update w'(1) split: if_splits)
  have rest: "w_mem w' p = m0 p"
    if out: "\<forall>g\<in>set (hs[i := h]). hook_isInstalled g \<longrightarrow> \<not> unat (p - site m (mOffset g)) < 4 * n" for p
  proof (cases "unat (p - ?a) < 4 * n")
    case True
    then show ?thesis
      using bytes_of_words_at [OF True small, of m0] by (simp add: w'(3) patch_def poke_def code.fetch_length)
  next
    case False
    then have "\<forall>g\<in>set hs. hook_isInstalled g \<longrightarrow> \<not> unat (p - site m (mOffset g)) < 4 * n"
      by (intro all_but_updated [OF out]) simp
    then show ?thesis using inv' False by (simp add: w'(3) patch_outside code.fetch_length)
  qed
  have sg: "hook_saved m n m0 g" if "g \<in> set (hs[i := h])" for g
    using set_update_cases [OF that] inv' sh by blast
  have "mapped (w_maps w') m" using maps w'(2) by simp
  then show ?thesis by (rule session_invI [OF _ sg ap rest]) simp_all
qed

lemma session_step: "hook_step m n s s' \<Longrightarrow> 0 < n \<Longrightarrow> session_inv m n m0 s \<Longrightarrow> session_inv m n m0 s'"
  by (elim hook_stepE) (auto intro: session_install session_uninstall)

text \<open>
  C4: hooks whose windows are apart may be installed and removed in any order.  Whatever a client
  of the discipline above has done, the memory outside the windows of the installed hooks is the
  original one; in particular, once every hook is removed, all of it is.
\<close>

theorem hook_sessions_preserve_memory:
  assumes "mapped (w_maps w) m" "0 < n"
    and run: "(hook_step m n)\<^sup>*\<^sup>* (replicate k (hook_new n), w) (hs, w')"
  shows "(\<forall>p. (\<forall>h\<in>set hs. hook_isInstalled h \<longrightarrow> \<not> unat (p - site m (mOffset h)) < 4 * n) \<longrightarrow>
      w_mem w' p = w_mem w p) \<and>
    ((\<forall>h\<in>set hs. \<not> hook_isInstalled h) \<longrightarrow> w_mem w' = w_mem w)"
proof -
  have "session_inv m n (w_mem w) (replicate k (hook_new n), w)"
    using assms(1,2) by (auto simp: session_inv_def hook_saved_def)
  with run have "session_inv m n (w_mem w) (hs, w')"
    by (induction rule: rtranclp_induct) (auto intro: session_step [OF _ assms(2)])
  then show ?thesis by (auto simp: session_inv_def fun_eq_iff)
qed

text \<open>
  the window a hook saves may be larger than what it writes, and a second hook installed in
  the rest of it does not survive the removal of the first: the memory is the original one again,
  while the second hook still says it is installed.
\<close>

theorem removal_wipes_later_neighbour:
  assumes m: "mapped (w_maps w) m" and win: "window m off n" "window m (off + of_nat d * 4) n"
    and d: "length is \<le> d" "d + length js \<le> n" "0 < n"
    and live: "word_at (w_mem w) (site m off) \<noteq> 0" "word_at (w_mem w) (site m (off + of_nat d * 4)) \<noteq> 0"
  shows "\<exists>h1 w1 h2 w2 w3.
    hook_installAtOffset None m off is (hook_new n, w) = (Inr (), h1, w1) \<and>
    hook_installAtOffset None m (off + of_nat d * 4) js (hook_new n, w1) = (Inr (), h2, w2) \<and>
    hook_uninstall None (h1, w2) = Inr (Inr (), hook_new n, w3) \<and>
    w_mem w3 = w_mem w \<and> hook_isInstalled h2"
proof -
  let ?a = "site m off" and ?b = "site m (off + of_nat d * 4)"
  have small: "4 * n \<le> 2 ^ 62" using window_small [OF m win(1)] by simp
  obtain h1 w1 where 1: "hook_installAtOffset None m off is (hook_new n, w) = (Inr (), h1, w1)"
      "h1 = \<lparr>mModule = Some m, mOffset = off, mOrigInstrs = words_at ?a n (w_mem w)\<rparr>"
      "w_maps w1 = w_maps w" "w_mem w1 = patch ?a is (w_mem w)"
    using hook_install_ok [of w m off "hook_new n" "is"] m win(1) d by auto
  obtain h2 w2 where 2: "hook_installAtOffset None m (off + of_nat d * 4) js (hook_new n, w1) = (Inr (), h2, w2)"
      "h2 = \<lparr>mModule = Some m, mOffset = off + of_nat d * 4, mOrigInstrs = words_at ?b n (w_mem w1)\<rparr>"
      "w_maps w2 = w_maps w" "w_mem w2 = patch ?b js (w_mem w1)"
    using hook_install_ok [of w1 m "off + of_nat d * 4" "hook_new n" js] m win(2) d 1(3) by auto
  have inst: "hook_isInstalled h1" using live(1) d(3) by (simp add: hook_isInstalled_def 1(2) words_at_0)
  obtain w3 where 3: "hook_uninstall None (h1, w2) = Inr (Inr (), hook_new n, w3)"
      "w_mem w3 = patch ?a (words_at ?a n (w_mem w)) (w_mem w2)"
    using hook_uninstall_ok [of w2 m h1] m win(1) inst 2(3) by (auto simp: 1(2) code.fetch_length)
  have inside: "unat (p - ?a) = unat (p - ?b) + 4 * d" if "unat (p - ?b) < 4 * n" for p
  proof -
    have e: "p - ?a = (p - ?b) + of_nat (4 * d)" by (simp add: site_def)
    show ?thesis unfolding e
      using that d small by (simp add: unat_add_nowrap offset_unat del: of_nat_mult)
  qed
  have "w_mem w3 = w_mem w"
  proof
    fix p
    show "w_mem w3 p = w_mem w p"
  proof (cases "unat (p - ?a) < 4 * n")
    case True
    then show ?thesis
      using bytes_of_words_at [OF True, of "w_mem w"] small by (simp add: 3(2) patch_def poke_def code.fetch_length)
  next
    case False
    then have "\<not> unat (p - ?b) < 4 * length js" "\<not> unat (p - ?a) < 4 * length is"
      using inside [of p] d by auto
    then show ?thesis using False by (simp add: 3(2) 2(4) 1(4) patch_outside code.fetch_length)
  qed
  qed
  moreover have "hook_isInstalled h2"
  proof -
    have "word_at (w_mem w1) ?b = word_at (w_mem w) ?b"
      using words_at_cong [of ?b 1 "w_mem w1" "w_mem w"] inside d by (auto simp: words_at_def 1(4) patch_outside)
    then show ?thesis using live(2) d(3) by (simp add: hook_isInstalled_def 2(2) words_at_0)
  qed
  ultimately show ?thesis using 1(1) 2(1) 3(1) by blast
qed

lemma removal_wipes_later_neighbour_witness:
  "\<exists>h1 w1 h2 w2 w3.
    hook_installAtOffset None example_module 16 [0x14000000] (hook_new 5, example_world (\<lambda>p. 1)) = (Inr (), h1, w1) \<and>
    hook_installAtOffset None example_module 24 [0x14000000] (hook_new 5, w1) = (Inr (), h2, w2) \<and>
    hook_uninstall None (h1, w2) = Inr (Inr (), hook_new 5, w3) \<and> w_mem w3 = (\<lambda>p. 1) \<and> hook_isInstalled h2"
proof -
  have live: "word_at (w_mem (example_world (\<lambda>p. 1))) a \<noteq> 0" for a
    by (simp add: word_at_def example_world_def)
  have "window example_module 16 5" "window example_module (16 + of_nat 2 * 4) 5"
    by (intro example_window; simp)+
  from removal_wipes_later_neighbour [OF example_mapped this _ _ _ live live, of "[0x14000000]" "[0x14000000]"]
  show ?thesis by (simp add: example_world_def)
qed

lemma hook_sessions_preserve_memory_witness:
  "\<exists>hs w'. (hook_step example_module 1)\<^sup>*\<^sup>* (replicate 1 (hook_new 1), example_world (\<lambda>p. 1)) (hs, w') \<and>
    w_mem w' 0x8010 = 0 \<and> w_mem w' 0x8000 = 1"
proof -
  let ?w = "example_world (\<lambda>p. 1)" and ?s = "site example_module 16"
  have s: "?s = 0x8010" by (simp add: site_def example_module_def)
  obtain w1 where w1: "hook_installAtOffset None example_module 16 [0x14000000] (hook_new 1, ?w) =
      (Inr (), \<lparr>mModule = Some example_module, mOffset = 16, mOrigInstrs = words_at ?s 1 (w_mem ?w)\<rparr>, w1)"
      "w_mem w1 = patch ?s [0x14000000] (w_mem ?w)"
    using hook_install_ok [OF example_mapped, of 16 "hook_new 1" "[0x14000000]"] example_window [of 16 1] by auto
  define h where "h = \<lparr>mModule = Some example_module, mOffset = 16, mOrigInstrs = words_at ?s 1 (w_mem ?w)\<rparr>"
  have "hook_step example_module 1 ([hook_new 1], ?w) ([hook_new 1][0 := h], w1)"
    using w1(1) by (intro step_install [where i = 0 and off = 16 and instrs = "[0x14000000]"])
      (auto simp: h_def example_window word_at_def example_world_def)
  then have run: "(hook_step example_module 1)\<^sup>*\<^sup>* (replicate 1 (hook_new 1), ?w) ([h], w1)" by simp
  have "\<not> unat (0x8000 - site example_module (mOffset h)) < 4"
    by (simp add: h_def s)
  then have "w_mem w1 0x8000 = 1"
    using hook_sessions_preserve_memory [OF example_mapped _ run] by (simp add: example_world_def)
  moreover have "w_mem w1 0x8010 = 0"
    by (simp add: w1(2) s patch_def poke_def bytes_of_instrs_def bytes_of_instr_def)
  ultimately show ?thesis using run by blast
qed

end
