(* ===== verification/HookExec.thy ===== *)
theory HookExec
  imports HookMain
begin

text \<open>
  What the processor executes after a hook is installed: the assembler, the emitter, the
  trampolines and the memory of the module together.
\<close>

section \<open>Code in memory\<close>

lemma code_at_words: "words_at a (length ws) mem = ws \<Longrightarrow> code_at (word_at mem) a ws"
  unfolding words_at_def code_at_def by (metis (lifting) nth_map_upt add_0 diff_zero)

lemma instr_buffer_room: "k \<le> n \<Longrightarrow> room_for k \<lparr>em_out = instr_buffer n, em_rx = a\<rparr>"
  by (simp add: room_for_def instr_buffer_def vec_ok_def)

lemma instr_buffer_facts:
  "calcCurRxAddr \<lparr>em_out = instr_buffer n, em_rx = a\<rparr> = a" "elems (instr_buffer n) = []"
  "v_size (instr_buffer n) = 0"
  by (simp_all add: calcCurRxAddr_def calcCurOffset_def instr_buffer_def elems_def)

lemma patched_code:
  assumes "mapped ms m" "window m off n" "length is \<le> n"
  shows "code_at (word_at (patch (site m off) is mem)) (site m off) is"
proof (rule code_at_words)
  have "code_fits (site m off) (length is)"
    using window_fits [OF assms(1,2), of "site m off"] assms(3) by (simp add: code_fits_def)
  then show "words_at (site m off) (length is) (patch (site m off) is mem) = is" by (rule code.fetch_put)
qed

section \<open>Replacing a function\<close>

text \<open>
  C3: after \<^verbatim>\<open>Replace\<close> is installed over a function, with the overwrite size of level 2, the
  processor that reaches the function goes to the replacement, wherever in memory it is, with
  every register but X16 as it was; and nothing outside the window of five instructions changed.
\<close>

theorem replace_redirects:
  assumes m: "mapped (w_maps w) m" and win: "window m off 5"
    and al: "(to - site m off) AND mask 2 = 0"
  shows "\<exists>h w' n. replace_installAtOffset None (cHookMaxOverwriteSize 2) to m off (hook_new 5, w) = Inr (Inr (), h, w') \<and>
    (\<forall>s. pc s = site m off \<longrightarrow>
      (\<exists>s'. a64_run (word_at (w_mem w')) n s = Some s' \<and> branch_result False to n s s')) \<and>
    (\<forall>p. \<not> unat (p - site m off) < 20 \<longrightarrow> w_mem w' p = w_mem w p)"
proof -
  let ?a = "site m off" and ?e = "\<lparr>em_out = instr_buffer 5, em_rx = site m off\<rparr>"
  obtain n ws e' where e': "emitBranch False to False ?e = Inr (n, e')" "emits ?e e' ws" "length ws = n" "n \<le> 5"
      "\<And>mem s. pc s = ?a \<Longrightarrow> code_at mem ?a ws \<Longrightarrow>
        \<exists>s'. a64_run mem n s = Some s' \<and> branch_result False to n s s'"
    using emitBranch_ok [OF instr_buffer_room [of 5 5 ?a], of to False] al by (auto simp: instr_buffer_facts)
  have ws: "elems (em_out e') = ws" using e'(2) by (simp add: emits_def instr_buffer_facts)
  obtain h w' where h: "hook_installAtOffset None m off ws (hook_new 5, w) = (Inr (), h, w')"
      "w_mem w' = patch ?a ws (w_mem w)"
    using hook_install_ok [of w m off "hook_new 5" ws] m win e'(3,4) by auto
  have "replace_installAtOffset None (cHookMaxOverwriteSize 2) to m off (hook_new 5, w) = Inr (Inr (), h, w')"
    using e'(1) h(1) by (simp add: replace_installAtOffset_def site_mod_range cHookMaxOverwriteSize_def emitB_def ws)
  moreover have "\<exists>s'. a64_run (word_at (w_mem w')) n s = Some s' \<and> branch_result False to n s s'"
    if "pc s = ?a" for s
    using e'(5) [OF that] patched_code [OF m win, of ws] e'(3,4) by (simp add: h(2))
  moreover have "w_mem w' p = w_mem w p" if "\<not> unat (p - ?a) < 20" for p
    using that e'(3,4) by (simp add: h(2) patch_outside)
  ultimately show ?thesis by blast
qed

lemma replace_redirects_witness:
  "\<exists>h w' n. replace_installAtOffset None (cHookMaxOverwriteSize 2) 0x123456789ABCDEF0 example_module 16
      (hook_new 5, example_world (\<lambda>p. 1)) = Inr (Inr (), h, w') \<and>
    (\<forall>s. pc s = 0x8010 \<longrightarrow> (\<exists>s'. a64_run (word_at (w_mem w')) n s = Some s' \<and> pc s' = 0x123456789ABCDEF0))"
proof -
  have s: "site example_module 16 = 0x8010" by (simp add: site_def example_module_def)
  have "(0x123456789ABCDEF0 - site example_module 16) AND mask 2 = 0"
    by (simp add: s mask_eq_exp_minus_1)
  have "window example_module 16 5" by (rule example_window) simp_all
  from replace_redirects [OF example_mapped [of "\<lambda>p. 1"] this \<open>_ AND mask 2 = 0\<close>]
  obtain h w' n where r: "replace_installAtOffset None (cHookMaxOverwriteSize 2) 0x123456789ABCDEF0 example_module 16
      (hook_new 5, example_world (\<lambda>p. 1)) = Inr (Inr (), h, w')"
    "\<And>s. pc s = 0x8010 \<Longrightarrow> \<exists>s'. a64_run (word_at (w_mem w')) n s = Some s' \<and> branch_result False 0x123456789ABCDEF0 n s s'"
    unfolding s by auto
  have "\<exists>s'. a64_run (word_at (w_mem w')) n s = Some s' \<and> pc s' = 0x123456789ABCDEF0" if "pc s = 0x8010" for s
    using r(2) [OF that] by (auto simp: branch_result_def)
  then show ?thesis using r(1) by blast
qed

section \<open>Trampolines\<close>

text \<open>A branch in range is emitted as one word.\<close>

lemma emit_near_branch:
  assumes "s64_abs (to - a) \<le> cMaxBranchDistance" "0 < n"
  shows "\<exists>e'. emitB False to \<lparr>em_out = instr_buffer n, em_rx = a\<rparr> = Inr (1, e') \<and>
    elems (em_out e') = [makeB a to] \<and> v_size (em_out e') = 1"
  using emitBranch_near [OF instr_buffer_room [of 1 n a], of to False False] assms
  by (fastforce simp: emitB_def emits_def instr_buffer_facts makeB_def)

text \<open>
  C1: a trampoline hook as a whole.  Installed over a relocatable instruction with the hook
  function and the trampoline in branch range, it writes one branch, which the processor takes to
  the hook function; and calling the original through the backup has exactly the effect of the
  instruction that was there.
\<close>

theorem trampoline_hook_works:
  assumes m: "mapped (w_maps w) m" and win: "window m off (cHookMaxOverwriteSize level)" and level: "1 \<le> level"
    and "near (site m off) rx" "s64_abs (to - site m off) \<le> cMaxBranchDistance"
    and al: "site m off AND mask 2 = 0" "rx AND mask 2 = 0" "(to - site m off) AND mask 2 = 0"
    and rel: "relocatable (word_at (w_mem w) (site m off)) (site m off) rx"
  shows "\<exists>out h w'. trampoline_installAtOffset None level rx to m off
      (backup, hook_new (cHookMaxOverwriteSize level), w) = Inr (Inr (), out, h, w') \<and>
    w_mem w' = patch (site m off) [makeB (site m off) to] (w_mem w) \<and>
    (\<forall>s. pc s = site m off \<longrightarrow> a64_run (word_at (w_mem w')) 1 s = Some (s\<lparr>pc := to\<rparr>)) \<and>
    (\<forall>mem mem' s. code_at mem' rx (elems out) \<longrightarrow>
      (\<exists>k s'. a64_run mem' k (s\<lparr>pc := rx\<rparr>) = Some s' \<and>
        a64_do mem (word_at (w_mem w) (site m off)) (s\<lparr>pc := site m off\<rparr>) = Some s'))"
proof -
  let ?a = "site m off" and ?n = "cHookMaxOverwriteSize level" and ?orig = "word_at (w_mem w) (site m off)"
  have n: "0 < ?n" by (simp add: cHookMaxOverwriteSize_def)
  obtain e' where e': "emitB False to \<lparr>em_out = instr_buffer ?n, em_rx = ?a\<rparr> = Inr (1, e')"
      "elems (em_out e') = [makeB ?a to]" "v_size (em_out e') = 1"
    using emit_near_branch [OF assms(5) n] by blast
  have "window m off 1" using win n by (simp add: window_def)
  then have orig: "load_instrs w ?a 1 = [?orig]" using load_window [OF m] by (simp add: words_at_def)
  obtain k out where out: "makeTrampolineBackup [?orig] ?a (?a + 4) (backup_new level) rx = Inr (k, out)"
      "\<And>mem mem' s. code_at mem' rx (elems out) \<Longrightarrow>
        \<exists>k s'. a64_run mem' k (s\<lparr>pc := rx\<rparr>) = Some s' \<and> a64_do mem ?orig (s\<lparr>pc := ?a\<rparr>) = Some s'"
    using backup_simulates [OF rel assms(4) al(1,2) level] by blast
  obtain h w' where h: "hook_installAtOffset None m off [makeB ?a to] (hook_new ?n, w) = (Inr (), h, w')"
      "w_mem w' = patch ?a [makeB ?a to] (w_mem w)"
    using hook_install_ok [of w m off "hook_new ?n" "[makeB ?a to]"] m win n by auto
  have "trampoline_installAtOffset None level rx to m off (backup, hook_new ?n, w) = Inr (Inr (), out, h, w')"
    using e' orig out(1) h(1) by (simp add: trampoline_installAtOffset_def Let_def site_mod_range)
  moreover have "a64_run (word_at (w_mem w')) 1 s = Some (s\<lparr>pc := to\<rparr>)" if s: "pc s = ?a" for s
  proof -
    have "word_at (w_mem w') ?a = makeB ?a to"
      using patched_code [OF m win, of "[makeB ?a to]"] n by (simp add: h(2) code_at_Cons)
    then show ?thesis
      using makeBranch_do [OF al(3) assms(5) s, of "word_at (w_mem w')" Branch] s
      by (simp add: a64_step_do makeB_def)
  qed
  ultimately show ?thesis using h(2) out(2) by blast
qed

text \<open>
  installing a trampoline hook a second time is refused, but only after its backup has been
  made again from the code that is there now, the branch to the hook.  From then on calling the
  original runs the hook function.
\<close>

theorem reinstalled_backup_calls_hook:
  assumes m: "mapped (w_maps w) m" and win: "window m off (cHookMaxOverwriteSize level)" and level: "1 \<le> level"
    and "near (site m off) rx" "near to rx" "s64_abs (to - site m off) \<le> cMaxBranchDistance"
    and al: "site m off AND mask 2 = 0" "rx AND mask 2 = 0" "(to - site m off) AND mask 2 = 0"
    and hooked: "word_at (w_mem w) (site m off) = makeB (site m off) to" "hook_isInstalled h"
  shows "\<exists>out. trampoline_installAtOffset None level rx to m off (backup, h, w) =
      Inr (Inl ResultAlreadyInstalled, out, h, w) \<and>
    (\<forall>mem' s. code_at mem' rx (elems out) \<longrightarrow> (\<exists>k. a64_run mem' k (s\<lparr>pc := rx\<rparr>) = Some (s\<lparr>pc := to\<rparr>)))"
proof -
  let ?a = "site m off" and ?n = "cHookMaxOverwriteSize level" and ?b = "makeB (site m off) to"
  have n: "0 < ?n" by (simp add: cHookMaxOverwriteSize_def)
  obtain e' where e': "emitB False to \<lparr>em_out = instr_buffer ?n, em_rx = ?a\<rparr> = Inr (1, e')"
      "elems (em_out e') = [?b]" "v_size (em_out e') = 1"
    using emit_near_branch [OF assms(6) n] by blast
  have "window m off 1" using win n by (simp add: window_def)
  then have orig: "load_instrs w ?a 1 = [?b]" using load_window [OF m] hooked(1) by (simp add: words_at_def)
  have exec: "a64_do mem ?b (s\<lparr>pc := ?a\<rparr>) = Some (s\<lparr>pc := to\<rparr>)" for mem s
    using makeBranch_do [OF al(3) assms(6), of "s\<lparr>pc := ?a\<rparr>" mem Branch] by (simp add: makeB_def)
  have rel: "relocatable ?b ?a rx"
  proof -
    have "branch_op_code Branch = 5" by simp
    then have "field 31 26 ?b = 5"
      unfolding makeB_def makeUnconditionalBranch_def makeUnconditionalBranchRelative_def Let_def
      using field_branch_word(2) [of 5] by simp
    then have dec: "a64_decode ?b = Some (I_B False (field 25 0 ?b))" using decode_branch [of ?b] by simp
    have "Some (s\<lparr>pc := ?a + sx 26 (field 25 0 ?b) * 4\<rparr>) = Some (s\<lparr>pc := to\<rparr>)" for s :: cpu
      using exec [of "\<lambda>_. 0" s] a64_do_simps(1) [OF dec, of "\<lambda>_. 0" "s\<lparr>pc := ?a\<rparr>"] by simp
    then have "pc (s\<lparr>pc := ?a + sx 26 (field 25 0 ?b) * 4\<rparr>) = pc (s\<lparr>pc := to\<rparr>)" for s :: cpu
      by (simp only: option.inject)
    then have "?a + sx 26 (field 25 0 ?b) * 4 = to" by simp
    then show ?thesis using assms(5) by (simp add: relocatable_def dec)
  qed
  obtain k out where out: "makeTrampolineBackup [?b] ?a (?a + 4) (backup_new level) rx = Inr (k, out)"
      "\<And>mem mem' s. code_at mem' rx (elems out) \<Longrightarrow>
        \<exists>k s'. a64_run mem' k (s\<lparr>pc := rx\<rparr>) = Some s' \<and> a64_do mem ?b (s\<lparr>pc := ?a\<rparr>) = Some s'"
    using backup_simulates [OF rel assms(4) al(1,2) level] by blast
  have "trampoline_installAtOffset None level rx to m off (backup, h, w) = Inr (Inl ResultAlreadyInstalled, out, h, w)"
    using e' orig out(1) hooked(2)
    by (simp add: trampoline_installAtOffset_def Let_def site_mod_range hook_installAtOffset_def)
  then show ?thesis using out(2) [of _ _ "\<lambda>_. 0"] by (auto simp: exec)
qed

lemma example_branch_site:
  "site example_module 16 = 0x8010" "near (site example_module 16) 0x9000" "near 0x9800 0x9000"
  "s64_abs (0x9800 - site example_module 16) \<le> cMaxBranchDistance" "site example_module 16 AND mask 2 = 0"
  "(0x9000 :: u64) AND mask 2 = 0" "(0x9800 - site example_module 16) AND mask 2 = 0"
  by code_simp+

text \<open>A page of \<^verbatim>\<open>nop\<close> instructions.\<close>

definition nop_memory :: "u64 \<Rightarrow> u8" where
  "nop_memory p = bytes_of_instr cNop ! (unat (p AND 3))"

lemma trampoline_hook_works_witness:
  "\<exists>out h w'. trampoline_installAtOffset None 1 0x9000 0x9800 example_module 16
      (instr_buffer 5, hook_new 2, example_world nop_memory) = Inr (Inr (), out, h, w') \<and>
    (\<forall>s. pc s = 0x8010 \<longrightarrow> a64_run (word_at (w_mem w')) 1 s = Some (s\<lparr>pc := 0x9800\<rparr>))"
proof -
  have n: "cHookMaxOverwriteSize 1 = 2" by (simp add: cHookMaxOverwriteSize_def)
  have "relocatable (word_at (w_mem (example_world nop_memory)) (site example_module 16)) (site example_module 16) 0x9000"
    by code_simp
  then have r: "relocatable (word_at (w_mem (example_world nop_memory)) (site example_module 16)) (site example_module 16) 0x9000" .
  have win: "window example_module 16 (cHookMaxOverwriteSize 1)" by (simp only: n) (simp add: example_window)
  show ?thesis
    using trampoline_hook_works [where backup = "instr_buffer 5", OF example_mapped win le_refl example_branch_site(2,4-7) r]
    unfolding n example_branch_site(1) by blast
qed

lemma reinstalled_backup_calls_hook_witness:
  "\<exists>out. trampoline_installAtOffset None 1 0x9000 0x9800 example_module 16
      (instr_buffer 5, hook_new 2\<lparr>mOrigInstrs := [1, 1]\<rparr>,
       example_world (patch 0x8010 [makeB 0x8010 0x9800] nop_memory)) =
    Inr (Inl ResultAlreadyInstalled, out, hook_new 2\<lparr>mOrigInstrs := [1, 1]\<rparr>,
      example_world (patch 0x8010 [makeB 0x8010 0x9800] nop_memory))"
proof -
  let ?w = "example_world (patch 0x8010 [makeB 0x8010 0x9800] nop_memory)"
  have "word_at (w_mem ?w) (site example_module 16) = makeB (site example_module 16) 0x9800"
    by code_simp
  moreover have "hook_isInstalled (hook_new 2\<lparr>mOrigInstrs := [1, 1]\<rparr>)" by (simp add: hook_isInstalled_def)
  moreover have "window example_module 16 (cHookMaxOverwriteSize 1)"
    by (rule example_window) (simp, simp add: cHookMaxOverwriteSize_def)
  ultimately show ?thesis
    using reinstalled_backup_calls_hook [where backup = "instr_buffer 5", OF example_mapped _ le_refl example_branch_site(2-7)]
    by blast
qed

section \<open>Assembled blocks\<close>

lemma length_block_assemble: "block_assemble is args a = Inr ws \<Longrightarrow> length ws = length is"
  by (induction "is" arbitrary: a ws) auto

text \<open>
  C39: an uninstallable block is written like a hook, and removing it restores the memory; except
  at offset zero, the start of the module, where it takes itself for not installed and stays.
\<close>

theorem block_removal_restores_unless_at_start:
  assumes m: "mapped (w_maps w) m" and win: "window m off (length (ab_instrs b))"
    and ws: "block_assemble (ab_instrs b) (ab_args b) (site m off) = Inr ws"
    and b: "ab_uninstallable b" "\<not> block_isInstalled b"
  shows "\<exists>b' w'. block_tryInstallAtOffset None m off (b, w) = Inr (Inr (), b', w') \<and>
    w_mem w' = patch (site m off) ws (w_mem w) \<and>
    (if off = 0 then block_uninstall None (b', w') = Inr (Inl ResultNotInstalled, b', w')
     else \<exists>b'' w''. block_uninstall None (b', w') = Inr (Inr (), b'', w'') \<and> w_mem w'' = w_mem w)"
proof -
  let ?a = "site m off" and ?n = "length (ab_instrs b)"
  have len: "length ws = ?n" by (rule length_block_assemble [OF ws])
  obtain w' where w': "writeRo None m off (bytes_of_instrs ws) w = (Inr (), w')" "w_maps w' = w_maps w"
      "w_mem w' = patch ?a ws (w_mem w)"
    using writeRo_window [OF m win, of ws] len by auto
  define b' where "b' = b\<lparr>ab_orig := words_at ?a ?n (w_mem w), ab_offset := off, ab_module := Some m\<rparr>"
  have 1: "block_tryInstallAtOffset None m off (b, w) = Inr (Inr (), b', w')"
    using ws w'(1) b load_window [OF m win] by (simp add: block_tryInstallAtOffset_def Let_def site_mod_range b'_def)
  have "\<exists>b'' w''. block_uninstall None (b', w') = Inr (Inr (), b'', w'') \<and> w_mem w'' = w_mem w" if "off \<noteq> 0"
  proof -
    obtain w'' where w'': "writeRo None m off (bytes_of_instrs (words_at ?a ?n (w_mem w))) w' = (Inr (), w'')"
        "w_mem w'' = patch ?a (words_at ?a ?n (w_mem w)) (w_mem w')"
      using writeRo_window [of w' m off ?n "words_at ?a ?n (w_mem w)"] m win w'(2) by (auto simp: code.fetch_length)
    have "w_mem w'' = w_mem w"
      unfolding w''(2) w'(3) by (rule code.put_back [OF window_fits [OF m win]]) (simp add: len)
    then show ?thesis using that w''(1) b(1)
      by (simp add: block_uninstall_def Let_def b'_def block_isInstalled_def)
  qed
  moreover have "block_uninstall None (b', w') = Inr (Inl ResultNotInstalled, b', w')" if "off = 0"
    using that b(1) by (simp add: block_uninstall_def Let_def b'_def block_isInstalled_def)
  ultimately show ?thesis using 1 w'(3) by auto
qed

lemma block_removal_restores_unless_at_start_witness:
  "\<exists>b' w'. block_tryInstallAtOffset None example_module 0
      (\<lparr>ab_instrs = brIpExpr, ab_args = [], ab_uninstallable = True, ab_module = None, ab_offset = 0, ab_orig = [0]\<rparr>,
       example_world (\<lambda>p. 1)) = Inr (Inr (), b', w') \<and>
    block_uninstall None (b', w') = Inr (Inl ResultNotInstalled, b', w')"
proof -
  let ?b = "\<lparr>ab_instrs = brIpExpr, ab_args = [], ab_uninstallable = True, ab_module = None, ab_offset = 0, ab_orig = [0]\<rparr>"
  have "block_assemble (ab_instrs ?b) (ab_args ?b) (site example_module 0) = Inr [0xD61F0200]"
    unfolding block_eqs by code_simp
  moreover have "window example_module 0 (length (ab_instrs ?b))" by (simp add: block_eqs example_window)
  moreover have "ab_uninstallable ?b" "\<not> block_isInstalled ?b" by (simp_all add: block_isInstalled_def)
  ultimately show ?thesis
    using block_removal_restores_unless_at_start [OF example_mapped [of "\<lambda>p. 1"], of 0 ?b] by auto
qed

end
