(* ===== verification/RoProps.thy ===== *)
theory RoProps
  imports HookMain
begin

text \<open>
  Finding modules and room for their second mapping (\<^verbatim>\<open>hk/ro/RoModule.cpp\<close>, \<^verbatim>\<open>hk/ro/RoUtil.cpp\<close>,
  \<^verbatim>\<open>hk/hook/MapUtil.cpp\<close>).
\<close>

section \<open>The ranges of a module\<close>

text \<open>
  C24: for a module that is laid out as code, read-only data, perhaps more read-only regions, and
  data, \<^verbatim>\<open>findRanges\<close> finds the three ranges; but \<^verbatim>\<open>range()\<close> adds up their sizes, so it ends
  before the data does by exactly the size of the regions between.
\<close>

theorem findRanges_finds_ranges:
  assumes lay: "layout_at query (m_Base m) ([(tn, MemoryPermission_ReadExecute), (rn, MemoryPermission_Read)] @
      List.map (\<lambda>n. (n, MemoryPermission_Read)) gaps @ [(dn, MemoryPermission_ReadWrite)])"
  defines "m' \<equiv> m\<lparr>mTextRange := \<lparr>mStart = m_Base m, mSize = tn\<rparr>,
      mRodataRange := \<lparr>mStart = m_Base m + tn, mSize = rn\<rparr>,
      mDataRange := \<lparr>mStart = m_Base m + tn + rn + sum_list gaps, mSize = dn\<rparr>\<rparr>"
  shows "findRanges query m = Some (Inr (Inr (), m')) \<and>
    range_end (mod_range m') = range_end (mDataRange m') - sum_list gaps"
proof
  have perms: "MemoryPermission_ReadExecute \<noteq> MemoryPermission_Read" "MemoryPermission_ReadWrite \<noteq> MemoryPermission_Read"
    by (simp_all add: MemoryPermission_ReadExecute_def MemoryPermission_Read_def MemoryPermission_ReadWrite_def)
  obtain s1 s2 where q: "query (m_Base m) = Inr \<lparr>mi_base = m_Base m, mi_size = tn, mi_state = s1, mi_perm = MemoryPermission_ReadExecute\<rparr>"
      "query (m_Base m + tn) = Inr \<lparr>mi_base = m_Base m + tn, mi_size = rn, mi_state = s2, mi_perm = MemoryPermission_Read\<rparr>"
    using lay by auto
  define ro where "ro = \<lparr>mi_base = m_Base m + tn, mi_size = rn, mi_state = s2, mi_perm = MemoryPermission_Read\<rparr>"
  obtain s3 where "skip_readonly query ro = Some (Inr \<lparr>mi_base = m_Base m + tn + rn + sum_list gaps, mi_size = dn,
      mi_state = s3, mi_perm = MemoryPermission_ReadWrite\<rparr>)"
    using skip_readonly_layout [of ro query gaps dn MemoryPermission_ReadWrite] lay perms by (auto simp: ro_def)
  then show "findRanges query m = Some (Inr (Inr (), m'))"
    using q by (simp add: findRanges_def findRanges_data_def range_of_info_def Let_def ro_def [symmetric] m'_def)
      (simp add: ro_def)
  show "range_end (mod_range m') = range_end (mDataRange m') - sum_list gaps"
    by (simp add: m'_def range_end_def mod_range_def)
qed

definition example_query :: "u64 \<Rightarrow> MemoryInfo res" where
  "example_query a =
    (if a = 0x8000 then Inr \<lparr>mi_base = a, mi_size = 0x1000, mi_state = 3, mi_perm = MemoryPermission_ReadExecute\<rparr>
     else if a = 0x9000 \<or> a = 0xA000 then Inr \<lparr>mi_base = a, mi_size = 0x1000, mi_state = 3, mi_perm = MemoryPermission_Read\<rparr>
     else Inr \<lparr>mi_base = a, mi_size = 0x2000, mi_state = 4, mi_perm = MemoryPermission_ReadWrite\<rparr>)"

lemma findRanges_finds_ranges_witness:
  "\<exists>m'. findRanges example_query example_module = Some (Inr (Inr (), m')) \<and>
    range_end (mDataRange m') = 0xD000 \<and> range_end (mod_range m') = 0xC000"
proof -
  have "layout_at example_query (m_Base example_module) ([(0x1000, MemoryPermission_ReadExecute), (0x1000, MemoryPermission_Read)] @
      List.map (\<lambda>n. (n, MemoryPermission_Read)) [0x1000] @ [(0x2000, MemoryPermission_ReadWrite)])"
    by (simp add: example_query_def example_module_def)
  from findRanges_finds_ranges [OF this] show ?thesis
    by (simp add: range_end_def mod_range_def) (simp add: example_module_def)
qed

section \<open>The module of an address\<close>

text \<open>
  the first address behind a module counts as the module's.  When the next module follows
  immediately, its first instruction is attributed to the one before it, and hooking it by
  address is refused as out of range.
\<close>

theorem first_instruction_belongs_to_predecessor:
  assumes m: "mapped (w_maps w) m" and adj: "mStart (mod_range m2) = range_end (mod_range m)"
    and data: "0 < mSize (mDataRange m)" "unat (mSize (mTextRange m)) + unat (mSize (mRodataRange m)) +
      unat (mSize (mDataRange m)) + unat (mStart (mTextRange m)) < 2 ^ 62"
    and h: "\<not> hook_isInstalled h" and len: "length is < 2 ^ 32"
  shows "getModuleContaining (m # m2 # ms) (mStart (mod_range m2)) = Some m \<and>
    hookops_installAtPtr (\<lambda>module off st. Inr (hook_installAtOffset None module off is st)) (m # m2 # ms)
      (mStart (mod_range m2)) (h, w) = Inr (Inl ResultOutOfRange, hook_clear h, w)"
proof
  let ?ts = "mStart (mTextRange m)" and ?n = "mSize (mod_range m)" and ?b = "mStart (mod_range m2)"
  have u: "unat ?n = unat (mSize (mTextRange m)) + unat (mSize (mRodataRange m)) + unat (mSize (mDataRange m))"
    using data(2) by (simp add: mod_range_def unat_add_nowrap)
  have b: "?b = ?ts + ?n" unfolding adj by (simp add: range_end_def mod_range_def)
  have "?ts \<le> ?b" unfolding b using data(2) u by (simp add: word_le_nat_alt unat_add_nowrap)
  then show found: "getModuleContaining (m # m2 # ms) ?b = Some m"
    using adj by (simp add: mod_range_def range_end_def)
  have out: "writeRo None m ?n src w = (Inl ResultOutOfRange, w)" if src: "length src < 2 ^ 62" for src
  proof -
    have m': "mStart (mRodataRange m) = ?ts + mSize (mTextRange m)" "mStart (mTextRwMapping m) \<noteq> 0"
      "mStart (mRodataRwMapping m) \<noteq> 0"
      using m by (simp_all add: mapped_def Let_def)
    have "unat (range_end (mRodataRange m)) < unat (?ts + ?n + of_nat (length src))" "?ts \<le> ?ts + ?n"
      using data u src by (simp_all add: range_end_def m' unat_add_nowrap offset_unat word_le_nat_alt word_less_nat_alt)
    then show ?thesis using m' by (simp add: writeRo_def Let_def word_le_nat_alt)
  qed
  have "0 < unat ?b" using data u by (simp add: b unat_add_nowrap word_less_nat_alt)
  then have "?b \<noteq> 0" by auto
  moreover have "?b - mStart (mod_range m) = ?n" unfolding b by (simp add: mod_range_def)
  moreover have "hook_clear (h\<lparr>mModule := M, mOffset := F, mOrigInstrs := load_instrs w A (length (mOrigInstrs h))\<rparr>) = hook_clear h" for M F A
    by (simp add: hook_clear_def fill_eq load_instrs_def)
  ultimately show "hookops_installAtPtr (\<lambda>module off st. Inr (hook_installAtOffset None module off is st)) (m # m2 # ms)
      ?b (h, w) = Inr (Inl ResultOutOfRange, hook_clear h, w)"
    using found h out [of "bytes_of_instrs is"] len
    by (simp add: hookops_installAtPtr_def hook_installAtOffset_def Let_def)
qed

lemma first_instruction_belongs_to_predecessor_witness:
  "getModuleContaining [example_module, example_module\<lparr>mTextRange := \<lparr>mStart = 0xB000, mSize = 0x1000\<rparr>\<rparr>] 0xB000 =
    Some example_module"
  using first_instruction_belongs_to_predecessor [OF example_mapped [of "\<lambda>p. 0"],
      of "example_module\<lparr>mTextRange := \<lparr>mStart = 0xB000, mSize = 0x1000\<rparr>\<rparr>" "hook_new 1" "[]" "[]"]
  by (simp add: range_end_def mod_range_def example_module_def)

section \<open>Room for the second mapping\<close>

text \<open>A drawn page that is good for a mapping of \<open>n\<close> bytes.\<close>

definition good_page :: "kernel \<Rightarrow> mappings \<Rightarrow> u64 \<Rightarrow> u64 \<times> u64 \<Rightarrow> u64 \<times> u64 \<Rightarrow> u64 \<Rightarrow> bool" where
  "good_page k maps n alias heap a \<longleftrightarrow>
     (\<exists>mi. k_QueryMemory k maps a = Inr mi \<and> mi_state mi = MemoryState_Free \<and> a + n \<le> mi_base mi + mi_size mi) \<and>
     \<not> regionsOverlap a n (fst alias) (snd alias) \<and> \<not> regionsOverlap a n (fst heap) (snd heap)"

lemma findMap_loop_first_good:
  assumes "\<And>a. \<exists>mi. k_QueryMemory k maps a = Inr mi"
    and "good_page k maps n alias heap (start + (k_random k (i + d) mod maxPage) * cPageSize)"
    and "\<And>j. j < d \<Longrightarrow> \<not> good_page k maps n alias heap (start + (k_random k (i + j) mod maxPage) * cPageSize)"
  shows "findMap_loop k maps n start maxPage alias heap i =
    Some (Inr (start + (k_random k (i + d) mod maxPage) * cPageSize, Suc (i + d)))"
  using assms(2,3)
proof (induction d arbitrary: i)
  case 0
  then show ?case by (subst findMap_loop.simps) (auto simp: good_page_def Let_def)
next
  case (Suc d)
  have bad: "\<not> good_page k maps n alias heap (start + (k_random k i mod maxPage) * cPageSize)"
    using Suc.prems(2) [of 0] by simp
  obtain mi where mi: "k_QueryMemory k maps (start + (k_random k i mod maxPage) * cPageSize) = Inr mi"
    using assms(1) by blast
  have "findMap_loop k maps n start maxPage alias heap i = findMap_loop k maps n start maxPage alias heap (Suc i)"
    using bad mi by (subst findMap_loop.simps) (auto simp: good_page_def Let_def)
  moreover have "findMap_loop k maps n start maxPage alias heap (Suc i) =
      Some (Inr (start + (k_random k (Suc i + d) mod maxPage) * cPageSize, Suc (Suc i + d)))"
  proof (rule Suc.IH)
    show "good_page k maps n alias heap (start + (k_random k (Suc i + d) mod maxPage) * cPageSize)"
      using Suc.prems(1) by simp
    show "\<not> good_page k maps n alias heap (start + (k_random k (Suc i + j) mod maxPage) * cPageSize)" if "j < d" for j
      using Suc.prems(2) [of "Suc j"] that by simp
  qed
  ultimately show ?case by simp
qed

text \<open>
  C26: the search for room ends as soon as a good page is drawn, however many were drawn in vain;
  what it then returns is page-aligned, inside the region with the whole mapping, free, and apart
  from the alias region and the heap.
\<close>

theorem findMap_finds_free_room:
  assumes info: "k_GetInfo k ra = Inr start" "k_GetInfo k rs = Inr len"
      "k_GetInfo k AliasRegionAddress = Inr (fst alias)" "k_GetInfo k AliasRegionSize = Inr (snd alias)"
      "k_GetInfo k HeapRegionAddress = Inr (fst heap)" "k_GetInfo k HeapRegionSize = Inr (snd heap)"
    and query: "\<forall>a. \<exists>mi. k_QueryMemory k maps a = Inr mi"
    and region: "alignUpPage n + cPageSize \<le> len" "alignUpPage n < 2 ^ 60" "unat start + unat len < 2 ^ 64"
    and lucky: "\<exists>j\<ge>i. good_page k maps (alignUpPage n) alias heap
      (start + (k_random k j mod ((len - alignUpPage n) div cPageSize)) * cPageSize)"
  shows "\<exists>a j. findMap k maps n ra rs i = Some (Inr (a, j)) \<and> i < j \<and>
    good_page k maps (alignUpPage n) alias heap a \<and> (\<exists>p. a = start + p * cPageSize) \<and>
    unat start \<le> unat a \<and> unat a + unat (alignUpPage n) < unat start + unat len"
proof -
  let ?up = "alignUpPage n" and ?max = "(len - alignUpPage n) div cPageSize"
  let ?page = "\<lambda>j. start + (k_random k j mod ?max) * cPageSize"
  have c: "unat cPageSize = 4096" "cPageSize \<noteq> 0" by (simp_all add: cPageSize_def)
  have le: "unat ?up + 4096 \<le> unat len"
    using region(1,2) c by (simp add: word_le_nat_alt word_less_nat_alt unat_add_nowrap)
  then have max: "unat ?max = (unat len - unat ?up) div 4096"
    by (simp add: unat_div_distrib c unat_sub word_le_nat_alt)
  then have pos: "0 < unat ?max" using le by (simp add: div_greater_zero_iff)
  define d where "d = (LEAST d. good_page k maps ?up alias heap (?page (i + d)))"
  obtain j where "i \<le> j" "good_page k maps ?up alias heap (?page j)" using lucky by blast
  then have "good_page k maps ?up alias heap (?page (i + (j - i)))" by simp
  then have good: "good_page k maps ?up alias heap (?page (i + d))" unfolding d_def by (rule LeastI)
  have first: "\<not> good_page k maps ?up alias heap (?page (i + e))" if "e < d" for e
    using that unfolding d_def by (rule not_less_Least)
  have "findMap_loop k maps ?up start ?max alias heap i = Some (Inr (?page (i + d), Suc (i + d)))"
    using query by (intro findMap_loop_first_good good first) auto
  then have "findMap k maps n ra rs i = Some (Inr (?page (i + d), Suc (i + d)))"
    using info pos by (auto simp: findMap_def unwrap_def Let_def)
  moreover have "unat (k_random k (i + d) mod ?max) * 4096 + 4096 + unat ?up \<le> unat len"
  proof -
    have "unat (k_random k (i + d) mod ?max) + 1 \<le> (unat len - unat ?up) div 4096"
      using pos max by (simp add: unat_mod_distrib Suc_le_eq)
    then show ?thesis using le by linarith
  qed
  then have "unat (?page (i + d)) = unat start + unat (k_random k (i + d) mod ?max) * 4096"
    "unat (k_random k (i + d) mod ?max) * 4096 + unat ?up < unat len"
    using region(3) c by (simp_all add: unat_word_ariths)
  ultimately show ?thesis using good by (intro exI [of _ "?page (i + d)"] exI [of _ "Suc (i + d)"]) auto
qed

text \<open>A kernel with an address region of 16 pages, all of it free but the first, and no heap.\<close>

definition example_kernel :: kernel where
  "example_kernel = \<lparr>k_GetInfo = (\<lambda>t. case t of AslrRegionAddress \<Rightarrow> Inr 0x10000 | AslrRegionSize \<Rightarrow> Inr 0x10000 | _ \<Rightarrow> Inr 0),
     k_QueryMemory = (\<lambda>maps a. if a < 0x11000
       then Inr \<lparr>mi_base = 0x10000, mi_size = 0x1000, mi_state = 3, mi_perm = 5\<rparr>
       else Inr \<lparr>mi_base = 0x11000, mi_size = 0x100000, mi_state = 0, mi_perm = 0\<rparr>),
     k_getProcessHandle = Inr 1, k_MapProcessMemory = (\<lambda>maps d h s n. Inr ()), k_random = of_nat\<rparr>"

lemma findMap_finds_free_room_witness:
  "\<exists>a j. findMap example_kernel [] 0x1800 AslrRegionAddress AslrRegionSize 0 = Some (Inr (a, j)) \<and>
    unat (0x10000 :: u64) \<le> unat a \<and> unat a + 0x2000 < 0x20000"
proof -
  have up: "alignUpPage 0x1800 = 0x2000" by code_simp
  have "good_page example_kernel [] (alignUpPage 0x1800) (0, 0) (0, 0)
      (0x10000 + (k_random example_kernel 1 mod ((0x10000 - alignUpPage 0x1800) div cPageSize)) * cPageSize)"
    by (simp add: up good_page_def example_kernel_def cPageSize_def MemoryState_Free_def regionsOverlap_def)
  then have "\<exists>j\<ge>0. good_page example_kernel [] (alignUpPage 0x1800) (0, 0) (0, 0)
      (0x10000 + (k_random example_kernel j mod ((0x10000 - alignUpPage 0x1800) div cPageSize)) * cPageSize)" by blast
  moreover have "\<forall>a. \<exists>mi. k_QueryMemory example_kernel [] a = Inr mi" by (simp add: example_kernel_def)
  moreover have "k_GetInfo example_kernel AslrRegionAddress = Inr 0x10000" "k_GetInfo example_kernel AslrRegionSize = Inr 0x10000"
    "k_GetInfo example_kernel AliasRegionAddress = Inr (fst (0, 0))" "k_GetInfo example_kernel AliasRegionSize = Inr (snd (0, 0))"
    "k_GetInfo example_kernel HeapRegionAddress = Inr (fst (0, 0))" "k_GetInfo example_kernel HeapRegionSize = Inr (snd (0, 0))"
    by (simp_all add: example_kernel_def)
  moreover have "alignUpPage 0x1800 + cPageSize \<le> 0x10000" "alignUpPage 0x1800 < 2 ^ 60"
    "unat (0x10000 :: u64) + unat (0x10000 :: u64) < 2 ^ 64"
    by (simp_all add: up cPageSize_def)
  ultimately obtain a j where "findMap example_kernel [] 0x1800 AslrRegionAddress AslrRegionSize 0 = Some (Inr (a, j))"
    "unat (0x10000 :: u64) \<le> unat a" "unat a + unat (alignUpPage 0x1800) < unat (0x10000 :: u64) + unat (0x10000 :: u64)"
    using findMap_finds_free_room [of example_kernel AslrRegionAddress "0x10000" AslrRegionSize "0x10000" "(0, 0)" "(0, 0)" "[]"
        "0x1800" 0] by blast
  then show ?thesis by (intro exI [of _ a] exI [of _ j]) (simp add: up)
qed

end
