(* ===== verification/RoInit.thy ===== *)
theory RoInit
  imports RoMem Algo
begin

text \<open>
  Collecting the modules of the process at start (\<^verbatim>\<open>RoUtil::initModuleList\<close>, \<^verbatim>\<open>hk/ro/RoUtil.cpp\<close>):
  they are sorted by address, and each gets its ranges, its writable mapping and its build id.
  The logging is not modelled.  The comparison aborts for a module at address zero with the same
  result as the check in the loop, which is the one modelled.
\<close>

definition fresh_module :: "u64 \<Rightarrow> RoModule" where
  "fresh_module base = (let r = \<lparr>mStart = 0, mSize = 0\<rparr> in
     \<lparr>m_Base = base, mTextRange = r, mRodataRange = r, mDataRange = r, mTextRwMapping = r,
       mRodataRwMapping = r, mBuildId = 0\<rparr>)"

definition initModule :: "kernel \<Rightarrow> RoModule \<Rightarrow> world \<Rightarrow> (RoModule \<times> world) run option" where
  "initModule k m w =
     (if m_Base m = 0 then Some (Inl (Abort ''RtldModuleInvalid''))
      else case findRanges (k_QueryMemory k (w_maps w)) m of
        None \<Rightarrow> None
      | Some (Inl e) \<Rightarrow> Some (Inl e)
      | Some (Inr (Inl rc, m)) \<Rightarrow> Some (Inl (Abort ''findRanges failed''))
      | Some (Inr (Inr _, m)) \<Rightarrow>
          (case mapRw k m w of
             None \<Rightarrow> None
           | Some (Inl e) \<Rightarrow> Some (Inl e)
           | Some (Inr (Inl rc, m, w)) \<Rightarrow> Some (Inl (Abort ''mapRw failed''))
           | Some (Inr (Inr _, m, w)) \<Rightarrow>
               (case findBuildId w m of
                  None \<Rightarrow> None
                | Some (rc, m) \<Rightarrow> Some (Inr (m, w)))))"

fun initModules_loop :: "kernel \<Rightarrow> RoModule list \<Rightarrow> world \<Rightarrow> (RoModule list \<times> world) run option" where
  "initModules_loop k [] w = Some (Inr ([], w))"
| "initModules_loop k (m # ms) w =
     (case initModule k m w of
        None \<Rightarrow> None
      | Some (Inl e) \<Rightarrow> Some (Inl e)
      | Some (Inr (m, w)) \<Rightarrow>
          (case initModules_loop k ms w of
             None \<Rightarrow> None
           | Some (Inl e) \<Rightarrow> Some (Inl e)
           | Some (Inr (ms, w)) \<Rightarrow> Some (Inr (m # ms, w))))"

text \<open>
  \<open>nnModules\<close> is the system's list, each module with the address of its object and its base, and \<open>self\<close>
  the address of the program's own object; its index is found on the way.  The array of modules
  has 13 places, and the loop that fills it does not look.
\<close>

definition cMaxModuleNum :: nat where "cMaxModuleNum = 1 + 1 + 10 + 1"

definition initModuleList :: "kernel \<Rightarrow> u64 \<Rightarrow> (u64 \<times> u64) list \<Rightarrow> world \<Rightarrow> ((RoModule list \<times> nat) \<times> world) run option" where
  "initModuleList k self nnModules w =
     (if cMaxModuleNum < length nnModules then Some (Inl (Undefined ''sModules''))
      else let sorted = insertionSort (\<lambda>a b. m_Base (snd a) < m_Base (snd b))
                          (List.map (\<lambda>(nnModule, base). (nnModule, fresh_module base)) nnModules) in
      case initModules_loop k (List.map snd sorted) w of
        None \<Rightarrow> None
      | Some (Inl e) \<Rightarrow> Some (Inl e)
      | Some (Inr (ms, w)) \<Rightarrow>
          (case List.find (\<lambda>i. fst (sorted ! i) = self) (rev [0..<length ms]) of
             None \<Rightarrow> Some (Inl (Abort ''AssertionFailed''))
           | Some idx \<Rightarrow> Some (Inr ((ms, idx), w))))"

section \<open>What is left after it\<close>

lemma findRanges_base: "findRanges query m = Some (Inr (r, m')) \<Longrightarrow> m_Base m' = m_Base m"
proof -
  have d: "m_Base m' = m_Base m" if "findRanges_data query ro m = Some (Inr (r, m'))" for ro m
    using that by (auto simp: findRanges_data_def Let_def split: option.splits sum.splits if_splits)
  show "findRanges query m = Some (Inr (r, m')) \<Longrightarrow> ?thesis"
    by (auto simp: findRanges_def Let_def split: sum.splits if_splits dest!: d)
qed

lemma mapRw_base: "mapRw k m w = Some (Inr (r, m', w')) \<Longrightarrow> m_Base m' = m_Base m"
  by (auto simp: mapRw_def Let_def split: option.splits sum.splits prod.splits if_splits)

lemma findBuildId_base: "findBuildId w m = Some (r, m') \<Longrightarrow> m_Base m' = m_Base m"
  by (auto simp: findBuildId_def Let_def split: option.splits)

lemma initModule_base:
  assumes "initModule k m w = Some (Inr (m', w'))"
  shows "m_Base m' = m_Base m" "m_Base m \<noteq> 0"
proof -
  show nz: "m_Base m \<noteq> 0" using assms by (auto simp: initModule_def)
  obtain m1 where 1: "findRanges (k_QueryMemory k (w_maps w)) m = Some (Inr (Inr (), m1))"
    using assms nz by (auto simp: initModule_def split: option.splits sum.splits prod.splits)
  obtain m2 where 2: "mapRw k m1 w = Some (Inr (Inr (), m2, w'))"
      "\<exists>rc. findBuildId w' m2 = Some (rc, m')"
    using assms nz 1 by (auto simp: initModule_def split: option.splits sum.splits prod.splits)
  show "m_Base m' = m_Base m"
    using 2(2) by (auto simp: findRanges_base [OF 1] mapRw_base [OF 2(1)] dest!: findBuildId_base)
qed

lemma initModules_bases:
  "initModules_loop k ms w = Some (Inr (ms', w')) \<Longrightarrow> List.map m_Base ms' = List.map m_Base ms"
proof (induction ms arbitrary: w ms' w')
  case (Cons m ms)
  then obtain m1 w1 where 1: "initModule k m w = Some (Inr (m1, w1))"
    by (auto split: option.splits sum.splits)
  with Cons.prems obtain ms1 where "initModules_loop k ms w1 = Some (Inr (ms1, w'))" "ms' = m1 # ms1"
    by (auto split: option.splits sum.splits)
  then show ?case using Cons.IH initModule_base(1) [OF 1] by simp
qed simp

text \<open>Sorting by a key sorts the keys.\<close>

lemma map_insertionSort_shift:
  "k < length xs \<Longrightarrow> List.map f (insertionSort_shift (\<lambda>a b. f a < f b) r k xs) =
    insertionSort_shift (<) (f r) k (List.map f xs)"
  by (induction k arbitrary: xs) (simp_all add: map_update)

lemma map_insertionSort:
  "List.map f (insertionSort (\<lambda>a b. f a < f b) xs) = insertionSort (<) (List.map f xs)"
proof -
  have "List.map f (foldl (\<lambda>xs i. insertionSort_shift (\<lambda>a b. f a < f b) (xs ! i) i xs) ys is) =
      foldl (\<lambda>xs i. insertionSort_shift (<) (xs ! i) i xs) (List.map f ys) is"
    if "\<forall>i\<in>set is. i < length ys" for "is" ys
    using that by (induction "is" arbitrary: ys) (simp_all add: map_insertionSort_shift)
  then show ?thesis by (simp add: insertionSort_def)
qed

lemma insertionSort_set: "set (insertionSort cmp xs) = set xs"
  by (metis insertionSort_mset set_mset_mset)

text \<open>
  C25: when the list of modules is set up, it has every loaded module once, in the order of their
  addresses, whatever order the system's list has them in, and the program's own module is the
  one at the recorded index.  There are at most 13 of them.
\<close>

theorem modules_sorted_by_address:
  assumes "initModuleList k self nnModules w = Some (Inr ((ms, idx), w'))"
  shows "List.map m_Base ms = sort (List.map snd nnModules) \<and> length ms \<le> 13 \<and> idx < length ms \<and>
    (self, m_Base (ms ! idx)) \<in> set nnModules"
proof -
  let ?f = "\<lambda>(nnModule, base). (nnModule, fresh_module base)"
  let ?s = "insertionSort (\<lambda>a b. m_Base (snd a) < m_Base (snd b)) (List.map ?f nnModules)"
  have r: "initModules_loop k (List.map snd ?s) w = Some (Inr (ms, w'))" and n: "length nnModules \<le> 13"
    and "List.find (\<lambda>i. fst (?s ! i) = self) (rev [0..<length ms]) = Some idx"
    using assms by (auto simp: initModuleList_def cMaxModuleNum_def Let_def split: option.splits sum.splits if_splits)
  then have idx: "idx < length ms" "fst (?s ! idx) = self" by (auto simp: find_Some_iff rev_nth)
  have bases: "List.map m_Base ms = List.map (\<lambda>x. m_Base (snd x)) ?s"
    using initModules_bases [OF r] by (simp add: comp_def)
  have fresh: "List.map (\<lambda>x. m_Base (snd x)) (List.map ?f nnModules) = List.map snd nnModules"
    by (simp add: fresh_module_def Let_def comp_def split_def)
  have sorted: "List.map m_Base ms = sort (List.map snd nnModules)"
    unfolding bases using map_insertionSort [of "\<lambda>x. m_Base (snd x)" "List.map ?f nnModules"]
    by (simp only: fresh insertionSort_less)
  then have len: "length ms = length nnModules" by (metis length_map length_sort)
  have "length ?s = length ms" using bases by (metis length_map)
  then have "?s ! idx \<in> set ?s" "m_Base (ms ! idx) = m_Base (snd (?s ! idx))"
    using idx(1) bases by (simp, metis (no_types, lifting) nth_map)
  moreover from this(1) have "?s ! idx \<in> ?f ` set nnModules"
    using insertionSort_set [of "\<lambda>a b. m_Base (snd a) < m_Base (snd b)" "List.map ?f nnModules"]
    by (simp only: list.set_map)
  then obtain p b where "(p, b) \<in> set nnModules" "?s ! idx = (p, fresh_module b)" by fast
  ultimately have "(self, m_Base (ms ! idx)) \<in> set nnModules"
    using idx(2) by (simp add: fresh_module_def Let_def)
  then show ?thesis using sorted len n idx(1) by simp
qed

text \<open>Two modules of three pages each, and a kernel with free pages for their mappings.\<close>

definition two_modules_kernel :: kernel where
  "two_modules_kernel = \<lparr>
     k_GetInfo = (\<lambda>t. case t of AslrRegionAddress \<Rightarrow> Inr 0x100000 | AslrRegionSize \<Rightarrow> Inr 0x100000 | _ \<Rightarrow> Inr 0),
     k_QueryMemory = (\<lambda>maps a. Inr (if 0x100000 \<le> a then \<lparr>mi_base = 0x100000, mi_size = 0x100000, mi_state = 0, mi_perm = 0\<rparr>
       else \<lparr>mi_base = a, mi_size = 0x1000, mi_state = 3,
         mi_perm = (if a = 0x8000 \<or> a = 0x18000 then 5 else if a = 0x9000 \<or> a = 0x19000 then 1 else 3)\<rparr>)),
     k_getProcessHandle = Inr 1, k_MapProcessMemory = (\<lambda>maps d h s n. Inr ()), k_random = (\<lambda>n. of_nat (4 * n))\<rparr>"

definition gnu_world :: world where
  "gnu_world = \<lparr>w_mem = (\<lambda>a. [0x47, 0x4E, 0x55, 0] ! unat (a AND 3)), w_maps = [], w_rand = 0, w_cleared = []\<rparr>"

lemma modules_sorted_by_address_witness:
  "\<exists>ms w'. initModuleList two_modules_kernel 0x300 [(0x400, 0x18000), (0x300, 0x8000)] gnu_world = Some (Inr ((ms, 0), w')) \<and>
    List.map m_Base ms = [0x8000, 0x18000]"
proof -
  have "case initModuleList two_modules_kernel 0x300 [(0x400, 0x18000), (0x300, 0x8000)] gnu_world of
      Some (Inr ((ms, idx), w')) \<Rightarrow> idx = 0 | _ \<Rightarrow> False"
    by code_simp
  then obtain ms w' where r: "initModuleList two_modules_kernel 0x300 [(0x400, 0x18000), (0x300, 0x8000)] gnu_world = Some (Inr ((ms, 0), w'))"
    by (auto split: option.splits sum.splits)
  then show ?thesis using modules_sorted_by_address [OF r] by simp
qed

end
