(* ===== verification/SailRun.thy ===== *)
theory SailRun
  imports RoMem RtldElf Algo Hash
begin

text \<open>
  The symbol database at run time (\<^verbatim>\<open>hk/sail/detail.h\<close>, \<^verbatim>\<open>hk/sail/detail.cpp\<close>, \<^verbatim>\<open>hk/sail/init.cpp\<close>).
  An entry says how a symbol of the patched program is found: at an offset of a module, through the
  dynamic linker, by a search for a block of bytes, from the operands of two instructions, relative to
  another symbol, or as the first of several candidates that is found. An entry remembers the address
  it has given. The entries are kept by their offset from the start of the database, 32 bytes each.

  The functions that search for a block of bytes are generated with the database; they, the lookup in
  the dynamic linker and the reader of instruction operands are arguments. A function that leaves its
  \<^verbatim>\<open>out\<close> parameter alone returns it as it was; \<open>junk\<close> is what an uninitialized local holds.
\<close>

section \<open>The database\<close>

datatype SymbolData =
    Immediate (sy_versionsBitset: u64) (sy_moduleIdx: u32) (sy_offsetIntoModule: u32)
  | Dynamic (sy_lookupNameRtldHash: u64) (sy_lookupNameMurmur: u32) (sy_lookupNameDjb2: u32)
  | DataBlock (sy_offsetToSearchFunction: u64) (sy_dbModuleIdx: u8) (sy_versionBoundaryType: u8)
      (sy_versionBoundary: u8) (sy_sectionLimit: u8) (sy_offsetToFoundBlock: u32)
  | ReadADRPGlobal (sy_adrpVersionsBitset: u64) (sy_adrpSrcNameMurmur: u32) (sy_offsetToLoInstr: u32)
  | Arithmetic (sy_addVersionsBitset: u64) (sy_addSrcNameMurmur: u32) (sy_addend: u32)
  | MultipleCandidate (sy_offsetToCandidates: u64) (sy_numCandidates: u64)

record SymbolEntry =
  sy_destNameMurmur :: u32
  sy_symbolPtrCache :: u64
  sy_data :: SymbolData

definition cSymbolEntrySize :: u64 where "cSymbolEntrySize = 32"

definition isCacheDisabled :: "SymbolEntry \<Rightarrow> bool" where
  "isCacheDisabled e \<longleftrightarrow> sy_symbolPtrCache e = 1"

fun isImmediate :: "SymbolData \<Rightarrow> bool" where
  "isImmediate (Immediate _ _ _) = True"
| "isImmediate _ = False"

text \<open>A module of the program, with the version that was recognized; \<open>-1\<close> for none.\<close>

record sail_module = RoModule +
  mVersionIndex :: int
  mVersionName :: "u8 list"
  mVersionNameHash :: u32

record sail_env =
  se_modules :: "sail_module option list"  \<comment> \<open>\<^verbatim>\<open>gModules\<close>\<close>
  se_numSymbols :: u64
  se_search :: "u64 \<Rightarrow> u64 \<Rightarrow> u64 \<Rightarrow> u64"
  se_lookup :: "u64 \<Rightarrow> u32 \<Rightarrow> u32 \<Rightarrow> u64"
  se_readADRPGlobal :: "u64 \<Rightarrow> u32 \<Rightarrow> u64 res"
  se_junk :: u64

type_synonym sail_db = "u64 \<Rightarrow> SymbolEntry"

definition getVersionIndex :: "sail_module \<Rightarrow> int" where
  "getVersionIndex m = mVersionIndex m"

text \<open>
  The table of modules is read without a check; the database and the table are of one build, so an
  index behind its end, for which the model has no module either, does not occur.
\<close>

definition gModule :: "sail_env \<Rightarrow> u64 \<Rightarrow> sail_module option" where
  "gModule env i = (if unat i < length (se_modules env) then se_modules env ! unat i else None)"

text \<open>
  The shift amount is taken modulo 64, as the processor does; for a module whose version was not
  recognized it is -1, for which C++ leaves the shift undefined.
\<close>

definition isVersion :: "sail_module \<Rightarrow> u64 \<Rightarrow> bool" where
  "isVersion m versionsBitset \<longleftrightarrow> bit versionsBitset (nat (getVersionIndex m mod 64))"

definition gSymbol_offset :: "int \<Rightarrow> u64" where
  "gSymbol_offset idx = of_int idx * cSymbolEntrySize"

definition lookupSymbolByHash :: "sail_env \<Rightarrow> sail_db \<Rightarrow> u32 \<Rightarrow> u64 option run" where
  "lookupSymbolByHash env db nameMurmur =
     bindR (binarySearch (\<lambda>idx. sy_destNameMurmur (db (gSymbol_offset idx)))
              0 (sint (ucast (se_numSymbols env - 1) :: u32)) nameMurmur False)
       (\<lambda>idx. Inr (if idx \<noteq> - 1 then Some (gSymbol_offset idx) else None))"

section \<open>Applying an entry\<close>

definition section_range :: "u8 \<Rightarrow> sail_module \<Rightarrow> Range" where
  "section_range sectionLimit m =
     (if sectionLimit = 1 then mTextRange m
      else if sectionLimit = 2 then mRodataRange m
      else if sectionLimit = 3 then mDataRange m
      else mod_range (RoModule.truncate m))"

text \<open>The switch on the boundary falls through from its first case to its second.\<close>

definition outside_boundary :: "u8 \<Rightarrow> u8 \<Rightarrow> int \<Rightarrow> bool" where
  "outside_boundary boundaryType boundary loadedVer \<longleftrightarrow>
     (boundaryType = 1 \<and> (loadedVer \<ge> uint boundary \<or> loadedVer < uint boundary)) \<or>
     (boundaryType = 2 \<and> loadedVer < uint boundary)"

definition applyDataBlockSymbol ::
  "sail_env \<Rightarrow> bool \<Rightarrow> u64 \<Rightarrow> u8 \<Rightarrow> u8 \<Rightarrow> u8 \<Rightarrow> u8 \<Rightarrow> u32 \<Rightarrow> u64 \<Rightarrow> u64 run" where
  "applyDataBlockSymbol env abort searchFunction moduleIdx boundaryType boundary sectionLimit foundOffset out =
     (case gModule env (ucast moduleIdx) of
        None \<Rightarrow> Inl (Abort ''UnknownModule'')
      | Some module \<Rightarrow>
          if outside_boundary boundaryType boundary (getVersionIndex module) then Inr out
          else let range = section_range sectionLimit module;
                   found = se_search env searchFunction (mStart range) (mSize range)
            in abort_unless (abort \<longrightarrow> found \<noteq> 0) ''UnresolvedSymbol (DataBlock)''
                 (Inr (found + scast foundOffset)))"

definition applyDynamicSymbol :: "sail_env \<Rightarrow> bool \<Rightarrow> u64 \<Rightarrow> u32 \<Rightarrow> u32 \<Rightarrow> u64 run" where
  "applyDynamicSymbol env abort rtldHash murmur djb2 =
     (let found = se_lookup env rtldHash djb2 murmur
      in abort_unless (abort \<longrightarrow> found \<noteq> 0) ''UnresolvedSymbol (Dynamic)'' (Inr found))"

definition applyImmediateSymbol :: "sail_env \<Rightarrow> bool \<Rightarrow> u64 \<Rightarrow> u32 \<Rightarrow> u32 \<Rightarrow> u64 \<Rightarrow> u64 run" where
  "applyImmediateSymbol env abort versionsBitset moduleIdx offsetIntoModule out =
     (case gModule env (ucast moduleIdx) of
        None \<Rightarrow> Inl (Abort ''UnknownModule'')
      | Some module \<Rightarrow>
          if isVersion module versionsBitset
          then Inr (mStart (mod_range (RoModule.truncate module)) + ucast offsetIntoModule)
          else if abort then Inl (Abort ''UnresolvedSymbol (Immediate_WrongVersion)'') else Inr out)"

text \<open>Outcomes with the database after them; without a value the evaluation has not ended.\<close>

type_synonym applied = "(u64 \<times> sail_db) run option"

definition bindA :: "applied \<Rightarrow> (u64 \<Rightarrow> sail_db \<Rightarrow> applied) \<Rightarrow> applied" where
  "bindA r f = (case r of None \<Rightarrow> None | Some (Inl e) \<Rightarrow> Some (Inl e) | Some (Inr (v, db)) \<Rightarrow> f v db)"

text \<open>The loop over candidates, given how one is applied; it ends with the first that is not 0.\<close>

fun candidates_loop ::
  "(u64 \<Rightarrow> u64 \<Rightarrow> sail_db \<Rightarrow> applied) \<Rightarrow> bool \<Rightarrow> u64 list \<Rightarrow> u64 \<Rightarrow> sail_db \<Rightarrow> applied" where
  "candidates_loop app onlyImmediate [] out db = Some (Inr (out, db))"
| "candidates_loop app onlyImmediate (c # cs) out db =
     (if onlyImmediate \<and> \<not> isImmediate (sy_data (db c)) then candidates_loop app onlyImmediate cs out db
      else bindA (app c out db) (\<lambda>out db.
        if out \<noteq> 0 then Some (Inr (out, db)) else candidates_loop app onlyImmediate cs out db))"

definition candidate_offsets :: "u64 \<Rightarrow> u64 \<Rightarrow> u64 list" where
  "candidate_offsets start n = map (\<lambda>i. start + of_nat i * cSymbolEntrySize) [0..<unat n]"

definition applyMultipleCandidateSymbol ::
  "(u64 \<Rightarrow> u64 \<Rightarrow> sail_db \<Rightarrow> applied) \<Rightarrow> u64 \<Rightarrow> u64 \<Rightarrow> sail_db \<Rightarrow> applied" where
  "applyMultipleCandidateSymbol app offsetToCandidates numCandidates db =
     (let cs = candidate_offsets offsetToCandidates numCandidates in
      bindA (candidates_loop app True cs 0 db) (\<lambda>out db.
        if out \<noteq> 0 then Some (Inr (out, db))
        else bindA (candidates_loop app False cs out db) (\<lambda>out db.
          if out \<noteq> 0 then Some (Inr (out, db))
          else Some (Inl (Abort ''UnresolvedSymbol (Multiple)'')))))"

text \<open>The symbol that another is computed from, given how an entry is applied.\<close>

definition apply_source ::
  "sail_env \<Rightarrow> (u64 \<Rightarrow> u64 \<Rightarrow> sail_db \<Rightarrow> applied) \<Rightarrow> u32 \<Rightarrow> sail_db \<Rightarrow> applied" where
  "apply_source env app srcNameMurmur db =
     (case lookupSymbolByHash env db srcNameMurmur of
        Inl e \<Rightarrow> Some (Inl e)
      | Inr None \<Rightarrow> Some (Inl (Abort ''srcSym != nullptr''))
      | Inr (Some src) \<Rightarrow> app src (se_junk env) db)"

text \<open>
  \<^verbatim>\<open>SymbolEntry::apply\<close>. An entry may lead to others without end; the first argument bounds the depth.
\<close>

fun sail_apply :: "nat \<Rightarrow> sail_env \<Rightarrow> bool \<Rightarrow> u64 \<Rightarrow> u64 \<Rightarrow> sail_db \<Rightarrow> applied" where
  "sail_apply 0 env abort off out db = None"
| "sail_apply (Suc n) env abort off out db =
     (if \<not> isCacheDisabled (db off) \<and> sy_symbolPtrCache (db off) \<noteq> 0
      then Some (Inr (sy_symbolPtrCache (db off), db))
      else bindA
        (case sy_data (db off) of
           DataBlock f mi bt b sl fo \<Rightarrow>
             Some (map_sum id (\<lambda>v. (v, db)) (applyDataBlockSymbol env abort f mi bt b sl fo out))
         | Dynamic rh mh dh \<Rightarrow>
             Some (map_sum id (\<lambda>v. (v, db)) (applyDynamicSymbol env abort rh mh dh))
         | Immediate vs mi o' \<Rightarrow>
             Some (map_sum id (\<lambda>v. (v, db)) (applyImmediateSymbol env abort vs mi o' out))
         | ReadADRPGlobal vs src lo \<Rightarrow>
             bindA (apply_source env (sail_apply n env abort) src db) (\<lambda>at db.
               case se_readADRPGlobal env at lo of
                 Inr v \<Rightarrow> Some (Inr (v, db))
               | Inl r \<Rightarrow> if abort then Some (Inl (Abort ''ReadADRPGlobal symbol failed''))
                          else Some (Inr (out, db)))
         | Arithmetic vs src addend \<Rightarrow>
             bindA (apply_source env (sail_apply n env abort) src db) (\<lambda>at db.
               Some (Inr (at + scast addend, db)))
         | MultipleCandidate start num \<Rightarrow>
             applyMultipleCandidateSymbol (sail_apply n env False) start num db)
        (\<lambda>out db. Some (Inr (out,
           if isCacheDisabled (db off) then db
           else db(off := (db off)\<lparr>sy_symbolPtrCache := out\<rparr>)))))"

section \<open>Looking up a symbol\<close>

definition lookupSymbolFromDb_hash ::
  "nat \<Rightarrow> sail_env \<Rightarrow> u32 \<Rightarrow> bool \<Rightarrow> sail_db \<Rightarrow> applied" where
  "lookupSymbolFromDb_hash n env destHash abort db =
     (case lookupSymbolByHash env db destHash of
        Inl e \<Rightarrow> Some (Inl e)
      | Inr None \<Rightarrow> if abort then Some (Inl (Abort ''UnresolvedSymbol'')) else Some (Inr (0, db))
      | Inr (Some entry) \<Rightarrow> sail_apply n env True entry 0 db)"

definition lookupSymbolFromDb ::
  "nat \<Rightarrow> sail_env \<Rightarrow> u8 list \<Rightarrow> bool \<Rightarrow> sail_db \<Rightarrow> applied" where
  "lookupSymbolFromDb n env symbol abort db =
     lookupSymbolFromDb_hash n env (hashMurmur False symbol 0) abort db"

section \<open>Recognizing the versions of the modules\<close>

definition cBuildIdSize :: nat where "cBuildIdSize = 16"

fun strstr :: "u8 list \<Rightarrow> u8 list \<Rightarrow> bool" where
  "strstr [] needle \<longleftrightarrow> needle = []"
| "strstr (c # cs) needle \<longleftrightarrow> take (length needle) (c # cs) = needle \<or> strstr cs needle"

definition same_bytes :: "memory \<Rightarrow> u64 \<Rightarrow> u64 \<Rightarrow> nat \<Rightarrow> bool" where
  "same_bytes m a b n \<longleftrightarrow> list_all (\<lambda>i. m (a + of_nat i) = m (b + of_nat i)) [0..<n]"

text \<open>A record of the list of versions is a build id and a name of eight characters.\<close>

definition version_record :: "u64 \<Rightarrow> nat \<Rightarrow> u64" where
  "version_record buildIds v = buildIds + of_nat v * 24"

definition find_version :: "memory \<Rightarrow> u64 \<Rightarrow> nat \<Rightarrow> u64 \<Rightarrow> nat option" where
  "find_version m buildIds numVersions curBuildId =
     List.find (\<lambda>v. same_bytes m (version_record buildIds v) curBuildId cBuildIdSize) [0..<numVersions]"

text \<open>The module found so far, and the version if one is recognized, which ends the loop.\<close>

fun scan_modules ::
  "world \<Rightarrow> u8 list option \<Rightarrow> int \<Rightarrow> u64 \<Rightarrow> nat \<Rightarrow> nat \<Rightarrow> sail_module list \<Rightarrow> nat option \<Rightarrow>
     (nat option \<times> nat option) run option" where
  "scan_modules w mod0Name override buildIds numVersions idx [] slot = Some (Inr (slot, None))"
| "scan_modules w mod0Name override buildIds numVersions idx (module # modules) slot =
     (case getModuleName w (RoModule.truncate module) of
        None \<Rightarrow> None
      | Some (Inl e) \<Rightarrow> Some (Inl e)
      | Some (Inr moduleName) \<Rightarrow>
          Option.bind
            (case mod0Name of
               None \<Rightarrow> Some slot
             | Some pat \<Rightarrow>
                 if moduleName = 0 then Some slot
                 else map_option (\<lambda>nm. if strstr nm pat then Some idx else slot)
                        (cstr_at (load_byte w) moduleName))
            (\<lambda>slot.
               let slot = (if int idx = override then Some idx else slot) in
               if mBuildId module = 0
               then scan_modules w mod0Name override buildIds numVersions (Suc idx) modules slot
               else case find_version (load_byte w) buildIds numVersions (mBuildId module) of
                      Some v \<Rightarrow> Some (Inr (Some idx, Some v))
                    | None \<Rightarrow> scan_modules w mod0Name override buildIds numVersions (Suc idx) modules slot))"

definition set_version :: "world \<Rightarrow> u64 \<Rightarrow> nat \<Rightarrow> sail_module \<Rightarrow> sail_module" where
  "set_version w buildIds v module =
     (let name = map (\<lambda>i. load_byte w (version_record buildIds v + 16 + of_nat i)) [0..<8]
      in module\<lparr>mVersionIndex := int v, mVersionName := name @ [0],
           mVersionNameHash := hashMurmur False (name @ [0]) 0\<rparr>)"

text \<open>One round: the \<open>i\<close>-th entry of \<^verbatim>\<open>gVersions\<close>, which starts at \<open>gv\<close>.\<close>

definition load_version ::
  "world \<Rightarrow> u64 \<Rightarrow> nat \<Rightarrow> sail_module list \<times> nat option list \<Rightarrow> (sail_module list \<times> nat option list) run option" where
  "load_version w gv i st =
     (case st of (modules, slots) \<Rightarrow>
      let m = load_byte w;
          versionsOffset = ld32 m (gv + of_nat i * 8);
          nameOrIndex = ld32 m (gv + of_nat i * 8 + 4);
          override = (if bit nameOrIndex 16 then uint (nameOrIndex AND mask 4) else - 1)
      in Option.bind
           (if nameOrIndex = 0 \<or> override \<noteq> - 1 then Some None
            else map_option Some (cstr_at m (gv + ucast nameOrIndex)))
           (\<lambda>mod0Name.
              if versionsOffset = 0 then Some (Inr (modules, slots))
              else let versions = gv + ucast versionsOffset;
                       numVersions = unat (ld32 m versions);
                       buildIds = versions + 4
                in (case scan_modules w mod0Name override buildIds numVersions 0 modules (slots ! i) of
                      None \<Rightarrow> None
                    | Some (Inl e) \<Rightarrow> Some (Inl e)
                    | Some (Inr (slot, version)) \<Rightarrow>
                        Some (Inr
                          (case (slot, version) of
                             (Some idx, Some v) \<Rightarrow> modules[idx := set_version w buildIds v (modules ! idx)]
                           | _ \<Rightarrow> modules,
                           slots[i := slot])))))"

fun loadVersions ::
  "world \<Rightarrow> u64 \<Rightarrow> nat list \<Rightarrow> sail_module list \<times> nat option list \<Rightarrow>
     (sail_module list \<times> nat option list) run option" where
  "loadVersions w gv [] st = Some (Inr st)"
| "loadVersions w gv (i # is) st =
     (case load_version w gv i st of
        None \<Rightarrow> None
      | Some (Inl e) \<Rightarrow> Some (Inl e)
      | Some (Inr st) \<Rightarrow> loadVersions w gv is st)"

section \<open>Binding the program's symbols at its start\<close>

text \<open>
  The callback of \<^verbatim>\<open>loadSymbols\<close> for one relocation. The program's own symbol table and strings are
  read from memory; the database travels beside it.
\<close>

definition loadSymbol ::
  "nat \<Rightarrow> sail_env \<Rightarrow> DynamicData \<Rightarrow> u64 \<Rightarrow> u64 \<Rightarrow> memory \<times> sail_db \<Rightarrow> (memory \<times> sail_db) run option" where
  "loadSymbol n env data moduleStart entry st =
     (case st of (m, db) \<Rightarrow>
      let p = moduleStart + ld64 m entry;
          sym = read_Sym m (dd_dynsym data + ELF_R_SYM (ld64 m (entry + 8)) * sizeof_Sym)
      in if st_name sym = 0 then Some (Inr (m, db))
         else Option.bind (cstr_at m (dd_dynstr data + ucast (st_name sym))) (\<lambda>name.
           case lookupSymbolFromDb n env name (ELF_ST_BIND (st_info sym) \<noteq> STB_WEAK) db of
             None \<Rightarrow> None
           | Some (Inl e) \<Rightarrow> Some (Inl e)
           | Some (Inr (v, db)) \<Rightarrow> Some (Inr (st64 p v m, db))))"

definition loadSymbols ::
  "nat \<Rightarrow> sail_env \<Rightarrow> u64 \<Rightarrow> u64 \<Rightarrow> memory \<times> sail_db \<Rightarrow> (memory \<times> sail_db) run option" where
  "loadSymbols n env moduleStart dyn st =
     (case parseDynamic (fst st) moduleStart dyn of
        None \<Rightarrow> None
      | Some (Inl e) \<Rightarrow> Some (Inl e)
      | Some (Inr data) \<Rightarrow> forEachPltRelRela True fst data (\<lambda>_. loadSymbol n env data moduleStart) st)"

end
