(* ===== verification/SailDb.thy ===== *)
theory SailDb
  imports SailRun SailHash
begin

text \<open>
  The host tool's symbols (\<^verbatim>\<open>sail/include/symbol.h\<close>) and the database it generates from them
  (\<^verbatim>\<open>sail/src/fakelib.cpp\<close>). The tool writes assembler text; the model has the entries whose words the
  text declares, in the order and at the offsets in which they are declared. The list is sorted by
  \<^verbatim>\<open>std::sort\<close>, which leaves the order of symbols with equal hashes open: \<open>srt\<close> is the list as it
  came out. \<open>sx\<close> says whether the host's \<^verbatim>\<open>char\<close> is signed.
\<close>

section \<open>Symbols\<close>

datatype DataBlockVersionBoundary = BoundaryNone | Older | From

datatype Section = SectionAll | SectionText | SectionRodata | SectionData

datatype HostData =
    HostImmediate (hi_moduleIdx: int) (hi_offset: u32)
  | HostDynamic (hd_name: "u8 list")
  | HostDataBlock (hb_moduleIdx: int) (hb_data: "u8 list") (hb_dataMask: "u8 list") (hb_offs: u32)
      (hb_boundary: DataBlockVersionBoundary) (hb_sectionLimit: Section) (hb_versionBoundary: u32)
  | HostReadADRPGlobal (hr_atSymbol: "u8 list") (hr_offsetToLoInstr: u32)
  | HostArithmetic (ha_symbolToAddTo: "u8 list") (ha_offset: u32)

record HostSymbol =
  hs_name :: "u8 list"
  hs_useCache :: bool
  hs_versionIndices :: "u32 list"
  hs_data :: HostData

fun boundary_code :: "DataBlockVersionBoundary \<Rightarrow> u8" where
  "boundary_code BoundaryNone = 0"
| "boundary_code Older = 1"
| "boundary_code From = 2"

fun section_code :: "Section \<Rightarrow> u8" where
  "section_code SectionAll = 0"
| "section_code SectionText = 1"
| "section_code SectionRodata = 2"
| "section_code SectionData = 3"

definition hasMatches :: "u8 list \<Rightarrow> bool" where
  "hasMatches dataMask \<longleftrightarrow> list_ex (\<lambda>b. b \<noteq> 0xFF) dataMask"

section \<open>The generated database\<close>

definition name_hash :: "bool \<Rightarrow> u8 list \<Rightarrow> u32" where
  "name_hash sx name = sail_hashMurmur sx name 0"

definition symbol_hash :: "bool \<Rightarrow> HostSymbol \<Rightarrow> u32" where
  "symbol_hash sx s = name_hash sx (hs_name s)"

text \<open>The bit set of versions: \<^verbatim>\<open>1 << ver\<close> is computed as an \<^verbatim>\<open>int\<close> and then widened.\<close>

definition versions_word :: "u32 list \<Rightarrow> u64" where
  "versions_word vers = fold (\<lambda>ver w. w OR scast (push_bit (unat ver mod 32) 1 :: u32)) vers 0"

definition find_by_hash :: "bool \<Rightarrow> HostSymbol list \<Rightarrow> u32 \<Rightarrow> HostSymbol option" where
  "find_by_hash sx srt h = List.find (\<lambda>s. symbol_hash sx s = h) srt"

text \<open>\<open>funcOffset\<close> is the distance of a symbol's search function from the database, known to the linker.\<close>

definition insertSymbol_data ::
  "bool \<Rightarrow> (HostSymbol \<Rightarrow> u64) \<Rightarrow> HostSymbol list \<Rightarrow> HostSymbol \<Rightarrow> SymbolData run" where
  "insertSymbol_data sx funcOffset srt hsym =
     (case hs_data hsym of
        HostImmediate mi off \<Rightarrow> Inr (Immediate (versions_word (hs_versionIndices hsym)) (of_int mi) off)
      | HostDynamic nm \<Rightarrow> Inr (Dynamic (rtldElfHash sx nm) (name_hash sx nm) (djb2Hash nm))
      | HostDataBlock mi d dm off b sl vb \<Rightarrow>
          Inr (DataBlock (funcOffset hsym) (of_int mi) (boundary_code b) (ucast vb) (section_code sl) off)
      | HostArithmetic src off \<Rightarrow>
          (case find_by_hash sx srt (name_hash sx src) of
             None \<Rightarrow> Inl (Abort ''Arithmetic symbol does not exist'')
           | Some found \<Rightarrow> Inr (Arithmetic (versions_word (hs_versionIndices hsym)) (symbol_hash sx found) off))
      | HostReadADRPGlobal src lo \<Rightarrow>
          (case find_by_hash sx srt (name_hash sx src) of
             None \<Rightarrow> Inl (Abort ''ReadADRPGlobal symbol does not exist'')
           | Some found \<Rightarrow> Inr (ReadADRPGlobal (versions_word (hs_versionIndices hsym)) (symbol_hash sx found) lo)))"

definition insertSymbol ::
  "bool \<Rightarrow> (HostSymbol \<Rightarrow> u64) \<Rightarrow> HostSymbol list \<Rightarrow> HostSymbol \<Rightarrow> SymbolEntry run" where
  "insertSymbol sx funcOffset srt hsym =
     bindR (insertSymbol_data sx funcOffset srt hsym) (\<lambda>d.
       Inr \<lparr>sy_destNameMurmur = symbol_hash sx hsym,
            sy_symbolPtrCache = (if hs_useCache hsym then 0 else 1), sy_data = d\<rparr>)"

fun insert_all ::
  "bool \<Rightarrow> (HostSymbol \<Rightarrow> u64) \<Rightarrow> HostSymbol list \<Rightarrow> HostSymbol list \<Rightarrow> SymbolEntry list run" where
  "insert_all sx funcOffset srt [] = Inr []"
| "insert_all sx funcOffset srt (s # ss) =
     bindR (insertSymbol sx funcOffset srt s) (\<lambda>e.
     bindR (insert_all sx funcOffset srt ss) (\<lambda>es. Inr (e # es)))"

definition hash_group :: "bool \<Rightarrow> HostSymbol list \<Rightarrow> u32 \<Rightarrow> HostSymbol list" where
  "hash_group sx srt h = filter (\<lambda>s. symbol_hash sx s = h) srt"

text \<open>
  A place in the database, as it is written: an entry of its own, or the group of candidates that
  follow the entries. A group that has been written is cleared.
\<close>

datatype slot = Single SymbolEntry | Group u32 "SymbolEntry list"

fun emit_slots ::
  "bool \<Rightarrow> (HostSymbol \<Rightarrow> u64) \<Rightarrow> HostSymbol list \<Rightarrow> u32 list \<Rightarrow> HostSymbol list \<Rightarrow> slot list run" where
  "emit_slots sx funcOffset srt cleared [] = Inr []"
| "emit_slots sx funcOffset srt cleared (hsym # syms) =
     (let h = symbol_hash sx hsym;
          group = (if h \<in> set cleared then [] else hash_group sx srt h)
      in if group = [] then emit_slots sx funcOffset srt cleared syms
         else if length group > 1 then
           bindR (insert_all sx funcOffset srt group) (\<lambda>es.
           bindR (emit_slots sx funcOffset srt (h # cleared) syms) (\<lambda>slots. Inr (Group h es # slots)))
         else
           bindR (insertSymbol sx funcOffset srt hsym) (\<lambda>e.
           bindR (emit_slots sx funcOffset srt cleared syms) (\<lambda>slots. Inr (Single e # slots))))"

text \<open>
  The layout: \<open>n\<close> entries, the word \<^verbatim>\<open>gNumSymbols\<close>, then the groups of candidates one after the other.
\<close>

fun slot_candidates :: "slot \<Rightarrow> SymbolEntry list" where
  "slot_candidates (Single e) = []"
| "slot_candidates (Group h es) = es"

definition candidates_before :: "slot list \<Rightarrow> nat \<Rightarrow> nat" where
  "candidates_before slots i = length (concat (map slot_candidates (take i slots)))"

definition slot_entry :: "slot list \<Rightarrow> nat \<Rightarrow> SymbolEntry" where
  "slot_entry slots i =
     (case slots ! i of
        Single e \<Rightarrow> e
      | Group h es \<Rightarrow>
          \<lparr>sy_destNameMurmur = h, sy_symbolPtrCache = 0,
           sy_data = MultipleCandidate
             (of_nat (32 * length slots + 8 + 32 * candidates_before slots i)) (of_nat (length es))\<rparr>)"

definition blank_entry :: SymbolEntry where
  "blank_entry = \<lparr>sy_destNameMurmur = 0, sy_symbolPtrCache = 0, sy_data = Immediate 0 0 0\<rparr>"

definition place_slots :: "slot list \<Rightarrow> sail_db" where
  "place_slots slots =
     (let n = length slots; cands = concat (map slot_candidates slots) in
      (\<lambda>off. let o' = unat off in
         if o' < 32 * n then slot_entry slots (o' div 32)
         else let k = (o' - 32 * n - 8) div 32 in if k < length cands then cands ! k else blank_entry))"

definition generateSymbolDb ::
  "bool \<Rightarrow> (HostSymbol \<Rightarrow> u64) \<Rightarrow> HostSymbol list \<Rightarrow> (u64 \<times> sail_db) run" where
  "generateSymbolDb sx funcOffset srt =
     bindR (emit_slots sx funcOffset srt [] srt) (\<lambda>slots.
       Inr (of_nat (length slots), place_slots slots))"

text \<open>The names that the fake library exports: each hash once, in the order of the files.\<close>

fun destination_names :: "bool \<Rightarrow> HostSymbol list \<Rightarrow> u32 list \<Rightarrow> u8 list list" where
  "destination_names sx [] seen = []"
| "destination_names sx (s # ss) seen =
     (if symbol_hash sx s \<in> set seen then destination_names sx ss seen
      else hs_name s # destination_names sx ss (seen @ [symbol_hash sx s]))"

end
