(* ===== verification/SailGen.thy ===== *)
theory SailGen
  imports SailDb
begin

text \<open>
  What the host writes and the console reads: the places of the database are in the order of their
  hashes, every symbol's hash is found by the binary search, and the entry found is the symbol's own
  or leads to the group of the symbols that share the hash.
\<close>

section \<open>The places that are emitted\<close>

fun slot_hash :: "slot \<Rightarrow> u32" where
  "slot_hash (Single e) = sy_destNameMurmur e"
| "slot_hash (Group h es) = h"

text \<open>A place holds what belongs there: the symbol's entry, or the entries of a group.\<close>

definition slot_right :: "bool \<Rightarrow> (HostSymbol \<Rightarrow> u64) \<Rightarrow> HostSymbol list \<Rightarrow> slot \<Rightarrow> bool" where
  "slot_right sx fo srt slot \<longleftrightarrow>
     (case slot of
        Single e \<Rightarrow> \<exists>s. hash_group sx srt (sy_destNameMurmur e) = [s] \<and> insertSymbol sx fo srt s = Inr e
      | Group h es \<Rightarrow> 1 < length (hash_group sx srt h) \<and> insert_all sx fo srt (hash_group sx srt h) = Inr es)"

lemma insertSymbol_hash:
  "insertSymbol sx fo srt s = Inr e \<Longrightarrow> sy_destNameMurmur e = symbol_hash sx s"
  by (auto simp: insertSymbol_def)

lemma insert_all_length: "insert_all sx fo srt ss = Inr es \<Longrightarrow> length es = length ss"
  by (induction ss arbitrary: es) auto

lemma insert_all_nth:
  "insert_all sx fo srt ss = Inr es \<Longrightarrow> i < length ss \<Longrightarrow> insertSymbol sx fo srt (ss ! i) = Inr (es ! i)"
  by (induction ss arbitrary: es i) (auto simp: nth_Cons')

lemma hash_group_single:
  assumes "srt = pre @ s # syms" "length (hash_group sx srt (symbol_hash sx s)) \<le> 1"
  shows "hash_group sx srt (symbol_hash sx s) = [s]" "symbol_hash sx s \<notin> symbol_hash sx ` set syms"
  using assms by (auto simp: hash_group_def filter_empty_conv)

definition emitted_before :: "bool \<Rightarrow> HostSymbol list \<Rightarrow> HostSymbol list \<Rightarrow> u32 list \<Rightarrow> bool" where
  "emitted_before sx srt pre cleared \<longleftrightarrow>
     set cleared = {h \<in> symbol_hash sx ` set pre. 1 < length (hash_group sx srt h)}"

lemma emit_slots_right:
  assumes "sorted (map (symbol_hash sx) srt)" "srt = pre @ syms" "emitted_before sx srt pre cleared"
    "emit_slots sx fo srt cleared syms = Inr slots"
  shows "sorted_wrt (<) (map slot_hash slots) \<and> list_all (slot_right sx fo srt) slots \<and>
    set (map slot_hash slots) = symbol_hash sx ` set syms - set cleared"
  using assms(2-)
proof (induction syms arbitrary: pre cleared slots)
  case (Cons s syms)
  define h where "h = symbol_hash sx s"
  have least: "\<forall>x\<in>set syms. h \<le> symbol_hash sx x"
    using assms(1) Cons.prems(1) by (simp add: sorted_append h_def)
  have pre: "srt = (pre @ [s]) @ syms" using Cons.prems(1) by simp
  have mem: "s \<in> set (hash_group sx srt h)" using Cons.prems(1) by (simp add: hash_group_def h_def)
  note IH = Cons.IH [OF pre]
  show ?case
  proof (cases "h \<in> set cleared")
    case True
    then have "emitted_before sx srt (pre @ [s]) cleared"
      using Cons.prems(2) by (auto simp: emitted_before_def h_def)
    from IH [OF this] Cons.prems(3) True show ?thesis by (auto simp: h_def)
  next
    case fresh: False
    show ?thesis
    proof (cases "1 < length (hash_group sx srt h)")
      case True
      from Cons.prems(3) fresh True mem obtain es rest where
        es: "insert_all sx fo srt (hash_group sx srt h) = Inr es" and
        rest: "emit_slots sx fo srt (h # cleared) syms = Inr rest" and slots: "slots = Group h es # rest"
        by (auto simp: h_def [symmetric] Let_def split: if_splits)
      have "emitted_before sx srt (pre @ [s]) (h # cleared)"
        using Cons.prems(2) True by (auto simp: emitted_before_def h_def)
      from IH [OF this rest] show ?thesis
        using es True fresh least by (auto simp: slots slot_right_def h_def order_less_le)
    next
      case False
      have single: "hash_group sx srt h = [s]" "h \<notin> symbol_hash sx ` set syms"
        using hash_group_single [OF Cons.prems(1)] False by (simp_all add: h_def)
      from Cons.prems(3) fresh single(1) obtain e rest where
        e: "insertSymbol sx fo srt s = Inr e" and
        rest: "emit_slots sx fo srt cleared syms = Inr rest" and slots: "slots = Single e # rest"
        by (auto simp: h_def [symmetric] Let_def split: if_splits)
      have "emitted_before sx srt (pre @ [s]) cleared"
        using Cons.prems(2) False by (auto simp: emitted_before_def h_def)
      from IH [OF this rest] show ?thesis
        using e single fresh least insertSymbol_hash [OF e]
        by (auto simp: slots slot_right_def h_def [symmetric] order_less_le)
    qed
  qed
qed simp

section \<open>The layout in memory\<close>

lemma concat_nth:
  "i < length xss \<Longrightarrow> j < length (xss ! i) \<Longrightarrow>
     concat xss ! (length (concat (take i xss)) + j) = xss ! i ! j"
proof (induction xss arbitrary: i)
  case (Cons xs xss)
  then show ?case by (cases i) (simp_all add: nth_append add.assoc)
qed simp

lemma concat_nth_bound:
  "i < length xss \<Longrightarrow> j < length (xss ! i) \<Longrightarrow> length (concat (take i xss)) + j < length (concat xss)"
proof (induction xss arbitrary: i)
  case (Cons xs xss)
  then show ?case by (cases i) (simp_all add: add.assoc)
qed simp

definition small_slots :: "slot list \<Rightarrow> bool" where
  "small_slots slots \<longleftrightarrow> length slots \<le> 2 ^ 30 \<and> length (concat (map slot_candidates slots)) \<le> 2 ^ 30"

lemma place_slots_entry:
  assumes "small_slots slots" "i < length slots"
  shows "place_slots slots (gSymbol_offset (int i)) = slot_entry slots i"
proof -
  have "unat (gSymbol_offset (int i)) = 32 * i"
    using assms by (simp add: gSymbol_offset_def cSymbolEntrySize_def small_slots_def unat_word_ariths
        unat_of_nat take_bit_eq_mod)
  then show ?thesis using assms by (simp add: place_slots_def Let_def)
qed

lemma place_slots_candidates:
  assumes small: "small_slots slots" and i: "i < length slots" "slots ! i = Group h es"
  shows "map (place_slots slots)
    (candidate_offsets (of_nat (32 * length slots + 8 + 32 * candidates_before slots i)) (of_nat (length es))) = es"
proof (rule nth_equalityI)
  let ?cs = "map slot_candidates slots"
  let ?start = "32 * length slots + 8 + 32 * candidates_before slots i"
  have es: "?cs ! i = es" "i < length ?cs" using i by simp_all
  have before: "candidates_before slots i = length (concat (take i ?cs))"
    by (simp add: candidates_before_def take_map)
  have bound: "candidates_before slots i + j < length (concat ?cs)" if "j < length es" for j
    using concat_nth_bound [OF es(2), of j] that es by (simp add: before)
  have len: "length es \<le> 2 ^ 30"
  proof (cases es rule: rev_cases)
    case (snoc ys y)
    then show ?thesis using bound [of "length ys"] small by (simp add: small_slots_def)
  qed simp
  then have n: "unat (of_nat (length es) :: u64) = length es"
    by (simp add: unat_of_nat take_bit_eq_mod)
  show "length (map (place_slots slots)
      (candidate_offsets (of_nat ?start) (of_nat (length es)))) = length es"
    by (simp add: candidate_offsets_def n)
  fix j
  assume "j < length (map (place_slots slots) (candidate_offsets (of_nat ?start) (of_nat (length es))))"
  then have j: "j < length es" by (simp add: candidate_offsets_def n)
  have lt: "?start + 32 * j < 2 ^ 64"
    using bound [OF j] small by (simp add: small_slots_def)
  have "of_nat ?start + of_nat j * cSymbolEntrySize = (of_nat (?start + 32 * j) :: u64)"
    by (simp add: cSymbolEntrySize_def)
  then have "unat (of_nat ?start + of_nat j * cSymbolEntrySize :: u64) = ?start + 32 * j"
    using lt by (simp add: unat_of_nat take_bit_eq_mod del: of_nat_add of_nat_mult)
  moreover have "(?start + 32 * j - 32 * length slots - 8) div 32 = candidates_before slots i + j"
    by simp
  ultimately have "place_slots slots (of_nat ?start + of_nat j * cSymbolEntrySize) =
      concat ?cs ! (candidates_before slots i + j)"
    using bound [OF j] by (simp add: place_slots_def Let_def del: of_nat_add of_nat_mult)
  then show "map (place_slots slots) (candidate_offsets (of_nat ?start) (of_nat (length es))) ! j = es ! j"
    using j concat_nth [OF es(2), of j] es by (simp add: candidate_offsets_def n before del: of_nat_add of_nat_mult)
qed

text \<open>The groups of different hashes have no more symbols together than the list.\<close>

lemma groups_fit:
  "distinct hs \<Longrightarrow> sum_list (map (\<lambda>h. length (hash_group sx srt h)) hs) \<le>
     length (filter (\<lambda>s. symbol_hash sx s \<in> set hs) srt)"
proof (induction hs)
  case (Cons h hs)
  then have "h \<notin> set hs" by simp
  then have "length (hash_group sx srt h) + length (filter (\<lambda>s. symbol_hash sx s \<in> set hs) srt) =
      length (filter (\<lambda>s. symbol_hash sx s \<in> set (h # hs)) srt)"
    unfolding hash_group_def by (induction srt) auto
  with Cons show ?case by simp
qed simp

lemma slot_right_size:
  "slot_right sx fo srt slot \<Longrightarrow> length (slot_candidates slot) \<le> length (hash_group sx srt (slot_hash slot))"
  by (cases slot) (auto simp: slot_right_def dest: insert_all_length)

lemma emit_slots_small:
  assumes "sorted_wrt (<) (map slot_hash slots)" "list_all (slot_right sx fo srt) slots"
    "set (map slot_hash slots) \<subseteq> symbol_hash sx ` set srt" "length srt \<le> 2 ^ 30"
  shows "small_slots slots"
proof -
  have d: "distinct (map slot_hash slots)"
    using assms(1) by (simp add: strict_sorted_iff)
  have "length slots = card (set (map slot_hash slots))"
    using distinct_card [OF d] by simp
  also have "\<dots> \<le> card (symbol_hash sx ` set srt)" by (rule card_mono) (use assms(3) in simp_all)
  also have "\<dots> \<le> length srt"
    using card_image_le [of "set srt" "symbol_hash sx"] card_length [of srt] by simp
  finally have 1: "length slots \<le> length srt" .
  have "length (concat (map slot_candidates slots)) \<le>
      sum_list (map (\<lambda>slot. length (hash_group sx srt (slot_hash slot))) slots)"
    using assms(2) by (induction slots) (auto intro: add_mono slot_right_size)
  also have "\<dots> \<le> length srt"
    using groups_fit [OF d, of sx srt] length_filter_le [of _ srt] by (auto simp: o_def intro: order_trans)
  finally show ?thesis using 1 assms(4) by (simp add: small_slots_def)
qed

section \<open>Finding what was generated\<close>

lemma slot_entry_hash:
  "i < length slots \<Longrightarrow> sy_destNameMurmur (slot_entry slots i) = slot_hash (slots ! i)"
  by (simp add: slot_entry_def split: slot.split)

lemma ucast_of_int_u32: "(ucast (of_int k :: u64) :: u32) = of_int k"
  by (simp add: unsigned_of_int word_of_int_eq_iff take_bit_take_bit)

text \<open>The search over the entries of a database whose places are in the order of their hashes.\<close>

lemma lookup_placed:
  assumes small: "small_slots slots" and inc: "sorted_wrt (<) (map slot_hash slots)"
    and n: "se_numSymbols env = of_nat (length slots)"
  shows "if h \<in> set (map slot_hash slots)
    then \<exists>i<length slots. slot_hash (slots ! i) = h \<and>
      lookupSymbolByHash env (place_slots slots) h = Inr (Some (gSymbol_offset (int i)))
    else lookupSymbolByHash env (place_slots slots) h = Inr None"
proof -
  let ?n = "int (length slots)"
  let ?get = "\<lambda>idx. sy_destNameMurmur (place_slots slots (gSymbol_offset idx))"
  have get: "?get i = map slot_hash slots ! nat i" if "0 \<le> i" "i < ?n" for i
    using place_slots_entry [OF small, of "nat i"] that by (simp add: slot_entry_hash)
  have "sorted (map slot_hash slots)" using inc by (rule strict_sorted_imp_sorted)
  then have "slot_hash (slots ! nat i) \<le> slot_hash (slots ! nat j)" if "0 \<le> i" "i \<le> j" "j < ?n" for i j
    using sorted_nth_mono [of "map slot_hash slots" "nat i" "nat j"] that by simp
  then have s: "sorted_on ?n ?get"
    by (auto simp: sorted_on_def get)
  have len: "?n \<le> 2 ^ 30" using small by (simp add: small_slots_def)
  have last: "sint (ucast (of_nat (length slots) - 1 :: u64) :: u32) = ?n - 1"
  proof -
    have "of_nat (length slots) - 1 = (of_int (?n - 1) :: u64)" by simp
    then have "(ucast (of_nat (length slots) - 1 :: u64) :: u32) = of_int (?n - 1)"
      by (simp only: ucast_of_int_u32)
    then show ?thesis
      using len by (simp only: signed_of_int) (simp add: signed_take_bit_int_eq_self)
  qed
  have mem: "(\<exists>i. 0 \<le> i \<and> i < ?n \<and> ?get i = h) \<longleftrightarrow> h \<in> set (map slot_hash slots)"
  proof
    assume "\<exists>i. 0 \<le> i \<and> i < ?n \<and> ?get i = h"
    then obtain i where i: "0 \<le> i" "i < ?n" "?get i = h" by blast
    then have "map slot_hash slots ! nat i = h" by (simp only: get)
    moreover have "nat i < length (map slot_hash slots)" using i by simp
    ultimately show "h \<in> set (map slot_hash slots)" by (metis nth_mem)
  next
    assume "h \<in> set (map slot_hash slots)"
    then obtain k where "k < length slots" "map slot_hash slots ! k = h"
      by (auto simp only: in_set_conv_nth length_map)
    then show "\<exists>i. 0 \<le> i \<and> i < ?n \<and> ?get i = h"
      using get [of "int k"] by (intro exI [of _ "int k"]) (simp only: nat_int, simp)
  qed
  obtain r where r: "binarySearch_loop ?get 0 (?n - 1) h False = Inr r"
    "if h \<in> set (map slot_hash slots) then 0 \<le> r \<and> r < ?n \<and> ?get r = h else r = - 1"
    using binarySearch_loop_sorted [OF s len, of 0 "?n - 1" h False] unfolding mem by auto
  have lk: "lookupSymbolByHash env (place_slots slots) h = Inr (if r \<noteq> - 1 then Some (gSymbol_offset r) else None)"
    by (simp add: lookupSymbolByHash_def n last binarySearch_def r(1))
  show ?thesis
  proof (cases "h \<in> set (map slot_hash slots)")
    case True
    with r(2) have "0 \<le> r" "r < ?n" "?get r = h" by simp_all
    then have "nat r < length slots" "slot_hash (slots ! nat r) = h" "int (nat r) = r"
      using get [of r] by simp_all
    moreover have "lookupSymbolByHash env (place_slots slots) h = Inr (Some (gSymbol_offset r))"
      using lk \<open>0 \<le> r\<close> by simp
    ultimately show ?thesis using True by auto
  qed (use r(2) lk in simp)
qed

text \<open>
  C8: The database that the host generates holds every symbol for the console to find. From a list
  sorted by hash the lookup of a hash always returns: with nothing if no symbol has it; with the entry
  made from the symbol if exactly one has it; with an entry for several candidates, whose entries in
  memory are the ones made from these symbols in their order, if more than one has it.
\<close>

theorem db_finds_every_symbol:
  assumes "sorted (map (symbol_hash sx) srt)" "length srt \<le> 2 ^ 30"
    and "generateSymbolDb sx funcOffset srt = Inr (n, db)" "se_numSymbols env = n"
  shows "case hash_group sx srt h of
      [] \<Rightarrow> lookupSymbolByHash env db h = Inr None
    | [s] \<Rightarrow> \<exists>off. lookupSymbolByHash env db h = Inr (Some off) \<and>
        insertSymbol sx funcOffset srt s = Inr (db off)
    | ss \<Rightarrow> \<exists>off start. lookupSymbolByHash env db h = Inr (Some off) \<and>
        db off = \<lparr>sy_destNameMurmur = h, sy_symbolPtrCache = 0,
                  sy_data = MultipleCandidate start (of_nat (length ss))\<rparr> \<and>
        insert_all sx funcOffset srt ss = Inr (map db (candidate_offsets start (of_nat (length ss))))"
proof -
  from assms(3) obtain slots where emit: "emit_slots sx funcOffset srt [] srt = Inr slots"
    and n: "n = of_nat (length slots)" and db: "db = place_slots slots"
    by (auto simp: generateSymbolDb_def)
  have ok: "sorted_wrt (<) (map slot_hash slots)" "list_all (slot_right sx funcOffset srt) slots"
    "set (map slot_hash slots) = symbol_hash sx ` set srt"
    using emit_slots_right [OF assms(1) _ _ emit, of "[]"] by (simp_all add: emitted_before_def)
  have small: "small_slots slots" using emit_slots_small [OF ok(1,2)] ok(3) assms(2) by simp
  note lk = lookup_placed [OF small ok(1), of env h, folded db, OF assms(4) [unfolded n]]
  have none: "hash_group sx srt h = [] \<longleftrightarrow> h \<notin> set (map slot_hash slots)"
    unfolding ok(3) by (auto simp: hash_group_def filter_empty_conv)
  show ?thesis
  proof (cases "hash_group sx srt h = []")
    case False
    with lk none obtain i where i: "i < length slots" "slot_hash (slots ! i) = h"
      "lookupSymbolByHash env db h = Inr (Some (gSymbol_offset (int i)))" by auto
    have entry: "db (gSymbol_offset (int i)) = slot_entry slots i"
      unfolding db by (rule place_slots_entry [OF small i(1)])
    have right: "slot_right sx funcOffset srt (slots ! i)"
      using ok(2) i(1) by (simp add: list_all_length)
    show ?thesis
    proof (cases "slots ! i")
      case (Single e)
      with right i(2,3) entry show ?thesis by (auto simp: slot_right_def slot_entry_def)
    next
      case (Group h' es)
      then have h': "h' = h" using i(2) by simp
      from right have g: "1 < length (hash_group sx srt h)"
        "insert_all sx funcOffset srt (hash_group sx srt h) = Inr es"
        by (simp_all add: Group h' slot_right_def)
      then obtain s1 s2 ss where ss: "hash_group sx srt h = s1 # s2 # ss"
        by (cases "hash_group sx srt h" rule: list.exhaust; cases "tl (hash_group sx srt h)") auto
      have len: "length es = length (hash_group sx srt h)" by (rule insert_all_length [OF g(2)])
      have "map db (candidate_offsets (of_nat (32 * length slots + 8 + 32 * candidates_before slots i))
          (of_nat (length es))) = es"
        unfolding db by (rule place_slots_candidates [OF small i(1) Group])
      then show ?thesis
        unfolding ss list.case using i(3) entry g(2) len
        by (intro exI conjI) (auto simp: slot_entry_def Group h' ss)
    qed
  qed (use lk none in simp)
qed

section \<open>An example\<close>

text \<open>Two symbols of one name for different versions, and one of another name.\<close>

definition example_symbols :: "HostSymbol list" where
  "example_symbols =
    [\<lparr>hs_name = [0x61], hs_useCache = True, hs_versionIndices = [0], hs_data = HostImmediate 0 0x10\<rparr>,
     \<lparr>hs_name = [0x61], hs_useCache = True, hs_versionIndices = [1, 2], hs_data = HostImmediate 0 0x20\<rparr>,
     \<lparr>hs_name = [0x62], hs_useCache = True, hs_versionIndices = [1], hs_data = HostImmediate 0 0x30\<rparr>]"

definition example_slots :: "slot list" where
  "example_slots =
    [Group 1009084850
      [\<lparr>sy_destNameMurmur = 1009084850, sy_symbolPtrCache = 0, sy_data = Immediate 1 0 16\<rparr>,
       \<lparr>sy_destNameMurmur = 1009084850, sy_symbolPtrCache = 0, sy_data = Immediate 6 0 32\<rparr>],
     Single \<lparr>sy_destNameMurmur = 2514386435, sy_symbolPtrCache = 0, sy_data = Immediate 2 0 48\<rparr>]"

definition example_db :: sail_db where
  "example_db = place_slots example_slots"

definition example_module :: sail_module where
  "example_module =
    \<lparr>m_Base = 0x71000000, mTextRange = \<lparr>mStart = 0x71000000, mSize = 0x1000\<rparr>,
     mRodataRange = \<lparr>mStart = 0, mSize = 0\<rparr>, mDataRange = \<lparr>mStart = 0, mSize = 0\<rparr>,
     mTextRwMapping = \<lparr>mStart = 0, mSize = 0\<rparr>, mRodataRwMapping = \<lparr>mStart = 0, mSize = 0\<rparr>, mBuildId = 0,
     mVersionIndex = 2, mVersionName = [], mVersionNameHash = 0\<rparr>"

definition example_env :: sail_env where
  "example_env =
    \<lparr>se_modules = [Some example_module], se_numSymbols = 2, se_search = (\<lambda>f s n. 0),
     se_lookup = (\<lambda>r d m. 0), se_readADRPGlobal = (\<lambda>p lo. Inl 1), se_junk = 0\<rparr>"

lemma example_symbol_hashes [simp]:
  "map (symbol_hash True) example_symbols = [1009084850, 1009084850, 2514386435]"
  by code_simp

lemma example_generated [simp]:
  "generateSymbolDb True (\<lambda>_. 0) example_symbols = Inr (2, example_db)"
proof -
  have "emit_slots True (\<lambda>_. 0) example_symbols [] example_symbols = Inr example_slots"
    by code_simp
  then show ?thesis by (simp add: generateSymbolDb_def example_db_def) (simp add: example_slots_def)
qed

lemma example_numSymbols [simp]: "se_numSymbols example_env = 2"
  by (simp add: example_env_def)

lemma example_symbols_length [simp]: "length example_symbols = 3"
  by (simp add: example_symbols_def)

lemma example_symbols_group:
  "hash_group True example_symbols 1009084850 = [example_symbols ! 0, example_symbols ! 1]"
  by code_simp

lemma db_finds_every_symbol_witness:
  "\<exists>off start. lookupSymbolByHash example_env example_db 1009084850 = Inr (Some off) \<and>
    example_db off = \<lparr>sy_destNameMurmur = 1009084850, sy_symbolPtrCache = 0, sy_data = MultipleCandidate start 2\<rparr>"
  using db_finds_every_symbol [of True example_symbols "\<lambda>_. 0" 2 example_db example_env 1009084850]
  by (auto simp: example_symbols_group)

end
