(* ===== verification/SailProps.thy ===== *)
theory SailProps
  imports SailDb
begin

text \<open>
  Properties of the symbol database: looking up what was generated, which candidate is taken, when an
  evaluation ends, and where the code does not do what the database says.
\<close>

section \<open>When an evaluation ends\<close>

text \<open>
  A ranking of the entries: an entry that is computed from another symbol, or has candidates, has a
  higher rank than those.
\<close>

definition leads_to :: "sail_env \<Rightarrow> sail_db \<Rightarrow> u64 \<Rightarrow> u64 set" where
  "leads_to env db off =
     (case sy_data (db off) of
        ReadADRPGlobal vs src lo \<Rightarrow> {o'. lookupSymbolByHash env db src = Inr (Some o')}
      | Arithmetic vs src addend \<Rightarrow> {o'. lookupSymbolByHash env db src = Inr (Some o')}
      | MultipleCandidate start num \<Rightarrow> set (candidate_offsets start num)
      | _ \<Rightarrow> {})"

definition ranked :: "sail_env \<Rightarrow> sail_db \<Rightarrow> (u64 \<Rightarrow> nat) \<Rightarrow> bool" where
  "ranked env db rank \<longleftrightarrow> (\<forall>off. \<forall>o'\<in>leads_to env db off. rank o' < rank off)"

text \<open>Databases that differ in their caches only.\<close>

definition same_but_caches :: "sail_db \<Rightarrow> sail_db \<Rightarrow> bool" where
  "same_but_caches db db' \<longleftrightarrow>
     (\<forall>off. sy_data (db' off) = sy_data (db off) \<and> sy_destNameMurmur (db' off) = sy_destNameMurmur (db off))"

lemma same_but_caches_refl [simp]: "same_but_caches db db"
  by (simp add: same_but_caches_def)

lemma same_but_caches_trans: "same_but_caches a b \<Longrightarrow> same_but_caches b c \<Longrightarrow> same_but_caches a c"
  by (simp add: same_but_caches_def)

lemma same_but_caches_upd:
  "same_but_caches db (db(off := (db off)\<lparr>sy_symbolPtrCache := v\<rparr>))"
  by (simp add: same_but_caches_def)

lemma lookup_same: "same_but_caches db db' \<Longrightarrow> lookupSymbolByHash env db' h = lookupSymbolByHash env db h"
  by (simp add: lookupSymbolByHash_def same_but_caches_def)

lemma leads_same: "same_but_caches db db' \<Longrightarrow> leads_to env db' off = leads_to env db off"
proof -
  assume same: "same_but_caches db db'"
  then have "sy_data (db' off) = sy_data (db off)" by (simp add: same_but_caches_def)
  then show ?thesis by (simp add: leads_to_def lookup_same [OF same] split: SymbolData.split)
qed

text \<open>An evaluation that ends changes caches only.\<close>

definition tame :: "sail_db \<Rightarrow> applied \<Rightarrow> bool" where
  "tame db r \<longleftrightarrow> (case r of Some (Inr (v, db')) \<Rightarrow> same_but_caches db db' | _ \<Rightarrow> True)"

definition ends :: "sail_db \<Rightarrow> applied \<Rightarrow> bool" where
  "ends db r \<longleftrightarrow> r \<noteq> None \<and> tame db r"

lemma tame_simps [simp]:
  "tame db None" "tame db (Some (Inl e))" "tame db (Some (Inr (v, db'))) \<longleftrightarrow> same_but_caches db db'"
  by (simp_all add: tame_def)

lemma ends_simps [simp]:
  "\<not> ends db None" "ends db (Some (Inl e))" "ends db (Some (Inr (v, db'))) \<longleftrightarrow> same_but_caches db db'"
  by (simp_all add: ends_def)

lemma ends_pure [simp]: "ends db (Some (map_sum id (\<lambda>v. (v, db)) r))"
  by (cases r) simp_all

lemma ends_weaken: "same_but_caches db db' \<Longrightarrow> ends db' r \<Longrightarrow> ends db r"
  by (auto simp: ends_def tame_def split: option.splits sum.splits intro: same_but_caches_trans)

lemma bindA_simps [simp]:
  "bindA None f = None" "bindA (Some (Inl e)) f = Some (Inl e)" "bindA (Some (Inr (v, db))) f = f v db"
  by (simp_all add: bindA_def)

lemma applied_cases [case_names loops fails gives]:
  obtains "(r :: applied) = None" | e where "r = Some (Inl e)" | v db where "r = Some (Inr (v, db))"
proof (cases r)
  case (Some x)
  then show ?thesis using that by (cases x) auto
qed (use that in blast)

lemma bindA_ends:
  assumes "ends db r" "\<And>v db'. same_but_caches db db' \<Longrightarrow> ends db' (f v db')"
  shows "ends db (bindA r f)"
proof (cases r rule: applied_cases)
  case (gives v db')
  with assms show ?thesis by (simp add: ends_weaken)
qed (use assms(1) in simp_all)

lemma candidates_end:
  assumes "\<And>c v db'. c \<in> set cs \<Longrightarrow> same_but_caches db db' \<Longrightarrow> ends db' (app c v db')"
  shows "ends db (candidates_loop app imm cs out db)"
  using assms
proof (induction cs arbitrary: out db)
  case (Cons c cs)
  have rest: "ends db' (candidates_loop app imm cs out' db')" if "same_but_caches db db'" for out' db'
    using Cons.prems that by (intro Cons.IH) (auto intro: same_but_caches_trans)
  have "ends db (bindA (app c out db) (\<lambda>out db.
      if out \<noteq> 0 then Some (Inr (out, db)) else candidates_loop app imm cs out db))"
    using Cons.prems rest by (intro bindA_ends) auto
  then show ?case
    unfolding candidates_loop.simps using rest [OF same_but_caches_refl]
    by (cases "imm \<and> \<not> isImmediate (sy_data (db c))") (simp_all only: if_True if_False simp_thms)
qed simp

lemma apply_ends:
  assumes "ranked env db rank" "rank off < n"
  shows "ends db (sail_apply n env abort off out db)"
  using assms
proof (induction n arbitrary: off out db abort)
  case (Suc n)
  have lower: "ends db' (sail_apply n env ab o' v db')"
    if "o' \<in> leads_to env db off" "same_but_caches db db'" for o' v db' ab
  proof (rule Suc.IH)
    show "ranked env db' rank"
      using Suc.prems(1) leads_same [OF that(2)] by (simp add: ranked_def)
    show "rank o' < n" using that(1) Suc.prems by (force simp: ranked_def)
  qed
  have store: "ends db' (Some (Inr (v, if isCacheDisabled (db' off) then db'
      else db'(off := (db' off)\<lparr>sy_symbolPtrCache := v\<rparr>))))" for v db'
    by (simp add: same_but_caches_upd)
  have source: "ends db (apply_source env (sail_apply n env abort) src db)"
    if "{o'. lookupSymbolByHash env db src = Inr (Some o')} \<subseteq> leads_to env db off" for src
    using that lower by (auto simp: apply_source_def split: sum.splits option.splits)
  have "ends db (case sy_data (db off) of
           DataBlock f mi bt b sl fo \<Rightarrow>
             Some (map_sum id (\<lambda>v. (v, db)) (applyDataBlockSymbol env abort f mi bt b sl fo out))
         | Dynamic rh mh dh \<Rightarrow>
             Some (map_sum id (\<lambda>v. (v, db)) (applyDynamicSymbol env abort rh mh dh))
         | Immediate vs mi o' \<Rightarrow>
             Some (map_sum id (\<lambda>v. (v, db)) (applyImmediateSymbol env abort vs mi o' out))
         | ReadADRPGlobal vs src lo \<Rightarrow>
             bindA (apply_source env (sail_apply n env abort) src db) (\<lambda>at db.
               case se_readADRPGlobal env at lo of
                 Inr v \<Rightarrow> Some (Inr (v, db))
               | Inl r \<Rightarrow> if abort then Some (Inl (Abort ''ReadADRPGlobal symbol failed''))
                          else Some (Inr (out, db)))
         | Arithmetic vs src addend \<Rightarrow>
             bindA (apply_source env (sail_apply n env abort) src db) (\<lambda>at db.
               Some (Inr (at + scast addend, db)))
         | MultipleCandidate start num \<Rightarrow>
             applyMultipleCandidateSymbol (sail_apply n env False) start num db)"
  proof (cases "sy_data (db off)")
    case (ReadADRPGlobal vs src lo)
    then have "ends db (apply_source env (sail_apply n env abort) src db)"
      by (intro source) (auto simp: leads_to_def)
    then show ?thesis
      unfolding ReadADRPGlobal SymbolData.case by (rule bindA_ends) (simp split: sum.split)
  next
    case (Arithmetic vs src addend)
    then have "ends db (apply_source env (sail_apply n env abort) src db)"
      by (intro source) (auto simp: leads_to_def)
    then show ?thesis
      unfolding Arithmetic SymbolData.case by (rule bindA_ends) simp
  next
    case (MultipleCandidate start num)
    have cand: "ends db' (candidates_loop (sail_apply n env False) imm (candidate_offsets start num) v db')"
      if "same_but_caches db db'" for imm v db'
      by (rule candidates_end, rule lower)
        (use MultipleCandidate that in \<open>auto simp: leads_to_def intro: same_but_caches_trans\<close>)
    show ?thesis
      unfolding MultipleCandidate SymbolData.case applyMultipleCandidateSymbol_def Let_def
      by (intro bindA_ends cand) (auto intro!: bindA_ends cand)
  qed simp_all
  then show ?case
    using bindA_ends [OF _ store] by simp
qed simp

end
