(* ===== verification/SailEnds.thy ===== *)
theory SailEnds
  imports SailGen SailProps
begin

text \<open>
  When the lookup of a symbol returns. The console follows a symbol's source without a limit, so it
  rests on the host's symbols that the evaluation ends: it does if no symbol is computed from itself.
\<close>

section \<open>Symbols computed from symbols\<close>

fun source_name :: "HostData \<Rightarrow> u8 list option" where
  "source_name (HostReadADRPGlobal src lo) = Some src"
| "source_name (HostArithmetic src off) = Some src"
| "source_name _ = None"

text \<open>A measure of the names that a symbol's source is below.\<close>

definition sources_below :: "bool \<Rightarrow> HostSymbol list \<Rightarrow> (u32 \<Rightarrow> nat) \<Rightarrow> bool" where
  "sources_below sx srt level \<longleftrightarrow>
     list_all (\<lambda>s. case source_name (hs_data s) of
        None \<Rightarrow> True | Some src \<Rightarrow> level (name_hash sx src) < level (symbol_hash sx s)) srt"

fun entry_source :: "SymbolData \<Rightarrow> u32 option" where
  "entry_source (ReadADRPGlobal vs src lo) = Some src"
| "entry_source (Arithmetic vs src addend) = Some src"
| "entry_source _ = None"

fun isMultiple :: "SymbolData \<Rightarrow> bool" where
  "isMultiple (MultipleCandidate start n) = True"
| "isMultiple _ = False"

definition level_of :: "(u32 \<Rightarrow> nat) \<Rightarrow> sail_db \<Rightarrow> u64 \<Rightarrow> nat" where
  "level_of level db off =
     2 * level (sy_destNameMurmur (db off)) + (if isMultiple (sy_data (db off)) then 1 else 0)"

lemma find_by_hash_SomeD: "find_by_hash sx srt h = Some s \<Longrightarrow> symbol_hash sx s = h"
  by (auto simp: find_by_hash_def find_Some_iff)

text \<open>What an entry made from a symbol refers to.\<close>

lemma insertSymbol_source:
  assumes "insertSymbol sx fo srt s = Inr e"
  shows "\<not> isMultiple (sy_data e)"
    "entry_source (sy_data e) = map_option (name_hash sx) (source_name (hs_data s))"
  using assms by (cases "hs_data s"; auto simp: insertSymbol_def insertSymbol_data_def
      dest: find_by_hash_SomeD split: option.splits)+

definition entry_ok :: "(u32 \<Rightarrow> nat) \<Rightarrow> SymbolEntry \<Rightarrow> bool" where
  "entry_ok level e \<longleftrightarrow> \<not> isMultiple (sy_data e) \<and>
     (case entry_source (sy_data e) of None \<Rightarrow> True | Some src \<Rightarrow> level src < level (sy_destNameMurmur e))"

lemma insertSymbol_ok:
  assumes "insertSymbol sx fo srt s = Inr e" "s \<in> set srt" "sources_below sx srt level"
  shows "entry_ok level e"
proof -
  from assms(2,3) have "case source_name (hs_data s) of
      None \<Rightarrow> True | Some src \<Rightarrow> level (name_hash sx src) < level (symbol_hash sx s)"
    by (auto simp: sources_below_def list_all_iff)
  then show ?thesis
    using insertSymbol_source [OF assms(1)] insertSymbol_hash [OF assms(1)]
    by (auto simp: entry_ok_def split: option.splits)
qed

lemma group_in_list: "set (hash_group sx srt h) \<subseteq> set srt"
  by (auto simp: hash_group_def)

text \<open>Every entry of a place is made from a symbol.\<close>

lemma slot_entries_ok:
  assumes "slot_right sx fo srt slot" "sources_below sx srt level"
  shows "(case slot of Single e \<Rightarrow> entry_ok level e | Group h es \<Rightarrow>
      \<forall>e\<in>set es. entry_ok level e \<and> sy_destNameMurmur e = h)"
proof (cases slot)
  case (Single e)
  with assms(1) obtain s where s: "hash_group sx srt (sy_destNameMurmur e) = [s]" "insertSymbol sx fo srt s = Inr e"
    by (auto simp: slot_right_def)
  then have "s \<in> set srt" using group_in_list [of sx srt "sy_destNameMurmur e"] by simp
  then show ?thesis using insertSymbol_ok [OF s(2) _ assms(2)] Single by simp
next
  case (Group h es)
  with assms(1) have g: "insert_all sx fo srt (hash_group sx srt h) = Inr es" by (simp add: slot_right_def)
  have "entry_ok level e \<and> sy_destNameMurmur e = h" if "e \<in> set es" for e
  proof -
    from that obtain i where i: "i < length es" "e = es ! i" by (auto simp: in_set_conv_nth)
    let ?s = "hash_group sx srt h ! i"
    have s: "?s \<in> set (hash_group sx srt h)" using i(1) insert_all_length [OF g] by simp
    have e: "insertSymbol sx fo srt ?s = Inr e" using insert_all_nth [OF g] i insert_all_length [OF g] by simp
    have "symbol_hash sx ?s = h" using s by (simp add: hash_group_def)
    then show ?thesis
      using insertSymbol_ok [OF e _ assms(2)] s group_in_list [of sx srt h] insertSymbol_hash [OF e] by auto
  qed
  then show ?thesis by (simp add: Group)
qed

text \<open>The cases for what lies at an offset.\<close>

lemma place_slots_cases:
  obtains (entry) i where "i < length slots" "place_slots slots off = slot_entry slots i"
  | (candidate) i h es e where "i < length slots" "slots ! i = Group h es" "e \<in> set es" "place_slots slots off = e"
  | (blank) "place_slots slots off = blank_entry"
proof (cases "unat off < 32 * length slots")
  case True
  then have "unat off div 32 < length slots" by (simp add: less_mult_imp_div_less mult.commute)
  with True show ?thesis using entry [of "unat off div 32"] by (simp add: place_slots_def Let_def)
next
  case False
  let ?cands = "concat (map slot_candidates slots)" and ?k = "(unat off - 32 * length slots - 8) div 32"
  show ?thesis
  proof (cases "?k < length ?cands")
    case True
    then have "?cands ! ?k \<in> set ?cands" by (rule nth_mem)
    then obtain slot where "slot \<in> set slots" "?cands ! ?k \<in> set (slot_candidates slot)" by auto
    then obtain i where "i < length slots" "?cands ! ?k \<in> set (slot_candidates (slots ! i))"
      by (auto simp: in_set_conv_nth)
    then show ?thesis
      using False True candidate [of i] by (cases "slots ! i") (auto simp: place_slots_def Let_def)
  qed (use False blank in \<open>simp add: place_slots_def Let_def\<close>)
qed

lemma lookup_gives_hash:
  assumes "small_slots slots" "sorted_wrt (<) (map slot_hash slots)" "se_numSymbols env = of_nat (length slots)"
    and "lookupSymbolByHash env (place_slots slots) h = Inr (Some off)"
  shows "sy_destNameMurmur (place_slots slots off) = h"
proof -
  obtain i where "i < length slots" "slot_hash (slots ! i) = h" "off = gSymbol_offset (int i)"
    using lookup_placed [OF assms(1-3), of h] assms(4) by (auto split: if_splits)
  then show ?thesis using place_slots_entry [OF assms(1)] by (simp add: slot_entry_hash)
qed

lemma leads_to_single:
  "entry_ok level (db off) \<Longrightarrow> leads_to env db off =
     {o'. \<exists>src. entry_source (sy_data (db off)) = Some src \<and> lookupSymbolByHash env db src = Inr (Some o')}"
  by (auto simp: entry_ok_def leads_to_def split: SymbolData.split)

text \<open>In a generated database a symbol leads only to entries of a lower level.\<close>

lemma generated_ranked:
  assumes slots: "small_slots slots" "sorted_wrt (<) (map slot_hash slots)"
      "se_numSymbols env = of_nat (length slots)"
    and right: "list_all (slot_right sx fo srt) slots" "sources_below sx srt level"
  shows "ranked env (place_slots slots) (level_of level (place_slots slots))"
proof -
  let ?db = "place_slots slots"
  have ok: "case slots ! i of Single e \<Rightarrow> entry_ok level e | Group h es \<Rightarrow>
      \<forall>e\<in>set es. entry_ok level e \<and> sy_destNameMurmur e = h" if "i < length slots" for i
    by (rule slot_entries_ok [of sx fo srt, OF _ right(2)]) (use right(1) that in \<open>simp add: list_all_length\<close>)
  have single: "level_of level ?db o' < level_of level ?db off"
    if "entry_ok level (?db off)" "o' \<in> leads_to env ?db off" for off o'
  proof -
    note entry = that
    from entry(2) obtain src where src: "entry_source (sy_data (?db off)) = Some src"
      "lookupSymbolByHash env ?db src = Inr (Some o')"
      unfolding leads_to_single [of level ?db off, OF entry(1)] by blast
    then have "level src < level (sy_destNameMurmur (?db off))"
      using entry(1) by (simp add: entry_ok_def)
    moreover have "sy_destNameMurmur (?db o') = src" by (rule lookup_gives_hash [OF slots src(2)])
    ultimately show ?thesis by (simp add: level_of_def)
  qed
  have "level_of level ?db o' < level_of level ?db off" if o': "o' \<in> leads_to env ?db off" for off o'
  proof (cases rule: place_slots_cases [of slots off])
    case (entry i)
    show ?thesis
    proof (cases "slots ! i")
      case (Single e)
      then show ?thesis using ok [OF entry(1)] entry(2) o' by (intro single) (simp_all add: slot_entry_def)
    next
      case (Group h es)
      let ?cs = "candidate_offsets (of_nat (32 * length slots + 8 + 32 * candidates_before slots i)) (of_nat (length es))"
      have off: "?db off = \<lparr>sy_destNameMurmur = h, sy_symbolPtrCache = 0, sy_data = MultipleCandidate
          (of_nat (32 * length slots + 8 + 32 * candidates_before slots i)) (of_nat (length es))\<rparr>"
        using entry(2) by (simp add: slot_entry_def Group)
      with o' have "o' \<in> set ?cs" by (simp add: leads_to_def)
      moreover have "map ?db ?cs = es" by (rule place_slots_candidates [OF slots(1) entry(1) Group])
      ultimately have "?db o' \<in> set es" by (metis image_eqI list.set_map)
      then have "entry_ok level (?db o')" "sy_destNameMurmur (?db o') = h"
        using ok [OF entry(1)] by (simp_all add: Group)
      then show ?thesis by (simp add: level_of_def off entry_ok_def)
    qed
  next
    case (candidate i h es e)
    then have "entry_ok level (?db off)" using ok [OF candidate(1)] by simp
    then show ?thesis using o' by (rule single)
  next
    case blank
    then show ?thesis using o' by (simp add: leads_to_def blank_entry_def)
  qed
  then show ?thesis by (simp add: ranked_def)
qed

section \<open>Properties\<close>

text \<open>
  C20: In the database generated from symbols of which none is computed from itself, even in several
  steps, the lookup of every name returns, whatever the searches and the dynamic linker find: at a
  depth of recursion that the levels of the names bound.
\<close>

theorem symbol_lookup_returns:
  assumes "sorted (map (symbol_hash sx) srt)" "length srt \<le> 2 ^ 30"
    and "generateSymbolDb sx funcOffset srt = Inr (n, db)" "se_numSymbols env = n"
    and "sources_below sx srt level" "2 * level (hashMurmur False name 0) + 1 < k"
  shows "lookupSymbolFromDb k env name abort db \<noteq> None"
proof -
  from assms(3) obtain slots where emit: "emit_slots sx funcOffset srt [] srt = Inr slots"
    and n: "n = of_nat (length slots)" and db: "db = place_slots slots"
    by (auto simp: generateSymbolDb_def)
  have ok: "sorted_wrt (<) (map slot_hash slots)" "list_all (slot_right sx funcOffset srt) slots"
    "set (map slot_hash slots) = symbol_hash sx ` set srt"
    using emit_slots_right [OF assms(1) _ _ emit, of "[]"] by (simp_all add: emitted_before_def)
  have small: "small_slots slots" using emit_slots_small [OF ok(1,2)] ok(3) assms(2) by simp
  have rank: "ranked env db (level_of level db)"
    unfolding db by (rule generated_ranked [OF small ok(1) assms(4) [unfolded n] ok(2) assms(5)])
  have "sail_apply k env True off 0 db \<noteq> None"
    if "lookupSymbolByHash env db (hashMurmur False name 0) = Inr (Some off)" for off
  proof -
    have "sy_destNameMurmur (db off) = hashMurmur False name 0"
      using lookup_gives_hash [OF small ok(1) assms(4) [unfolded n]] that unfolding db by blast
    then have "level_of level db off < k" using assms(6) by (simp add: level_of_def)
    then show ?thesis using apply_ends [OF rank] by (auto simp: ends_def)
  qed
  then show ?thesis
    by (auto simp: lookupSymbolFromDb_def lookupSymbolFromDb_hash_def simp del: sail_apply.simps
        split: sum.split option.split)
qed

lemma symbol_lookup_returns_witness:
  "lookupSymbolFromDb 2 example_env [0x61] True example_db \<noteq> None"
  using symbol_lookup_returns [OF _ _ example_generated example_numSymbols, of "\<lambda>h. 0" "[0x61]" 2 True]
  by (simp add: sources_below_def del: sail_apply.simps) (simp add: example_symbols_def del: sail_apply.simps)

text \<open>An entry that is computed from its own name.\<close>

lemma apply_self_reference:
  assumes "lookupSymbolByHash env db h = Inr (Some off)" "sy_data (db off) = Arithmetic vs h addend"
    and "sy_symbolPtrCache (db off) = 0 \<or> isCacheDisabled (db off)"
  shows "sail_apply n env abort off out db = None"
  using assms(3) by (induction n arbitrary: out) (auto simp: apply_source_def assms(1,2))

text \<open>
  A symbol that is declared to lie at an offset from itself is accepted by the host, which writes it
  to the database; its lookup on the console never returns, at no depth of recursion.
\<close>

theorem self_reference_never_returns:
  assumes "sorted (map (symbol_hash True) srt)" "length srt \<le> 2 ^ 30"
    and "generateSymbolDb True funcOffset srt = Inr (n, db)" "se_numSymbols env = n"
    and "hash_group True srt (symbol_hash True s) = [s]" "hs_data s = HostArithmetic (hs_name s) offset"
    and "\<forall>b\<in>set (hs_name s). b < 128"
  shows "lookupSymbolFromDb k env (hs_name s) abort db = None"
proof -
  from db_finds_every_symbol [OF assms(1-4), of "symbol_hash True s"] assms(5)
  obtain off where off: "lookupSymbolByHash env db (symbol_hash True s) = Inr (Some off)"
    "insertSymbol True funcOffset srt s = Inr (db off)" by auto
  have "find_by_hash True srt (symbol_hash True s) \<noteq> None"
    using assms(5) by (auto simp: find_by_hash_def find_None_iff hash_group_def filter_eq_Cons_iff)
  then obtain found where found: "find_by_hash True srt (name_hash True (hs_name s)) = Some found"
    "symbol_hash True found = symbol_hash True s"
    by (auto simp: symbol_hash_def [of True s] dest: find_by_hash_SomeD)
  have "Inr (db off) = (Inr \<lparr>sy_destNameMurmur = symbol_hash True s,
      sy_symbolPtrCache = (if hs_useCache s then 0 else 1),
      sy_data = Arithmetic (versions_word (hs_versionIndices s)) (symbol_hash True s) offset\<rparr> :: SymbolEntry run)"
    unfolding off(2) [symmetric] by (simp add: insertSymbol_def insertSymbol_data_def assms(6) found)
  then have e: "sy_data (db off) = Arithmetic (versions_word (hs_versionIndices s)) (symbol_hash True s) offset"
    "sy_symbolPtrCache (db off) = 0 \<or> isCacheDisabled (db off)"
    by (simp_all add: isCacheDisabled_def)
  have "hashMurmur False (hs_name s) 0 = symbol_hash True s"
    using host_and_console_hashes_agree [OF assms(7), of 0] by (simp add: name_hash_def symbol_hash_def)
  then show ?thesis
    using off(1) apply_self_reference [OF off(1) e]
    by (simp add: lookupSymbolFromDb_def lookupSymbolFromDb_hash_def del: sail_apply.simps)
qed

definition self_symbol :: HostSymbol where
  "self_symbol = \<lparr>hs_name = [0x61], hs_useCache = True, hs_versionIndices = [],
     hs_data = HostArithmetic [0x61] 4\<rparr>"

lemma self_reference_never_returns_witness:
  "\<exists>n db. generateSymbolDb True (\<lambda>_. 0) [self_symbol] = Inr (n, db) \<and>
     lookupSymbolFromDb 1000 (example_env\<lparr>se_numSymbols := n\<rparr>) [0x61] True db = None"
proof -
  have "\<exists>slots. emit_slots True (\<lambda>_. 0) [self_symbol] [] [self_symbol] = Inr slots"
    by (simp add: self_symbol_def hash_group_def insertSymbol_def insertSymbol_data_def find_by_hash_def
        symbol_hash_def Let_def)
  then obtain n db where gen: "generateSymbolDb True (\<lambda>_. 0) [self_symbol] = Inr (n, db)"
    by (auto simp: generateSymbolDb_def)
  have "hash_group True [self_symbol] (symbol_hash True self_symbol) = [self_symbol]"
    by (simp add: hash_group_def)
  then show ?thesis
    using self_reference_never_returns [OF _ _ gen, of "example_env\<lparr>se_numSymbols := n\<rparr>" self_symbol 4 1000 True]
      gen by (auto simp: self_symbol_def)
qed

end
