(* ===== verification/SailResolve.thy ===== *)
theory SailResolve
  imports SailGen SailProps
begin

text \<open>
  From the host's symbols to an address on the console: a name that is defined at fixed offsets for
  several versions resolves to the first definition that is for the running version.
\<close>

section \<open>Symbols at fixed offsets, by version\<close>

lemma flag_widens: "n < 31 \<Longrightarrow> (scast (push_bit n 1 :: u32) :: u64) = push_bit n 1"
proof -
  have "\<forall>n\<in>set [0..<31]. (scast (push_bit n 1 :: u32) :: u64) = push_bit n 1" by code_simp
  then show "n < 31 \<Longrightarrow> ?thesis" by simp
qed

lemma versions_word_bit:
  assumes "\<forall>v\<in>set vers. v < 31" "k < 64"
  shows "bit (versions_word vers) k \<longleftrightarrow> (\<exists>v\<in>set vers. unat v = k)"
proof -
  have "bit (fold (\<lambda>ver w. w OR scast (push_bit (unat ver mod 32) 1 :: u32)) vers w) k \<longleftrightarrow>
      bit w k \<or> (\<exists>v\<in>set vers. unat v = k)" for w :: u64
    using assms(1)
  proof (induction vers arbitrary: w)
    case (Cons v vers)
    then have "unat v < 31" by (simp add: word_less_nat_alt)
    then have "(scast (push_bit (unat v mod 32) 1 :: u32) :: u64) = push_bit (unat v) 1"
      using flag_widens [of "unat v"] by (simp only: mod_less)
    moreover have "bit (push_bit (unat v) 1 :: u64) k \<longleftrightarrow> unat v = k"
      using assms(2) by (auto simp: bit_simps)
    ultimately show ?case using Cons by (auto simp: bit_or_iff)
  qed simp
  then show ?thesis by (simp add: versions_word_def)
qed

text \<open>Whether a symbol of the host is for the version that a module was recognized as.\<close>

definition for_version :: "sail_module \<Rightarrow> HostSymbol \<Rightarrow> bool" where
  "for_version m s \<longleftrightarrow> (\<exists>v\<in>set (hs_versionIndices s). uint v = getVersionIndex m)"

lemma isVersion_iff:
  assumes "\<forall>v\<in>set (hs_versionIndices s). v < 31" "- 1 \<le> getVersionIndex m" "getVersionIndex m < 64"
  shows "isVersion m (versions_word (hs_versionIndices s)) \<longleftrightarrow> for_version m s"
proof -
  have k: "nat (getVersionIndex m mod 64) < 64" by (simp add: nat_less_iff)
  have "unat v = nat (getVersionIndex m mod 64) \<longleftrightarrow> uint v = getVersionIndex m"
    if "v \<in> set (hs_versionIndices s)" for v
  proof -
    have "uint v < 31" using assms(1) that by (simp add: word_less_def)
    moreover have "unat v = nat (getVersionIndex m mod 64) \<longleftrightarrow> uint v = getVersionIndex m mod 64"
      by (metis eq_nat_nat_iff pos_mod_sign uint_ge_0 unat_eq_nat_uint zero_less_numeral)
    moreover have "getVersionIndex m mod 64 = (if getVersionIndex m = - 1 then 63 else getVersionIndex m)"
      using assms(2,3) by (auto simp: mod_pos_pos_trivial)
    moreover have "uint v \<noteq> - 1" using uint_ge_0 [of v] by linarith
    ultimately show ?thesis by auto
  qed
  then show ?thesis
    using versions_word_bit [OF assms(1) k] by (auto simp: isVersion_def for_version_def)
qed

text \<open>The offset of a symbol that is a fixed offset into module \<open>mi\<close>.\<close>

fun immediate_offset :: "HostSymbol \<Rightarrow> u32" where
  "immediate_offset s = (case hs_data s of HostImmediate mi off \<Rightarrow> off | _ \<Rightarrow> 0)"

definition module_address :: "sail_module \<Rightarrow> HostSymbol \<Rightarrow> u64" where
  "module_address m s = mStart (mod_range (RoModule.truncate m)) + ucast (immediate_offset s)"

text \<open>Symbols at fixed offsets into one module, at addresses that are neither 0 nor 1.\<close>

definition immediate_in :: "sail_env \<Rightarrow> sail_module \<Rightarrow> HostSymbol \<Rightarrow> bool" where
  "immediate_in env m s \<longleftrightarrow>
     (case hs_data s of HostImmediate mi off \<Rightarrow> gModule env (ucast (of_int mi :: u32)) = Some m | _ \<Rightarrow> False) \<and>
     (\<forall>v\<in>set (hs_versionIndices s). v < 31) \<and> 1 < module_address m s"

definition recognized :: "sail_module \<Rightarrow> bool" where
  "recognized m \<longleftrightarrow> - 1 \<le> getVersionIndex m \<and> getVersionIndex m < 64"

definition store_cache :: "u64 \<Rightarrow> u64 \<Rightarrow> sail_db \<Rightarrow> sail_db" where
  "store_cache off v db =
     (if isCacheDisabled (db off) then db else db(off := (db off)\<lparr>sy_symbolPtrCache := v\<rparr>))"

lemma store_same [simp]: "sy_symbolPtrCache (db off) = v \<Longrightarrow> store_cache off v db = db"
  by (auto simp: store_cache_def)

lemma store_same_but_caches [simp]: "same_but_caches db (store_cache off v db)"
  by (simp add: store_cache_def same_but_caches_upd)

lemma apply_immediate:
  assumes s: "insertSymbol sx fo srt s = Inr (db off)" "immediate_in env m s" "recognized m"
  shows "sail_apply (Suc n) env abort off 0 db =
    (if for_version m s then Some (Inr (module_address m s, store_cache off (module_address m s) db))
     else if abort then Some (Inl (Abort ''UnresolvedSymbol (Immediate_WrongVersion)''))
     else Some (Inr (0, db)))"
proof -
  from s(2) obtain mi o' where d: "hs_data s = HostImmediate mi o'"
    and m: "gModule env (ucast (of_int mi :: u32)) = Some m"
    by (auto simp: immediate_in_def split: HostData.splits)
  have "db off = \<lparr>sy_destNameMurmur = symbol_hash sx s,
      sy_symbolPtrCache = (if hs_useCache s then 0 else 1),
      sy_data = Immediate (versions_word (hs_versionIndices s)) (of_int mi) o'\<rparr>"
    using s(1) by (simp add: insertSymbol_def insertSymbol_data_def d)
  then have e: "sy_data (db off) = Immediate (versions_word (hs_versionIndices s)) (of_int mi) o'"
    "sy_symbolPtrCache (db off) = 0 \<or> isCacheDisabled (db off)"
    by (simp_all add: isCacheDisabled_def)
  have v: "isVersion m (versions_word (hs_versionIndices s)) \<longleftrightarrow> for_version m s"
    using s(2,3) by (intro isVersion_iff) (auto simp: immediate_in_def recognized_def)
  have a: "module_address m s = mStart (mod_range (RoModule.truncate m)) + ucast o'"
    by (simp add: module_address_def d)
  have z: "store_cache off 0 db = db" using e(2) by (auto simp: store_cache_def)
  have "sail_apply (Suc n) env abort off 0 db =
      bindA (Some (map_sum id (\<lambda>v. (v, db)) (applyImmediateSymbol env abort
          (versions_word (hs_versionIndices s)) (of_int mi) o' 0)))
        (\<lambda>out db. Some (Inr (out, store_cache off out db)))"
    using e by (auto simp: store_cache_def)
  also have "applyImmediateSymbol env abort (versions_word (hs_versionIndices s)) (of_int mi) o' 0 =
      (if for_version m s then Inr (module_address m s)
       else if abort then Inl (Abort ''UnresolvedSymbol (Immediate_WrongVersion)'') else Inr 0)"
    by (simp add: applyImmediateSymbol_def m v a)
  finally show ?thesis by (simp add: z)
qed

lemma entry_immediate:
  "insertSymbol sx fo srt s = Inr e \<Longrightarrow> immediate_in env m s \<Longrightarrow> isImmediate (sy_data e)"
  by (cases "hs_data s") (auto simp: insertSymbol_def insertSymbol_data_def immediate_in_def)

text \<open>The candidates' loop over such entries takes the first for the version; the others stay as they are.\<close>

lemma candidates_immediate:
  assumes "list_all2 (\<lambda>c s. insertSymbol sx fo srt s = Inr (db c) \<and> immediate_in env m s) cs ss"
    "recognized m"
  shows "case List.find (for_version m) ss of
      None \<Rightarrow> candidates_loop (sail_apply (Suc n) env False) imm cs 0 db = Some (Inr (0, db))
    | Some s \<Rightarrow> \<exists>c. candidates_loop (sail_apply (Suc n) env False) imm cs 0 db =
        Some (Inr (module_address m s, store_cache c (module_address m s) db))"
  using assms(1)
proof (induction rule: list_all2_induct)
  case (Cons c cs s ss)
  then have c: "sail_apply (Suc n) env False c 0 db =
    (if for_version m s then Some (Inr (module_address m s, store_cache c (module_address m s) db))
     else Some (Inr (0, db)))"
    using apply_immediate [of sx fo srt s db c env m n False] assms(2) by simp
  have i: "isImmediate (sy_data (db c))" and nz: "module_address m s \<noteq> 0"
    using Cons.hyps entry_immediate by (blast, auto simp: immediate_in_def)
  show ?case
    using Cons.IH nz by (cases "for_version m s") (auto simp del: sail_apply.simps simp: c i split: option.splits)
qed simp

lemma find_group:
  assumes "insert_all sx fo srt ss = Inr (map db cs)" "\<forall>s\<in>set ss. immediate_in env m s"
  shows "list_all2 (\<lambda>c s. insertSymbol sx fo srt s = Inr (db c) \<and> immediate_in env m s) cs ss"
  using insert_all_length [OF assms(1)] insert_all_nth [OF assms(1)] assms(2)
  by (auto simp: list_all2_conv_all_nth)

text \<open>Applying the entry of a name again, once its address is in the cache.\<close>

lemma apply_cached:
  "\<not> isCacheDisabled (db off) \<Longrightarrow> sy_symbolPtrCache (db off) = v \<Longrightarrow> v \<noteq> 0 \<Longrightarrow>
     sail_apply (Suc n) env abort off out db = Some (Inr (v, db))"
  by simp

lemma lookup_name_hash:
  assumes "\<forall>b\<in>set name. b < 128"
  shows "hashMurmur False name 0 = name_hash True name"
  using host_and_console_hashes_agree [OF assms, of 0] by (simp add: name_hash_def)

text \<open>
  Applying the entry of a name with one definition, twice; and the entry of a name with several, whose
  candidates lie elsewhere in the database.
\<close>

definition applies_twice :: "nat \<Rightarrow> sail_env \<Rightarrow> u64 \<Rightarrow> sail_db \<Rightarrow> u64 \<Rightarrow> bool" where
  "applies_twice n env off db v \<longleftrightarrow>
     (\<exists>db'. same_but_caches db db' \<and> sail_apply n env True off 0 db = Some (Inr (v, db')) \<and>
       sail_apply n env True off 0 db' = Some (Inr (v, db')))"

lemma apply_one_definition:
  assumes entry: "insertSymbol sx fo srt s = Inr (db off)" and imm: "immediate_in env m s" "recognized m"
  shows "if for_version m s then applies_twice (Suc n) env off db (module_address m s)
    else \<exists>msg. sail_apply (Suc n) env True off 0 db = Some (Inl (Abort msg))"
proof (cases "for_version m s")
  case True
  let ?db = "store_cache off (module_address m s) db"
  have once: "sail_apply (Suc n) env True off 0 db = Some (Inr (module_address m s, ?db))"
    using apply_immediate [of sx fo srt s db off, OF entry imm, of n True] True by simp
  have "sail_apply (Suc n) env True off 0 ?db = Some (Inr (module_address m s, ?db))"
  proof (cases "isCacheDisabled (db off)")
    case True
    then have "?db = db" by (simp add: store_cache_def)
    with once show ?thesis by simp
  next
    case False
    have "1 < module_address m s" using imm(1) by (simp add: immediate_in_def)
    then have "module_address m s \<noteq> 0" "module_address m s \<noteq> 1" by auto
    with False show ?thesis by (intro apply_cached) (auto simp: store_cache_def isCacheDisabled_def)
  qed
  with once show ?thesis using True by (auto simp: applies_twice_def simp del: sail_apply.simps)
next
  case False
  then show ?thesis using apply_immediate [of sx fo srt s db off, OF entry imm, of n True] by simp
qed

lemma apply_many_definitions:
  assumes entry: "sy_data (db off) = MultipleCandidate start num" "sy_symbolPtrCache (db off) = 0"
    and group: "insert_all sx fo srt defs = Inr (map db (candidate_offsets start num))"
    and imm: "\<forall>s\<in>set defs. immediate_in env m s" "recognized m"
  shows "case List.find (for_version m) defs of
      None \<Rightarrow> \<exists>msg. sail_apply (Suc (Suc n)) env True off 0 db = Some (Inl (Abort msg))
    | Some s \<Rightarrow> applies_twice (Suc (Suc n)) env off db (module_address m s)"
proof -
  let ?loop = "\<lambda>imm. candidates_loop (sail_apply (Suc n) env False) imm (candidate_offsets start num) 0 db"
  have loop: "case List.find (for_version m) defs of
      None \<Rightarrow> ?loop first = Some (Inr (0, db))
    | Some s \<Rightarrow> \<exists>c. ?loop first = Some (Inr (module_address m s, store_cache c (module_address m s) db))" for first
    by (rule candidates_immediate [OF find_group [OF group imm(1)] imm(2)])
  have step: "sail_apply (Suc (Suc n)) env True off 0 db =
      bindA (applyMultipleCandidateSymbol (sail_apply (Suc n) env False) start num db)
        (\<lambda>out db. Some (Inr (out, store_cache off out db)))"
    by (subst sail_apply.simps) (simp add: entry store_cache_def isCacheDisabled_def del: sail_apply.simps)
  show ?thesis
  proof (cases "List.find (for_version m) defs")
    case None
    then show ?thesis using loop [of True] loop [of False]
      by (simp add: step applyMultipleCandidateSymbol_def Let_def del: sail_apply.simps)
  next
    case (Some s)
    then have "s \<in> set defs" by (auto simp: find_Some_iff)
    then have "1 < module_address m s" using imm(1) by (simp add: immediate_in_def)
    then have big: "module_address m s \<noteq> 0" "module_address m s \<noteq> 1" by auto
    from Some loop [of True] obtain c
      where c: "?loop True = Some (Inr (module_address m s, store_cache c (module_address m s) db))" by auto
    let ?db = "store_cache off (module_address m s) (store_cache c (module_address m s) db)"
    have "sail_apply (Suc (Suc n)) env True off 0 db = Some (Inr (module_address m s, ?db))"
      using big by (simp add: step applyMultipleCandidateSymbol_def Let_def c del: sail_apply.simps)
    moreover have "same_but_caches db ?db"
      by (rule same_but_caches_trans [OF store_same_but_caches store_same_but_caches])
    moreover have "sail_apply (Suc (Suc n)) env True off 0 ?db = Some (Inr (module_address m s, ?db))"
      using big entry(2) by (intro apply_cached) (auto simp: store_cache_def isCacheDisabled_def)
    ultimately show ?thesis using Some by (auto simp: applies_twice_def simp del: sail_apply.simps)
  qed
qed

text \<open>From the entry to the name.\<close>

lemma lookup_name:
  assumes "lookupSymbolByHash env db (name_hash True name) = Inr (Some off)" "\<forall>b\<in>set name. b < 128"
  shows "lookupSymbolFromDb n env name abort db = sail_apply n env True off 0 db"
  using assms(1) by (simp add: lookupSymbolFromDb_def lookupSymbolFromDb_hash_def lookup_name_hash [OF assms(2)]
      del: sail_apply.simps)

lemma lookup_name_twice:
  assumes "lookupSymbolByHash env db (name_hash True name) = Inr (Some off)" "\<forall>b\<in>set name. b < 128"
    and "applies_twice n env off db v"
  shows "\<exists>db'. lookupSymbolFromDb n env name abort db = Some (Inr (v, db')) \<and>
    lookupSymbolFromDb n env name abort db' = Some (Inr (v, db'))"
proof -
  from assms(3) obtain db' where db': "same_but_caches db db'"
    "sail_apply n env True off 0 db = Some (Inr (v, db'))" "sail_apply n env True off 0 db' = Some (Inr (v, db'))"
    by (auto simp: applies_twice_def)
  have "lookupSymbolByHash env db' (name_hash True name) = Inr (Some off)"
    using assms(1) by (simp add: lookup_same [OF db'(1)])
  then show ?thesis using db'(2,3) lookup_name [OF assms(1,2)] lookup_name [OF _ assms(2)] by auto
qed



end
