(* ===== verification/SailSearch.thy ===== *)
theory SailSearch
  imports SailResolve RtldRelocate
begin

text \<open>
  The search functions that are generated with the database (\<^verbatim>\<open>sail/src/fakelib.cpp\<close>): one per symbol
  that is a block of bytes. A function goes through a range of memory in steps of 4 and compares the
  block under a mask, in words of 8, 4 and 2 bytes and then bytewise. The block and its mask are
  constant arrays of the generated code. A search that reached the end of the address space would wrap.
\<close>

section \<open>The generated code\<close>

definition array_bytes :: "u8 list \<Rightarrow> memory" where
  "array_bytes xs = (\<lambda>a. if unat a < length xs then xs ! unat a else 0)"

definition same_masked :: "('a::semiring_bit_operations) \<Rightarrow> 'a \<Rightarrow> 'a \<Rightarrow> bool" where
  "same_masked compare dat msk \<longleftrightarrow> and compare msk = and dat msk"

definition compareMask :: "memory \<Rightarrow> u64 \<Rightarrow> memory \<Rightarrow> memory \<Rightarrow> nat \<Rightarrow> bool" where
  "compareMask m compareData dat maskData n =
     (let n8 = n div 8;
          p8 = n8 * 8;
          p4 = (if n - p8 \<ge> 4 then p8 + 4 else p8);
          p2 = (if n - p4 \<ge> 2 then p4 + 2 else p4)
      in list_all (\<lambda>i. same_masked (ld64 m (compareData + of_nat (i * 8)))
             (ld64 dat (of_nat (i * 8))) (ld64 maskData (of_nat (i * 8)))) [0..<n8] \<and>
         (n - p8 \<ge> 4 \<longrightarrow> same_masked (ld32 m (compareData + of_nat p8)) (ld32 dat (of_nat p8)) (ld32 maskData (of_nat p8))) \<and>
         (n - p4 \<ge> 2 \<longrightarrow> same_masked (ld16 m (compareData + of_nat p4)) (ld16 dat (of_nat p4)) (ld16 maskData (of_nat p4))) \<and>
         list_all (\<lambda>i. same_masked (m (compareData + of_nat i)) (dat (of_nat i)) (maskData (of_nat i))) [p2..<n])"

partial_function (option) search_loop ::
  "memory \<Rightarrow> memory \<Rightarrow> memory \<Rightarrow> nat \<Rightarrow> u64 \<Rightarrow> u64 \<Rightarrow> u64 option" where
  "search_loop m cData cDataMask n stop search =
     (if \<not> search < stop then Some 0
      else if compareMask m search cData cDataMask n then Some search
      else search_loop m cData cDataMask n stop (search + 4))"

declare search_loop.simps [code]

definition search_function :: "memory \<Rightarrow> u8 list \<Rightarrow> u8 list \<Rightarrow> u64 \<Rightarrow> u64 \<Rightarrow> u64 option" where
  "search_function m dat msk start len =
     search_loop m (array_bytes dat) (array_bytes msk) (length dat) (start + len - of_nat (length dat)) start"

section \<open>Words and bytes\<close>

lemma bytes_determine:
  fixes v w :: "'a::len word"
  assumes "LENGTH('a) = 8 * k" "\<forall>j<k. (ucast (drop_bit (8 * j) v) :: u8) = ucast (drop_bit (8 * j) w)"
  shows "v = w"
proof (rule bit_word_eqI)
  fix n assume n: "n < LENGTH('a)"
  then have "n div 8 < k" using assms(1) by (simp add: less_mult_imp_div_less mult.commute)
  then have "bit (ucast (drop_bit (8 * (n div 8)) v) :: u8) (n mod 8) = bit (ucast (drop_bit (8 * (n div 8)) w) :: u8) (n mod 8)"
    using assms(2) by simp
  then show "bit v n = bit w n" by (simp add: bit_simps)
qed

lemma ld64_byte: "j < 8 \<Longrightarrow> ucast (drop_bit (8 * j) (ld64 m a)) = m (a + of_nat j)"
proof -
  assume "j < 8"
  then have "j \<in> {0, 1, 2, 3, 4, 5, 6, 7}" by auto
  then show ?thesis
    by (elim insertE) (auto intro!: bit_word_eqI simp: ld64_def bit_simps u8_high)
qed

lemma ld32_byte: "j < 4 \<Longrightarrow> ucast (drop_bit (8 * j) (ld32 m a)) = m (a + of_nat j)"
proof -
  assume "j < 4"
  then have "j \<in> {0, 1, 2, 3}" by auto
  then show ?thesis
    by (elim insertE) (auto intro!: bit_word_eqI simp: ld32_def bit_simps u8_high)
qed

lemma ld16_byte: "j < 2 \<Longrightarrow> ucast (drop_bit (8 * j) (ld16 m a)) = m (a + of_nat j)"
proof -
  assume "j < 2"
  then have "j \<in> {0, 1}" by auto
  then show ?thesis
    by (elim insertE) (auto intro!: bit_word_eqI simp: ld16_def bit_simps u8_high)
qed

text \<open>Comparing words under a mask is comparing their bytes.\<close>

definition masked_byte :: "memory \<Rightarrow> u64 \<Rightarrow> memory \<Rightarrow> memory \<Rightarrow> nat \<Rightarrow> bool" where
  "masked_byte m a dat msk i \<longleftrightarrow> same_masked (m (a + of_nat i)) (dat (of_nat i)) (msk (of_nat i))"

lemma same_masked_bytes:
  fixes v w x :: "'a::len word"
  assumes "LENGTH('a) = 8 * k"
  shows "same_masked v w x \<longleftrightarrow> (\<forall>j<k. same_masked (ucast (drop_bit (8 * j) v) :: u8)
    (ucast (drop_bit (8 * j) w)) (ucast (drop_bit (8 * j) x)))"
proof
  assume "same_masked v w x"
  then have "ucast (drop_bit (8 * j) (v AND x)) = (ucast (drop_bit (8 * j) (w AND x)) :: u8)" for j
    by (simp add: same_masked_def)
  then show "\<forall>j<k. same_masked (ucast (drop_bit (8 * j) v) :: u8)
      (ucast (drop_bit (8 * j) w)) (ucast (drop_bit (8 * j) x))"
    by (simp add: same_masked_def unsigned_and_eq)
next
  assume "\<forall>j<k. same_masked (ucast (drop_bit (8 * j) v) :: u8)
      (ucast (drop_bit (8 * j) w)) (ucast (drop_bit (8 * j) x))"
  then show "same_masked v w x"
    unfolding same_masked_def by (intro bytes_determine [OF assms]) (simp add: unsigned_and_eq)
qed

lemma masked64:
  "same_masked (ld64 m (a + of_nat p)) (ld64 dat (of_nat p)) (ld64 msk (of_nat p)) \<longleftrightarrow>
     (\<forall>j<8. masked_byte m a dat msk (p + j))"
  by (subst same_masked_bytes [of 8]) (simp_all add: ld64_byte masked_byte_def add.assoc)

lemma masked32:
  "same_masked (ld32 m (a + of_nat p)) (ld32 dat (of_nat p)) (ld32 msk (of_nat p)) \<longleftrightarrow>
     (\<forall>j<4. masked_byte m a dat msk (p + j))"
  by (subst same_masked_bytes [of 4]) (simp_all add: ld32_byte masked_byte_def add.assoc)

lemma masked16:
  "same_masked (ld16 m (a + of_nat p)) (ld16 dat (of_nat p)) (ld16 msk (of_nat p)) \<longleftrightarrow>
     (\<forall>j<2. masked_byte m a dat msk (p + j))"
  by (subst same_masked_bytes [of 2]) (simp_all add: ld16_byte masked_byte_def add.assoc)

lemma all_split: "(\<forall>i<k. P i) \<and> (\<forall>j<l. P (k + j)) \<longleftrightarrow> (\<forall>i<k + l. P (i :: nat))"
  by (auto, metis add_diff_inverse_nat nat_add_left_cancel_less)

lemma all_blocks: "(\<forall>i<k. \<forall>j<8. P (i * 8 + j)) \<longleftrightarrow> (\<forall>i<k * 8. P (i :: nat))"
proof (induction k)
  case (Suc k)
  have "(\<forall>i<Suc k. \<forall>j<8. P (i * 8 + j)) \<longleftrightarrow> (\<forall>i<k. \<forall>j<8. P (i * 8 + j)) \<and> (\<forall>j<8. P (k * 8 + j))"
    by (auto simp: less_Suc_eq)
  also have "\<dots> \<longleftrightarrow> (\<forall>i<k * 8 + 8. P i)" unfolding Suc by (rule all_split)
  finally show ?case by (simp add: add.commute)
qed simp

text \<open>The comparison in words agrees with the comparison of all bytes.\<close>

lemma compareMask_bytes:
  "compareMask m a dat msk n \<longleftrightarrow> (\<forall>i<n. masked_byte m a dat msk i)"
proof -
  let ?P = "masked_byte m a dat msk"
  define p8 where "p8 = n div 8 * 8"
  define p4 where "p4 = (if n - p8 \<ge> 4 then p8 + 4 else p8)"
  define p2 where "p2 = (if n - p4 \<ge> 2 then p4 + 2 else p4)"
  have le: "p8 \<le> n" "p4 \<le> n" "p2 \<le> n" by (auto simp: p8_def p4_def p2_def)
  have 8: "(\<forall>i<n div 8. \<forall>j<8. ?P (i * 8 + j)) \<longleftrightarrow> (\<forall>i<p8. ?P i)" by (simp add: all_blocks p8_def)
  have 4: "(\<forall>i<p8. ?P i) \<and> (n - p8 \<ge> 4 \<longrightarrow> (\<forall>j<4. ?P (p8 + j))) \<longleftrightarrow> (\<forall>i<p4. ?P i)"
    using all_split [of p8 ?P 4] by (simp add: p4_def)
  have 2: "(\<forall>i<p4. ?P i) \<and> (n - p4 \<ge> 2 \<longrightarrow> (\<forall>j<2. ?P (p4 + j))) \<longleftrightarrow> (\<forall>i<p2. ?P i)"
    using all_split [of p4 ?P 2] by (simp add: p2_def)
  have 1: "(\<forall>i<p2. ?P i) \<and> (\<forall>i\<in>set [p2..<n]. ?P i) \<longleftrightarrow> (\<forall>i<n. ?P i)"
    using le(3) by (auto simp: not_less)
  have "compareMask m a dat msk n \<longleftrightarrow>
      (((\<forall>i<n div 8. \<forall>j<8. ?P (i * 8 + j)) \<and> (n - p8 \<ge> 4 \<longrightarrow> (\<forall>j<4. ?P (p8 + j)))) \<and>
        (n - p4 \<ge> 2 \<longrightarrow> (\<forall>j<2. ?P (p4 + j)))) \<and> (\<forall>i\<in>set [p2..<n]. ?P i)"
    unfolding compareMask_def Let_def p8_def [symmetric] p4_def [symmetric] p2_def [symmetric]
      masked64 masked32 masked16
    by (auto simp: list_all_iff masked_byte_def)
  then show ?thesis unfolding 8 4 2 1 .
qed

section \<open>The search\<close>

text \<open>The block lies at an address of memory, as far as the mask tells.\<close>

definition block_at :: "memory \<Rightarrow> u8 list \<Rightarrow> u8 list \<Rightarrow> u64 \<Rightarrow> bool" where
  "block_at m dat msk a \<longleftrightarrow>
     (\<forall>i<length dat. m (a + of_nat i) AND msk ! i = dat ! i AND msk ! i)"

lemma compareMask_block:
  assumes "length msk = length dat" "length dat < 2 ^ 64"
  shows "compareMask m a (array_bytes dat) (array_bytes msk) (length dat) \<longleftrightarrow> block_at m dat msk a"
proof -
  have "array_bytes xs (of_nat i) = xs ! i" if "i < length xs" "length xs < 2 ^ 64" for xs i
  proof -
    have "unat (of_nat i :: u64) = i" using that by (simp add: unat_of_nat take_bit_eq_mod)
    then show ?thesis using that by (simp add: array_bytes_def)
  qed
  then show ?thesis
    using assms by (simp add: compareMask_bytes masked_byte_def same_masked_def block_at_def)
qed

text \<open>The positions that the search tries, counted in steps of 4.\<close>

definition positions :: "nat \<Rightarrow> nat \<Rightarrow> nat" where
  "positions len n = (len - n + 3) div 4"

definition search_result :: "u64 \<Rightarrow> nat option \<Rightarrow> u64" where
  "search_result start r = (case r of None \<Rightarrow> 0 | Some k \<Rightarrow> start + 4 * of_nat k)"

lemma position_address:
  fixes start :: u64
  assumes "unat start + len + 4 < 2 ^ 64" "4 * k < len + 4"
  shows "unat (start + 4 * of_nat k) = unat start + 4 * k"
proof -
  have "start + 4 * of_nat k = of_nat (unat start + 4 * k)" by simp
  moreover have "unat start + 4 * k < 2 ^ 64" using assms by linarith
  ultimately show ?thesis by (simp add: unat_of_nat take_bit_eq_mod del: of_nat_add of_nat_mult)
qed

lemma stop_address:
  fixes start len :: u64
  assumes "unat start + unat len + 4 < 2 ^ 64" "n \<le> unat len"
  shows "unat (start + len - of_nat n) = unat start + (unat len - n)"
proof -
  have "start + len - of_nat n = of_nat (unat start + (unat len - n))"
    using assms(2) by (simp add: of_nat_diff)
  moreover have "unat start + (unat len - n) < 2 ^ 64" using assms(1) by linarith
  ultimately show ?thesis by (simp add: unat_of_nat take_bit_eq_mod del: of_nat_add of_nat_diff)
qed

lemma search_loop_find:
  assumes len: "unat start + unat len + 4 < 2 ^ 64" "length dat \<le> unat len" "length msk = length dat"
    and k: "k \<le> positions (unat len) (length dat)"
  shows "search_loop m (array_bytes dat) (array_bytes msk) (length dat) (start + len - of_nat (length dat))
      (start + 4 * of_nat k) =
    Some (search_result start (List.find (\<lambda>i. block_at m dat msk (start + 4 * of_nat i))
      [k..<positions (unat len) (length dat)]))"
  using k
proof (induction "positions (unat len) (length dat) - k" arbitrary: k)
  case (0 k)
  let ?n = "length dat"
  note stop = stop_address [OF len(1,2)]
  from 0 have k: "k = positions (unat len) ?n" by simp
  then have "unat len - ?n \<le> 4 * k" "4 * k < unat len + 4" by (auto simp: positions_def)
  then have "\<not> start + 4 * of_nat k < start + len - of_nat ?n"
    using position_address [OF len(1)] stop by (simp add: word_less_nat_alt)
  then show ?case by (subst search_loop.simps) (simp add: k search_result_def)
next
  case (Suc d k)
  let ?n = "length dat"
  have n64: "?n < 2 ^ 64" using len(2) unsigned_less [of len, where 'a = nat] by simp
  note stop = stop_address [OF len(1,2)]
  have k: "k < positions (unat len) ?n" using Suc(2) by simp
  then have "4 * k < unat len - ?n" by (auto simp: positions_def)
  then have go: "start + 4 * of_nat k < start + len - of_nat ?n"
    using position_address [OF len(1), of k] stop by (simp add: word_less_nat_alt)
  have rest: "search_loop m (array_bytes dat) (array_bytes msk) ?n (start + len - of_nat ?n)
      (start + 4 * of_nat (Suc k)) =
    Some (search_result start (List.find (\<lambda>i. block_at m dat msk (start + 4 * of_nat i))
      [Suc k..<positions (unat len) ?n]))"
    by (rule Suc.hyps(1)) (use Suc(2) in simp_all)
  have next': "start + 4 * of_nat k + 4 = start + 4 * of_nat (Suc k)" by simp
  show ?case
    unfolding upt_conv_Cons [OF k] find.simps
    by (subst search_loop.simps)
      (simp add: go compareMask_block [OF len(3) n64] next' rest search_result_def del: of_nat_Suc)
qed

text \<open>
  C27: The search function generated for a block of bytes always returns, and it returns the first of
  the positions, in steps of 4 from the start of the range, at which all bytes of the block match under
  the mask, or 0 if none does. The positions end before the last at which the block would still fit: a
  block that ends with the range is not found.
\<close>

theorem block_search_exact:
  assumes "length msk = length dat" "length dat \<le> unat len" "unat start + unat len + 4 < 2 ^ 64"
  shows "search_function m dat msk start len =
    Some (case List.find (\<lambda>k. block_at m dat msk (start + 4 * of_nat k))
        [0..<(unat len - length dat + 3) div 4] of
      None \<Rightarrow> 0 | Some k \<Rightarrow> start + 4 * of_nat k)"
  using search_loop_find [OF assms(3,2,1), of 0 m]
  by (simp add: search_function_def positions_def search_result_def)

definition example_range :: memory where
  "example_range = (\<lambda>_. 0)(0x1008 := 0xAB, 0x1009 := 0xC5)"

lemma block_search_exact_witness:
  "search_function example_range [0xAB, 0xC0] [0xFF, 0xF0] 0x1000 16 = Some 0x1008 \<and>
   search_function example_range [0xAB, 0xC0] [0xFF, 0xF0] 0x1000 10 = Some 0"
proof -
  have "List.find (\<lambda>k. block_at example_range [0xAB, 0xC0] [0xFF, 0xF0] (0x1000 + 4 * of_nat k)) [0..<4] = Some 2"
    "List.find (\<lambda>k. block_at example_range [0xAB, 0xC0] [0xFF, 0xF0] (0x1000 + 4 * of_nat k)) [0..<2] = None"
    by code_simp+
  then show ?thesis
    using block_search_exact [where msk = "[0xFF, 0xF0]" and dat = "[0xAB, 0xC0]" and len = 16 and start = "0x1000" and m = example_range]
      block_search_exact [where msk = "[0xFF, 0xF0]" and dat = "[0xAB, 0xC0]" and len = 10 and start = "0x1000" and m = example_range]
    by (simp del: upt_rec_numeral find.simps)
qed

section \<open>Blocks for older versions\<close>

lemma outside_older: "outside_boundary 1 b v"
  by (auto simp: outside_boundary_def)

text \<open>
  A symbol declared as a block of bytes for the versions older than a given one is never searched,
  in no version: its lookup gives the null pointer without an abort, even if the caller asks for one,
  because the check for older versions falls through into the check for newer ones.
\<close>

theorem older_symbol_resolves_to_null:
  assumes "sorted (map (symbol_hash True) srt)" "length srt \<le> 2 ^ 30"
    and "generateSymbolDb True funcOffset srt = Inr (n, db)" "se_numSymbols env = n"
    and "\<forall>b\<in>set name. b < 128" "hash_group True srt (name_hash True name) = [s]"
    and "hs_data s = HostDataBlock mi d dm off Older sl vb" "gModule env (ucast (of_int mi :: u8)) = Some m"
  shows "lookupSymbolFromDb (Suc k) env name abort db = Some (Inr (0, db))"
proof -
  from db_finds_every_symbol [OF assms(1-4), of "name_hash True name"] assms(6)
  obtain at where at: "lookupSymbolByHash env db (name_hash True name) = Inr (Some at)"
    "insertSymbol True funcOffset srt s = Inr (db at)" by auto
  then have "db at = \<lparr>sy_destNameMurmur = symbol_hash True s,
      sy_symbolPtrCache = (if hs_useCache s then 0 else 1),
      sy_data = DataBlock (funcOffset s) (of_int mi) 1 (ucast vb) (section_code sl) off\<rparr>"
    by (simp add: insertSymbol_def insertSymbol_data_def assms(7))
  then have e: "sy_data (db at) = DataBlock (funcOffset s) (of_int mi) 1 (ucast vb) (section_code sl) off"
    "sy_symbolPtrCache (db at) = 0 \<or> isCacheDisabled (db at)"
    by (simp_all add: isCacheDisabled_def)
  have keep: "store_cache at 0 db = db" using e(2) by (auto simp: store_cache_def)
  have "sail_apply (Suc k) env True at 0 db =
      bindA (Some (map_sum id (\<lambda>v. (v, db)) (applyDataBlockSymbol env True (funcOffset s) (of_int mi) 1
          (ucast vb) (section_code sl) off 0))) (\<lambda>out db. Some (Inr (out, store_cache at out db)))"
    using e by (auto simp: store_cache_def)
  also have "applyDataBlockSymbol env True (funcOffset s) (of_int mi) 1 (ucast vb) (section_code sl) off 0 = Inr 0"
    by (simp add: applyDataBlockSymbol_def assms(8) outside_older)
  finally have "sail_apply (Suc k) env True at 0 db = Some (Inr (0, db))" by (simp add: keep)
  then show ?thesis
    using at(1) lookup_name_hash [OF assms(5)]
    by (simp add: lookupSymbolFromDb_def lookupSymbolFromDb_hash_def del: sail_apply.simps)
qed

definition older_symbol :: HostSymbol where
  "older_symbol = \<lparr>hs_name = [0x61], hs_useCache = True, hs_versionIndices = [],
     hs_data = HostDataBlock 0 [0xAB, 0xCD, 0xEF, 0x01] [0xFF, 0xFF, 0xFF, 0xFF] 0 Older SectionText 5\<rparr>"

lemma older_symbol_resolves_to_null_witness:
  "\<exists>n db. generateSymbolDb True (\<lambda>_. 0x100) [older_symbol] = Inr (n, db) \<and>
     lookupSymbolFromDb 1 (example_env\<lparr>se_numSymbols := n\<rparr>) [0x61] True db = Some (Inr (0, db))"
proof -
  have "\<exists>slots. emit_slots True (\<lambda>_. 0x100) [older_symbol] [] [older_symbol] = Inr slots"
    by (simp add: older_symbol_def hash_group_def insertSymbol_def insertSymbol_data_def
        symbol_hash_def Let_def)
  then obtain n db where gen: "generateSymbolDb True (\<lambda>_. 0x100) [older_symbol] = Inr (n, db)"
    by (auto simp: generateSymbolDb_def)
  have "hash_group True [older_symbol] (name_hash True [0x61]) = [older_symbol]"
    by (simp add: hash_group_def symbol_hash_def older_symbol_def)
  moreover have "gModule (example_env\<lparr>se_numSymbols := n\<rparr>) (ucast (of_int 0 :: u8)) = Some example_module"
    by (simp add: gModule_def example_env_def)
  ultimately show ?thesis
    using older_symbol_resolves_to_null [OF _ _ gen, of "example_env\<lparr>se_numSymbols := n\<rparr>" "[0x61]" older_symbol
        0 "[0xAB, 0xCD, 0xEF, 0x01]" "[0xFF, 0xFF, 0xFF, 0xFF]" 0 SectionText 5 example_module 0 True]
      gen by (auto simp: older_symbol_def)
qed

end
