(* ===== verification/SailParse.thy ===== *)
theory SailParse
  imports SailDb "HOL-Library.Char_ord" "HOL-Library.List_Lexorder"
begin

text \<open>
  The host tool's parsers (\<^verbatim>\<open>sail/src/parser.cpp\<close>, \<^verbatim>\<open>sail/include/util.h\<close>) and the list of modules
  and versions that they consult (\<^verbatim>\<open>sail/src/config.cpp\<close>). A text is a \<open>string\<close>; symbols carry their
  names as bytes. The functions stop at the first error: a syntax error with its line, an exception of
  the standard library, or an access outside a container. \<^verbatim>\<open>std::map\<close> is a list sorted by its keys.
\<close>

section \<open>Strings\<close>

datatype host_error = SyntaxError nat string | InvalidArgument | OutOfRange

type_synonym 'a host = "host_error + 'a"

definition bytes_of :: "string \<Rightarrow> u8 list" where
  "bytes_of s = map of_char s"

definition starts_with :: "string \<Rightarrow> string \<Rightarrow> bool" where
  "starts_with s p \<longleftrightarrow> take (length p) s = p"

text \<open>\<^verbatim>\<open>std::string::find\<close>: the first position of a pattern, and of a character.\<close>

fun find_sub :: "string \<Rightarrow> string \<Rightarrow> nat option" where
  "find_sub p [] = (if p = [] then Some 0 else None)"
| "find_sub p (c # s) = (if starts_with (c # s) p then Some 0 else map_option Suc (find_sub p s))"

fun find_char :: "char \<Rightarrow> string \<Rightarrow> nat option" where
  "find_char c [] = None"
| "find_char c (d # s) = (if d = c then Some 0 else map_option Suc (find_char c s))"

text \<open>Successive \<^verbatim>\<open>std::getline\<close> calls on a text; text after the last delimiter counts if there is any.\<close>

function getlines :: "char \<Rightarrow> string \<Rightarrow> string list" where
  "getlines d s = (if s = [] then [] else takeWhile (\<lambda>c. c \<noteq> d) s # getlines d (tl (dropWhile (\<lambda>c. c \<noteq> d) s)))"
  by pat_completeness auto
termination
  by (relation "measure (\<lambda>(d, s). length s)")
    (auto simp: less_Suc_eq_le neq_Nil_conv intro: le_trans [OF diff_le_self length_dropWhile_le] split: if_splits)

declare getlines.simps [simp del]

definition split_str :: "string \<Rightarrow> char \<Rightarrow> string list" where
  "split_str str delim = filter (\<lambda>s. s \<noteq> []) (getlines delim str)"

lemma find_sub_bound: "find_sub p s = Some i \<Longrightarrow> i + length p \<le> length s"
proof (induction p s arbitrary: i rule: find_sub.induct)
  case (2 p c s)
  then show ?case
    by (auto simp: starts_with_def split: if_splits) (metis length_Cons length_take min.cobounded1)
qed (auto split: if_splits)

text \<open>\<^verbatim>\<open>removeCrlf\<close>: the search begins anew after every replacement.\<close>

function removeCrlf :: "string \<Rightarrow> string" where
  "removeCrlf out = (case find_sub [CHR 0x0D, CHR 0x0A] out of
     None \<Rightarrow> out
   | Some idx \<Rightarrow> removeCrlf (take idx out @ [CHR 0x0A] @ drop (idx + 2) out))"
  by pat_completeness auto
termination
  by (relation "measure length") (auto dest: find_sub_bound)

declare removeCrlf.simps [simp del]

section \<open>Numbers\<close>

definition isspace :: "char \<Rightarrow> bool" where
  "isspace c \<longleftrightarrow> c = CHR '' '' \<or> 9 \<le> (of_char c :: nat) \<and> (of_char c :: nat) \<le> 13"

definition digit_value :: "char \<Rightarrow> nat option" where
  "digit_value c =
     (let k = of_char c :: nat in
      if 48 \<le> k \<and> k \<le> 57 then Some (k - 48)
      else if 65 \<le> k \<and> k \<le> 70 then Some (k - 65 + 10)
      else if 97 \<le> k \<and> k \<le> 102 then Some (k - 97 + 10)
      else None)"

definition is_digit :: "nat \<Rightarrow> char \<Rightarrow> bool" where
  "is_digit base c \<longleftrightarrow> (case digit_value c of None \<Rightarrow> False | Some v \<Rightarrow> v < base)"

definition read_digits :: "nat \<Rightarrow> string \<Rightarrow> nat" where
  "read_digits base ds = foldl (\<lambda>v c. v * base + the (digit_value c)) 0 ds"

text \<open>
  What \<^verbatim>\<open>strtoul\<close> and \<^verbatim>\<open>strtol\<close> read: blanks, a sign, \<^verbatim>\<open>0x\<close> in front of hexadecimal digits, digits;
  nothing if there is no digit. The rest of the text is not looked at. The results are those of a
  host whose \<^verbatim>\<open>long\<close> has 64 bits.
\<close>

definition number_prefix :: "nat \<Rightarrow> string \<Rightarrow> (bool \<times> nat) option" where
  "number_prefix base s =
     (let s1 = dropWhile isspace s;
          neg = (starts_with s1 ''-'');
          s2 = (if neg \<or> starts_with s1 ''+'' then tl s1 else s1);
          s3 = (if base = 16 \<and> (starts_with s2 ''0x'' \<or> starts_with s2 ''0X'') \<and>
                  length s2 > 2 \<and> is_digit 16 (s2 ! 2) then drop 2 s2 else s2);
          ds = takeWhile (is_digit base) s3
      in if ds = [] then None else Some (neg, read_digits base ds))"

definition strtoul :: "nat \<Rightarrow> string \<Rightarrow> u64 option" where
  "strtoul base s = map_option (\<lambda>(neg, v).
     if v \<ge> 2 ^ 64 then - 1 else if neg then - of_nat v else of_nat v) (number_prefix base s)"

definition strtol :: "nat \<Rightarrow> string \<Rightarrow> int option" where
  "strtol base s = map_option (\<lambda>(neg, v).
     if neg then max (- int v) (- (2 ^ 63)) else min (int v) (2 ^ 63 - 1)) (number_prefix base s)"

text \<open>\<^verbatim>\<open>hexStringToBytes\<close>; \<^verbatim>\<open>std::stoul\<close> throws if there is no number.\<close>

fun hexBytes_loop :: "string \<Rightarrow> u8 list host" where
  "hexBytes_loop (a # b # hex) =
     (case strtoul 16 [a, b] of
        None \<Rightarrow> Inl InvalidArgument
      | Some v \<Rightarrow> bindR (hexBytes_loop hex) (\<lambda>bs. Inr (ucast v # bs)))"
| "hexBytes_loop _ = Inr []"

definition hexStringToBytes :: "string \<Rightarrow> u8 list option host" where
  "hexStringToBytes hex =
     (if length hex mod 2 \<noteq> 0 then Inr None else bindR (hexBytes_loop hex) (\<lambda>bs. Inr (Some bs)))"

definition match_nibble :: "char \<Rightarrow> u8 option" where
  "match_nibble c = (if c = CHR ''?'' then Some 0 else map_option of_nat (digit_value c))"

fun withMatch_loop :: "string \<Rightarrow> (u8 list \<times> u8 list) option" where
  "withMatch_loop (a # b # hex) =
     (case (match_nibble a, match_nibble b) of
        (Some hi, Some lo) \<Rightarrow>
          map_option (\<lambda>(out, outMask).
            (let msk = (if a = CHR ''?'' then 0xFF AND 0x0F else 0xFF)
             in ((push_bit 4 hi OR lo) # out, (if b = CHR ''?'' then msk AND 0xF0 else msk) # outMask)))
            (withMatch_loop hex)
      | _ \<Rightarrow> None)"
| "withMatch_loop _ = Some ([], [])"

definition hexStringToBytesWithMatch :: "string \<Rightarrow> (u8 list \<times> u8 list) option" where
  "hexStringToBytesWithMatch hex = (if length hex mod 2 \<noteq> 0 then None else withMatch_loop hex)"

section \<open>Lines\<close>

text \<open>The rest of a part behind a closed brace, or a part outside braces.\<close>

definition open_brace :: "string \<Rightarrow> string \<times> string list" where
  "open_brace part =
     (case find_char CHR ''{'' part of
        Some pos \<Rightarrow> (drop pos part, if take pos part = [] then [] else [take pos part])
      | None \<Rightarrow> ([], [part]))"

definition flush_brace :: "string \<Rightarrow> string list" where
  "flush_brace braceBuf = (if length braceBuf > 1 then [drop 1 braceBuf] else [])"

definition comment_at :: "string \<Rightarrow> nat option" where
  "comment_at part = (case find_sub ''//'' part of Some pos \<Rightarrow> Some pos | None \<Rightarrow> find_sub ''#'' part)"

fun split_parts :: "string list \<Rightarrow> string \<Rightarrow> string list" where
  "split_parts [] braceBuf = []"
| "split_parts (part # parts) braceBuf =
     (case comment_at part of
        Some pos \<Rightarrow> flush_brace braceBuf @ (if take pos part = [] then [] else [take pos part])
      | None \<Rightarrow>
          if braceBuf \<noteq> [] then
            (case find_char CHR ''}'' part of
               Some pos \<Rightarrow>
                 (let part' = drop (pos + 1) part in
                  flush_brace (braceBuf @ take pos part) @
                  (if part' = [] then split_parts parts []
                   else snd (open_brace part') @ split_parts parts (fst (open_brace part'))))
             | None \<Rightarrow> split_parts parts (braceBuf @ part))
          else snd (open_brace part) @ split_parts parts (fst (open_brace part)))"

definition splitByWhitespaceAndRemoveComments :: "string \<Rightarrow> string list" where
  "splitByWhitespaceAndRemoveComments dat =
     dropWhile (\<lambda>p. p = []) (split_parts (split_str dat CHR '' '') [])"

section \<open>The list of modules and versions\<close>

record VersionListModule =
  mod0Name :: string
  vm_index :: int
  versions :: "(string \<times> u8 list) list"

type_synonym ModuleList = "(string \<times> VersionListModule) list"

definition new_module :: VersionListModule where
  "new_module = \<lparr>mod0Name = [], vm_index = - 1, versions = []\<rparr>"

fun entry_at :: "'a \<Rightarrow> (string \<times> 'a) list \<Rightarrow> string \<Rightarrow> 'a" where
  "entry_at d [] k = d"
| "entry_at d ((k', v) # m) k = (if k' = k then v else entry_at d m k)"

fun map_assign :: "string \<Rightarrow> 'a \<Rightarrow> (string \<times> 'a) list \<Rightarrow> (string \<times> 'a) list" where
  "map_assign k v [] = [(k, v)]"
| "map_assign k v ((k', v') # m) =
     (if k = k' then (k, v) # m else if k < k' then (k, v) # (k', v') # m else (k', v') # map_assign k v m)"

fun map_position :: "string \<Rightarrow> (string \<times> 'a) list \<Rightarrow> int \<Rightarrow> int" where
  "map_position k [] idx = - 1"
| "map_position k ((k', v) # m) idx = (if k' = k then idx else map_position k m (idx + 1))"

definition getModuleIndex :: "ModuleList \<Rightarrow> string \<Rightarrow> int" where
  "getModuleIndex ml moduleName = map_position moduleName ml 0"

definition getVersionIndex_host :: "ModuleList \<Rightarrow> string \<Rightarrow> string \<Rightarrow> int" where
  "getVersionIndex_host ml moduleName version =
     (if moduleName \<notin> fst ` set ml then - 1
      else map_position version (versions (entry_at new_module ml moduleName)) 0)"

section \<open>The version list\<close>

definition syntax_error :: "nat \<Rightarrow> string \<Rightarrow> 'a host" where
  "syntax_error line msg = Inl (SyntaxError line msg)"

text \<open>One line of the version list: the modules so far and the current module's name.\<close>

definition version_line :: "nat \<Rightarrow> string list \<Rightarrow> ModuleList \<times> string \<Rightarrow> (ModuleList \<times> string) host" where
  "version_line n parts st =
     (case st of (modules, currentModuleName) \<Rightarrow>
      if parts = [] then Inr st
      else if starts_with (hd parts) ''@'' then
        (if length parts \<noteq> 1 \<and> length parts \<noteq> 3 then syntax_error n ''not sure what this is''
         else let name = tl (hd parts) in
           if name = [] then syntax_error n ''stray @''
           else if length parts = 3 then
             (if parts ! 1 \<noteq> ''='' then syntax_error n ''unknown operator''
              else let m = entry_at new_module modules name in
                (case strtoul 10 (parts ! 2) of
                   None \<Rightarrow> Inr (map_assign name (m\<lparr>mod0Name := parts ! 2\<rparr>) modules, name)
                 | Some v \<Rightarrow> Inr (map_assign name (m\<lparr>vm_index := sint (ucast v :: u32)\<rparr>) modules, name)))
           else Inr (modules, name))
      else if length parts \<noteq> 3 then syntax_error n ''not sure what this is''
      else if parts ! 1 \<noteq> ''='' then syntax_error n ''unknown operator''
      else bindR (hexStringToBytes (parts ! 2)) (\<lambda>r.
        case r of
          None \<Rightarrow> syntax_error n ''failed parsing bytes''
        | Some bytes \<Rightarrow>
            if length bytes > 32 then syntax_error n ''build id size cannot exceed 32 bytes''
            else let m = entry_at new_module modules currentModuleName;
                     id' = take cBuildIdSize (bytes @ replicate cBuildIdSize 0)
              in Inr (map_assign currentModuleName
                   (m\<lparr>versions := map_assign (hd parts) id' (versions m)\<rparr>) modules, currentModuleName)))"

fun version_lines :: "nat \<Rightarrow> string list \<Rightarrow> ModuleList \<times> string \<Rightarrow> (ModuleList \<times> string) host" where
  "version_lines n [] st = Inr st"
| "version_lines n (line # lines) st =
     bindR (version_line (n + 1) (splitByWhitespaceAndRemoveComments line) st) (version_lines (n + 1) lines)"

definition parseVersionList :: "string \<Rightarrow> ModuleList host" where
  "parseVersionList dat =
     bindR (version_lines 0 (getlines CHR 0x0A (removeCrlf dat)) ([], [])) (\<lambda>st. Inr (fst st))"

section \<open>Symbol files\<close>

record parse_state =
  currentModuleIndex :: int
  currentVersionIndices :: "u32 list"
  ps_symbols :: "HostSymbol list"

text \<open>\<^verbatim>\<open>@module\<close> or \<^verbatim>\<open>@module:version,version\<close>.\<close>

fun version_indices :: "ModuleList \<Rightarrow> nat \<Rightarrow> string \<Rightarrow> string list \<Rightarrow> u32 list host" where
  "version_indices ml n m [] = Inr []"
| "version_indices ml n m (v # vs) =
     (let verIndex = getVersionIndex_host ml m v in
      if verIndex = - 1 then syntax_error n ''unknown version''
      else bindR (version_indices ml n m vs) (\<lambda>is. Inr (of_int verIndex # is)))"

definition parse_marker :: "ModuleList \<Rightarrow> nat \<Rightarrow> string \<Rightarrow> parse_state \<Rightarrow> parse_state host" where
  "parse_marker ml n marker st =
     (if marker = [] then syntax_error n ''stray @''
      else let at' = split_str marker CHR '':'' in
        if length at' > 2 then syntax_error n ''invalid module/version marker''
        else if at' = [] then Inl OutOfRange
        else let m = hd at'; idx = getModuleIndex ml m in
          if idx = - 1 then syntax_error n ''unknown module''
          else bindR (version_indices ml n m (if length at' > 1 then split_str (at' ! 1) CHR '','' else []))
            (\<lambda>is. Inr (st\<lparr>currentModuleIndex := idx, currentVersionIndices := is\<rparr>)))"

definition add_symbol :: "string \<Rightarrow> u32 list \<Rightarrow> HostData \<Rightarrow> parse_state \<Rightarrow> parse_state" where
  "add_symbol name is d st =
     st\<lparr>ps_symbols := ps_symbols st @
       [\<lparr>hs_name = bytes_of name, hs_useCache = True, hs_versionIndices = is, hs_data = d\<rparr>]\<rparr>"

text \<open>The number behind a \<^verbatim>\<open>0x\<close>.\<close>

definition hex_number :: "nat \<Rightarrow> string \<Rightarrow> u32 host" where
  "hex_number n s =
     (if starts_with s ''0x'' then
        (case strtoul 16 (drop 2 s) of
           None \<Rightarrow> syntax_error n ''not a number''
         | Some v \<Rightarrow> Inr (ucast v))
      else syntax_error n ''not a number'')"

definition parse_adrp :: "nat \<Rightarrow> string \<Rightarrow> string \<Rightarrow> parse_state \<Rightarrow> parse_state host" where
  "parse_adrp n name source st =
     (case find_char CHR ''('' source of
        None \<Rightarrow> syntax_error n ''missing opening bracket''
      | Some leftBracketAt \<Rightarrow>
          if last source \<noteq> CHR '')'' then syntax_error n ''missing closing bracket''
          else let arg = butlast (drop (leftBracketAt + 1) source) in
            bindR
              (case find_char CHR '','' arg of
                 None \<Rightarrow> Inr (arg, 1)
               | Some commaAt \<Rightarrow>
                   let components = split_str arg CHR '','' in
                   if length components \<noteq> 2 then syntax_error n ''readAdrpGlobal commas invalid''
                   else if starts_with (components ! 1) ''0x'' then
                     (case strtol 16 (drop 2 (components ! 1)) of
                        None \<Rightarrow> syntax_error n ''not a number''
                      | Some v \<Rightarrow> Inr (take commaAt arg, of_int v))
                   else syntax_error n ''not a hex number'')
              (\<lambda>(src, offsetToLoInstr).
                Inr (add_symbol name [] (HostReadADRPGlobal (bytes_of src) offsetToLoInstr) st)))"

definition parse_three :: "nat \<Rightarrow> string \<Rightarrow> string \<Rightarrow> parse_state \<Rightarrow> parse_state host" where
  "parse_three n name source st =
     (if starts_with source ''0x'' then
        bindR (hex_number n source) (\<lambda>offset.
          Inr (add_symbol name (currentVersionIndices st) (HostImmediate (currentModuleIndex st) offset) st))
      else if starts_with source [CHR 0x22] then
        (case find_char CHR 0x22 (rev source) of
           None \<Rightarrow> syntax_error n ''missing end of quote''
         | Some k \<Rightarrow>
             if length source - 1 - k = 0 then syntax_error n ''missing end of quote''
             else Inr (add_symbol name [] (HostDynamic (bytes_of (take (length source - 2) (drop 1 source)))) st))
      else if starts_with source ''readAdrpGlobal'' then parse_adrp n name source st
      else syntax_error n ''unknown symbol source'')"

definition parse_arithmetic :: "nat \<Rightarrow> string list \<Rightarrow> parse_state \<Rightarrow> parse_state host" where
  "parse_arithmetic n parts st =
     bindR (hex_number n (parts ! 4)) (\<lambda>offset.
       let offset = (if parts ! 3 = ''+'' then offset else - offset);
           symbolToAddTo = takeWhile (\<lambda>c. c \<noteq> CHR 0x00) (parts ! 2)
       in Inr (add_symbol (hd parts) [] (HostArithmetic (bytes_of symbolToAddTo) offset) st))"

definition parse_section :: "nat \<Rightarrow> string list \<Rightarrow> Section host" where
  "parse_section n sectionParts =
     (if length sectionParts = 1 then Inr SectionAll
      else if length sectionParts = 2 then
        (if sectionParts ! 1 = ''text'' then Inr SectionText
         else if sectionParts ! 1 = ''rodata'' then Inr SectionRodata
         else if sectionParts ! 1 = ''data'' then Inr SectionData
         else syntax_error n ''unknown section type'')
      else syntax_error n ''invalid module section'')"

definition parse_offset :: "nat \<Rightarrow> string list \<Rightarrow> u32 host" where
  "parse_offset n parts =
     (if length parts = 7 then
        bindR (hex_number n (parts ! 6)) (\<lambda>offset.
          if parts ! 5 = ''+'' then Inr offset
          else if parts ! 5 = ''-'' then Inr (- offset)
          else syntax_error n ''unknown arithmetic operator'')
      else Inr 0)"

definition module_parts :: "string \<Rightarrow> DataBlockVersionBoundary \<times> string list" where
  "module_parts m =
     (if find_char CHR ''>'' m \<noteq> None then (From, split_str m CHR ''>'')
      else if find_char CHR ''<'' m \<noteq> None then (Older, split_str m CHR ''<'')
      else (BoundaryNone, [m]))"

definition parse_block :: "ModuleList \<Rightarrow> nat \<Rightarrow> string list \<Rightarrow> parse_state \<Rightarrow> parse_state host" where
  "parse_block ml n parts st =
     (case hexStringToBytesWithMatch (parts ! 2) of
        None \<Rightarrow> syntax_error n ''failed parsing bytes''
      | Some (bytes, bytesMask) \<Rightarrow>
          if parts ! 3 \<noteq> ''@'' then syntax_error n ''weird symbol''
          else let (boundary, moduleParts) = module_parts (parts ! 4) in
            if boundary \<noteq> BoundaryNone \<and> length moduleParts \<noteq> 2 then syntax_error n ''invalid module''
            else let sectionParts = split_str (hd moduleParts) CHR '':'' in
              if sectionParts = [] then Inl OutOfRange
              else let moduleIdx = getModuleIndex ml (hd sectionParts) in
                if moduleIdx = - 1 then syntax_error n ''unknown module''
                else let versionIndex =
                    (if length moduleParts > 1 then getVersionIndex_host ml (hd sectionParts) (moduleParts ! 1) else 0) in
                  if versionIndex = - 1 then syntax_error n ''unknown version''
                  else bindR (parse_section n sectionParts) (\<lambda>sec.
                    bindR (parse_offset n parts) (\<lambda>offset.
                      Inr (add_symbol (hd parts) []
                        (HostDataBlock moduleIdx bytes bytesMask offset boundary sec (of_int versionIndex)) st))))"

definition parse_parts :: "ModuleList \<Rightarrow> nat \<Rightarrow> string list \<Rightarrow> parse_state \<Rightarrow> parse_state host" where
  "parse_parts ml n parts st =
     (if parts = [] then Inr st
      else if starts_with (hd parts) ''@'' then parse_marker ml n (tl (hd parts)) st
      else if length parts = 3 \<and> parts ! 1 = ''='' then parse_three n (hd parts) (parts ! 2) st
      else if length parts = 1 then
        Inr (add_symbol (hd parts) [] (HostDynamic (bytes_of (hd parts))) st)
      else if length parts = 5 \<and> (parts ! 3 = ''+'' \<or> parts ! 3 = ''-'') then parse_arithmetic n parts st
      else if length parts = 5 \<or> length parts = 7 then parse_block ml n parts st
      else syntax_error n ''not sure what this is'')"

fun parse_lines :: "ModuleList \<Rightarrow> nat \<Rightarrow> string list \<Rightarrow> parse_state \<Rightarrow> parse_state host" where
  "parse_lines ml n [] st = Inr st"
| "parse_lines ml n (line # lines) st =
     bindR (parse_parts ml (n + 1) (splitByWhitespaceAndRemoveComments line) st) (parse_lines ml (n + 1) lines)"

definition parseSymbolFile :: "ModuleList \<Rightarrow> string \<Rightarrow> HostSymbol list host" where
  "parseSymbolFile ml dat =
     bindR (parse_lines ml 0 (getlines CHR 0x0A (removeCrlf dat))
         \<lparr>currentModuleIndex = - 1, currentVersionIndices = [], ps_symbols = []\<rparr>)
       (\<lambda>st. Inr (ps_symbols st))"

end
