(* ===== verification/SailPrint.thy ===== *)
theory SailPrint
  imports SailParse
begin

text \<open>
  Reading back what was written: a printer of symbol files and the proof that the parser gives exactly
  the symbols that were printed. The printer is the specification of the file format, one construct for
  each kind of symbol.
\<close>

section \<open>Splitting what was joined\<close>

fun join :: "char \<Rightarrow> string list \<Rightarrow> string" where
  "join d [] = []"
| "join d [w] = w"
| "join d (w # v # ws) = w @ d # join d (v # ws)"

lemma getlines_Nil [simp]: "getlines d [] = []"
  by (simp add: getlines.simps)

lemma getlines_cut: "d \<notin> set w \<Longrightarrow> getlines d (w @ d # s) = w # getlines d s"
  by (subst getlines.simps) (simp add: takeWhile_append dropWhile_append)

lemma getlines_last: "d \<notin> set w \<Longrightarrow> w \<noteq> [] \<Longrightarrow> getlines d w = [w]"
proof -
  assume w: "d \<notin> set w" "w \<noteq> []"
  then have cut: "takeWhile (\<lambda>c. c \<noteq> d) w = w" "dropWhile (\<lambda>c. c \<noteq> d) w = []"
    by (auto simp: takeWhile_eq_all_conv)
  show ?thesis by (subst getlines.simps) (simp only: cut w if_False list.sel getlines_Nil)
qed

lemma getlines_join:
  "\<forall>w\<in>set ws. w \<noteq> [] \<and> d \<notin> set w \<Longrightarrow> getlines d (join d ws) = ws"
  by (induction d ws rule: join.induct) (simp_all add: getlines_last getlines_cut)

lemma split_join:
  "\<forall>w\<in>set ws. w \<noteq> [] \<and> d \<notin> set w \<Longrightarrow> split_str (join d ws) d = ws"
  by (simp add: split_str_def getlines_join filter_id_conv)

lemma getlines_text:
  "\<forall>w\<in>set ws. d \<notin> set w \<Longrightarrow> getlines d (concat (map (\<lambda>w. w @ [d]) ws)) = ws"
  by (induction ws) (simp_all add: getlines_cut)

lemma find_char_None [simp]: "find_char c s = None \<longleftrightarrow> c \<notin> set s"
  by (induction s) auto

lemma find_char_at: "c \<notin> set s \<Longrightarrow> find_char c (s @ c # t) = Some (length s)"
  by (induction s) auto

lemma find_sub_absent: "hd p \<notin> set s \<Longrightarrow> p \<noteq> [] \<Longrightarrow> find_sub p s = None"
  by (induction s) (auto simp: starts_with_def neq_Nil_conv)

lemma removeCrlf_id: "CHR 0x0D \<notin> set s \<Longrightarrow> removeCrlf s = s"
  by (subst removeCrlf.simps) (simp add: find_sub_absent)

text \<open>A word that neither a comment nor a brace nor a blank interrupts.\<close>

definition breaking :: "char set" where
  "breaking = {CHR '' '', CHR ''/'', CHR ''#'', CHR ''{'', CHR ''}'', CHR 0x0A, CHR 0x0D}"

definition clean :: "string \<Rightarrow> bool" where
  "clean w \<longleftrightarrow> w \<noteq> [] \<and> set w \<inter> breaking = {}"

lemma cleanD:
  assumes "clean w"
  shows "w \<noteq> []" "CHR '' '' \<notin> set w" "CHR ''/'' \<notin> set w" "CHR ''#'' \<notin> set w" "CHR ''{'' \<notin> set w"
    "CHR ''}'' \<notin> set w" "CHR 0x0A \<notin> set w" "CHR 0x0D \<notin> set w"
  using assms by (auto simp: clean_def breaking_def)

lemma clean_append [simp]: "clean u \<Longrightarrow> clean v \<Longrightarrow> clean (u @ v)"
  by (auto simp: clean_def)

lemma clean_subset: "set w \<subseteq> A \<Longrightarrow> A \<inter> breaking = {} \<Longrightarrow> w \<noteq> [] \<Longrightarrow> clean w"
  by (auto simp: clean_def)

lemma split_parts_clean: "list_all clean ws \<Longrightarrow> split_parts ws [] = ws"
proof (induction ws)
  case (Cons w ws)
  then have "comment_at w = None" "find_char CHR ''{'' w = None"
    by (simp_all add: comment_at_def find_sub_absent cleanD)
  then have "open_brace w = ([], [w])" by (simp only: open_brace_def option.case)
  with Cons \<open>comment_at w = None\<close> show ?case by simp
qed simp

lemma split_words:
  assumes "list_all clean ws"
  shows "splitByWhitespaceAndRemoveComments (join CHR '' '' ws) = ws"
proof -
  have "split_str (join CHR '' '' ws) CHR '' '' = ws"
    using assms by (intro split_join) (auto simp: list_all_iff dest: cleanD)
  moreover have "dropWhile (\<lambda>p. p = []) ws = ws"
    using assms by (cases ws) (auto dest: cleanD)
  ultimately show ?thesis
    by (simp add: splitByWhitespaceAndRemoveComments_def split_parts_clean [OF assms])
qed

section \<open>Numbers\<close>

definition hex_char :: "nat \<Rightarrow> char" where
  "hex_char k = ''0123456789ABCDEF'' ! k"

fun show_hex :: "nat \<Rightarrow> string" where
  "show_hex n = (if n < 16 then [hex_char n] else show_hex (n div 16) @ [hex_char (n mod 16)])"

declare show_hex.simps [simp del]

definition hex_chars :: "char set" where
  "hex_chars = set ''0123456789ABCDEF''"

lemma hex_char_facts:
  assumes "k < 16"
  shows "digit_value (hex_char k) = Some k" "hex_char k \<in> hex_chars"
proof -
  have "\<forall>k\<in>set [0..<16]. digit_value (hex_char k) = Some k \<and> hex_char k \<in> set ''0123456789ABCDEF''"
    by code_simp
  then show "digit_value (hex_char k) = Some k" "hex_char k \<in> hex_chars"
    using assms by (simp_all add: hex_chars_def)
qed

lemma hex_chars_facts:
  assumes "c \<in> hex_chars"
  shows "is_digit 16 c" "\<not> isspace c"
    "c \<notin> set ''-+xX?/#{} ,:<>@()=''" "c \<noteq> CHR 0x0A" "c \<noteq> CHR 0x0D" "c \<noteq> CHR 0x22" "c \<noteq> CHR 0x00"
proof -
  have "\<forall>c\<in>set ''0123456789ABCDEF''. is_digit 16 c \<and> \<not> isspace c \<and> c \<notin> set ''-+xX?/#{} ,:<>@()='' \<and>
      c \<noteq> CHR 0x0A \<and> c \<noteq> CHR 0x0D \<and> c \<noteq> CHR 0x22 \<and> c \<noteq> CHR 0x00"
    by code_simp
  then show "is_digit 16 c" "\<not> isspace c" "c \<notin> set ''-+xX?/#{} ,:<>@()=''" "c \<noteq> CHR 0x0A" "c \<noteq> CHR 0x0D"
      "c \<noteq> CHR 0x22" "c \<noteq> CHR 0x00"
    using assms unfolding hex_chars_def by blast+
qed

lemma show_hex_chars: "set (show_hex n) \<subseteq> hex_chars" "show_hex n \<noteq> []"
  by (induction n rule: show_hex.induct; subst show_hex.simps; simp add: hex_char_facts)+

lemma read_digits_snoc: "read_digits b (ds @ [c]) = read_digits b ds * b + the (digit_value c)"
  by (simp add: read_digits_def)

lemma read_show_hex: "read_digits 16 (show_hex n) = n"
proof (induction n rule: show_hex.induct)
  case (1 n)
  show ?case
  proof (cases "n < 16")
    case True
    then show ?thesis by (subst show_hex.simps) (simp add: read_digits_def hex_char_facts)
  next
    case False
    then have "read_digits 16 (show_hex n) = n div 16 * 16 + n mod 16"
      using 1 by (subst show_hex.simps) (simp add: read_digits_snoc hex_char_facts)
    then show ?thesis by simp
  qed
qed

lemma number_prefix_hex: "number_prefix 16 (show_hex n) = Some (False, n)"
proof -
  have h: "\<forall>c\<in>set (show_hex n). c \<in> hex_chars" using show_hex_chars(1) by blast
  obtain c cs where s: "show_hex n = c # cs" using show_hex_chars(2) [of n] by (cases "show_hex n") auto
  have c: "\<not> isspace c" "c \<noteq> CHR ''-''" "c \<noteq> CHR ''+''"
    using h hex_chars_facts [of c] by (auto simp: s)
  then have c': "dropWhile isspace (show_hex n) = show_hex n" "\<not> starts_with (show_hex n) ''-''"
    "\<not> starts_with (show_hex n) ''+''"
    by (simp_all add: s starts_with_def)
  have x: "\<not> starts_with (show_hex n) ''0x''" "\<not> starts_with (show_hex n) ''0X''"
    using h hex_chars_facts(3) [of "hd cs"] by (cases cs; auto simp: s starts_with_def)+
  have digits: "takeWhile (is_digit 16) (show_hex n) = show_hex n"
    using h hex_chars_facts(1) by (simp add: takeWhile_eq_all_conv)
  show ?thesis
    by (simp add: number_prefix_def Let_def show_hex_chars(2) read_show_hex digits c' x)
qed

lemma ucast_ucast_u32: "(ucast (ucast (v :: u32) :: u64) :: u32) = v"
  by (rule bit_word_eqI) (simp add: bit_simps)

lemma hex_number_show: "hex_number n (''0x'' @ show_hex (unat v)) = Inr v"
proof -
  have "unat v < 2 ^ 64" using unsigned_less [of v, where 'a = nat] by simp
  then have "strtoul 16 (show_hex (unat v)) = Some (of_nat (unat v))"
    by (simp add: strtoul_def number_prefix_hex)
  moreover have "(ucast (of_nat (unat v) :: u64) :: u32) = v"
    by (simp add: ucast_ucast_u32)
  ultimately show ?thesis by (simp add: hex_number_def starts_with_def)
qed

lemma strtol_show: "strtol 16 (show_hex (unat (v :: u32))) = Some (int (unat v))"
proof -
  have "unat v < 2 ^ 32" using unsigned_less [of v, where 'a = nat] by simp
  moreover have "int k \<le> 2 ^ 63 - 1" if "k < 2 ^ 32" for k using that by simp
  ultimately have "int (unat v) \<le> 2 ^ 63 - 1" by blast
  then show ?thesis by (simp only: strtol_def number_prefix_hex option.map prod.case if_False min_absorb1)
qed

lemma hex_chars_clean: "insert CHR ''x'' (insert CHR ''?'' hex_chars) \<inter> breaking = {}"
  by (simp add: hex_chars_def breaking_def)

lemma show_hex_clean: "clean (''0x'' @ show_hex n)"
proof (rule clean_subset [OF _ hex_chars_clean])
  have "CHR ''0'' \<in> hex_chars" by (simp add: hex_chars_def)
  then show "set (''0x'' @ show_hex n) \<subseteq> insert CHR ''x'' (insert CHR ''?'' hex_chars)"
    using show_hex_chars(1) [of n] by auto
qed simp

section \<open>Bytes and masks\<close>

definition show_nibble :: "bool \<Rightarrow> u8 \<Rightarrow> char" where
  "show_nibble known v = (if known then hex_char (unat v) else CHR ''?'')"

definition show_byte :: "u8 \<Rightarrow> u8 \<Rightarrow> string" where
  "show_byte d m = [show_nibble (m AND 0xF0 \<noteq> 0) (drop_bit 4 d), show_nibble (m AND 0x0F \<noteq> 0) (d AND 0x0F)]"

text \<open>A byte under a mask of whole nibbles; hidden nibbles are zero.\<close>

definition masked_ok :: "u8 \<Rightarrow> u8 \<Rightarrow> bool" where
  "masked_ok d m \<longleftrightarrow> m \<in> {0x00, 0x0F, 0xF0, 0xFF} \<and> d AND m = d"

lemma show_nibble_facts:
  assumes "v < 16"
  shows "match_nibble (show_nibble known v) = Some (if known then v else 0)"
    "show_nibble known v = CHR ''?'' \<longleftrightarrow> \<not> known"
    "show_nibble known v \<in> insert CHR ''?'' hex_chars"
proof -
  have k: "unat v < 16" using assms by (simp add: word_less_nat_alt)
  have "hex_char (unat v) \<noteq> CHR ''?''" using hex_chars_facts(3) hex_char_facts(2) [OF k] by force
  then show "match_nibble (show_nibble known v) = Some (if known then v else 0)"
    "show_nibble known v = CHR ''?'' \<longleftrightarrow> \<not> known" "show_nibble known v \<in> insert CHR ''?'' hex_chars"
    using hex_char_facts [OF k] by (simp_all add: match_nibble_def show_nibble_def)
qed

lemma nibbles_small: "drop_bit 4 (d :: u8) < 16" "(d :: u8) AND 0x0F < 16"
proof -
  have "unat d < 256" using unsigned_less [of d, where 'a = nat] by simp
  then have "unat d div 16 < 16" by simp
  moreover have "unat (drop_bit 4 d) = unat d div 16" by (simp add: drop_bit_eq_div unat_div)
  ultimately have "unat (drop_bit 4 d) < 16" by simp
  then show "drop_bit 4 d < 16" by (simp add: word_less_nat_alt)
  have "d AND 0x0F \<le> 0x0F" by (rule word_and_le1)
  then show "d AND 0x0F < 16" by (rule order_le_less_trans) simp
qed

lemma byte_of_nibbles: "push_bit 4 (drop_bit 4 d) OR (d AND 0x0F) = (d :: u8)"
proof -
  have "d AND 0x0F = take_bit 4 d" by (simp add: take_bit_eq_mask mask_eq_exp_minus_1)
  then show ?thesis by (simp only:) (rule bit_word_eqI, auto simp: bit_simps not_le)
qed

text \<open>What the mask hides of a byte.\<close>

lemma masked_parts:
  assumes "masked_ok d m"
  shows "(if m AND 0xF0 \<noteq> 0 then drop_bit 4 d else 0) = drop_bit 4 d"
    "(if m AND 0x0F \<noteq> 0 then d AND 0x0F else 0) = d AND 0x0F"
    "(let m1 = (if m AND 0xF0 \<noteq> 0 then 0xFF else 0xFF AND 0x0F) in
       if m AND 0x0F \<noteq> 0 then m1 else m1 AND 0xF0) = m"
proof -
  have m: "m = 0x00 \<or> m = 0x0F \<or> m = 0xF0 \<or> m = 0xFF" and d: "d AND m = d"
    using assms by (auto simp: masked_ok_def)
  have dr: "drop_bit 4 d = drop_bit 4 d AND drop_bit 4 m" by (metis d drop_bit_and)
  have tk: "d AND 0x0F = d AND (m AND 0x0F)" by (metis d and.assoc)
  show "(if m AND 0xF0 \<noteq> 0 then drop_bit 4 d else 0) = drop_bit 4 d"
    using m dr by (elim disjE) simp_all
  show "(if m AND 0x0F \<noteq> 0 then d AND 0x0F else 0) = d AND 0x0F"
    using m tk by (elim disjE) simp_all
  show "(let m1 = (if m AND 0xF0 \<noteq> 0 then 0xFF else 0xFF AND 0x0F) in
       if m AND 0x0F \<noteq> 0 then m1 else m1 AND 0xF0) = m"
    using m by (elim disjE) simp_all
qed

definition show_block :: "u8 list \<Rightarrow> u8 list \<Rightarrow> string" where
  "show_block ds ms = concat (map (\<lambda>(d, m). show_byte d m) (zip ds ms))"

lemma withMatch_show:
  "list_all2 masked_ok ds ms \<Longrightarrow> withMatch_loop (show_block ds ms) = Some (ds, ms)"
proof (induction rule: list_all2_induct)
  case (Cons d ds m ms)
  have loop: "withMatch_loop (show_block ds ms) = Some (ds, ms)" by (rule Cons.IH)
  show ?case
    using masked_parts [OF Cons.hyps(1)] nibbles_small [of d] byte_of_nibbles [of d] loop
    by (cases "m AND 0xF0 = 0"; cases "m AND 0x0F = 0")
      (simp_all add: show_block_def show_byte_def show_nibble_facts Let_def)
qed (simp add: show_block_def)

lemma show_block_length: "list_all2 masked_ok ds ms \<Longrightarrow> length (show_block ds ms) = 2 * length ds"
  by (induction rule: list_all2_induct) (simp_all add: show_block_def show_byte_def)

lemma show_block_parse:
  "list_all2 masked_ok ds ms \<Longrightarrow> hexStringToBytesWithMatch (show_block ds ms) = Some (ds, ms)"
  by (simp add: hexStringToBytesWithMatch_def withMatch_show show_block_length)

lemma show_block_clean:
  assumes "list_all2 masked_ok ds ms" "ds \<noteq> []"
  shows "clean (show_block ds ms)"
proof -
  have "set (show_block ds ms) \<subseteq> insert CHR ''?'' hex_chars"
    using show_nibble_facts(3) nibbles_small by (fastforce simp: show_block_def show_byte_def)
  moreover have "show_block ds ms \<noteq> []"
    using show_block_length [OF assms(1)] assms(2) by auto
  ultimately show ?thesis by (intro clean_subset [OF _ hex_chars_clean]) auto
qed

section \<open>Names\<close>

text \<open>Names of symbols, modules and versions: letters, digits, underscores and dots.\<close>

definition word_char :: "char \<Rightarrow> bool" where
  "word_char c \<longleftrightarrow>
     (let k = of_char c :: nat in 48 \<le> k \<and> k \<le> 57 \<or> 65 \<le> k \<and> k \<le> 90 \<or> 97 \<le> k \<and> k \<le> 122 \<or> k = 95 \<or> k = 46)"

definition plain :: "string \<Rightarrow> bool" where
  "plain s \<longleftrightarrow> s \<noteq> [] \<and> list_all word_char s"

lemma not_word_char:
  "c \<in> {CHR '' '', CHR ''/'', CHR ''#'', CHR ''{'', CHR ''}'', CHR 0x0A, CHR 0x0D, CHR 0x22, CHR 0x00, CHR '':'',
     CHR '','', CHR ''('', CHR '')'', CHR ''<'', CHR ''>'', CHR ''@''} \<Longrightarrow> \<not> word_char c"
  by (auto simp: word_char_def Let_def)

lemma plain_absent: "plain s \<Longrightarrow> \<not> word_char c \<Longrightarrow> c \<notin> set s"
  by (auto simp: plain_def list_all_iff)

lemma plain_clean: "plain s \<Longrightarrow> clean s"
  using plain_absent [of s] not_word_char by (auto simp: clean_def breaking_def plain_def list_all_iff)

definition text_of :: "u8 list \<Rightarrow> string" where
  "text_of bs = map (\<lambda>b. char_of (unat b)) bs"

lemma bytes_of_text [simp]: "bytes_of (text_of bs) = bs"
proof -
  have "of_char (char_of (unat b)) = b" for b :: u8
  proof -
    have "unat b < 256" using unsigned_less [of b, where 'a = nat] by simp
    then have "of_nat (of_char (char_of (unat b)) :: nat) = b" by simp
    then show ?thesis by (simp only: of_nat_of_char)
  qed
  then show ?thesis by (simp add: bytes_of_def text_of_def o_def)
qed

section \<open>The printer\<close>

definition name_of_module :: "ModuleList \<Rightarrow> int \<Rightarrow> string" where
  "name_of_module ml mi = fst (ml ! nat mi)"

definition name_of_version :: "ModuleList \<Rightarrow> int \<Rightarrow> u32 \<Rightarrow> string" where
  "name_of_version ml mi v = fst (versions (snd (ml ! nat mi)) ! unat v)"

definition show_offset :: "u32 \<Rightarrow> string" where
  "show_offset off = ''0x'' @ show_hex (unat off)"

definition show_marker :: "ModuleList \<Rightarrow> int \<Rightarrow> u32 list \<Rightarrow> string" where
  "show_marker ml mi vs = ''@'' @ join CHR '':'' (name_of_module ml mi #
     (if vs = [] then [] else [join CHR '','' (map (name_of_version ml mi) vs)]))"

fun show_section :: "Section \<Rightarrow> string list" where
  "show_section SectionAll = []"
| "show_section SectionText = [''text'']"
| "show_section SectionRodata = [''rodata'']"
| "show_section SectionData = [''data'']"

definition show_place :: "ModuleList \<Rightarrow> int \<Rightarrow> DataBlockVersionBoundary \<Rightarrow> Section \<Rightarrow> u32 \<Rightarrow> string" where
  "show_place ml mi b sl vb =
     (let place = join CHR '':'' (name_of_module ml mi # show_section sl) in
      case b of
        BoundaryNone \<Rightarrow> place
      | Older \<Rightarrow> join CHR ''<'' [place, name_of_version ml mi vb]
      | From \<Rightarrow> join CHR ''>'' [place, name_of_version ml mi vb])"

text \<open>The words of a symbol's lines.\<close>

definition show_symbol :: "ModuleList \<Rightarrow> HostSymbol \<Rightarrow> string list list" where
  "show_symbol ml s =
     (let name = text_of (hs_name s) in
      case hs_data s of
        HostImmediate mi off \<Rightarrow>
          [[show_marker ml mi (hs_versionIndices s)], [name, ''='', show_offset off]]
      | HostDynamic nm \<Rightarrow> [[name, ''='', CHR 0x22 # text_of nm @ [CHR 0x22]]]
      | HostReadADRPGlobal src lo \<Rightarrow>
          [[name, ''='', ''readAdrpGlobal('' @ join CHR '','' [text_of src, show_offset lo] @ '')'']]
      | HostArithmetic src off \<Rightarrow> [[name, ''='', text_of src, ''+'', show_offset off]]
      | HostDataBlock mi d dm off b sl vb \<Rightarrow>
          [[name, ''='', show_block d dm, ''@'', show_place ml mi b sl vb, ''+'', show_offset off]])"

definition show_file :: "ModuleList \<Rightarrow> HostSymbol list \<Rightarrow> string" where
  "show_file ml syms =
     concat (map (\<lambda>ws. join CHR '' '' ws @ [CHR 0x0A]) (concat (map (show_symbol ml) syms)))"

text \<open>Symbols that the format can express, over a list of modules as the tool reads it.\<close>

definition modules_ok :: "ModuleList \<Rightarrow> bool" where
  "modules_ok ml \<longleftrightarrow> distinct (map fst ml) \<and> list_all (\<lambda>(m, v). plain m \<and>
     distinct (map fst (versions v)) \<and> list_all (\<lambda>x. plain (fst x)) (versions v) \<and>
     length (versions v) < 2 ^ 31) ml"

definition module_ok :: "ModuleList \<Rightarrow> int \<Rightarrow> bool" where
  "module_ok ml mi \<longleftrightarrow> 0 \<le> mi \<and> mi < int (length ml)"

definition version_ok :: "ModuleList \<Rightarrow> int \<Rightarrow> u32 \<Rightarrow> bool" where
  "version_ok ml mi v \<longleftrightarrow> unat v < length (versions (snd (ml ! nat mi)))"

definition expressible :: "ModuleList \<Rightarrow> HostSymbol \<Rightarrow> bool" where
  "expressible ml s \<longleftrightarrow> plain (text_of (hs_name s)) \<and> hs_useCache s \<and>
     (case hs_data s of
        HostImmediate mi off \<Rightarrow> module_ok ml mi \<and> list_all (version_ok ml mi) (hs_versionIndices s)
      | HostDynamic nm \<Rightarrow> plain (text_of nm) \<and> hs_versionIndices s = []
      | HostReadADRPGlobal src lo \<Rightarrow> plain (text_of src) \<and> hs_versionIndices s = []
      | HostArithmetic src off \<Rightarrow> plain (text_of src) \<and> hs_versionIndices s = []
      | HostDataBlock mi d dm off b sl vb \<Rightarrow> hs_versionIndices s = [] \<and> module_ok ml mi \<and>
          d \<noteq> [] \<and> list_all2 masked_ok d dm \<and>
          (if b = BoundaryNone then vb = 0 else version_ok ml mi vb))"

section \<open>Modules and versions\<close>

lemma map_position_nth:
  "distinct (map fst m) \<Longrightarrow> i < length m \<Longrightarrow> map_position (fst (m ! i)) m k = k + int i"
proof (induction m arbitrary: i k)
  case (Cons x m)
  obtain a b where x: "x = (a, b)" by (cases x)
  show ?case
  proof (cases i)
    case (Suc j)
    have "fst (m ! j) \<in> fst ` set m" using Cons.prems(2) Suc by simp
    then show ?thesis using Cons Suc by (auto simp: x)
  qed (simp add: x)
qed simp

lemma entry_at_nth:
  "distinct (map fst m) \<Longrightarrow> i < length m \<Longrightarrow> entry_at d m (fst (m ! i)) = snd (m ! i)"
proof (induction m arbitrary: i)
  case (Cons x m)
  obtain a b where x: "x = (a, b)" by (cases x)
  show ?case
  proof (cases i)
    case (Suc j)
    have "fst (m ! j) \<in> fst ` set m" using Cons.prems(2) Suc by simp
    then show ?thesis using Cons Suc by (auto simp: x)
  qed (simp add: x)
qed simp

lemma module_facts:
  assumes "modules_ok ml" "module_ok ml mi"
  shows "plain (name_of_module ml mi)" "getModuleIndex ml (name_of_module ml mi) = mi"
proof -
  have i: "nat mi < length ml" using assms(2) by (auto simp: module_ok_def)
  then show "plain (name_of_module ml mi)"
    using assms(1) by (auto simp: modules_ok_def name_of_module_def list_all_length split: prod.splits)
      (metis fst_conv prod.collapse)
  show "getModuleIndex ml (name_of_module ml mi) = mi"
    using assms i map_position_nth [of ml "nat mi" 0]
    by (simp add: modules_ok_def name_of_module_def getModuleIndex_def module_ok_def)
qed

lemma version_facts:
  assumes "modules_ok ml" "module_ok ml mi" "version_ok ml mi v"
  shows "plain (name_of_version ml mi v)"
    "getVersionIndex_host ml (name_of_module ml mi) (name_of_version ml mi v) = int (unat v)"
proof -
  have i: "nat mi < length ml" using assms(2) by (auto simp: module_ok_def)
  obtain m x where mx: "ml ! nat mi = (m, x)" by (cases "ml ! nat mi")
  have x: "distinct (map fst (versions x))" "list_all (\<lambda>y. plain (fst y)) (versions x)"
    using assms(1) i mx by (fastforce simp: modules_ok_def list_all_length)+
  have v: "unat v < length (versions x)" using assms(3) by (simp add: version_ok_def mx)
  show "plain (name_of_version ml mi v)" using x(2) v by (simp add: name_of_version_def mx list_all_length)
  have "entry_at new_module ml m = x"
    using entry_at_nth [of ml "nat mi" new_module] assms(1) i by (simp add: modules_ok_def mx)
  moreover have "m \<in> fst ` set ml" using i mx by (metis fst_conv image_eqI nth_mem)
  ultimately show "getVersionIndex_host ml (name_of_module ml mi) (name_of_version ml mi v) = int (unat v)"
    using map_position_nth [OF x(1) v, of 0]
    by (simp add: getVersionIndex_host_def name_of_module_def name_of_version_def mx)
qed

end
