(* ===== verification/SailRoundtrip.thy ===== *)
theory SailRoundtrip
  imports SailPrint
begin

text \<open>
  The round trip of symbol files: each kind of symbol is read back from its words, and a file of such
  lines gives the symbols in their order.
\<close>

section \<open>The words are clean\<close>

lemma clean_join:
  assumes "\<forall>w\<in>set ws. clean w" "ws \<noteq> []" "d \<notin> breaking"
  shows "clean (join d ws)"
  using assms by (induction d ws rule: join.induct) (auto simp: clean_def)

lemma clean_Cons: "c \<notin> breaking \<Longrightarrow> clean s \<Longrightarrow> clean (c # s)"
  by (simp add: clean_def)

lemma plain_not:
  assumes "plain s"
  shows "CHR '':'' \<notin> set s" "CHR '','' \<notin> set s" "CHR ''<'' \<notin> set s" "CHR ''>'' \<notin> set s" "CHR ''('' \<notin> set s"
    "CHR 0x22 \<notin> set s" "CHR 0x00 \<notin> set s" "CHR ''@'' \<notin> set s" "s \<noteq> []"
  using assms plain_absent [OF assms not_word_char] by (auto simp: plain_def)

lemma section_words:
  "\<forall>w\<in>set (show_section sl). plain w" "length (show_section sl) \<le> 1"
  by (cases sl; simp add: plain_def word_char_def)+

lemma show_offset_clean [simp]: "clean (show_offset off)"
  unfolding show_offset_def by (rule show_hex_clean)

lemma show_marker_clean:
  assumes "modules_ok ml" "module_ok ml mi" "list_all (version_ok ml mi) vs"
  shows "clean (show_marker ml mi vs)"
proof -
  have m: "clean (name_of_module ml mi)" by (rule plain_clean [OF module_facts(1) [OF assms(1,2)]])
  have v: "\<forall>w\<in>set (map (name_of_version ml mi) vs). clean w"
    using assms(3) version_facts(1) [OF assms(1,2)] plain_clean by (auto simp: list_all_iff)
  have "clean (join CHR '','' (map (name_of_version ml mi) vs))" if "vs \<noteq> []"
    using v that by (intro clean_join) (auto simp: breaking_def)
  then have "\<forall>w\<in>set (name_of_module ml mi # (if vs = [] then [] else [join CHR '','' (map (name_of_version ml mi) vs)])). clean w"
    using m by simp
  then have "clean (join CHR '':'' (name_of_module ml mi # (if vs = [] then [] else [join CHR '','' (map (name_of_version ml mi) vs)])))"
    by (rule clean_join) (simp_all add: breaking_def)
  then show ?thesis by (simp add: show_marker_def clean_Cons breaking_def)
qed

lemma show_place_clean:
  assumes "modules_ok ml" "module_ok ml mi" "if b = BoundaryNone then vb = 0 else version_ok ml mi vb"
  shows "clean (show_place ml mi b sl vb)"
proof -
  have "\<forall>w\<in>set (name_of_module ml mi # show_section sl). clean w"
    using plain_clean [OF module_facts(1) [OF assms(1,2)]] section_words(1) plain_clean by auto
  then have place: "clean (join CHR '':'' (name_of_module ml mi # show_section sl))"
    by (rule clean_join) (simp_all add: breaking_def)
  have "clean (name_of_version ml mi vb)" if "b \<noteq> BoundaryNone"
    using plain_clean [OF version_facts(1) [OF assms(1,2)]] assms(3) that by simp
  then show ?thesis
    using place by (cases b) (auto simp: show_place_def Let_def clean_Cons breaking_def)
qed

lemma show_symbol_clean:
  assumes "modules_ok ml" "expressible ml s" "ws \<in> set (show_symbol ml s)"
  shows "list_all clean ws"
proof -
  have name: "clean (text_of (hs_name s))" using assms(2) plain_clean by (simp add: expressible_def)
  have signs: "clean ''=''" "clean ''+''" "clean ''@''" "clean ''readAdrpGlobal(''" "clean '')''"
    by (simp_all add: clean_def breaking_def)
  show ?thesis
  proof (cases "hs_data s")
    case (HostImmediate mi off)
    then show ?thesis using assms name signs show_marker_clean
      by (auto simp: show_symbol_def expressible_def Let_def)
  next
    case (HostDynamic nm)
    then have "clean (CHR 0x22 # text_of nm @ [CHR 0x22])"
      using assms(2) plain_clean by (simp add: expressible_def clean_Cons clean_def breaking_def)
    then show ?thesis using assms(3) name signs HostDynamic by (auto simp: show_symbol_def Let_def)
  next
    case (HostDataBlock mi d dm off b sl vb)
    then show ?thesis using assms name signs show_place_clean show_block_clean
      by (auto simp: show_symbol_def expressible_def Let_def simp del: if_split)
  next
    case (HostReadADRPGlobal src lo)
    then have "clean (text_of src)" using assms(2) plain_clean by (simp add: expressible_def)
    then have "clean (join CHR '','' [text_of src, show_offset lo])"
      by (intro clean_join) (simp_all add: breaking_def)
    then have "clean (''readAdrpGlobal('' @ join CHR '','' [text_of src, show_offset lo] @ '')'')"
      using signs by (intro clean_append)
    then show ?thesis using assms(3) name signs by (auto simp: show_symbol_def Let_def HostReadADRPGlobal)
  next
    case (HostArithmetic src off)
    then show ?thesis using assms name signs plain_clean
      by (auto simp: show_symbol_def expressible_def Let_def)
  qed
qed

section \<open>Each kind of symbol\<close>

lemma join_absent: "\<forall>w\<in>set ws. c \<notin> set w \<Longrightarrow> c \<noteq> d \<Longrightarrow> c \<notin> set (join d ws)"
  by (induction d ws rule: join.induct) auto

lemma join_Nil_iff: "w \<noteq> [] \<Longrightarrow> join d (w # ws) \<noteq> []"
  by (cases ws) simp_all

lemma uint_not_minus_one [simp]: "uint v \<noteq> - 1"
proof -
  have "0 \<le> uint v" by simp
  then show ?thesis by linarith
qed

lemma marker_parses:
  assumes "modules_ok ml" "module_ok ml mi" "list_all (version_ok ml mi) vs"
  shows "parse_marker ml n (tl (show_marker ml mi vs)) st =
    Inr (st\<lparr>currentModuleIndex := mi, currentVersionIndices := vs\<rparr>)"
proof -
  let ?vs = "map (name_of_version ml mi) vs"
  have m: "plain (name_of_module ml mi)" "getModuleIndex ml (name_of_module ml mi) = mi"
    using module_facts [OF assms(1,2)] by simp_all
  have v: "plain (name_of_version ml mi v)"
    "getVersionIndex_host ml (name_of_module ml mi) (name_of_version ml mi v) = int (unat v)"
    if "v \<in> set vs" for v
    using version_facts [OF assms(1,2)] assms(3) that by (auto simp: list_all_iff)
  have names: "\<forall>w\<in>set ?vs. w \<noteq> [] \<and> CHR '','' \<notin> set w" using v(1) plain_not by auto
  have colon: "CHR '':'' \<notin> set (join CHR '','' ?vs)"
    using v(1) plain_not(1) by (intro join_absent) auto
  have ne: "join CHR '','' ?vs \<noteq> []" if "vs \<noteq> []"
  proof (cases vs)
    case (Cons u us)
    then have "name_of_version ml mi u \<noteq> []" using v(1) [of u] plain_not(9) by simp
    then show ?thesis unfolding Cons list.map by (rule join_Nil_iff)
  qed (use that in simp)
  let ?parts = "name_of_module ml mi # (if vs = [] then [] else [join CHR '','' ?vs])"
  have "\<forall>w\<in>set ?parts. w \<noteq> [] \<and> CHR '':'' \<notin> set w"
    using plain_not [OF m(1)] colon ne by auto
  then have split: "split_str (join CHR '':'' ?parts) CHR '':'' = ?parts" by (rule split_join)
  have "version_indices ml n (name_of_module ml mi) (map (name_of_version ml mi) us) = Inr us"
    if "set us \<subseteq> set vs" for us
    using that by (induction us) (auto simp: v(2) Let_def)
  then have idx: "version_indices ml n (name_of_module ml mi) ?vs = Inr vs" by simp
  have "join CHR '':'' ?parts \<noteq> []" using plain_not(9) [OF m(1)] by (rule join_Nil_iff)
  moreover have "mi \<noteq> - 1" using assms(2) by (simp add: module_ok_def)
  ultimately show ?thesis
    using split_join [OF names] idx m(2) split
    by (cases "vs = []") (simp_all add: show_marker_def parse_marker_def Let_def)
qed

lemma plain_start:
  assumes "plain s"
  shows "\<not> starts_with s ''@''"
  using plain_not(8) [OF assms] by (cases s) (auto simp: starts_with_def)

lemma marker_line:
  assumes "modules_ok ml" "module_ok ml mi" "list_all (version_ok ml mi) vs"
  shows "parse_parts ml n [show_marker ml mi vs] st =
    Inr (st\<lparr>currentModuleIndex := mi, currentVersionIndices := vs\<rparr>)"
proof -
  have "starts_with (show_marker ml mi vs) ''@''" by (simp add: show_marker_def starts_with_def)
  then show ?thesis using marker_parses [OF assms] by (simp add: parse_parts_def)
qed

lemma immediate_line:
  assumes "plain name"
  shows "parse_parts ml n [name, ''='', show_offset off] st =
    Inr (add_symbol name (currentVersionIndices st) (HostImmediate (currentModuleIndex st) off) st)"
proof -
  have "starts_with (show_offset off) ''0x''" by (simp add: show_offset_def starts_with_def)
  moreover have "hex_number n (show_offset off) = Inr off"
    unfolding show_offset_def by (rule hex_number_show)
  ultimately show ?thesis
    using plain_start [OF assms] by (simp add: parse_parts_def parse_three_def)
qed

lemma dynamic_line:
  assumes "plain name" "plain nm"
  shows "parse_parts ml n [name, ''='', CHR 0x22 # nm @ [CHR 0x22]] st =
    Inr (add_symbol name [] (HostDynamic (bytes_of nm)) st)"
  using plain_start [OF assms(1)]
  by (simp add: parse_parts_def parse_three_def starts_with_def)

lemma arithmetic_line:
  assumes "plain name" "plain src"
  shows "parse_parts ml n [name, ''='', src, ''+'', show_offset off] st =
    Inr (add_symbol name [] (HostArithmetic (bytes_of src) off) st)"
proof -
  have cut: "takeWhile (\<lambda>c. c \<noteq> CHR 0x00) src = src"
    using plain_not(7) [OF assms(2)] by (auto simp: takeWhile_eq_all_conv)
  show ?thesis
    using plain_start [OF assms(1)] hex_number_show [of n off]
    by (simp add: parse_parts_def parse_arithmetic_def show_offset_def cut)
qed

lemma parse_adrp_two:
  assumes "find_char CHR ''('' source = Some k" "last source = CHR '')''" "butlast (drop (k + 1) source) = arg"
    and "find_char CHR '','' arg = Some c" "split_str arg CHR '','' = [src, off]" "starts_with off ''0x''"
    and "strtol 16 (drop 2 off) = Some v" "take c arg = src"
  shows "parse_adrp n name source st = Inr (add_symbol name [] (HostReadADRPGlobal (bytes_of src) (of_int v)) st)"
  using assms by (simp add: parse_adrp_def Let_def)

lemma adrp_line:
  assumes "plain name" "plain src"
  shows "parse_parts ml n [name, ''='', ''readAdrpGlobal('' @ join CHR '','' [src, show_offset lo] @ '')''] st =
    Inr (add_symbol name [] (HostReadADRPGlobal (bytes_of src) lo) st)"
proof -
  let ?arg = "join CHR '','' [src, show_offset lo]"
  let ?source = "''readAdrpGlobal('' @ ?arg @ '')''"
  have "find_char CHR ''('' (''readAdrpGlobal'' @ CHR ''('' # ?arg @ '')'') = Some (length ''readAdrpGlobal'')"
    by (rule find_char_at) simp
  then have bracket: "find_char CHR ''('' ?source = Some 14" by simp
  have comma: "find_char CHR '','' ?arg = Some (length src)"
    using find_char_at [OF plain_not(2) [OF assms(2)], of "show_offset lo"] by simp
  have c: "CHR '','' \<notin> set (show_offset lo)"
    using show_hex_chars(1) [of "unat lo"] hex_chars_facts(3) by (fastforce simp: show_offset_def)
  have words: "split_str ?arg CHR '','' = [src, show_offset lo]"
    by (rule split_join) (use plain_not(2,9) [OF assms(2)] c in \<open>simp add: show_offset_def\<close>)
  have start: "starts_with (show_offset lo) ''0x''" by (simp add: show_offset_def starts_with_def)
  have number: "strtol 16 (drop 2 (show_offset lo)) = Some (int (unat lo))"
    using strtol_show [of lo] by (simp add: show_offset_def)
  have "butlast (drop (14 + 1) ?source) = ?arg" "last ?source = CHR '')''" "take (length src) ?arg = src"
    by (simp_all add: butlast_append)
  then have "parse_adrp n name ?source st =
      Inr (add_symbol name [] (HostReadADRPGlobal (bytes_of src) (of_int (int (unat lo)))) st)"
    using parse_adrp_two [OF bracket _ _ comma words start number] by blast
  moreover have "parse_parts ml n [name, ''='', ?source] st = parse_adrp n name ?source st"
    using plain_start [OF assms(1)] by (simp add: parse_parts_def parse_three_def starts_with_def)
  ultimately show ?thesis by (simp del: join.simps)
qed

lemma section_parses:
  "parse_section n (m # show_section sl) = Inr sl"
  by (cases sl) (simp_all add: parse_section_def)

lemma place_parses:
  assumes "modules_ok ml" "module_ok ml mi" "if b = BoundaryNone then vb = 0 else version_ok ml mi vb"
  shows "module_parts (show_place ml mi b sl vb) = (b, join CHR '':'' (name_of_module ml mi # show_section sl) #
      (if b = BoundaryNone then [] else [name_of_version ml mi vb]))"
    "split_str (join CHR '':'' (name_of_module ml mi # show_section sl)) CHR '':'' =
      name_of_module ml mi # show_section sl"
proof -
  let ?words = "name_of_module ml mi # show_section sl"
  let ?place = "join CHR '':'' ?words"
  have plain: "\<forall>w\<in>set ?words. plain w"
    using module_facts(1) [OF assms(1,2)] section_words(1) by auto
  have absent: "CHR ''<'' \<notin> set ?place" "CHR ''>'' \<notin> set ?place"
    by (rule join_absent; use plain plain_not(3,4) in auto)+
  have ne: "?place \<noteq> []" using plain plain_not(9) by (intro join_Nil_iff) auto
  show "split_str ?place CHR '':'' = ?words"
    using plain plain_not(1,9) by (intro split_join) auto
  have v: "plain (name_of_version ml mi vb)" if "b \<noteq> BoundaryNone"
    using version_facts(1) [OF assms(1,2)] assms(3) that by simp
  have "split_str (join d [?place, name_of_version ml mi vb]) d = [?place, name_of_version ml mi vb]"
    if "b \<noteq> BoundaryNone" "d \<in> {CHR ''<'', CHR ''>''}" for d
    using absent ne plain_not(3,4,9) [OF v [OF that(1)]] that(2) by (intro split_join) auto
  then show "module_parts (show_place ml mi b sl vb) = (b, ?place #
      (if b = BoundaryNone then [] else [name_of_version ml mi vb]))"
    using absent v plain_not(3,4)
    by (cases b) (auto simp: module_parts_def show_place_def Let_def)
qed

lemma block_line:
  assumes ml: "modules_ok ml" "module_ok ml mi" "if b = BoundaryNone then vb = 0 else version_ok ml mi vb"
    and "plain name" "list_all2 masked_ok d dm"
  shows "parse_parts ml n [name, ''='', show_block d dm, ''@'', show_place ml mi b sl vb, ''+'', show_offset off] st =
    Inr (add_symbol name [] (HostDataBlock mi d dm off b sl vb) st)"
proof -
  let ?parts = "[name, ''='', show_block d dm, ''@'', show_place ml mi b sl vb, ''+'', show_offset off]"
  have m: "getModuleIndex ml (name_of_module ml mi) = mi" "mi \<noteq> - 1"
    using module_facts(2) [OF ml(1,2)] ml(2) by (simp_all add: module_ok_def)
  have v: "getVersionIndex_host ml (name_of_module ml mi) (name_of_version ml mi vb) = uint vb"
    if "b \<noteq> BoundaryNone"
    using version_facts(2) [OF ml(1,2)] ml(3) that by simp
  have off: "parse_offset n [a1, a2, a3, a4, a5, ''+'', show_offset off] = Inr off" for a1 a2 a3 a4 a5
    using hex_number_show [of n off] by (simp add: parse_offset_def show_offset_def)
  have "parse_block ml n ?parts st = Inr (add_symbol name [] (HostDataBlock mi d dm off b sl vb) st)"
    by (simp add: parse_block_def place_parses [OF ml] Let_def section_parses show_block_parse [OF assms(5)] m v off)
      (use ml(3) in simp)
  then show ?thesis using plain_start [OF assms(4)] by (simp add: parse_parts_def)
qed

section \<open>Files\<close>

text \<open>Parsing lines that are given by their words.\<close>

fun parse_words :: "ModuleList \<Rightarrow> nat \<Rightarrow> string list list \<Rightarrow> parse_state \<Rightarrow> parse_state host" where
  "parse_words ml n [] st = Inr st"
| "parse_words ml n (ws # wss) st = bindR (parse_parts ml (n + 1) ws st) (parse_words ml (n + 1) wss)"

lemma parse_words_lines:
  "\<forall>ws\<in>set wss. list_all clean ws \<Longrightarrow> parse_lines ml n (map (join CHR '' '') wss) = parse_words ml n wss"
proof (induction wss arbitrary: n)
  case (Cons ws wss)
  have "parse_lines ml (n + 1) (map (join CHR '' '') wss) = parse_words ml (n + 1) wss"
    by (rule Cons.IH) (use Cons.prems in simp)
  moreover have "splitByWhitespaceAndRemoveComments (join CHR '' '' ws) = ws"
    using Cons.prems by (intro split_words) simp
  ultimately show ?case by (intro ext) simp
qed (intro ext, simp)

lemma parse_words_append:
  "parse_words ml n (ws @ vs) = (\<lambda>st. bindR (parse_words ml n ws st) (parse_words ml (n + length ws) vs))"
proof (induction ws arbitrary: n)
  case (Cons w ws)
  show ?case by (rule ext) (simp add: Cons.IH bindR_assoc)
qed (rule ext, simp)

text \<open>The lines of one symbol add this symbol.\<close>

lemma symbol_words:
  assumes "modules_ok ml" "expressible ml s"
  shows "\<exists>st'. parse_words ml n (show_symbol ml s) st = Inr st' \<and> ps_symbols st' = ps_symbols st @ [s]"
proof -
  have name: "plain (text_of (hs_name s))" and use: "hs_useCache s"
    using assms(2) by (simp_all add: expressible_def)
  have added: "ps_symbols (add_symbol (text_of (hs_name s)) (hs_versionIndices s) (hs_data s) st) =
      ps_symbols st @ [s]" for st
    using use by (cases s) (simp add: add_symbol_def)
  show ?thesis
  proof (cases "hs_data s")
    case (HostImmediate mi off)
    then have ok: "module_ok ml mi" "list_all (version_ok ml mi) (hs_versionIndices s)"
      using assms(2) by (simp_all add: expressible_def)
    show ?thesis
      using added [of "st\<lparr>currentModuleIndex := mi, currentVersionIndices := hs_versionIndices s\<rparr>"]
      by (simp add: show_symbol_def HostImmediate marker_line [OF assms(1) ok] immediate_line [OF name])
  next
    case (HostDynamic nm)
    then show ?thesis
      using assms(2) added dynamic_line [OF name, of "text_of nm"]
      by (simp add: show_symbol_def expressible_def)
  next
    case (HostReadADRPGlobal src lo)
    then show ?thesis
      using assms(2) added adrp_line [OF name, of "text_of src"]
      by (simp add: show_symbol_def expressible_def del: join.simps)
  next
    case (HostArithmetic src off)
    then show ?thesis
      using assms(2) added arithmetic_line [OF name, of "text_of src"]
      by (simp add: show_symbol_def expressible_def)
  next
    case (HostDataBlock mi d dm off b sl vb)
    then show ?thesis
      using assms(2) added block_line [OF assms(1) _ _ name, of mi b vb d dm]
      by (simp add: show_symbol_def expressible_def)
  qed
qed

lemma file_words:
  assumes "modules_ok ml" "list_all (expressible ml) syms"
  shows "\<exists>st'. parse_words ml n (concat (map (show_symbol ml) syms)) st = Inr st' \<and>
    ps_symbols st' = ps_symbols st @ syms"
  using assms(2)
proof (induction syms arbitrary: n st)
  case (Cons s syms)
  from Cons.prems obtain st1 where 1: "parse_words ml n (show_symbol ml s) st = Inr st1"
    "ps_symbols st1 = ps_symbols st @ [s]" using symbol_words [OF assms(1), of s n st] by auto
  from Cons obtain st2 where
    "parse_words ml (n + length (show_symbol ml s)) (concat (map (show_symbol ml) syms)) st1 = Inr st2"
    "ps_symbols st2 = ps_symbols st1 @ syms" by fastforce
  with 1 show ?case by (simp add: parse_words_append)
qed simp

lemma text_absent: "\<forall>w\<in>set ws. c \<notin> set w \<Longrightarrow> c \<noteq> d \<Longrightarrow> c \<notin> set (concat (map (\<lambda>w. w @ [d]) ws))"
  by auto

lemma ball_map: "(\<forall>w\<in>set (map f ws). P w) \<longleftrightarrow> (\<forall>v\<in>set ws. P (f v))"
  by simp

section \<open>Properties\<close>

text \<open>
  C9: Parsing a printed symbol file gives back exactly the symbols that were printed, in their order,
  for symbols of every kind whose names are plain and whose module and version indices are those of the
  version list.
\<close>

theorem symbol_file_reads_back:
  assumes "modules_ok ml" "list_all (expressible ml) syms"
  shows "parseSymbolFile ml (show_file ml syms) = Inr syms"
proof -
  let ?wss = "concat (map (show_symbol ml) syms)"
  have clean: "\<forall>ws\<in>set ?wss. list_all clean ws"
    using assms(2) show_symbol_clean [OF assms(1)] unfolding list_all_iff [of "expressible ml"]
    by (simp, blast)
  have line: "c \<notin> set (join CHR '' '' ws)" if "ws \<in> set ?wss" "c \<in> {CHR 0x0A, CHR 0x0D}" for ws c
  proof (rule join_absent)
    have "clean w" if "w \<in> set ws" for w
      using clean \<open>ws \<in> set ?wss\<close> that unfolding list_all_iff by blast
    then show "\<forall>w\<in>set ws. c \<notin> set w" using cleanD(7,8) \<open>c \<in> {CHR 0x0A, CHR 0x0D}\<close> by blast
    show "c \<noteq> CHR '' ''" using \<open>c \<in> {CHR 0x0A, CHR 0x0D}\<close> by auto
  qed
  have whole: "show_file ml syms = concat (map (\<lambda>w. w @ [CHR 0x0A]) (map (join CHR '' '') ?wss))"
    by (simp add: show_file_def o_def)
  have "CHR 0x0D \<notin> set (show_file ml syms)"
    unfolding whole by (rule text_absent) (use line in \<open>simp_all add: ball_map del: set_concat\<close>)
  moreover have "getlines CHR 0x0A (show_file ml syms) = map (join CHR '' '') ?wss"
    unfolding whole by (rule getlines_text) (use line in \<open>simp add: ball_map del: set_concat\<close>)
  ultimately have "parseSymbolFile ml (show_file ml syms) =
      bindR (parse_words ml 0 ?wss \<lparr>currentModuleIndex = - 1, currentVersionIndices = [], ps_symbols = []\<rparr>)
        (\<lambda>st. Inr (ps_symbols st))"
    using parse_words_lines [of ?wss ml 0] clean by (simp add: parseSymbolFile_def removeCrlf_id)
  then show ?thesis
    using file_words [OF assms, of 0 "\<lparr>currentModuleIndex = - 1, currentVersionIndices = [], ps_symbols = []\<rparr>"]
    by auto
qed

text \<open>An example with a symbol of every kind.\<close>

definition example_modules :: ModuleList where
  "example_modules =
    [(''main'', \<lparr>mod0Name = [], vm_index = - 1, versions = [(''1.0.0'', []), (''1.1.0'', [])]\<rparr>),
     (''sdk'', \<lparr>mod0Name = [], vm_index = - 1, versions = []\<rparr>)]"

definition example_file_symbols :: "HostSymbol list" where
  "example_file_symbols =
    [\<lparr>hs_name = bytes_of ''foo'', hs_useCache = True, hs_versionIndices = [0, 1], hs_data = HostImmediate 0 0x1234\<rparr>,
     \<lparr>hs_name = bytes_of ''bar'', hs_useCache = True, hs_versionIndices = [], hs_data = HostDynamic (bytes_of ''_Z3barv'')\<rparr>,
     \<lparr>hs_name = bytes_of ''sum'', hs_useCache = True, hs_versionIndices = [], hs_data = HostArithmetic (bytes_of ''foo'') 8\<rparr>,
     \<lparr>hs_name = bytes_of ''glob'', hs_useCache = True, hs_versionIndices = [],
       hs_data = HostReadADRPGlobal (bytes_of ''foo'') 2\<rparr>,
     \<lparr>hs_name = bytes_of ''blk'', hs_useCache = True, hs_versionIndices = [],
       hs_data = HostDataBlock 0 [0xA0, 0x12] [0xF0, 0xFF] 4 From SectionText 1\<rparr>]"

lemma text_of_bytes [simp]: "text_of (bytes_of s) = s"
proof -
  have "char_of (unat (of_char c :: u8)) = c" for c
  proof -
    have "(of_char c :: nat) < 256" by (rule nat_of_char_less_256)
    moreover have "(of_char c :: u8) = of_nat (of_char c :: nat)" by (simp only: of_nat_of_char)
    ultimately have "unat (of_char c :: u8) = of_char c" by (simp add: unat_of_nat take_bit_eq_mod)
    then show ?thesis by simp
  qed
  then show ?thesis by (simp add: bytes_of_def text_of_def o_def)
qed

lemma symbol_file_reads_back_witness:
  "parseSymbolFile example_modules (show_file example_modules example_file_symbols) = Inr example_file_symbols \<and>
   join CHR '' '' (show_symbol example_modules (hd example_file_symbols) ! 0) = ''@main:1.0.0,1.1.0''"
proof -
  have plain: "plain ''main''" "plain ''sdk''" "plain ''1.0.0''" "plain ''1.1.0''" "plain ''foo''" "plain ''bar''"
    "plain ''sum''" "plain ''glob''" "plain ''blk''" "plain ''_Z3barv''"
    by (simp_all add: plain_def word_char_def)
  then have "modules_ok example_modules" by (simp add: modules_ok_def example_modules_def)
  moreover have "list_all (expressible example_modules) example_file_symbols"
    using plain by (simp add: example_file_symbols_def expressible_def module_ok_def version_ok_def
        masked_ok_def example_modules_def)
  moreover have "join CHR '' '' (show_symbol example_modules (hd example_file_symbols) ! 0) = ''@main:1.0.0,1.1.0''"
    by (simp add: example_modules_def example_file_symbols_def show_symbol_def show_marker_def
        name_of_module_def name_of_version_def)
  ultimately show ?thesis using symbol_file_reads_back by blast
qed

end
