(* ===== verification/IpcStream.thy ===== *)
theory IpcStream
  imports HookMem
begin

text \<open>
  The byte stream of \<^verbatim>\<open>hk/util/Stream.h\<close>: a cursor over a buffer in memory, with checked reads and
  writes. A value of a trivial type is the list of its bytes, the least significant first. Whether the
  stream is read-only is a property of its type in the source, and a field here.
\<close>

section \<open>Bytes of values\<close>

type_synonym mem = "u64 \<Rightarrow> u8"

definition to_le :: "nat \<Rightarrow> 'a::len word \<Rightarrow> u8 list" where
  "to_le n w = map (\<lambda>i. ucast (drop_bit (8 * i) w)) [0..<n]"

definition of_le :: "u8 list \<Rightarrow> 'a::len word" where
  "of_le bs = foldr (\<lambda>b w. ucast b OR push_bit 8 w) bs 0"

definition bytes_in :: "mem \<Rightarrow> u64 \<Rightarrow> nat \<Rightarrow> u8 list" where
  "bytes_in m a n = map (\<lambda>i. m (a + of_nat i)) [0..<n]"

section \<open>The stream\<close>

record stream =
  sm_Buffer :: u64
  sm_Size :: u64
  sm_Cursor :: u64
  sm_ReadOnly :: bool

type_synonym writer = "stream \<times> mem"

definition sm_hasSize :: "stream \<Rightarrow> bool" where
  "sm_hasSize s \<longleftrightarrow> sm_Size s \<noteq> - 1"

definition sm_checkReadOnly :: "stream \<Rightarrow> 'a run \<Rightarrow> 'a run" where
  "sm_checkReadOnly s k = abort_unless (\<not> sm_ReadOnly s) ''hk::util::Stream: stream is read only'' k"

definition sm_seek :: "u64 \<Rightarrow> stream \<Rightarrow> stream run" where
  "sm_seek cursor s =
     (if sm_hasSize s
      then abort_unless (cursor \<le> sm_Size s) ''hk::util::Stream::seek: out of range'' (Inr (s\<lparr>sm_Cursor := cursor\<rparr>))
      else Inr (s\<lparr>sm_Cursor := cursor\<rparr>))"

definition sm_trySeek :: "u64 \<Rightarrow> stream \<Rightarrow> u32 \<times> stream" where
  "sm_trySeek cursor s =
     (if sm_hasSize s \<and> \<not> cursor \<le> sm_Size s then (ResultOutOfRange, s)
      else (ResultSuccess, s\<lparr>sm_Cursor := cursor\<rparr>))"

definition sm_tell :: "stream \<Rightarrow> u64" where
  "sm_tell s = sm_Cursor s"

definition sm_getMaxSize :: "stream \<Rightarrow> u64" where
  "sm_getMaxSize s = sm_Size s"

text \<open>The copy and the step of the cursor that all writes end with.\<close>

definition sm_put :: "u8 list \<Rightarrow> writer \<Rightarrow> writer" where
  "sm_put bs w = (case w of (s, m) \<Rightarrow>
     (s\<lparr>sm_Cursor := sm_Cursor s + of_nat (length bs)\<rparr>, poke (sm_Buffer s + sm_Cursor s) bs m))"

definition sm_tryWrite :: "u8 list \<Rightarrow> writer \<Rightarrow> (u32 \<times> writer) run" where
  "sm_tryWrite bs w = (case w of (s, m) \<Rightarrow> sm_checkReadOnly s
     (if sm_hasSize s \<and> sm_Cursor s + of_nat (length bs) > sm_Size s then Inr (ResultOutOfRange, w)
      else Inr (ResultSuccess, sm_put bs w)))"

definition sm_write :: "u8 list \<Rightarrow> writer \<Rightarrow> writer run" where
  "sm_write bs w = (case w of (s, m) \<Rightarrow> sm_checkReadOnly s
     (if sm_hasSize s
      then abort_unless (sm_Cursor s + of_nat (length bs) \<le> sm_Size s) ''hk::util::Stream::write: out of range''
        (Inr (sm_put bs w))
      else Inr (sm_put bs w)))"

text \<open>A string is its length as a \<^verbatim>\<open>size\<close>, followed by its characters.\<close>

definition sm_writeString :: "u8 list \<Rightarrow> writer \<Rightarrow> writer run" where
  "sm_writeString str w = bindR (sm_write (to_le 8 (of_nat (length str) :: u64)) w) (sm_write str)"

definition sm_tryWriteString :: "u8 list \<Rightarrow> writer \<Rightarrow> (u32 \<times> writer) run" where
  "sm_tryWriteString str w =
     bindR (sm_tryWrite (to_le 8 (of_nat (length str) :: u64)) w) (\<lambda>(r, w).
       if res_base_failed r then Inr (r, w) else sm_tryWrite str w)"

fun sm_writeIterator :: "u8 list list \<Rightarrow> writer \<Rightarrow> writer run" where
  "sm_writeIterator [] w = Inr w"
| "sm_writeIterator (bs # container) w = bindR (sm_write bs w) (sm_writeIterator container)"

fun sm_tryWriteIterator :: "u8 list list \<Rightarrow> writer \<Rightarrow> (u32 \<times> writer) run" where
  "sm_tryWriteIterator [] w = Inr (ResultSuccess, w)"
| "sm_tryWriteIterator (bs # container) w =
     bindR (sm_tryWrite bs w) (\<lambda>(r, w).
       if res_base_failed r then Inr (r, w) else sm_tryWriteIterator container w)"

definition sm_align :: "u64 \<Rightarrow> u8 \<Rightarrow> writer \<Rightarrow> writer run" where
  "sm_align alignment c w =
     (let mCursor = sm_Cursor (fst w); toZero = alignUp mCursor alignment - mCursor in
      sm_writeIterator (replicate (unat toZero) [c]) w)"

text \<open>
  A read gives the bytes and the stream behind them, or the result that says why not (\<open>Inl\<close>).
\<close>

definition sm_get :: "u64 \<Rightarrow> writer \<Rightarrow> u8 list \<times> stream" where
  "sm_get dataSize w = (case w of (s, m) \<Rightarrow>
     (bytes_in m (sm_Buffer s + sm_Cursor s) (unat dataSize), s\<lparr>sm_Cursor := sm_Cursor s + dataSize\<rparr>))"

definition sm_tryRead :: "u64 \<Rightarrow> writer \<Rightarrow> u32 + (u8 list \<times> stream)" where
  "sm_tryRead dataSize w = (case w of (s, m) \<Rightarrow>
     (if sm_hasSize s \<and> sm_Cursor s + dataSize > sm_Size s then Inl ResultOutOfRange
      else Inr (sm_get dataSize w)))"

definition sm_read :: "u64 \<Rightarrow> writer \<Rightarrow> (u8 list \<times> stream) run" where
  "sm_read dataSize w = (case w of (s, m) \<Rightarrow>
     (if sm_hasSize s
      then abort_unless (sm_Cursor s + dataSize \<le> sm_Size s) ''hk::util::Stream::write: out of range''
        (Inr (sm_get dataSize w))
      else Inr (sm_get dataSize w)))"

text \<open>\<^verbatim>\<open>read<T>()\<close>, for a type of \<open>n\<close> bytes.\<close>

definition sm_readT :: "nat \<Rightarrow> (u8 list \<Rightarrow> 'a) \<Rightarrow> writer \<Rightarrow> u32 + ('a \<times> stream)" where
  "sm_readT n conv w = bindR (sm_tryRead (of_nat n) w) (\<lambda>(bs, s). Inr (conv bs, s))"

fun sm_readArray_loop :: "nat \<Rightarrow> nat \<Rightarrow> (u8 list \<Rightarrow> 'a) \<Rightarrow> writer \<Rightarrow> u32 + ('a list \<times> stream)" where
  "sm_readArray_loop 0 n conv w = Inr ([], fst w)"
| "sm_readArray_loop (Suc amount) n conv w =
     bindR (sm_readT n conv w) (\<lambda>(x, s).
       bindR (sm_readArray_loop amount n conv (s, snd w)) (\<lambda>(xs, s). Inr (x # xs, s)))"

text \<open>The elements go into a \<^verbatim>\<open>FixedVec\<close> that has room for all of them.\<close>

definition sm_readArray :: "nat \<Rightarrow> nat \<Rightarrow> nat \<Rightarrow> (u8 list \<Rightarrow> 'a) \<Rightarrow> writer \<Rightarrow> u32 + ('a list \<times> stream)" where
  "sm_readArray capacity amount n conv w =
     (if \<not> amount \<le> capacity then Inl ResultOutOfRange else sm_readArray_loop amount n conv w)"

definition sm_readString :: "u64 \<Rightarrow> writer \<Rightarrow> u32 + (u8 list \<times> stream)" where
  "sm_readString maxLen w =
     bindR (sm_readT 8 of_le w) (\<lambda>(len, s).
       if \<not> len \<le> maxLen then Inl ResultOutOfRange else sm_tryRead len (s, snd w))"

section \<open>Bytes and values\<close>

lemma length_to_le [simp]: "length (to_le n w) = n"
  by (simp add: to_le_def)

lemma length_bytes_in [simp]: "length (bytes_in m a n) = n"
  by (simp add: bytes_in_def)

lemma bit_of_le:
  "bit (of_le bs :: 'a::len word) k \<longleftrightarrow> k < LENGTH('a) \<and> k div 8 < length bs \<and> bit (bs ! (k div 8)) (k mod 8)"
proof (induction bs arbitrary: k)
  case (Cons b bs)
  show ?case
  proof (cases "k < 8")
    case True
    then show ?thesis by (auto simp: of_le_def bit_simps)
  next
    case False
    then obtain j where j: "k = j + 8" by (metis add.commute le_Suc_ex not_less)
    have "bit (of_le (b # bs) :: 'a word) k \<longleftrightarrow> k < LENGTH('a) \<and> bit (of_le bs :: 'a word) j"
      by (auto simp: of_le_def bit_simps j u8_high)
    moreover have "(j + 8) div 8 = Suc (j div 8)" by simp
    ultimately show ?thesis by (simp add: Cons.IH j del: div_add_self2) auto
  qed
qed (simp add: of_le_def)

lemma of_le_to_le [simp]: "LENGTH('a) \<le> 8 * n \<Longrightarrow> of_le (to_le n (w :: 'a::len word)) = w"
proof (rule bit_word_eqI)
  fix k assume n: "LENGTH('a) \<le> 8 * n" and k: "k < LENGTH('a)"
  then have "k div 8 < n" by linarith
  then show "bit (of_le (to_le n w) :: 'a word) k = bit w k"
    using k by (simp add: bit_of_le to_le_def bit_simps)
qed

lemma bytes_in_append: "bytes_in m a (j + k) = bytes_in m a j @ bytes_in m (a + of_nat j) k"
  by (rule nth_equalityI) (auto simp: bytes_in_def nth_append algebra_simps of_nat_diff)

lemma poke_Nil [simp]: "poke a [] m = m"
  by (simp add: poke_def)

lemma poke_outside: "length bs \<le> unat (p - a) \<Longrightarrow> poke a bs m p = m p"
  by (simp add: poke_def)

text \<open>Writing again over the first part of what was written.\<close>

lemma unat_offset: "unat x + n < 2 ^ 64 \<Longrightarrow> unat ((x :: u64) + of_nat n) = unat x + n"
  by (simp add: unat_word_ariths take_bit_nat_eq_self unat_of_nat)

lemma unat_of_nat64: "n < 2 ^ 64 \<Longrightarrow> unat (of_nat n :: u64) = n"
  by (simp add: unat_of_nat)

lemma unat_sub_nat:
  assumes "n \<le> unat (x :: u64)"
  shows "unat (x - of_nat n) = unat x - n"
proof -
  have "unat x < 2 ^ LENGTH(64)" by (rule unsigned_less)
  then have "unat (of_nat n :: u64) = n" using assms by (intro unat_of_nat64) simp
  then show ?thesis using assms by (simp add: unat_sub_if')
qed

lemma poke_poke_behind:
  assumes "length as + length bs + n < 2 ^ 64" "length cs = length bs"
  shows "poke (a + of_nat (length as)) bs (poke a (as @ cs @ replicate n z) m) = poke a (as @ bs @ replicate n z) m"
proof
  fix p
  let ?d = "unat (p - a)"
  show "poke (a + of_nat (length as)) bs (poke a (as @ cs @ replicate n z) m) p = poke a (as @ bs @ replicate n z) m p"
  proof (cases "length as \<le> ?d")
    case True
    then have "unat (p - (a + of_nat (length as))) = ?d - length as"
      using unat_sub_nat [of "length as" "p - a"] by (simp add: diff_diff_eq)
    then show ?thesis using True assms(2) by (auto simp: poke_def nth_append)
  next
    case False
    have "\<not> unat ((p - a) - of_nat (length as) :: u64) < length bs"
      using False assms(1) unat_of_nat64 [of "length as"] by (simp add: unat_sub_if')
    then have "\<not> unat (p - (a + of_nat (length as))) < length bs" by (simp add: diff_diff_eq)
    then show ?thesis using False by (auto simp: poke_def nth_append)
  qed
qed

end
