(* ===== verification/IpcHipc.thy ===== *)
theory IpcHipc
  imports IpcStream
begin

text \<open>
  The structures of which messages to system services consist (\<^verbatim>\<open>hk/sf/hipc.h\<close>, \<^verbatim>\<open>hk/sf/cmif.h\<close>):
  headers and descriptors of memory, with their bit fields, and the bytes they are in a message.
\<close>

section \<open>Bit fields\<close>

text \<open>
  The bit fields of a word in the order of their declaration, from the lowest bit on, each with its
  width. A field keeps the low bits of what is stored in it.
\<close>

fun pack_fields :: "(nat \<times> u32) list \<Rightarrow> u32" where
  "pack_fields [] = 0"
| "pack_fields ((n, v) # fs) = (v AND mask n) OR push_bit n (pack_fields fs)"

fun unpack_fields :: "nat list \<Rightarrow> u32 \<Rightarrow> u32 list" where
  "unpack_fields [] w = []"
| "unpack_fields (n # ns) w = (w AND mask n) # unpack_fields ns (drop_bit n w)"

lemma pack_fields_high: "bit (pack_fields fs) k \<Longrightarrow> k < sum_list (map fst fs)"
proof (induction fs arbitrary: k rule: pack_fields.induct)
  case (2 n v fs)
  then have "k < n \<or> n \<le> k \<and> bit (pack_fields fs) (k - n)" by (auto simp: bit_simps)
  then show ?case using 2(1) [of "k - n"] by auto
qed simp

lemma unpack_pack:
  "sum_list (map fst fs) \<le> 32 \<Longrightarrow>
    unpack_fields (map fst fs) (pack_fields fs) = map (\<lambda>(n, v). v AND mask n) fs"
proof (induction fs rule: pack_fields.induct)
  case (2 n v fs)
  have "((v AND mask n) OR push_bit n (pack_fields fs)) AND mask n = v AND mask n"
    by (auto intro!: bit_word_eqI simp: bit_simps)
  moreover have "drop_bit n ((v AND mask n) OR push_bit n (pack_fields fs)) = pack_fields fs"
  proof (rule bit_word_eqI)
    fix k assume "k < LENGTH(32)"
    show "bit (drop_bit n ((v AND mask n) OR push_bit n (pack_fields fs))) k = bit (pack_fields fs) k"
      using 2(2) pack_fields_high [of fs k] by (auto simp: bit_simps)
  qed
  ultimately show ?case using 2 by simp
qed simp

section \<open>Headers\<close>

record hipc_Header =
  hd_tag :: u32
  hd_sendStaticCount :: u32
  hd_sendBufferCount :: u32
  hd_recvBufferCount :: u32
  hd_exchBufferCount :: u32
  hd_dataWords :: u32
  hd_recvStaticMode :: u32
  hd_hasSpecialHeader :: bool

definition Header_bytes :: "hipc_Header \<Rightarrow> u8 list" where
  "Header_bytes h =
     to_le 4 (pack_fields [(16, hd_tag h), (4, hd_sendStaticCount h), (4, hd_sendBufferCount h),
       (4, hd_recvBufferCount h), (4, hd_exchBufferCount h)]) @
     to_le 4 (pack_fields [(10, hd_dataWords h), (4, hd_recvStaticMode h), (6, 0), (11, 0),
       (1, of_bool (hd_hasSpecialHeader h))])"

definition Header_of :: "u8 list \<Rightarrow> hipc_Header" where
  "Header_of bs =
     (let f = unpack_fields [16, 4, 4, 4, 4] (of_le (take 4 bs)); g = unpack_fields [10, 4, 6, 11, 1] (of_le (drop 4 bs)) in
      \<lparr>hd_tag = f ! 0, hd_sendStaticCount = f ! 1, hd_sendBufferCount = f ! 2, hd_recvBufferCount = f ! 3,
        hd_exchBufferCount = f ! 4, hd_dataWords = g ! 0, hd_recvStaticMode = g ! 1,
        hd_hasSpecialHeader = (g ! 4 \<noteq> 0)\<rparr>)"

record hipc_SpecialHeader =
  sh_sendPid :: bool
  sh_copyHandleCount :: u32
  sh_moveHandleCount :: u32

definition SpecialHeader_bytes :: "hipc_SpecialHeader \<Rightarrow> u8 list" where
  "SpecialHeader_bytes h = to_le 4 (pack_fields [(1, of_bool (sh_sendPid h)), (4, sh_copyHandleCount h),
     (4, sh_moveHandleCount h), (23, 0)])"

definition SpecialHeader_of :: "u8 list \<Rightarrow> hipc_SpecialHeader" where
  "SpecialHeader_of bs =
     (let f = unpack_fields [1, 4, 4, 23] (of_le bs) in
      \<lparr>sh_sendPid = (f ! 0 \<noteq> 0), sh_copyHandleCount = f ! 1, sh_moveHandleCount = f ! 2\<rparr>)"

section \<open>Descriptors\<close>

record hipc_Static =
  sd_index :: u32
  sd_addressHigh :: u32
  sd_addressMid :: u32
  sd_size :: u32
  sd_addressLow :: u32

definition mk_Static :: "u8 \<Rightarrow> u64 \<Rightarrow> u16 \<Rightarrow> hipc_Static" where
  "mk_Static index address sz =
     \<lparr>sd_index = ucast index AND mask 6,
       sd_addressHigh = ucast (drop_bit 36 address AND hk_bits 6) AND mask 6,
       sd_addressMid = ucast (drop_bit 32 address AND hk_bits 4) AND mask 4,
       sd_size = ucast sz AND mask 16, sd_addressLow = ucast (address AND hk_bits 32)\<rparr>"

definition Static_address :: "hipc_Static \<Rightarrow> u64" where
  "Static_address d =
     ucast (sd_addressLow d) OR push_bit 32 (ucast (sd_addressMid d)) OR push_bit 36 (ucast (sd_addressHigh d))"

definition Static_bytes :: "hipc_Static \<Rightarrow> u8 list" where
  "Static_bytes d =
     to_le 4 (pack_fields [(6, sd_index d), (6, sd_addressHigh d), (4, sd_addressMid d), (16, sd_size d)]) @
     to_le 4 (sd_addressLow d)"

definition Static_of :: "u8 list \<Rightarrow> hipc_Static" where
  "Static_of bs =
     (let f = unpack_fields [6, 6, 4, 16] (of_le (take 4 bs)) in
      \<lparr>sd_index = f ! 0, sd_addressHigh = f ! 1, sd_addressMid = f ! 2, sd_size = f ! 3,
        sd_addressLow = of_le (drop 4 bs)\<rparr>)"

datatype BufferMode = ModeNormal | ModeNonSecure | ModeNonDevice

fun mode_value :: "BufferMode \<Rightarrow> u32" where
  "mode_value ModeNormal = 0"
| "mode_value ModeNonSecure = 1"
| "mode_value ModeNonDevice = 3"

record hipc_Buffer =
  bd_sizeLow :: u32
  bd_addressLow :: u32
  bd_mode :: u32
  bd_addressHigh :: u32
  bd_sizeHigh :: u32
  bd_addressMid :: u32

definition mk_Buffer :: "BufferMode \<Rightarrow> u64 \<Rightarrow> u64 \<Rightarrow> hipc_Buffer" where
  "mk_Buffer mode address sz =
     \<lparr>bd_sizeLow = ucast (sz AND hk_bits 32), bd_addressLow = ucast (address AND hk_bits 32),
       bd_mode = mode_value mode AND mask 2,
       bd_addressHigh = ucast (drop_bit 36 address AND hk_bits 22) AND mask 22,
       bd_sizeHigh = ucast (drop_bit 32 sz AND hk_bits 4) AND mask 4,
       bd_addressMid = ucast (drop_bit 32 address AND hk_bits 4) AND mask 4\<rparr>"

definition Buffer_address :: "hipc_Buffer \<Rightarrow> u64" where
  "Buffer_address d =
     ucast (bd_addressLow d) OR push_bit 32 (ucast (bd_addressMid d)) OR push_bit 36 (ucast (bd_addressHigh d))"

definition Buffer_size :: "hipc_Buffer \<Rightarrow> u64" where
  "Buffer_size d = ucast (bd_sizeLow d) OR push_bit 32 (ucast (bd_sizeHigh d))"

definition Buffer_bytes :: "hipc_Buffer \<Rightarrow> u8 list" where
  "Buffer_bytes d = to_le 4 (bd_sizeLow d) @ to_le 4 (bd_addressLow d) @
     to_le 4 (pack_fields [(2, bd_mode d), (22, bd_addressHigh d), (4, bd_sizeHigh d), (4, bd_addressMid d)])"

definition Buffer_of :: "u8 list \<Rightarrow> hipc_Buffer" where
  "Buffer_of bs =
     (let f = unpack_fields [2, 22, 4, 4] (of_le (drop 8 bs)) in
      \<lparr>bd_sizeLow = of_le (take 4 bs), bd_addressLow = of_le (take 4 (drop 4 bs)), bd_mode = f ! 0,
        bd_addressHigh = f ! 1, bd_sizeHigh = f ! 2, bd_addressMid = f ! 3\<rparr>)"

record hipc_ReceiveStatic =
  rd_addressLow :: u32
  rd_addressHigh :: u32
  rd_size :: u32

definition mk_ReceiveStatic :: "u64 \<Rightarrow> u16 \<Rightarrow> hipc_ReceiveStatic" where
  "mk_ReceiveStatic address sz =
     \<lparr>rd_addressLow = ucast (address AND hk_bits 32),
       rd_addressHigh = ucast (ucast (drop_bit 32 address AND hk_bits 32) :: u16) AND mask 16,
       rd_size = ucast sz AND mask 16\<rparr>"

definition ReceiveStatic_address :: "hipc_ReceiveStatic \<Rightarrow> u64" where
  "ReceiveStatic_address d = ucast (rd_addressLow d) OR push_bit 32 (ucast (rd_addressHigh d))"

section \<open>The payload's headers\<close>

definition cInHeaderMagic :: u32 where "cInHeaderMagic = 0x49434653"

definition InHeader_bytes :: "u32 \<Rightarrow> u32 \<Rightarrow> u8 list" where
  "InHeader_bytes command token = to_le 4 cInHeaderMagic @ to_le 4 (0 :: u32) @ to_le 4 command @ to_le 4 token"

text \<open>The magic number of an answer is not looked at.\<close>

record cmif_OutHeader =
  oh_magic :: u32
  oh_version :: u32
  oh_result :: u32
  oh_token :: u32

definition OutHeader_of :: "u8 list \<Rightarrow> cmif_OutHeader" where
  "OutHeader_of bs = \<lparr>oh_magic = of_le (take 4 bs), oh_version = of_le (take 4 (drop 4 bs)),
     oh_result = of_le (take 4 (drop 8 bs)), oh_token = of_le (drop 12 bs)\<rparr>"

datatype DomainTag = DomainRequest | DomainClose

fun domain_tag :: "DomainTag \<Rightarrow> u8" where
  "domain_tag DomainRequest = 1"
| "domain_tag DomainClose = 2"

datatype MessageTag = TagClose | TagRequest | TagControl

fun message_tag :: "MessageTag \<Rightarrow> u16" where
  "message_tag TagClose = 2"
| "message_tag TagRequest = 4"
| "message_tag TagControl = 5"

definition DomainInHeader_bytes :: "DomainTag \<Rightarrow> u8 \<Rightarrow> u16 \<Rightarrow> u32 \<Rightarrow> u32 \<Rightarrow> u8 list" where
  "DomainInHeader_bytes tag objectCount dataSize objectId token =
     domain_tag tag # objectCount # to_le 2 dataSize @ to_le 4 objectId @ to_le 4 (0 :: u32) @ to_le 4 token"

text \<open>An answer's \<^verbatim>\<open>DomainOutHeader\<close> is the number of objects and three words of padding.\<close>

definition DomainOutHeader_objectCount :: "u8 list \<Rightarrow> u32" where
  "DomainOutHeader_objectCount bs = of_le (take 4 bs)"

section \<open>Reading back\<close>

lemma hk_bits_mask: "n < 64 \<Longrightarrow> hk_bits n = mask n"
  by (simp add: hk_bits_def hk_bit_def mask_eq_push_bit_minus)

lemma length_structs [simp]:
  "length (Header_bytes h) = 8" "length (SpecialHeader_bytes p) = 4" "length (Static_bytes s) = 8"
  "length (Buffer_bytes b) = 12" "length (InHeader_bytes c t) = 16"
  "length (DomainInHeader_bytes g oc ds oi t) = 16"
  by (simp_all add: Header_bytes_def SpecialHeader_bytes_def Static_bytes_def Buffer_bytes_def
      InHeader_bytes_def DomainInHeader_bytes_def)

definition fits :: "nat \<Rightarrow> u32 \<Rightarrow> bool" where
  "fits n v \<longleftrightarrow> v AND mask n = v"

lemma fits_mask [simp]: "fits n (v AND mask n)" "fits n 0"
  by (simp_all add: fits_def and.assoc)

lemma fits_of_nat: "k < 2 ^ n \<Longrightarrow> n < 32 \<Longrightarrow> fits n (of_nat k)"
proof -
  assume k: "k < 2 ^ n" and n: "n < 32"
  then have "(2 :: nat) ^ n \<le> 2 ^ 32" by (intro power_increasing) auto
  then have "unat (of_nat k :: u32) = k" using k by (simp add: unat_of_nat)
  then show ?thesis using k by (simp add: fits_def and_mask_eq_iff_unat)
qed

lemma Header_of_bytes:
  assumes "fits 16 (hd_tag h)" "fits 4 (hd_sendStaticCount h)" "fits 4 (hd_sendBufferCount h)"
    "fits 4 (hd_recvBufferCount h)" "fits 4 (hd_exchBufferCount h)" "fits 10 (hd_dataWords h)"
    "fits 4 (hd_recvStaticMode h)"
  shows "Header_of (Header_bytes h) = h"
  using assms unpack_pack [of "[(16, hd_tag h), (4, hd_sendStaticCount h), (4, hd_sendBufferCount h),
       (4, hd_recvBufferCount h), (4, hd_exchBufferCount h)]"]
    unpack_pack [of "[(10, hd_dataWords h), (4, hd_recvStaticMode h), (6, 0), (11, 0),
       (1, of_bool (hd_hasSpecialHeader h))]"]
  by (simp add: Header_of_def Header_bytes_def fits_def del: pack_fields.simps unpack_fields.simps)

lemma SpecialHeader_of_bytes:
  assumes "fits 4 (sh_copyHandleCount h)" "fits 4 (sh_moveHandleCount h)"
  shows "SpecialHeader_of (SpecialHeader_bytes h) = h"
  using assms unpack_pack [of "[(1, of_bool (sh_sendPid h)), (4, sh_copyHandleCount h),
     (4, sh_moveHandleCount h), (23, 0)]"]
  by (simp add: SpecialHeader_of_def SpecialHeader_bytes_def fits_def del: pack_fields.simps unpack_fields.simps)

lemma Static_of_bytes:
  assumes "fits 6 (sd_index d)" "fits 6 (sd_addressHigh d)" "fits 4 (sd_addressMid d)" "fits 16 (sd_size d)"
  shows "Static_of (Static_bytes d) = d"
  using assms unpack_pack [of "[(6, sd_index d), (6, sd_addressHigh d), (4, sd_addressMid d), (16, sd_size d)]"]
  by (simp add: Static_of_def Static_bytes_def fits_def del: pack_fields.simps unpack_fields.simps)

lemma Static_of_bytes_mk: "Static_of (Static_bytes (mk_Static i a n)) = mk_Static i a n"
  by (rule Static_of_bytes) (simp_all add: mk_Static_def)

lemma Buffer_of_bytes_mk: "Buffer_of (Buffer_bytes (mk_Buffer mode a n)) = mk_Buffer mode a n"
proof -
  let ?d = "mk_Buffer mode a n"
  have "fits 2 (bd_mode ?d)" "fits 22 (bd_addressHigh ?d)" "fits 4 (bd_sizeHigh ?d)" "fits 4 (bd_addressMid ?d)"
    by (simp_all add: mk_Buffer_def)
  then show ?thesis
    using unpack_pack [of "[(2, bd_mode ?d), (22, bd_addressHigh ?d), (4, bd_sizeHigh ?d), (4, bd_addressMid ?d)]"]
    by (simp add: Buffer_of_def Buffer_bytes_def fits_def del: pack_fields.simps unpack_fields.simps)
qed

lemma Static_address_mk: "Static_address (mk_Static i a n) = a AND mask 42"
proof (rule bit_word_eqI)
  fix k assume "k < LENGTH(64)"
  then show "bit (Static_address (mk_Static i a n)) k = bit (a AND mask 42) k"
    by (cases "k < 36") (auto simp: Static_address_def mk_Static_def hk_bits_mask bit_simps)
qed

lemma Buffer_address_mk: "Buffer_address (mk_Buffer mode a n) = a AND mask 58"
proof (rule bit_word_eqI)
  fix k assume "k < LENGTH(64)"
  then show "bit (Buffer_address (mk_Buffer mode a n)) k = bit (a AND mask 58) k"
    by (cases "k < 36") (auto simp: Buffer_address_def mk_Buffer_def hk_bits_mask bit_simps)
qed

lemma Buffer_size_mk: "Buffer_size (mk_Buffer mode a n) = n AND mask 36"
  by (rule bit_word_eqI) (auto simp: Buffer_size_def mk_Buffer_def hk_bits_mask bit_simps)

lemma ReceiveStatic_address_mk: "ReceiveStatic_address (mk_ReceiveStatic a n) = a AND mask 48"
  by (rule bit_word_eqI) (auto simp: ReceiveStatic_address_def mk_ReceiveStatic_def hk_bits_mask bit_simps)

section \<open>Values in a message\<close>

text \<open>What the readers rely on: a value takes a fixed number of bytes and is read back from them.\<close>

locale codec =
  fixes enc :: "'a \<Rightarrow> u8 list" and dec :: "u8 list \<Rightarrow> 'a" and n :: nat and ok :: "'a \<Rightarrow> bool"
  assumes enc_length: "length (enc x) = n"
    and dec_enc: "ok x \<Longrightarrow> dec (enc x) = x"
begin

lemma length_all: "length (concat (map enc xs)) = n * length xs"
  by (induction xs) (simp_all add: enc_length)

end

definition static_ok :: "hipc_Static \<Rightarrow> bool" where
  "static_ok d \<longleftrightarrow> fits 6 (sd_index d) \<and> fits 6 (sd_addressHigh d) \<and> fits 4 (sd_addressMid d) \<and> fits 16 (sd_size d)"

interpretation words: codec "to_le 4 :: u32 \<Rightarrow> u8 list" of_le 4 "\<lambda>_. True"
  by unfold_locales simp_all

interpretation halfwords: codec "to_le 2 :: u16 \<Rightarrow> u8 list" of_le 2 "\<lambda>_. True"
  by unfold_locales simp_all

interpretation statics: codec Static_bytes Static_of 8 static_ok
  by unfold_locales (auto simp: static_ok_def intro: Static_of_bytes)

definition header_ok :: "hipc_Header \<Rightarrow> bool" where
  "header_ok h \<longleftrightarrow> fits 16 (hd_tag h) \<and> fits 4 (hd_sendStaticCount h) \<and> fits 4 (hd_sendBufferCount h) \<and>
     fits 4 (hd_recvBufferCount h) \<and> fits 4 (hd_exchBufferCount h) \<and> fits 10 (hd_dataWords h) \<and>
     fits 4 (hd_recvStaticMode h)"

interpretation headers: codec Header_bytes Header_of 8 header_ok
  by unfold_locales (auto simp: header_ok_def intro: Header_of_bytes)

interpretation buffers: codec Buffer_bytes Buffer_of 12 "\<lambda>d. \<exists>mode a n. d = mk_Buffer mode a n"
  by unfold_locales (auto simp: Buffer_of_bytes_mk)

interpretation specials: codec SpecialHeader_bytes SpecialHeader_of 4
    "\<lambda>h. fits 4 (sh_copyHandleCount h) \<and> fits 4 (sh_moveHandleCount h)"
  by unfold_locales (auto intro: SpecialHeader_of_bytes)

end
