(* ===== verification/IpcRequest.thy ===== *)
theory IpcRequest
  imports IpcHipc
begin

text \<open>
  Requests to system services and their answers (\<^verbatim>\<open>hk/sf/sf.h\<close>, \<^verbatim>\<open>hk/sf/sf.cpp\<close>, \<^verbatim>\<open>hk/sf/utils.h\<close>):
  a request collects handles, objects and descriptors of memory, is written into the message buffer of
  the thread, and the answer is read from there. The debugging aids of builds that are not for release
  are not modelled. The data of a request is the list of its bytes: it does not lie in the message
  buffer. The kernel's \<^verbatim>\<open>SendSyncRequest\<close>, which lets the service answer in the buffer, is an argument.
\<close>

section \<open>Services and requests\<close>

definition cTlsBufferSize :: nat where "cTlsBufferSize = 256"

record Service =
  mSession :: u32
  mObject :: "u32 option"
  mOwnedHandle :: bool
  mPointerBufferSize :: u16

definition cNoPointerBufferSize :: u16 where "cNoPointerBufferSize = - 1"

definition Service_of_handle :: "u32 \<Rightarrow> Service" where
  "Service_of_handle handle =
     \<lparr>mSession = handle, mObject = None, mOwnedHandle = True, mPointerBufferSize = cNoPointerBufferSize\<rparr>"

definition fromHandle :: "u32 \<Rightarrow> Service" where
  "fromHandle session =
     \<lparr>mSession = session, mObject = None, mOwnedHandle = False, mPointerBufferSize = cNoPointerBufferSize\<rparr>"

definition domainSubservice :: "Service \<Rightarrow> u32 \<Rightarrow> Service" where
  "domainSubservice parent obj =
     \<lparr>mSession = mSession parent, mObject = Some obj, mOwnedHandle = False,
       mPointerBufferSize = mPointerBufferSize parent\<rparr>"

definition isDomain :: "Service \<Rightarrow> bool" where
  "isDomain srv \<longleftrightarrow> mObject srv \<noteq> None"

definition isDomainSubservice :: "Service \<Rightarrow> bool" where
  "isDomainSubservice srv \<longleftrightarrow> \<not> mOwnedHandle srv"

text \<open>The move constructor leaves the old service without a session.\<close>

definition Service_move :: "Service \<Rightarrow> Service \<times> Service" where
  "Service_move old = (old, old\<lparr>mSession := 0, mOwnedHandle := False, mObject := None\<rparr>)"

definition toHandle :: "Service \<Rightarrow> u32 \<times> Service" where
  "toHandle srv = (mSession srv, srv\<lparr>mOwnedHandle := False, mObject := None, mSession := 0\<rparr>)"

definition fixedVec8 :: "'a \<Rightarrow> 'a vec" where
  "fixedVec8 raw = \<lparr>v_data = replicate 8 raw, v_size = 0, v_cap = 8, v_raw = raw\<rparr>"

record Request =
  mSendPid :: bool
  mHipcStaticIdx :: u8
  mServerPointerSize :: u16
  mCommandId :: u32
  mToken :: u32
  mHardcodedDataSize :: u32
  mDomainTag :: DomainTag
  mObjects :: "u32 vec"
  mHipcCopyHandles :: "u32 vec"
  mHipcMoveHandles :: "u32 vec"
  mHipcSendStatics :: "hipc_Static vec"
  mHipcSendBuffers :: "hipc_Buffer vec"
  mHipcReceiveBuffers :: "hipc_Buffer vec"
  mHipcExchangeBuffers :: "hipc_Buffer vec"
  mHipcReceiveStatics :: "hipc_ReceiveStatic vec"
  mHipcOutPointerSizes :: "u16 vec"
  mData :: "u8 list"

definition new_Request :: "u32 \<Rightarrow> u16 \<Rightarrow> u8 list \<Rightarrow> Request" where
  "new_Request command pointerSize bytes =
     \<lparr>mSendPid = False, mHipcStaticIdx = 0, mServerPointerSize = pointerSize, mCommandId = command,
       mToken = 0, mHardcodedDataSize = 0, mDomainTag = DomainRequest, mObjects = fixedVec8 0,
       mHipcCopyHandles = fixedVec8 0, mHipcMoveHandles = fixedVec8 0,
       mHipcSendStatics = fixedVec8 (mk_Static 0 0 0), mHipcSendBuffers = fixedVec8 (mk_Buffer ModeNormal 0 0),
       mHipcReceiveBuffers = fixedVec8 (mk_Buffer ModeNormal 0 0),
       mHipcExchangeBuffers = fixedVec8 (mk_Buffer ModeNormal 0 0),
       mHipcReceiveStatics = fixedVec8 (mk_ReceiveStatic 0 0), mHipcOutPointerSizes = fixedVec8 0,
       mData = bytes\<rparr>"

definition setDomainClose :: "Request \<Rightarrow> Request" where
  "setDomainClose r = r\<lparr>mDomainTag := DomainClose\<rparr>"

definition setToken :: "u32 \<Rightarrow> Request \<Rightarrow> Request" where
  "setToken token r = r\<lparr>mToken := token\<rparr>"

definition forceDataSize :: "u32 \<Rightarrow> Request \<Rightarrow> Request" where
  "forceDataSize byteCount r = r\<lparr>mHardcodedDataSize := byteCount\<rparr>"

definition setSendPid :: "Request \<Rightarrow> Request" where
  "setSendPid r = r\<lparr>mSendPid := True\<rparr>"

definition addCopyHandle :: "u32 \<Rightarrow> Request \<Rightarrow> Request run" where
  "addCopyHandle handle r =
     bindR (vec_add handle (mHipcCopyHandles r)) (\<lambda>v. Inr (r\<lparr>mHipcCopyHandles := v\<rparr>))"

definition addMoveHandle :: "u32 \<Rightarrow> Request \<Rightarrow> Request run" where
  "addMoveHandle handle r =
     bindR (vec_add handle (mHipcMoveHandles r)) (\<lambda>v. Inr (r\<lparr>mHipcMoveHandles := v\<rparr>))"

section \<open>Memory that goes with a request\<close>

definition add_sendBuffer :: "BufferMode \<Rightarrow> u64 \<Rightarrow> u64 \<Rightarrow> Request \<Rightarrow> Request run" where
  "add_sendBuffer mode dat n r =
     bindR (vec_add (mk_Buffer mode dat n) (mHipcSendBuffers r)) (\<lambda>v. Inr (r\<lparr>mHipcSendBuffers := v\<rparr>))"

definition add_receiveBuffer :: "BufferMode \<Rightarrow> u64 \<Rightarrow> u64 \<Rightarrow> Request \<Rightarrow> Request run" where
  "add_receiveBuffer mode dat n r =
     bindR (vec_add (mk_Buffer mode dat n) (mHipcReceiveBuffers r)) (\<lambda>v. Inr (r\<lparr>mHipcReceiveBuffers := v\<rparr>))"

definition add_receiveStatic :: "u64 \<Rightarrow> u16 \<Rightarrow> Request \<Rightarrow> Request run" where
  "add_receiveStatic dat n r =
     bindR (vec_add (mk_ReceiveStatic dat n) (mHipcReceiveStatics r)) (\<lambda>v. Inr (r\<lparr>mHipcReceiveStatics := v\<rparr>))"

definition add_outPointerSize :: "u16 \<Rightarrow> Request \<Rightarrow> Request run" where
  "add_outPointerSize n r =
     bindR (vec_add n (mHipcOutPointerSizes r)) (\<lambda>v. Inr (r\<lparr>mHipcOutPointerSizes := v\<rparr>))"

definition addInPointer :: "u64 \<Rightarrow> u16 \<Rightarrow> Request \<Rightarrow> Request run" where
  "addInPointer dat n r =
     bindR (vec_add (mk_Static (mHipcStaticIdx r) dat n) (mHipcSendStatics r)) (\<lambda>v.
       Inr (r\<lparr>mHipcStaticIdx := mHipcStaticIdx r + 1, mHipcSendStatics := v,
         mServerPointerSize := mServerPointerSize r - n\<rparr>))"

definition addOutFixedSizePointer :: "u64 \<Rightarrow> u16 \<Rightarrow> Request \<Rightarrow> Request run" where
  "addOutFixedSizePointer dat n r =
     bindR (add_receiveStatic dat n r) (\<lambda>r. Inr (r\<lparr>mServerPointerSize := mServerPointerSize r - n\<rparr>))"

definition addOutPointer :: "u64 \<Rightarrow> u64 \<Rightarrow> Request \<Rightarrow> Request run" where
  "addOutPointer dat n r =
     bindR (addOutFixedSizePointer dat (ucast n) r) (add_outPointerSize (ucast n))"

definition addInAutoselect :: "u64 \<Rightarrow> u64 \<Rightarrow> BufferMode \<Rightarrow> Request \<Rightarrow> Request run" where
  "addInAutoselect dat n mode r =
     (if mServerPointerSize r > 0 \<and> n \<le> ucast (mServerPointerSize r)
      then bindR (addInPointer dat (ucast n) r) (add_sendBuffer mode 0 0)
      else bindR (addInPointer 0 0 r) (add_sendBuffer mode dat n))"

definition addOutAutoselect :: "u64 \<Rightarrow> u64 \<Rightarrow> BufferMode \<Rightarrow> Request \<Rightarrow> Request run" where
  "addOutAutoselect dat n mode r =
     (if mServerPointerSize r > 0 \<and> n \<le> ucast (mServerPointerSize r)
      then bindR (add_receiveStatic dat (ucast n) r) (\<lambda>r.
             bindR (add_receiveBuffer mode 0 0 r) (add_outPointerSize (ucast n)))
      else bindR (add_receiveStatic 0 0 r) (add_receiveBuffer mode dat n))"

definition addInMapAlias :: "u64 \<Rightarrow> u64 \<Rightarrow> BufferMode \<Rightarrow> Request \<Rightarrow> Request run" where
  "addInMapAlias dat n mode r = add_sendBuffer mode dat n r"

definition addOutMapAlias :: "u64 \<Rightarrow> u64 \<Rightarrow> BufferMode \<Rightarrow> Request \<Rightarrow> Request run" where
  "addOutMapAlias dat n mode r = add_receiveBuffer mode dat n r"

definition addInOutMapAlias :: "u64 \<Rightarrow> u64 \<Rightarrow> BufferMode \<Rightarrow> Request \<Rightarrow> Request run" where
  "addInOutMapAlias dat n mode r =
     bindR (vec_add (mk_Buffer mode dat n) (mHipcExchangeBuffers r)) (\<lambda>v. Inr (r\<lparr>mHipcExchangeBuffers := v\<rparr>))"

section \<open>Writing a request\<close>

definition hasSpecialHeader :: "Request \<Rightarrow> bool" where
  "hasSpecialHeader r \<longleftrightarrow>
     mSendPid r \<or> \<not> sp_empty (mHipcCopyHandles r) \<or> \<not> sp_empty (mHipcMoveHandles r)"

definition cmifDataSize :: "Request \<Rightarrow> u16" where
  "cmifDataSize r = of_nat (16 + length (mData r))"

definition hipcDataSize :: "Service \<Rightarrow> Request \<Rightarrow> u16" where
  "hipcDataSize srv r =
     (let n = 16 + (if isDomain srv then 16 + 4 * of_nat (v_size (mObjects r)) else 0);
          n = n + cmifDataSize r;
          n = ucast (alignUp (ucast n) 2)
      in n + 2 * of_nat (v_size (mHipcOutPointerSizes r)))"

definition dataWords :: "Service \<Rightarrow> Request \<Rightarrow> u16" where
  "dataWords srv r = ucast (alignUp (ucast (hipcDataSize srv r)) 4) div 4"

text \<open>The count of elements of a vector, cut to a byte.\<close>

definition count8 :: "'a vec \<Rightarrow> u32" where
  "count8 v = ucast (of_nat (v_size v) :: u8)"

definition request_Header :: "Service \<Rightarrow> u16 \<Rightarrow> Request \<Rightarrow> hipc_Header" where
  "request_Header srv tag r =
     \<lparr>hd_tag = ucast tag, hd_sendStaticCount = count8 (mHipcSendStatics r),
       hd_sendBufferCount = count8 (mHipcSendBuffers r), hd_recvBufferCount = count8 (mHipcReceiveBuffers r),
       hd_exchBufferCount = count8 (mHipcExchangeBuffers r), hd_dataWords = ucast (dataWords srv r),
       hd_recvStaticMode = (if v_size (mHipcReceiveStatics r) \<noteq> 0 then 2 + count8 (mHipcReceiveStatics r) else 0),
       hd_hasSpecialHeader = hasSpecialHeader r\<rparr>"

definition request_SpecialHeader :: "Request \<Rightarrow> hipc_SpecialHeader" where
  "request_SpecialHeader r =
     \<lparr>sh_sendPid = mSendPid r, sh_copyHandleCount = count8 (mHipcCopyHandles r),
       sh_moveHandleCount = count8 (mHipcMoveHandles r)\<rparr>"

definition write_when :: "bool \<Rightarrow> (writer \<Rightarrow> writer run) \<Rightarrow> writer \<Rightarrow> writer run" where
  "write_when c f w = (if c then f w else Inr w)"

definition seek_aligned :: "u64 \<Rightarrow> writer \<Rightarrow> writer run" where
  "seek_aligned alignment w =
     bindR (sm_seek (alignUp (sm_tell (fst w)) alignment) (fst w)) (\<lambda>s. Inr (s, snd w))"

definition write_special :: "Request \<Rightarrow> writer \<Rightarrow> writer run" where
  "write_special r w =
     bindR (sm_write (SpecialHeader_bytes (request_SpecialHeader r)) w) (\<lambda>w.
     bindR (write_when (mSendPid r) (sm_write (to_le 8 (0 :: u64))) w) (\<lambda>w.
     bindR (sm_writeIterator (map (to_le 4) (elems (mHipcCopyHandles r))) w) (\<lambda>w.
       sm_writeIterator (map (to_le 4) (elems (mHipcMoveHandles r))) w)))"

definition writeToTls :: "Service \<Rightarrow> u16 \<Rightarrow> Request \<Rightarrow> u64 \<Rightarrow> mem \<Rightarrow> mem run" where
  "writeToTls srv tag r tls m =
     (let m = poke tls (replicate cTlsBufferSize 0) m;
          w = (\<lparr>sm_Buffer = tls, sm_Size = of_nat cTlsBufferSize, sm_Cursor = 0, sm_ReadOnly = False\<rparr>, m) in
      bindR (sm_write (Header_bytes (request_Header srv tag r)) w) (\<lambda>w.
      bindR (write_when (hasSpecialHeader r) (write_special r) w) (\<lambda>w.
      bindR (sm_writeIterator (map Static_bytes (elems (mHipcSendStatics r))) w) (\<lambda>w.
      bindR (sm_writeIterator (map Buffer_bytes (elems (mHipcSendBuffers r))) w) (\<lambda>w.
      bindR (sm_writeIterator (map Buffer_bytes (elems (mHipcReceiveBuffers r))) w) (\<lambda>w.
      bindR (sm_writeIterator (map Buffer_bytes (elems (mHipcExchangeBuffers r))) w) (\<lambda>w.
      bindR (seek_aligned 16 w) (\<lambda>w.
      bindR (write_when (isDomain srv) (sm_write (DomainInHeader_bytes (mDomainTag r)
        (of_nat (v_size (mObjects r))) (cmifDataSize r) (case mObject srv of Some obj \<Rightarrow> obj | None \<Rightarrow> 0) (mToken r))) w) (\<lambda>w.
      bindR (sm_write (InHeader_bytes (mCommandId r) (if isDomain srv then 0 else mToken r)) w) (\<lambda>w.
      bindR (sm_writeIterator (map (\<lambda>b. [b]) (mData r)) w) (\<lambda>w.
      bindR (seek_aligned 4 w) (\<lambda>w.
      bindR (write_when (isDomain srv) (sm_writeIterator (map (to_le 4) (elems (mObjects r)))) w) (\<lambda>w.
      bindR (seek_aligned 2 w) (\<lambda>w.
      bindR (sm_writeIterator (map (to_le 2) (elems (mHipcOutPointerSizes r))) w) (\<lambda>w.
      Inr (snd w))))))))))))))))"

end
