(* ===== verification/IpcResponse.thy ===== *)
theory IpcResponse
  imports IpcRequest
begin

text \<open>
  Reading answers and invoking services (\<^verbatim>\<open>hk/sf/sf.h\<close>, \<^verbatim>\<open>hk/sf/sf.cpp\<close>, \<^verbatim>\<open>hk/sf/utils.h\<close>).
\<close>

section \<open>Reading an answer\<close>

record Response =
  rp_result :: u32
  rp_objects :: "u32 vec"
  rp_copyHandles :: "u32 vec"
  rp_moveHandles :: "u32 vec"
  rp_sendStatics :: "hipc_Static vec"
  rp_pid :: "u64 option"
  rp_data :: "u64 \<times> u64"

definition unwrap :: "u32 + 'a \<Rightarrow> 'a run" where
  "unwrap x = (case x of Inl r \<Rightarrow> Inl (Abort ''HK_UNWRAP'') | Inr v \<Rightarrow> Inr v)"

definition unwrap_readT :: "nat \<Rightarrow> (u8 list \<Rightarrow> 'a) \<Rightarrow> mem \<Rightarrow> stream \<Rightarrow> ('a \<times> stream) run" where
  "unwrap_readT n conv m s = unwrap (sm_readT n conv (s, m))"

text \<open>
  The loops that read a number of elements into a vector of capacity 8. Their counter is a byte, but a
  ninth element aborts.
\<close>

fun read_into :: "nat \<Rightarrow> nat \<Rightarrow> (u8 list \<Rightarrow> 'a) \<Rightarrow> mem \<Rightarrow> 'a vec \<times> stream \<Rightarrow> ('a vec \<times> stream) run" where
  "read_into 0 n conv m (v, s) = Inr (v, s)"
| "read_into (Suc k) n conv m (v, s) =
     bindR (unwrap_readT n conv m s) (\<lambda>(x, s). bindR (vec_add x v) (\<lambda>v. read_into k n conv m (v, s)))"

definition read_handles :: "nat \<Rightarrow> mem \<Rightarrow> stream \<Rightarrow> (u32 vec \<times> stream) run" where
  "read_handles k m s = read_into k 4 of_le m (fixedVec8 0, s)"

definition read_special :: "bool \<Rightarrow> mem \<Rightarrow> stream \<Rightarrow> ((u64 option \<times> u32 vec \<times> u32 vec) \<times> stream) run" where
  "read_special present m s =
     (if \<not> present then Inr ((None, fixedVec8 0, fixedVec8 0), s)
      else bindR (unwrap_readT 4 SpecialHeader_of m s) (\<lambda>(specialHeader, s).
        bindR (if sh_sendPid specialHeader
               then bindR (unwrap_readT 8 of_le m s) (\<lambda>(pid, s). Inr (Some pid, s))
               else Inr (None, s)) (\<lambda>(pid, s).
        bindR (read_handles (unat (sh_copyHandleCount specialHeader)) m s) (\<lambda>(copyHandles, s).
        bindR (read_handles (unat (sh_moveHandleCount specialHeader)) m s) (\<lambda>(moveHandles, s).
          Inr ((pid, copyHandles, moveHandles), s))))))"

definition read_domain :: "bool \<Rightarrow> u64 \<Rightarrow> mem \<Rightarrow> stream \<Rightarrow> ((u64 \<times> u32) \<times> stream) run" where
  "read_domain domain dataWordsLeft m s =
     (if domain
      then bindR (unwrap_readT 16 DomainOutHeader_objectCount m s) (\<lambda>(objectCount, s).
        Inr ((dataWordsLeft - 4 - ucast objectCount, objectCount), s))
      else Inr ((dataWordsLeft, 0), s))"

definition readFromTls :: "Service \<Rightarrow> u32 \<Rightarrow> u64 \<Rightarrow> mem \<Rightarrow> Response run" where
  "readFromTls srv hardcodedDataBytes tls m =
     (let s = \<lparr>sm_Buffer = tls, sm_Size = of_nat cTlsBufferSize, sm_Cursor = 0, sm_ReadOnly = False\<rparr> in
      bindR (unwrap_readT 8 Header_of m s) (\<lambda>(header, s).
      bindR (read_special (hd_hasSpecialHeader header) m s) (\<lambda>((pid, copyHandles, moveHandles), s).
      bindR (read_into (unat (hd_sendStaticCount header)) 8 Static_of m (fixedVec8 (mk_Static 0 0 0), s)) (\<lambda>(sendStatics, s).
      bindR (sm_seek (alignUp (sm_tell s) 16) s) (\<lambda>s.
      bindR (read_domain (isDomain srv) (ucast (hd_dataWords header) - 4) m s) (\<lambda>((dataWordsLeft, objectCount), s).
      bindR (unwrap_readT 16 OutHeader_of m s) (\<lambda>(outHeader, s).
      (let dataWordsLeft = dataWordsLeft - 4;
           bytes = (tls + sm_tell s, if hardcodedDataBytes \<noteq> 0 then ucast hardcodedDataBytes else dataWordsLeft * 4) in
       bindR (sm_seek (sm_tell s + snd bytes) s) (\<lambda>s.
       bindR (read_into (unat objectCount) 4 of_le m (fixedVec8 0, s)) (\<lambda>(objs, s).
         Inr \<lparr>rp_result = oh_result outHeader, rp_objects = objs, rp_copyHandles = copyHandles,
           rp_moveHandles = moveHandles, rp_sendStatics = sendStatics, rp_pid = pid, rp_data = bytes\<rparr>))))))))))"

section \<open>Using an answer\<close>

definition nextSubservice :: "Service \<Rightarrow> Response \<Rightarrow> (Service \<times> Response) run" where
  "nextSubservice srv p =
     (if isDomain srv
      then bindR (vec_remove 0 (rp_objects p)) (\<lambda>(obj, v). Inr (domainSubservice srv obj, p\<lparr>rp_objects := v\<rparr>))
      else bindR (vec_remove 0 (rp_moveHandles p)) (\<lambda>(h, v). Inr (fromHandle h, p\<lparr>rp_moveHandles := v\<rparr>)))"

definition nextCopyHandle :: "Response \<Rightarrow> (u32 \<times> Response) run" where
  "nextCopyHandle p = bindR (vec_remove 0 (rp_copyHandles p)) (\<lambda>(h, v). Inr (h, p\<lparr>rp_copyHandles := v\<rparr>))"

definition nextMoveHandle :: "Response \<Rightarrow> (u32 \<times> Response) run" where
  "nextMoveHandle p = bindR (vec_remove 0 (rp_moveHandles p)) (\<lambda>(h, v). Inr (h, p\<lparr>rp_moveHandles := v\<rparr>))"

text \<open>An extractor sees the answer while its data is still in the buffer.\<close>

type_synonym 'a extractor = "mem \<Rightarrow> Response \<Rightarrow> 'a run"

definition inlineDataExtractor :: "nat \<Rightarrow> (u8 list \<Rightarrow> 'a) \<Rightarrow> 'a extractor" where
  "inlineDataExtractor n conv m p =
     abort_unless (of_nat n \<le> snd (rp_data p)) ''hk::sf::inlineDataExtractor: response too small''
       (Inr (conv (bytes_in m (fst (rp_data p)) n)))"

definition subserviceExtractor :: "Service \<Rightarrow> Service extractor" where
  "subserviceExtractor currentService m p = bindR (nextSubservice currentService p) (\<lambda>(srv, _). Inr srv)"

definition handleExtractor :: "u32 extractor" where
  "handleExtractor m p = bindR (nextCopyHandle p) (\<lambda>(h, _). Inr h)"

definition moveHandleExtractor :: "u32 extractor" where
  "moveHandleExtractor m p = bindR (nextMoveHandle p) (\<lambda>(h, _). Inr h)"

section \<open>Packing arguments\<close>

text \<open>The arguments of a command, each with its alignment and its bytes.\<close>

definition params_step :: "nat \<times> nat \<Rightarrow> u32 \<times> u32 \<Rightarrow> u32 \<times> u32" where
  "params_step arg st = (case arg of (alignment, n) \<Rightarrow> (case st of (totalSize, maxAlign) \<Rightarrow>
     (ucast (alignUp (ucast totalSize) (of_nat alignment)) + of_nat n, max maxAlign (of_nat alignment))))"

definition calcParamsSize :: "(nat \<times> nat) list \<Rightarrow> u64" where
  "calcParamsSize args =
     (case fold params_step args (0, 1) of (totalSize, maxAlign) \<Rightarrow>
       ucast (ucast (alignUp (ucast totalSize) (ucast maxAlign)) :: u32))"

definition store_at :: "nat \<Rightarrow> u8 list \<Rightarrow> u8 list \<Rightarrow> u8 list" where
  "store_at i bs xs = take i xs @ bs @ drop (i + length bs) xs"

text \<open>\<^verbatim>\<open>Array::operator[]\<close> aborts for an index behind the end.\<close>

definition pack_step :: "nat \<times> u8 list \<Rightarrow> u64 \<times> u8 list \<Rightarrow> (u64 \<times> u8 list) run" where
  "pack_step arg st = (case arg of (alignment, bs) \<Rightarrow> (case st of (offset, array) \<Rightarrow>
     (let offset = alignUp offset (of_nat alignment) in
      abort_unless (unat offset < length array) ''at: out of range''
        (Inr (offset + of_nat (length bs), store_at (unat offset) bs array)))))"

fun pack_args :: "(nat \<times> u8 list) list \<Rightarrow> u64 \<times> u8 list \<Rightarrow> (u64 \<times> u8 list) run" where
  "pack_args [] st = Inr st"
| "pack_args (a # as) st = bindR (pack_step a st) (pack_args as)"

definition packInput :: "(nat \<times> u8 list) list \<Rightarrow> u8 list run" where
  "packInput args =
     bindR (pack_args args (0, replicate (unat (calcParamsSize (map (map_prod id length) args))) 0))
       (\<lambda>(_, array). Inr array)"

section \<open>Invoking a service\<close>

text \<open>
  The kernel call is given the session and the memory, and gives its result and the memory afterwards.
  A call that fails gives the result (\<open>Inl\<close>); one whose answer is not looked at gives no value.
\<close>

type_synonym 'w ipc = "mem \<times> 'w"
type_synonym 'w sender = "u32 \<Rightarrow> 'w ipc \<Rightarrow> u32 \<times> 'w ipc"

definition invoke ::
  "'w sender \<Rightarrow> u64 \<Rightarrow> Service \<Rightarrow> MessageTag \<Rightarrow> Request \<Rightarrow> 'a extractor \<Rightarrow> 'w ipc \<Rightarrow> ((u32 + 'a option) \<times> 'w ipc) run" where
  "invoke send tls srv tag r extractor st =
     bindR (writeToTls srv (message_tag tag) r tls (fst st)) (\<lambda>m.
       (let (result, st) = send (mSession srv) (m, snd st) in
        if res_base_failed result then Inr (Inl result, st)
        else if mDomainTag r \<noteq> DomainClose
        then bindR (readFromTls srv (mHardcodedDataSize r) tls (fst st)) (\<lambda>response.
          if res_base_failed (rp_result response) then Inr (Inl (rp_result response), st)
          else bindR (extractor (fst st) response) (\<lambda>x. Inr (Inr (Some x), st)))
        else Inr (Inr None, st)))"

definition pointerBufferSize :: "'w sender \<Rightarrow> u64 \<Rightarrow> Service \<Rightarrow> 'w ipc \<Rightarrow> (u16 \<times> Service \<times> 'w ipc) run" where
  "pointerBufferSize send tls srv st =
     (if mPointerBufferSize srv \<noteq> cNoPointerBufferSize then Inr (mPointerBufferSize srv, srv, st)
      else bindR (invoke send tls srv TagControl (new_Request 3 0 []) (inlineDataExtractor 2 of_le) st) (\<lambda>(x, st).
        case x of Inr (Some n) \<Rightarrow> Inr (n, srv\<lparr>mPointerBufferSize := n\<rparr>, st)
        | _ \<Rightarrow> Inl (Abort ''HK_UNWRAP'')))"

definition Request_for :: "'w sender \<Rightarrow> u64 \<Rightarrow> Service \<Rightarrow> u32 \<Rightarrow> u8 list \<Rightarrow> 'w ipc \<Rightarrow> (Request \<times> Service \<times> 'w ipc) run" where
  "Request_for send tls srv command bytes st =
     bindR (pointerBufferSize send tls srv st) (\<lambda>(n, srv, st). Inr (new_Request command n bytes, srv, st))"

definition convertToDomain :: "'w sender \<Rightarrow> u64 \<Rightarrow> Service \<Rightarrow> 'w ipc \<Rightarrow> (u32 \<times> Service \<times> 'w ipc) run" where
  "convertToDomain send tls srv st =
     bindR (Request_for send tls srv 0 [] st) (\<lambda>(r, srv, st).
     bindR (invoke send tls srv TagControl r (inlineDataExtractor 4 of_le) st) (\<lambda>(x, st).
       case x of Inl result \<Rightarrow> Inr (result, srv, st)
       | Inr obj \<Rightarrow> Inr (ResultSuccess, srv\<lparr>mObject := obj\<rparr>, st)))"

definition release :: "'w sender \<Rightarrow> u64 \<Rightarrow> Service \<Rightarrow> 'w ipc \<Rightarrow> (u32 \<times> Service \<times> 'w ipc) run" where
  "release send tls srv st =
     bindR (Request_for send tls srv 0 [] st) (\<lambda>(r, srv, st).
     bindR (if isDomain srv
            then invoke send tls srv TagRequest (setDomainClose r) (\<lambda>_ _. Inr ()) st
            else invoke send tls srv TagClose r (\<lambda>_ _. Inr ()) st) (\<lambda>(x, st).
       Inr (case x of Inl result \<Rightarrow> result | Inr _ \<Rightarrow> ResultSuccess, srv, st)))"

definition invokeSimple ::
  "'w sender \<Rightarrow> u64 \<Rightarrow> Service \<Rightarrow> u32 \<Rightarrow> (nat \<times> u8 list) list \<Rightarrow> (Service \<Rightarrow> 'a extractor) \<Rightarrow> 'w ipc \<Rightarrow>
    ((u32 + 'a option) \<times> Service \<times> 'w ipc) run" where
  "invokeSimple send tls srv command args extractor st =
     bindR (packInput args) (\<lambda>input.
     bindR (Request_for send tls srv command input st) (\<lambda>(r, srv, st).
     bindR (invoke send tls srv TagRequest r (extractor srv) st) (\<lambda>(x, st). Inr (x, srv, st))))"

text \<open>The destructor ignores the results; closing the handle is a second call of the kernel.\<close>

definition Service_destroy :: "'w sender \<Rightarrow> (u32 \<Rightarrow> 'w ipc \<Rightarrow> 'w ipc) \<Rightarrow> u64 \<Rightarrow> Service \<Rightarrow> 'w ipc \<Rightarrow> 'w ipc run" where
  "Service_destroy send closeHandle tls srv st =
     bindR (if mOwnedHandle srv \<or> mObject srv \<noteq> None
            then bindR (release send tls srv st) (\<lambda>(_, srv, st). Inr (snd (send (mSession srv) st)))
            else Inr st) (\<lambda>st.
       Inr (if mOwnedHandle srv then closeHandle (mSession srv) st else st))"

end
