(* ===== verification/IpcLayout.thy ===== *)
theory IpcLayout
  imports IpcRequest
begin

text \<open>
  The layout of a request in the message buffer, as a list of bytes, and the proof that writing the
  request gives it, or aborts if it is longer than the buffer.
\<close>

section \<open>The layout\<close>

definition padding :: "nat \<Rightarrow> nat \<Rightarrow> nat" where
  "padding k n = (k - n mod k) mod k"

definition pad :: "nat \<Rightarrow> u8 list \<Rightarrow> u8 list" where
  "pad k bs = bs @ replicate (padding k (length bs)) 0"

definition special_bytes :: "Request \<Rightarrow> u8 list" where
  "special_bytes r =
     (if hasSpecialHeader r
      then SpecialHeader_bytes (request_SpecialHeader r) @ (if mSendPid r then replicate 8 0 else []) @
        concat (map (to_le 4) (elems (mHipcCopyHandles r))) @ concat (map (to_le 4) (elems (mHipcMoveHandles r)))
      else [])"

definition descriptor_bytes :: "Service \<Rightarrow> u16 \<Rightarrow> Request \<Rightarrow> u8 list" where
  "descriptor_bytes srv tag r =
     Header_bytes (request_Header srv tag r) @ special_bytes r @
     concat (map Static_bytes (elems (mHipcSendStatics r))) @ concat (map Buffer_bytes (elems (mHipcSendBuffers r))) @
     concat (map Buffer_bytes (elems (mHipcReceiveBuffers r))) @
     concat (map Buffer_bytes (elems (mHipcExchangeBuffers r)))"

definition command_bytes :: "Service \<Rightarrow> Request \<Rightarrow> u8 list" where
  "command_bytes srv r =
     (case mObject srv of None \<Rightarrow> []
      | Some obj \<Rightarrow> DomainInHeader_bytes (mDomainTag r) (of_nat (v_size (mObjects r))) (cmifDataSize r) obj (mToken r)) @
     InHeader_bytes (mCommandId r) (if isDomain srv then 0 else mToken r) @ mData r"

definition request_bytes :: "Service \<Rightarrow> u16 \<Rightarrow> Request \<Rightarrow> u8 list" where
  "request_bytes srv tag r =
     pad 2 (pad 4 (pad 16 (descriptor_bytes srv tag r) @ command_bytes srv r) @
       (if isDomain srv then concat (map (to_le 4) (elems (mObjects r))) else [])) @
     concat (map (to_le 2) (elems (mHipcOutPointerSizes r)))"

section \<open>The writer\<close>

text \<open>The writer after the bytes \<open>bs\<close>, in a buffer that was cleared; it aborted if they do not fit.\<close>

definition emitted :: "u64 \<Rightarrow> mem \<Rightarrow> u8 list \<Rightarrow> writer run" where
  "emitted tls m bs =
     (if length bs \<le> cTlsBufferSize
      then Inr (\<lparr>sm_Buffer = tls, sm_Size = of_nat cTlsBufferSize, sm_Cursor = of_nat (length bs), sm_ReadOnly = False\<rparr>,
        poke tls (bs @ replicate (cTlsBufferSize - length bs) 0) m)
      else Inl (Abort ''hk::util::Stream::write: out of range''))"

lemma of_nat_le_256: "n < 2 ^ 64 \<Longrightarrow> (of_nat n :: u64) \<le> 256 \<longleftrightarrow> n \<le> 256"
  by (simp add: word_le_nat_alt unat_of_nat64)

lemma emitted_write:
  assumes "length d < 2 ^ 63"
  shows "bindR (emitted tls m bs) (sm_write d) = emitted tls m (bs @ d)"
proof (cases "length bs \<le> 256")
  case True
  have sum: "(of_nat (length bs) + of_nat (length d) :: u64) \<le> 256 \<longleftrightarrow> length bs + length d \<le> 256"
    using of_nat_le_256 [of "length bs + length d"] True assms by simp
  show ?thesis
  proof (cases "length bs + length d \<le> 256")
    case True
    then have "replicate (256 - length bs) (0 :: u8) = replicate (length d) 0 @ replicate (256 - length bs - length d) 0"
      by (simp flip: replicate_add)
    then have "poke (tls + of_nat (length bs)) d (poke tls (bs @ replicate (256 - length bs) 0) m) =
        poke tls (bs @ d @ replicate (256 - length bs - length d) 0) m"
      using poke_poke_behind [of bs d "256 - length bs - length d" "replicate (length d) 0" tls 0 m] True by simp
    then show ?thesis
      using True sum
      by (simp add: emitted_def cTlsBufferSize_def sm_write_def sm_checkReadOnly_def sm_hasSize_def sm_put_def)
  next
    case False
    then show ?thesis
      using True sum
      by (simp add: emitted_def cTlsBufferSize_def sm_write_def sm_checkReadOnly_def sm_hasSize_def)
  qed
qed (simp add: emitted_def cTlsBufferSize_def)

lemma emitted_writeIterator:
  "\<forall>d\<in>set ds. length d < 2 ^ 63 \<Longrightarrow>
    bindR (emitted tls m bs) (sm_writeIterator ds) = emitted tls m (bs @ concat ds)"
proof (induction ds arbitrary: bs)
  case Nil
  then show ?case by (cases "emitted tls m bs") simp_all
next
  case (Cons d ds)
  have "sm_writeIterator (d # ds) = (\<lambda>w. bindR (sm_write d w) (sm_writeIterator ds))" by (rule ext) simp
  then have step: "bindR (emitted tls m bs) (sm_writeIterator (d # ds)) =
      bindR (bindR (emitted tls m bs) (sm_write d)) (sm_writeIterator ds)"
    by (simp only: bindR_assoc)
  show ?case unfolding step using Cons by (simp add: emitted_write)
qed

lemma padding_eq:
  assumes "0 < k"
  shows "n + (k - 1) - (n + (k - 1)) mod k = n + padding k n"
proof -
  let ?q = "n div k" and ?r = "n mod k"
  have n: "n = k * ?q + ?r" by simp
  show ?thesis
  proof (cases "?r = 0")
    case True
    have "(n + (k - 1)) mod k = k - 1"
      using True assms by (metis mod_add_left_eq add_0 mod_less diff_less zero_less_one)
    then show ?thesis using True by (simp add: padding_def)
  next
    case False
    have r: "?r < k" using assms by simp
    have e: "n + (k - 1) = (?r - 1) + (k * ?q + k)" using n False assms by linarith
    have "((?r - 1) + k * (?q + 1)) mod k = ?r - 1"
      unfolding mod_mult_self2 using r by (intro mod_less) simp
    then have "(n + (k - 1)) mod k = ?r - 1" by (simp only: e distrib_left mult_1_right)
    moreover have "padding k n = k - ?r" using False r by (simp add: padding_def)
    ultimately show ?thesis using e n r False by linarith
  qed
qed

lemma padding_dvd: "0 < k \<Longrightarrow> k dvd n + padding k n"
  using padding_eq [of k n] dvd_minus_mod [of k "n + (k - 1)"] by simp

lemma padding_less: "0 < k \<Longrightarrow> padding k n < k"
  by (simp add: padding_def)

lemma alignUp_padding:
  assumes "n < 2 ^ 32" "k \<in> {2, 4, 16}"
  shows "alignUp (of_nat n) (of_nat k) = of_nat (n + padding k n)"
proof -
  have "unat (alignUp (of_nat n) (2 ^ j)) = n + (2 ^ j - 1) - (n + (2 ^ j - 1)) mod 2 ^ j" if "j \<le> 4" for j
  proof -
    have "(2 :: nat) ^ j \<le> 2 ^ 4" using that by (intro power_increasing) auto
    then show ?thesis using unat_alignUp [of "of_nat n" j] assms(1) that by (simp add: unat_of_nat64)
  qed
  from this [of 1] this [of 2] this [of 4]
  have "unat (alignUp (of_nat n) (of_nat k)) = n + padding k n"
    using assms(2) padding_eq [of 2 n] padding_eq [of 4 n] padding_eq [of 16 n] by auto
  from arg_cong [OF this, of "of_nat :: nat \<Rightarrow> u64"] show ?thesis by simp
qed

lemma padding_256:
  assumes "k \<in> {2, 4, 16}"
  shows "n + padding k n \<le> 256 \<longleftrightarrow> n \<le> 256"
proof -
  have k: "0 < k" "k dvd 256" using assms by auto
  then obtain i j where ij: "n + padding k n = k * i" "256 = k * j"
    using padding_dvd [OF k(1)] by (metis dvdE)
  have "k * i \<le> k * j" if "n \<le> 256"
  proof -
    have "k * i < k * (j + 1)" using that ij padding_less [OF k(1), of n] by simp
    then have "i < j + 1" by (rule mult_less_cancel1 [THEN iffD1, THEN conjunct2])
    then show ?thesis by simp
  qed
  then show ?thesis using ij by (metis le_add1 order.trans)
qed

lemma emitted_seek:
  assumes "k \<in> {2, 4, 16}"
  shows "bindR (emitted tls m bs) (seek_aligned (of_nat k)) = emitted tls m (pad k bs)"
proof (cases "length bs \<le> 256")
  case True
  have "length bs + padding k (length bs) \<le> 256" using True padding_256 [OF assms] by blast
  moreover from this have "replicate (256 - length bs) (0 :: u8) =
      replicate (padding k (length bs)) 0 @ replicate (256 - (length bs + padding k (length bs))) 0"
    by (simp flip: replicate_add)
  ultimately show ?thesis
    using True of_nat_le_256 [of "length bs + padding k (length bs)"] alignUp_padding [OF _ assms, of "length bs"]
    by (simp add: emitted_def cTlsBufferSize_def seek_aligned_def sm_seek_def sm_hasSize_def sm_tell_def pad_def)
next
  case False
  then show ?thesis using padding_256 [OF assms] by (simp add: emitted_def cTlsBufferSize_def pad_def)
qed

lemma emitted_write_when:
  "bindR (emitted tls m bs) (write_when c f) = (if c then bindR (emitted tls m bs) f else emitted tls m bs)"
  by (cases "emitted tls m bs") (simp_all add: write_when_def)

lemma to_le_0: "to_le n (0 :: 'a::len word) = replicate n 0"
  by (simp add: to_le_def map_replicate_const)

lemmas emits = emitted_write emitted_writeIterator emitted_seek [of 2, simplified] emitted_seek [of 4, simplified]
  emitted_seek [of 16, simplified] emitted_write_when

lemma emitted_special:
  "bindR (emitted tls m bs) (write_special r) =
    emitted tls m (bs @ SpecialHeader_bytes (request_SpecialHeader r) @ (if mSendPid r then replicate 8 0 else []) @
        concat (map (to_le 4) (elems (mHipcCopyHandles r))) @ concat (map (to_le 4) (elems (mHipcMoveHandles r))))"
  unfolding write_special_def
  by (simp add: emits to_le_0 flip: bindR_assoc)

lemma first_write:
  assumes "length d < 2 ^ 63"
  shows "sm_write d (\<lparr>sm_Buffer = tls, sm_Size = of_nat cTlsBufferSize, sm_Cursor = 0, sm_ReadOnly = False\<rparr>,
      poke tls (replicate cTlsBufferSize 0) m) = emitted tls m d"
  using emitted_write [OF assms, of tls m "[]"] by (simp add: emitted_def)

lemma concat_bytes: "concat (map (\<lambda>b. [b]) xs) = (xs :: 'a list)"
  by (induction xs) simp_all

lemma writeToTls_emits:
  "writeToTls srv tag r tls m = bindR (emitted tls m (request_bytes srv tag r)) (\<lambda>w. Inr (snd w))"
proof (cases "mObject srv")
  case None
  then show ?thesis
    unfolding writeToTls_def Let_def request_bytes_def descriptor_bytes_def command_bytes_def special_bytes_def
    by (simp add: first_write emits emitted_special isDomain_def concat_bytes flip: bindR_assoc)
next
  case (Some obj)
  then show ?thesis
    unfolding writeToTls_def Let_def request_bytes_def descriptor_bytes_def command_bytes_def special_bytes_def
    by (simp add: first_write emits emitted_special isDomain_def concat_bytes flip: bindR_assoc)
qed

end
