(* ===== verification/IpcAnswer.thy ===== *)
theory IpcAnswer
  imports IpcResponse IpcLayout
begin

text \<open>
  The layout of an answer in the message buffer, as services lay it out for the client, and the proof
  that reading it gives its parts.
\<close>

section \<open>Answers\<close>

record answer =
  an_result :: u32
  an_pid :: "u64 option"
  an_copyHandles :: "u32 list"
  an_moveHandles :: "u32 list"
  an_statics :: "hipc_Static list"
  an_data :: "u8 list"
  an_objects :: "u32 list"

definition answer_special :: "answer \<Rightarrow> bool" where
  "answer_special a \<longleftrightarrow> an_pid a \<noteq> None \<or> an_copyHandles a \<noteq> [] \<or> an_moveHandles a \<noteq> []"

definition answer_words :: "bool \<Rightarrow> answer \<Rightarrow> nat" where
  "answer_words domain a =
     (16 + (if domain then 16 + 4 * length (an_objects a) else 0) + 16 + length (an_data a)) div 4"

definition answer_Header :: "bool \<Rightarrow> answer \<Rightarrow> hipc_Header" where
  "answer_Header domain a =
     \<lparr>hd_tag = 0, hd_sendStaticCount = of_nat (length (an_statics a)), hd_sendBufferCount = 0,
       hd_recvBufferCount = 0, hd_exchBufferCount = 0, hd_dataWords = of_nat (answer_words domain a),
       hd_recvStaticMode = 0, hd_hasSpecialHeader = answer_special a\<rparr>"

definition answer_special_bytes :: "answer \<Rightarrow> u8 list" where
  "answer_special_bytes a =
     (if answer_special a
      then SpecialHeader_bytes \<lparr>sh_sendPid = an_pid a \<noteq> None, sh_copyHandleCount = of_nat (length (an_copyHandles a)),
          sh_moveHandleCount = of_nat (length (an_moveHandles a))\<rparr> @
        (case an_pid a of None \<Rightarrow> [] | Some p \<Rightarrow> to_le 8 p) @
        concat (map (to_le 4) (an_copyHandles a)) @ concat (map (to_le 4) (an_moveHandles a))
      else [])"

definition answer_head :: "bool \<Rightarrow> answer \<Rightarrow> u8 list" where
  "answer_head domain a =
     Header_bytes (answer_Header domain a) @ answer_special_bytes a @ concat (map Static_bytes (an_statics a))"

definition cOutHeaderMagic :: u32 where "cOutHeaderMagic = 0x4F434653"

definition answer_bytes :: "bool \<Rightarrow> answer \<Rightarrow> u8 list" where
  "answer_bytes domain a =
     pad 16 (answer_head domain a) @
     (if domain then to_le 4 (of_nat (length (an_objects a)) :: u32) @ replicate 12 0 else []) @
     (to_le 4 cOutHeaderMagic @ to_le 4 (0 :: u32) @ to_le 4 (an_result a) @ to_le 4 (0 :: u32)) @
     an_data a @ (if domain then concat (map (to_le 4) (an_objects a)) else [])"

text \<open>What the client can take: at most eight of everything, data in whole words, and all in the buffer.\<close>

definition answer_ok :: "bool \<Rightarrow> answer \<Rightarrow> bool" where
  "answer_ok domain a \<longleftrightarrow>
     length (an_copyHandles a) \<le> 8 \<and> length (an_moveHandles a) \<le> 8 \<and> length (an_statics a) \<le> 8 \<and>
     length (an_objects a) \<le> 8 \<and> list_all static_ok (an_statics a) \<and> length (an_data a) mod 4 = 0 \<and>
     (\<not> domain \<longrightarrow> an_objects a = []) \<and> length (answer_bytes domain a) \<le> cTlsBufferSize"

section \<open>The reader\<close>

definition reader_at :: "u64 \<Rightarrow> nat \<Rightarrow> stream" where
  "reader_at tls k = \<lparr>sm_Buffer = tls, sm_Size = of_nat cTlsBufferSize, sm_Cursor = of_nat k, sm_ReadOnly = False\<rparr>"

text \<open>The bytes \<open>xs\<close> lie in the buffer from position \<open>k\<close> on.\<close>

definition rest :: "mem \<Rightarrow> u64 \<Rightarrow> nat \<Rightarrow> u8 list \<Rightarrow> bool" where
  "rest m tls k xs \<longleftrightarrow> bytes_in m (tls + of_nat k) (length xs) = xs \<and> k + length xs \<le> 256"

lemma rest_append: "rest m tls k (xs @ ys) \<longleftrightarrow> rest m tls k xs \<and> rest m tls (k + length xs) ys"
  by (auto simp: rest_def bytes_in_append add.assoc)

lemma read_rest:
  assumes "rest m tls k d" "length d = n"
  shows "unwrap_readT n conv m (reader_at tls k) = Inr (conv d, reader_at tls (k + n))"
proof -
  have k: "k + n \<le> 256" using assms by (simp add: rest_def)
  then have "(of_nat k + of_nat n :: u64) \<le> 256" using of_nat_le_256 [of "k + n"] by simp
  moreover have "unat (of_nat n :: u64) = n" using k by (intro unat_of_nat64) simp
  ultimately show ?thesis
    using assms by (simp add: unwrap_readT_def unwrap_def sm_readT_def sm_tryRead_def sm_get_def
        reader_at_def rest_def cTlsBufferSize_def not_less)
qed

text \<open>A vector of capacity 8, as requests and answers have them.\<close>

definition vec8 :: "'a vec \<Rightarrow> bool" where
  "vec8 v \<longleftrightarrow> vec_ok v \<and> v_cap v = 8 \<and> v_size v \<le> 8"

lemma vec8_new [simp]: "vec8 (fixedVec8 raw)" "elems (fixedVec8 raw) = []" "v_size (fixedVec8 raw) = 0"
  by (simp_all add: vec8_def fixedVec8_def vec_ok_def elems_def)

lemma vec8_length: "vec8 v \<Longrightarrow> length (elems v) = v_size v"
  by (simp add: vec8_def)

lemma vec8_add: "vec8 v \<Longrightarrow> vec_add x v = Inr w \<Longrightarrow> vec8 w"
  by (auto simp: vec8_def vec_add_def vec_ok_def Let_def)

context codec
begin

lemma read_one:
  assumes "rest m tls k (enc x)" "ok x"
  shows "unwrap_readT n dec m (reader_at tls k) = Inr (x, reader_at tls (k + n))"
  using read_rest [OF assms(1) enc_length, of dec] dec_enc [OF assms(2)] by simp

lemma read_many:
  assumes "rest m tls k (concat (map enc xs))" "\<forall>x\<in>set xs. ok x" "vec8 v" "v_size v + length xs \<le> 8"
  obtains w where "read_into (length xs) n dec m (v, reader_at tls k) = Inr (w, reader_at tls (k + n * length xs))"
    "elems w = elems v @ xs"
  using assms
proof (induction xs arbitrary: k v thesis)
  case Nil
  show ?case by (rule Nil.prems(1)) simp_all
next
  case (Cons x xs)
  have rd: "unwrap_readT n dec m (reader_at tls k) = Inr (x, reader_at tls (k + n))"
    using read_one [of m tls k x] Cons.prems by (simp add: rest_append)
  obtain u where u: "vec_add x v = Inr u" "vec_ok u" "elems u = elems v @ [x]" "v_cap u = 8"
    using vec_add_spec [of v x] Cons.prems(4,5) by (auto simp: vec8_def)
  have "vec8 u" using Cons.prems(4) u(1) by (rule vec8_add)
  moreover have "v_size u = v_size v + 1"
    using u(3) \<open>vec8 u\<close> Cons.prems(4) by (metis vec8_length length_append_singleton Suc_eq_plus1)
  moreover have "rest m tls (k + n) (concat (map enc xs))" using Cons.prems(2) by (simp add: rest_append enc_length)
  ultimately obtain w where
    "read_into (length xs) n dec m (u, reader_at tls (k + n)) = Inr (w, reader_at tls (k + n + n * length xs))"
    "elems w = elems u @ xs"
    using Cons.IH [where k = "k + n" and v = u] Cons.prems by (auto simp del: read_into.simps)
  then show ?case using Cons.prems(1) [of w] rd u by (simp add: add.assoc)
qed

end

lemma read_handles_rest:
  assumes "rest m tls k (concat (map (to_le 4) hs))" "length hs \<le> 8"
  obtains w where "read_handles (length hs) m (reader_at tls k) = Inr (w, reader_at tls (k + 4 * length hs))"
    "elems w = hs"
  using words.read_many [of m tls k hs "fixedVec8 0"] assms by (auto simp: read_handles_def)

section \<open>The parts of an answer\<close>

lemma unat_small: "n < 4294967296 \<Longrightarrow> unat (of_nat n :: u32) = n"
  by (simp add: unat_of_nat)

lemma ucast_small: "n < 4294967296 \<Longrightarrow> (ucast (of_nat n :: u32) :: u64) = of_nat n"
  by (simp add: word_unat_eq_iff unsigned_ucast_eq unat_of_nat take_bit_nat_eq_self)

lemmas length_parts [simp] =
  words.length_all halfwords.length_all statics.length_all buffers.length_all

lemma read_special_rest:
  assumes r: "rest m tls k (answer_special_bytes a)"
    and n: "length (an_copyHandles a) \<le> 8" "length (an_moveHandles a) \<le> 8"
  obtains cs ms where
    "read_special (answer_special a) m (reader_at tls k) =
      Inr ((an_pid a, cs, ms), reader_at tls (k + length (answer_special_bytes a)))"
    "elems cs = an_copyHandles a" "elems ms = an_moveHandles a"
proof (cases "answer_special a")
  case False
  then show ?thesis
    by (intro that [of "fixedVec8 0" "fixedVec8 0"])
      (simp_all add: read_special_def answer_special_bytes_def answer_special_def)
next
  case True
  let ?h = "\<lparr>sh_sendPid = an_pid a \<noteq> None, sh_copyHandleCount = of_nat (length (an_copyHandles a)),
    sh_moveHandleCount = of_nat (length (an_moveHandles a))\<rparr>"
  let ?pid = "case an_pid a of None \<Rightarrow> [] | Some p \<Rightarrow> to_le 8 p"
  let ?k = "k + 4 + length ?pid"
  have parts: "rest m tls k (SpecialHeader_bytes ?h)" "rest m tls (k + 4) ?pid"
    "rest m tls ?k (concat (map (to_le 4) (an_copyHandles a)))"
    "rest m tls (?k + 4 * length (an_copyHandles a)) (concat (map (to_le 4) (an_moveHandles a)))"
    using r True by (simp_all add: answer_special_bytes_def rest_append)
  have h: "unwrap_readT 4 SpecialHeader_of m (reader_at tls k) = Inr (?h, reader_at tls (k + 4))"
    by (rule specials.read_one [OF parts(1)]) (use n in \<open>simp add: fits_of_nat\<close>)
  have pid: "(if an_pid a \<noteq> None then bindR (unwrap_readT 8 of_le m (reader_at tls (k + 4))) (\<lambda>(pid, s). Inr (Some pid, s))
      else Inr (None, reader_at tls (k + 4))) = Inr (an_pid a, reader_at tls ?k)"
    using read_rest [OF parts(2), of 8 "of_le :: u8 list \<Rightarrow> u64"] by (cases "an_pid a") simp_all
  obtain cs where cs: "read_handles (length (an_copyHandles a)) m (reader_at tls ?k) =
      Inr (cs, reader_at tls (?k + 4 * length (an_copyHandles a)))" "elems cs = an_copyHandles a"
    using read_handles_rest [OF parts(3) n(1)] .
  obtain ms where ms: "read_handles (length (an_moveHandles a)) m (reader_at tls (?k + 4 * length (an_copyHandles a))) =
      Inr (ms, reader_at tls (?k + 4 * length (an_copyHandles a) + 4 * length (an_moveHandles a)))"
      "elems ms = an_moveHandles a"
    using read_handles_rest [OF parts(4) n(2)] .
  show ?thesis
  proof (rule that [of cs ms])
    have "length (answer_special_bytes a) =
        4 + length ?pid + 4 * length (an_copyHandles a) + 4 * length (an_moveHandles a)"
      using True by (simp add: answer_special_bytes_def)
    then show "read_special (answer_special a) m (reader_at tls k) =
        Inr ((an_pid a, cs, ms), reader_at tls (k + length (answer_special_bytes a)))"
      using n True h pid cs(1) ms(1) unfolding read_special_def
      by (simp add: unat_small add.assoc split del: if_split)
  qed (fact cs(2), fact ms(2))
qed

lemma seek_reader:
  assumes "n \<le> 256"
  shows "sm_seek (of_nat n) (reader_at tls k) = Inr (reader_at tls n)"
  using assms of_nat_le_256 [of n] by (simp add: sm_seek_def sm_hasSize_def reader_at_def cTlsBufferSize_def)

lemma answer_words_eq:
  "length (an_data a) mod 4 = 0 \<Longrightarrow>
    answer_words domain a = 8 + (if domain then 4 + length (an_objects a) else 0) + length (an_data a) div 4"
  by (auto simp: answer_words_def)

lemma answer_data_words:
  assumes "length (an_data a) mod 4 = 0" "answer_words domain a < 1024"
  shows "(ucast (of_nat (answer_words domain a) :: u32) - 4 - (if domain then 4 + of_nat (length (an_objects a)) else 0) - 4) * 4
    = (of_nat (length (an_data a)) :: u64)"
proof -
  have "(of_nat (length (an_data a) div 4) :: u64) * 4 = of_nat (length (an_data a) div 4 * 4)" by simp
  also have "length (an_data a) div 4 * 4 = length (an_data a)" using assms(1) by auto
  finally show ?thesis
    using assms ucast_small [of "answer_words domain a"] by (auto simp: answer_words_eq)
qed

section \<open>Reading an answer\<close>

text \<open>The parts that reading an answer gives; the data is a place in the buffer.\<close>

definition response_has :: "mem \<Rightarrow> answer \<Rightarrow> Response \<Rightarrow> bool" where
  "response_has m a p \<longleftrightarrow>
     rp_result p = an_result a \<and> rp_pid p = an_pid a \<and> elems (rp_copyHandles p) = an_copyHandles a \<and>
     elems (rp_moveHandles p) = an_moveHandles a \<and> elems (rp_sendStatics p) = an_statics a \<and>
     elems (rp_objects p) = an_objects a \<and>
     bytes_in m (fst (rp_data p)) (unat (snd (rp_data p))) = an_data a"

lemma readFromTls_answer:
  assumes ok: "answer_ok (isDomain srv) a"
    and mem: "bytes_in m tls (length (answer_bytes (isDomain srv) a)) = answer_bytes (isDomain srv) a"
  obtains p where "readFromTls srv 0 tls m = Inr p" "response_has m a p"
proof -
  let ?d = "isDomain srv" and ?h = "length (answer_head (isDomain srv) a)"
  let ?dom = "if ?d then to_le 4 (of_nat (length (an_objects a)) :: u32) @ replicate 12 0 else []"
  let ?out = "to_le 4 cOutHeaderMagic @ to_le 4 (0 :: u32) @ to_le 4 (an_result a) @ to_le 4 (0 :: u32)"
  let ?objs = "concat (map (to_le 4) (an_objects a))"
  let ?i = "8 + length (answer_special_bytes a)"
  let ?j = "?h + padding 16 ?h"
  let ?k = "?j + length ?dom + 16"
  have n: "length (an_copyHandles a) \<le> 8" "length (an_moveHandles a) \<le> 8" "length (an_statics a) \<le> 8"
      "length (an_objects a) \<le> 8" "length (an_data a) mod 4 = 0" "length (answer_bytes ?d a) \<le> 256"
      "\<not> ?d \<Longrightarrow> an_objects a = []" "\<forall>d\<in>set (an_statics a). static_ok d"
    using ok by (auto simp: answer_ok_def cTlsBufferSize_def list_all_iff)
  have h: "?h = ?i + 8 * length (an_statics a)" by (simp add: answer_head_def)
  have objs: "?objs = (if ?d then ?objs else [])" using n(7) by simp
  have "rest m tls 0 (answer_bytes ?d a)" using mem n(6) by (simp add: rest_def)
  then have parts: "rest m tls 0 (Header_bytes (answer_Header ?d a))" "rest m tls 8 (answer_special_bytes a)"
      "rest m tls ?i (concat (map Static_bytes (an_statics a)))" "rest m tls ?j ?dom"
      "rest m tls (?j + length ?dom) ?out" "rest m tls ?k (an_data a)"
      "rest m tls (?k + length (an_data a)) ?objs"
    using objs by (simp_all add: answer_bytes_def answer_head_def pad_def rest_append add.assoc split: if_splits)
  have words: "answer_words ?d a < 1024"
    using n(6) by (simp add: answer_words_def answer_bytes_def split: if_splits)
  let ?W = "ucast (of_nat (answer_words ?d a) :: u32) - 4 :: u64"
  let ?left = "if ?d then ?W - 4 - of_nat (length (an_objects a)) else ?W"
  have "header_ok (answer_Header ?d a)" using n words by (simp add: header_ok_def answer_Header_def fits_of_nat)
  then have head: "unwrap_readT 8 Header_of m (reader_at tls 0) = Inr (answer_Header ?d a, reader_at tls 8)"
    using headers.read_one [OF parts(1)] by simp
  obtain cs ms where special: "read_special (answer_special a) m (reader_at tls 8) =
      Inr ((an_pid a, cs, ms), reader_at tls ?i)" "elems cs = an_copyHandles a" "elems ms = an_moveHandles a"
    using read_special_rest [OF parts(2) n(1,2)] .
  obtain sts where statics: "read_into (length (an_statics a)) 8 Static_of m (fixedVec8 (mk_Static 0 0 0), reader_at tls ?i) =
      Inr (sts, reader_at tls ?h)" "elems sts = an_statics a"
    using statics.read_many [OF parts(3) n(8), of "fixedVec8 (mk_Static 0 0 0)"] n(3) h by auto
  have bounds: "?j \<le> 256" "?k + length (an_data a) \<le> 256" using parts(5,7) by (simp_all add: rest_def)
  have seek: "sm_seek (alignUp (sm_tell (reader_at tls ?h)) 16) (reader_at tls ?h) = Inr (reader_at tls ?j)"
    using alignUp_padding [of ?h 16] seek_reader [OF bounds(1)] bounds(1) by (simp add: sm_tell_def reader_at_def)
  have domain: "read_domain ?d ?W m (reader_at tls ?j) =
      Inr ((?left, of_nat (length (an_objects a))), reader_at tls (?j + length ?dom))"
  proof (cases ?d)
    case True
    have "DomainOutHeader_objectCount ?dom = of_nat (length (an_objects a))"
      using True by (simp add: DomainOutHeader_objectCount_def)
    then show ?thesis
      using True read_rest [OF parts(4), of 16 DomainOutHeader_objectCount] n(4)
      by (simp add: read_domain_def ucast_small)
  qed (use n(7) in \<open>simp add: read_domain_def\<close>)
  have out: "unwrap_readT 16 OutHeader_of m (reader_at tls (?j + length ?dom)) = Inr (OutHeader_of ?out, reader_at tls ?k)"
    using read_rest [OF parts(5), of 16 OutHeader_of] by simp
  have result: "oh_result (OutHeader_of ?out) = an_result a" by (simp add: OutHeader_of_def)
  have left: "(?left - 4) * 4 = of_nat (length (an_data a))"
    using answer_data_words [OF n(5) words] by (auto simp: diff_diff_eq split: if_splits)
  have skip: "sm_seek (of_nat ?k + of_nat (length (an_data a))) (reader_at tls ?k) =
      Inr (reader_at tls (?k + length (an_data a)))"
    using seek_reader [OF bounds(2), of tls ?k] by simp
  obtain ob where obj: "read_into (length (an_objects a)) 4 of_le m (fixedVec8 0, reader_at tls (?k + length (an_data a))) =
      Inr (ob, reader_at tls (?k + length (an_data a) + 4 * length (an_objects a)))" "elems ob = an_objects a"
    using words.read_many [OF parts(7), of "fixedVec8 0"] n(4) by auto
  let ?p = "\<lparr>rp_result = an_result a, rp_objects = ob, rp_copyHandles = cs, rp_moveHandles = ms,
    rp_sendStatics = sts, rp_pid = an_pid a, rp_data = (tls + of_nat ?k, of_nat (length (an_data a)))\<rparr>"
  have cursor: "sm_tell (reader_at tls ?k) = of_nat ?k" by (simp add: sm_tell_def reader_at_def)
  have start: "\<lparr>sm_Buffer = tls, sm_Size = of_nat cTlsBufferSize, sm_Cursor = 0, sm_ReadOnly = False\<rparr> = reader_at tls 0"
    by (simp add: reader_at_def)
  have fields: "hd_hasSpecialHeader (answer_Header ?d a) = answer_special a"
      "unat (hd_sendStaticCount (answer_Header ?d a)) = length (an_statics a)"
      "hd_dataWords (answer_Header ?d a) = of_nat (answer_words ?d a)"
      "unat (of_nat (length (an_objects a)) :: u32) = length (an_objects a)"
    using n by (simp_all add: answer_Header_def unat_small)
  have "readFromTls srv 0 tls m = Inr ?p"
    unfolding readFromTls_def Let_def start
    by (simp only: head special(1) statics(1) seek domain out result left skip obj(1) fields cursor
        bindR_simps prod.case fst_conv snd_conv not_True_eq_False if_False simp_thms)
  moreover have "response_has m a ?p"
    using special(2,3) statics(2) obj(2) parts(6) n(6) bounds(2)
    by (simp add: response_has_def rest_def unat_of_nat64)
  ultimately show thesis by (rule that)
qed

end
