(* ===== verification/IpcProps.thy ===== *)
theory IpcProps
  imports IpcAnswer
begin

text \<open>
  Properties of messages to services: descriptors, the headers and the layout of requests, the parts of
  answers, and where the code leaves something out.
\<close>

section \<open>Building a request\<close>

text \<open>The operations by which a program builds a request.\<close>

datatype request_op =
    OpToken u32 | OpDataSize u32 | OpSendPid | OpDomainClose
  | OpCopyHandle u32 | OpMoveHandle u32
  | OpInPointer u64 u16 | OpOutFixedSizePointer u64 u16 | OpOutPointer u64 u64
  | OpInAutoselect u64 u64 BufferMode | OpOutAutoselect u64 u64 BufferMode
  | OpInMapAlias u64 u64 BufferMode | OpOutMapAlias u64 u64 BufferMode | OpInOutMapAlias u64 u64 BufferMode

fun apply_op :: "request_op \<Rightarrow> Request \<Rightarrow> Request run" where
  "apply_op (OpToken t) r = Inr (setToken t r)"
| "apply_op (OpDataSize n) r = Inr (forceDataSize n r)"
| "apply_op OpSendPid r = Inr (setSendPid r)"
| "apply_op OpDomainClose r = Inr (setDomainClose r)"
| "apply_op (OpCopyHandle h) r = addCopyHandle h r"
| "apply_op (OpMoveHandle h) r = addMoveHandle h r"
| "apply_op (OpInPointer a n) r = addInPointer a n r"
| "apply_op (OpOutFixedSizePointer a n) r = addOutFixedSizePointer a n r"
| "apply_op (OpOutPointer a n) r = addOutPointer a n r"
| "apply_op (OpInAutoselect a n mode) r = addInAutoselect a n mode r"
| "apply_op (OpOutAutoselect a n mode) r = addOutAutoselect a n mode r"
| "apply_op (OpInMapAlias a n mode) r = addInMapAlias a n mode r"
| "apply_op (OpOutMapAlias a n mode) r = addOutMapAlias a n mode r"
| "apply_op (OpInOutMapAlias a n mode) r = addInOutMapAlias a n mode r"

fun build_request :: "request_op list \<Rightarrow> Request \<Rightarrow> Request run" where
  "build_request [] r = Inr r"
| "build_request (f # fs) r = bindR (apply_op f r) (build_request fs)"

definition request_wf :: "Request \<Rightarrow> bool" where
  "request_wf r \<longleftrightarrow>
     vec8 (mObjects r) \<and> vec8 (mHipcCopyHandles r) \<and> vec8 (mHipcMoveHandles r) \<and>
     vec8 (mHipcSendStatics r) \<and> vec8 (mHipcSendBuffers r) \<and> vec8 (mHipcReceiveBuffers r) \<and>
     vec8 (mHipcExchangeBuffers r) \<and> vec8 (mHipcReceiveStatics r) \<and> vec8 (mHipcOutPointerSizes r)"

lemma request_wf_new: "request_wf (new_Request c n bs)"
  by (simp add: request_wf_def new_Request_def)

lemmas add_defs = addCopyHandle_def addMoveHandle_def addInPointer_def addOutFixedSizePointer_def
  addOutPointer_def addInAutoselect_def addOutAutoselect_def addInMapAlias_def addOutMapAlias_def
  addInOutMapAlias_def add_sendBuffer_def add_receiveBuffer_def add_receiveStatic_def add_outPointerSize_def

lemma request_wf_op: "request_wf r \<Longrightarrow> apply_op f r = Inr r' \<Longrightarrow> request_wf r'"
  by (cases f) (auto simp: request_wf_def add_defs setToken_def forceDataSize_def setSendPid_def setDomainClose_def
      intro: vec8_add split: if_splits)

lemma request_wf_build: "request_wf r \<Longrightarrow> build_request fs r = Inr r' \<Longrightarrow> request_wf r'"
  by (induction fs arbitrary: r) (auto intro: request_wf_op)

lemma build_keeps_data: "build_request fs r = Inr r' \<Longrightarrow> mData r' = mData r"
proof (induction fs arbitrary: r)
  case (Cons f fs)
  then obtain s where s: "apply_op f r = Inr s" "build_request fs s = Inr r'" by auto
  have "mData s = mData r"
    using s(1) by (cases f) (auto simp: add_defs setToken_def forceDataSize_def setSendPid_def setDomainClose_def
        split: if_splits)
  then show ?case using Cons.IH [OF s(2)] by simp
qed simp

section \<open>The header of a request\<close>

lemma count8_small: "vec8 v \<Longrightarrow> count8 v = of_nat (v_size v)"
proof -
  assume "vec8 v"
  then have "v_size v < 256" by (simp add: vec8_def)
  then show ?thesis
    by (simp add: count8_def word_unat_eq_iff unsigned_ucast_eq unat_of_nat take_bit_nat_eq_self)
qed

lemma Header_of_bytes_mask:
  "Header_of (Header_bytes h) =
    \<lparr>hd_tag = hd_tag h AND mask 16, hd_sendStaticCount = hd_sendStaticCount h AND mask 4,
      hd_sendBufferCount = hd_sendBufferCount h AND mask 4, hd_recvBufferCount = hd_recvBufferCount h AND mask 4,
      hd_exchBufferCount = hd_exchBufferCount h AND mask 4, hd_dataWords = hd_dataWords h AND mask 10,
      hd_recvStaticMode = hd_recvStaticMode h AND mask 4, hd_hasSpecialHeader = hd_hasSpecialHeader h\<rparr>"
  using unpack_pack [of "[(16, hd_tag h), (4, hd_sendStaticCount h), (4, hd_sendBufferCount h),
       (4, hd_recvBufferCount h), (4, hd_exchBufferCount h)]"]
    unpack_pack [of "[(10, hd_dataWords h), (4, hd_recvStaticMode h), (6, 0), (11, 0),
       (1, of_bool (hd_hasSpecialHeader h))]"]
  by (simp add: Header_of_def Header_bytes_def del: pack_fields.simps unpack_fields.simps)

lemma count_field: "vec8 v \<Longrightarrow> unat (count8 v AND mask 4) = length (elems v)"
  by (simp add: count8_small vec8_length unat_and_mask) (simp add: vec8_def unat_of_nat)

lemma mode_field:
  assumes "vec8 v"
  shows "unat ((if v_size v \<noteq> 0 then 2 + count8 v else 0) AND mask 4) =
    (if elems v = [] then 0 else 2 + length (elems v))"
proof -
  have n: "v_size v \<le> 8" "length (elems v) = v_size v" using assms by (simp_all add: vec8_def)
  have "unat (2 + of_nat (v_size v) :: u32) = 2 + v_size v"
    using unat_small [of "2 + v_size v"] n(1) by simp
  then show ?thesis using n assms by (auto simp: count8_small unat_and_mask simp flip: length_0_conv)
qed

section \<open>The announced length\<close>

lemma ucast_small16: "n < 65536 \<Longrightarrow> (ucast (of_nat n :: u16) :: u64) = of_nat n"
  by (simp add: word_unat_eq_iff unsigned_ucast_eq unat_of_nat take_bit_nat_eq_self)

lemma ucast_down16: "(ucast (of_nat n :: u64) :: u16) = of_nat n"
  by (rule bit_word_eqI) (simp add: bit_simps)

definition counted :: "Service \<Rightarrow> Request \<Rightarrow> nat" where
  "counted srv r = 32 + (if isDomain srv then 16 + 4 * v_size (mObjects r) else 0) + length (mData r)"

lemma hipcDataSize_eq:
  assumes "request_wf r" "length (mData r) \<le> 256"
  shows "hipcDataSize srv r = of_nat (counted srv r + padding 2 (counted srv r) + 2 * v_size (mHipcOutPointerSizes r))"
    "counted srv r \<le> 336"
proof -
  have "v_size (mObjects r) \<le> 8" using assms(1) by (simp add: request_wf_def vec8_def)
  then show c: "counted srv r \<le> 336" using assms(2) by (simp add: counted_def)
  have "16 + (if isDomain srv then 16 + 4 * of_nat (v_size (mObjects r)) else 0) + cmifDataSize r = of_nat (counted srv r)"
    by (simp add: cmifDataSize_def counted_def)
  then show "hipcDataSize srv r = of_nat (counted srv r + padding 2 (counted srv r) + 2 * v_size (mHipcOutPointerSizes r))"
    using c alignUp_padding [of "counted srv r" 2] ucast_down16 [of "counted srv r + padding 2 (counted srv r)"]
    by (simp add: hipcDataSize_def Let_def ucast_small16)
qed

lemma dataWords_eq:
  assumes "request_wf r" "length (mData r) \<le> 256"
  shows "4 * unat (ucast (dataWords srv r) AND mask 10 :: u32) \<ge>
    counted srv r + padding 2 (counted srv r) + 2 * v_size (mHipcOutPointerSizes r)"
proof -
  let ?h = "counted srv r + padding 2 (counted srv r) + 2 * v_size (mHipcOutPointerSizes r)"
  let ?n = "?h + padding 4 ?h"
  have outs: "v_size (mHipcOutPointerSizes r) \<le> 8" using assms(1) by (simp add: request_wf_def vec8_def)
  have n: "?n < 400"
    using hipcDataSize_eq(2) [OF assms, of srv] outs padding_less [of 2 "counted srv r"] padding_less [of 4 ?h] by simp
  have "dataWords srv r = of_nat ?n div 4"
    using alignUp_padding [of ?h 4] ucast_down16 [of ?n] n
    by (simp add: dataWords_def hipcDataSize_eq(1) [OF assms] ucast_small16 del: of_nat_add)
  then have w: "unat (dataWords srv r) = ?n div 4"
    using n by (simp add: unat_div unat_of_nat take_bit_nat_eq_self del: of_nat_add)
  have "4 * (?n div 4) = ?n" using padding_dvd [of 4 ?h] by simp
  moreover have "unat (ucast (dataWords srv r) AND mask 10 :: u32) = ?n div 4"
    using w n by (simp add: unat_and_mask unsigned_ucast_eq take_bit_nat_eq_self)
  ultimately show ?thesis by simp
qed

lemma descriptors_words: "4 dvd length (descriptor_bytes srv tag r)"
  by (simp add: descriptor_bytes_def special_bytes_def)

lemma padding_words:
  assumes "4 dvd n"
  shows "padding 16 n \<le> 12"
proof -
  obtain i j where "n = 4 * i" "n + padding 16 n = 16 * j"
    using assms padding_dvd [of 16 n] by (auto elim!: dvdE)
  then show ?thesis using padding_less [of 16 n] by presburger
qed

lemma length_command: "length (command_bytes srv r) = (if isDomain srv then 16 else 0) + 16 + length (mData r)"
  by (simp add: command_bytes_def isDomain_def split: option.splits)

lemma length_pad: "length (pad k bs) = length bs + padding k (length bs)"
  by (simp add: pad_def)

lemma length_request:
  assumes "request_wf r" "length (mData r) \<le> 256"
  shows "length (request_bytes srv tag r) \<le>
    length (descriptor_bytes srv tag r) + 4 * unat (ucast (dataWords srv r) AND mask 10 :: u32)"
proof -
  let ?d = "length (descriptor_bytes srv tag r)" and ?o = "if isDomain srv then 4 * v_size (mObjects r) else 0"
  let ?c = "?d + padding 16 ?d + length (command_bytes srv r)"
  let ?n = "?c + padding 4 ?c + ?o"
  have outs: "length (elems (mHipcOutPointerSizes r)) = v_size (mHipcOutPointerSizes r)"
      "length (elems (mObjects r)) = v_size (mObjects r)"
    using assms(1) by (simp_all add: request_wf_def vec8_length)
  have "2 dvd ?c + padding 4 ?c" using padding_dvd [of 4 ?c] by (rule dvd_trans [rotated]) simp_all
  moreover have "2 dvd ?o" by simp
  ultimately have "2 dvd ?n" by (rule dvd_add)
  then have "padding 2 ?n = 0" by (simp add: padding_def)
  moreover have "length (if isDomain srv then concat (map (to_le 4) (elems (mObjects r))) else []) = ?o"
    using outs by simp
  ultimately have "length (request_bytes srv tag r) = ?n + 2 * v_size (mHipcOutPointerSizes r)"
    by (simp only: request_bytes_def length_append length_pad length_parts outs add_0_right)
  then show ?thesis
    using dataWords_eq [OF assms, of srv] padding_words [OF descriptors_words, of srv tag r] padding_less [of 4 ?c]
    by (simp add: counted_def length_command split: if_splits)
qed

section \<open>Properties of requests\<close>

text \<open>
  C18: In a request that was built by the operations from a new one, no count was cut by its bit field:
  the header reads back as the tag, the number of descriptors of each kind, the mode of the receive list
  and whether handles or a process id follow; and a message that fits into the buffer ends within the
  number of words that its header announces.
\<close>

theorem header_describes_request:
  assumes "build_request fs (new_Request command pointerSize bytes) = Inr r"
    and "length (request_bytes srv tag r) \<le> cTlsBufferSize"
    and "h = Header_of (Header_bytes (request_Header srv tag r))"
  shows "hd_tag h = ucast tag \<and>
    unat (hd_sendStaticCount h) = length (elems (mHipcSendStatics r)) \<and>
    unat (hd_sendBufferCount h) = length (elems (mHipcSendBuffers r)) \<and>
    unat (hd_recvBufferCount h) = length (elems (mHipcReceiveBuffers r)) \<and>
    unat (hd_exchBufferCount h) = length (elems (mHipcExchangeBuffers r)) \<and>
    unat (hd_recvStaticMode h) =
      (if elems (mHipcReceiveStatics r) = [] then 0 else 2 + length (elems (mHipcReceiveStatics r))) \<and>
    hd_hasSpecialHeader h =
      (mSendPid r \<or> elems (mHipcCopyHandles r) \<noteq> [] \<or> elems (mHipcMoveHandles r) \<noteq> []) \<and>
    length (request_bytes srv tag r) \<le> length (descriptor_bytes srv tag r) + 4 * unat (hd_dataWords h)"
proof -
  have wf: "request_wf r" using assms(1) by (rule request_wf_build [OF request_wf_new])
  have "length (mData r) \<le> 256"
    using assms(2) by (simp add: request_bytes_def pad_def command_bytes_def cTlsBufferSize_def split: if_splits)
  note len = length_request [OF wf this, of srv tag]
  have h: "h = (let q = request_Header srv tag r in
    \<lparr>hd_tag = hd_tag q AND mask 16, hd_sendStaticCount = hd_sendStaticCount q AND mask 4,
      hd_sendBufferCount = hd_sendBufferCount q AND mask 4, hd_recvBufferCount = hd_recvBufferCount q AND mask 4,
      hd_exchBufferCount = hd_exchBufferCount q AND mask 4, hd_dataWords = hd_dataWords q AND mask 10,
      hd_recvStaticMode = hd_recvStaticMode q AND mask 4, hd_hasSpecialHeader = hd_hasSpecialHeader q\<rparr>)"
    using assms(3) Header_of_bytes_mask by (simp add: Let_def)
  have "(ucast tag :: u32) AND mask 16 = ucast tag" by (rule bit_word_eqI) (auto simp: bit_simps dest: bit_imp_le_length)
  then have tag: "hd_tag h = ucast tag" by (simp add: h Let_def request_Header_def)
  have counts: "unat (hd_sendStaticCount h) = length (elems (mHipcSendStatics r))"
    "unat (hd_sendBufferCount h) = length (elems (mHipcSendBuffers r))"
    "unat (hd_recvBufferCount h) = length (elems (mHipcReceiveBuffers r))"
    "unat (hd_exchBufferCount h) = length (elems (mHipcExchangeBuffers r))"
    using wf by (simp_all add: h Let_def request_Header_def count_field request_wf_def)
  have mode: "unat (hd_recvStaticMode h) =
      (if elems (mHipcReceiveStatics r) = [] then 0 else 2 + length (elems (mHipcReceiveStatics r)))"
    using mode_field [of "mHipcReceiveStatics r"] wf by (simp add: h Let_def request_Header_def request_wf_def)
  have special: "hd_hasSpecialHeader h =
      (mSendPid r \<or> elems (mHipcCopyHandles r) \<noteq> [] \<or> elems (mHipcMoveHandles r) \<noteq> [])"
    using wf by (auto simp: h Let_def request_Header_def hasSpecialHeader_def sp_empty_def request_wf_def
        simp flip: length_0_conv simp: vec8_length)
  have words: "length (request_bytes srv tag r) \<le> length (descriptor_bytes srv tag r) + 4 * unat (hd_dataWords h)"
    using len by (simp add: h Let_def request_Header_def)
  from tag counts mode special words show ?thesis by blast
qed

definition example_ops :: "request_op list" where
  "example_ops = [OpCopyHandle 7, OpInPointer 0x2000 16, OpOutMapAlias 0x3000 64 ModeNormal, OpOutPointer 0x4000 8, OpSendPid]"

definition example_request :: Request where
  "example_request = (case build_request example_ops (new_Request 2 512 [1, 2, 3, 4]) of Inr r \<Rightarrow> r | Inl _ \<Rightarrow> new_Request 0 0 [])"

lemma example_request_built:
  "build_request example_ops (new_Request 2 512 [1, 2, 3, 4]) = Inr example_request"
  "length (request_bytes (Service_of_handle 5) 4 example_request) \<le> cTlsBufferSize"
  by code_simp+

lemma header_describes_request_witness:
  "unat (hd_sendStaticCount (Header_of (Header_bytes (request_Header (Service_of_handle 5) 4 example_request)))) =
     length (elems (mHipcSendStatics example_request)) \<and>
   length (request_bytes (Service_of_handle 5) 4 example_request) \<le>
     length (descriptor_bytes (Service_of_handle 5) 4 example_request) +
       4 * unat (hd_dataWords (Header_of (Header_bytes (request_Header (Service_of_handle 5) 4 example_request))))"
  using header_describes_request [OF example_request_built refl] by blast

text \<open>
  C17: Writing a request clears the buffer of 256 bytes and fills it with the header, the special
  header with its handles, the descriptors, and, from a multiple of 16 on, the headers of the domain and
  the command, the data, the objects and the sizes of out pointers, each at its alignment, and changes no
  other memory; a message that is longer than the buffer aborts.
\<close>

theorem request_layout:
  "writeToTls srv tag r tls m =
    (if length (request_bytes srv tag r) \<le> cTlsBufferSize
     then Inr (poke tls (request_bytes srv tag r @ replicate (cTlsBufferSize - length (request_bytes srv tag r)) 0) m)
     else Inl (Abort ''hk::util::Stream::write: out of range''))"
  by (simp add: writeToTls_emits emitted_def)

text \<open>
  C29: A descriptor is read back from its bytes as it was made, and keeps the low 42 bits of an
  address in a send descriptor, 58 bits of an address and 36 bits of a size in a buffer descriptor and 48
  bits of an address in a receive descriptor.
\<close>

theorem descriptors_keep_addresses:
  "Static_of (Static_bytes (mk_Static i a n)) = mk_Static i a n \<and>
   Buffer_of (Buffer_bytes (mk_Buffer mode a' n')) = mk_Buffer mode a' n' \<and>
   Static_address (mk_Static i a n) = a AND mask 42 \<and>
   Buffer_address (mk_Buffer mode a' n') = a' AND mask 58 \<and>
   Buffer_size (mk_Buffer mode a' n') = n' AND mask 36 \<and>
   ReceiveStatic_address (mk_ReceiveStatic a'' n) = a'' AND mask 48"
  by (simp add: Static_of_bytes_mk Buffer_of_bytes_mk Static_address_mk Buffer_address_mk Buffer_size_mk
      ReceiveStatic_address_mk)

text \<open>
  C40: The memory that an out pointer names never reaches the service: requests that differ in
  the address of an out pointer only are the same message, though the header announces the descriptor.
\<close>

theorem out_pointer_is_not_sent:
  "bindR (addOutPointer a n r) (\<lambda>r. writeToTls srv tag r tls m) =
   bindR (addOutPointer b n r) (\<lambda>r. writeToTls srv tag r tls m)"
proof -
  have bytes: "request_bytes srv tag (r\<lparr>mHipcReceiveStatics := v, mServerPointerSize := k, mHipcOutPointerSizes := z\<rparr>) =
      request_bytes srv tag (r\<lparr>mHipcReceiveStatics := w, mServerPointerSize := k, mHipcOutPointerSizes := z\<rparr>)"
    if "v_size v = v_size w" for v w k z
    using that by (cases "mObject srv") (simp_all add: request_bytes_def descriptor_bytes_def command_bytes_def
        special_bytes_def request_Header_def request_SpecialHeader_def hasSpecialHeader_def dataWords_def
        hipcDataSize_def cmifDataSize_def count8_def)
  show ?thesis
    by (cases "v_size (mHipcReceiveStatics r) < v_cap (mHipcReceiveStatics r)";
        cases "v_size (mHipcOutPointerSizes r) < v_cap (mHipcOutPointerSizes r)")
      (auto simp: addOutPointer_def addOutFixedSizePointer_def add_receiveStatic_def add_outPointerSize_def
        vec_add_def Let_def writeToTls_emits intro!: arg_cong [of _ _ "\<lambda>x. bindR (emitted tls m x) _"] bytes)
qed

section \<open>Properties of answers\<close>

text \<open>
  C16: Reading an answer that a service has laid out in the buffer, with at most eight handles of
  each kind, descriptors and objects, data in whole words, and for a domain its header, gives its result,
  process id, handles, descriptors, objects and exactly the place of its data.
\<close>

theorem answer_reads_back:
  assumes "answer_ok (isDomain srv) a"
    and "bytes_in m tls (length (answer_bytes (isDomain srv) a)) = answer_bytes (isDomain srv) a"
  shows "\<exists>p. readFromTls srv 0 tls m = Inr p \<and> response_has m a p"
  using readFromTls_answer [OF assms] by blast

definition example_answer :: answer where
  "example_answer = \<lparr>an_result = 0, an_pid = Some 0x51, an_copyHandles = [7], an_moveHandles = [8, 9],
     an_statics = [mk_Static 0 0x2000 16], an_data = [1, 2, 3, 4, 5, 6, 7, 8], an_objects = [3]\<rparr>"

lemma bytes_in_poke: "length bs < 2 ^ 64 \<Longrightarrow> bytes_in (poke a bs m) a (length bs) = bs"
  by (rule nth_equalityI) (simp_all add: bytes_in_def poke_def unat_of_nat64)

lemma answer_reads_back_witness:
  "\<exists>p. readFromTls (domainSubservice (Service_of_handle 5) 3) 0 0x1000
      (poke 0x1000 (answer_bytes True example_answer) (\<lambda>_. 0)) = Inr p \<and>
    response_has (poke 0x1000 (answer_bytes True example_answer) (\<lambda>_. 0)) example_answer p"
proof -
  let ?srv = "domainSubservice (Service_of_handle 5) 3" and ?bs = "answer_bytes True example_answer"
  have d: "isDomain ?srv = True" by (simp add: isDomain_def domainSubservice_def)
  have ok: "answer_ok True example_answer" by code_simp
  have "length ?bs < 2 ^ 64" using ok by (simp add: answer_ok_def cTlsBufferSize_def)
  then have mem: "bytes_in (poke 0x1000 ?bs (\<lambda>_. 0)) 0x1000 (length ?bs) = ?bs" by (rule bytes_in_poke)
  show ?thesis
    by (rule answer_reads_back [of ?srv example_answer "poke 0x1000 ?bs (\<lambda>_. 0)" "0x1000", unfolded d, OF ok mem])
qed

section \<open>Arguments\<close>

text \<open>The sizes that the source asserts, and arguments packed at their alignments.\<close>

lemma params_sizes:
  "calcParamsSize [(4, 4), (8, 8)] = 0x10" "calcParamsSize [(1, 1), (4, 4), (1, 1)] = 0xC"
  "calcParamsSize [(1, 1), (8, 8), (1, 1)] = 0x18"
  by code_simp+

lemma packed_arguments:
  "packInput [(1, [1]), (4, [2, 3, 4, 5]), (1, [6])] = Inr [1, 0, 0, 0, 2, 3, 4, 5, 6, 0, 0, 0]"
  by code_simp

section \<open>What is not checked\<close>

text \<open>
  The sum of cursor and length wraps: a string whose stored length is close to \<open>2 ^ 64\<close> passes the check
  of \<^verbatim>\<open>tryRead\<close>, which then copies that many bytes.
\<close>

lemma huge_string_passes_check:
  "\<exists>bs s. sm_readString (- 1) (\<lparr>sm_Buffer = 0x1000, sm_Size = 16, sm_Cursor = 0, sm_ReadOnly = True\<rparr>,
      poke 0x1000 (to_le 8 (- 8 :: u64)) (\<lambda>_. 0)) = Inr (bs, s) \<and> length bs = 2 ^ 64 - 8 \<and> sm_Cursor s = 0"
proof -
  have "bytes_in (poke 0x1000 (to_le 8 (- 8 :: u64)) (\<lambda>_. 0)) 0x1000 8 = to_le 8 (- 8 :: u64)"
    using bytes_in_poke [of "to_le 8 (- 8 :: u64)" "0x1000"] by simp
  moreover have "unat (- 8 :: u64) = 2 ^ 64 - 8" by simp
  ultimately show ?thesis
    by (simp add: sm_readString_def sm_readT_def sm_tryRead_def sm_get_def sm_hasSize_def)
qed

text \<open>An answer that announces fewer words than its headers have is taken to carry almost \<open>2 ^ 64\<close> bytes.\<close>

definition short_answer :: "u8 list" where
  "short_answer = Header_bytes \<lparr>hd_tag = 0, hd_sendStaticCount = 0, hd_sendBufferCount = 0, hd_recvBufferCount = 0,
     hd_exchBufferCount = 0, hd_dataWords = 7, hd_recvStaticMode = 0, hd_hasSpecialHeader = False\<rparr>"

lemma short_answer_is_accepted:
  "map_sum id (\<lambda>p. snd (rp_data p))
    (readFromTls (Service_of_handle 5) 0 0x1000 (poke 0x1000 short_answer (\<lambda>_. 0))) = Inr (- 4)"
  by code_simp

text \<open>
  The destructor of an owned session sends a request after it has released the session: what the buffer
  holds then. The sender counts the calls and refuses them all.
\<close>

lemma destructor_sends_twice:
  "map_sum id snd (Service_destroy (\<lambda>_ (m, n). (ResultNotFound, m, n + 1)) (\<lambda>_ st. st) 0x1000
    ((Service_of_handle 5)\<lparr>mPointerBufferSize := 512\<rparr>) (\<lambda>_. 0, 0 :: nat)) = Inr 2"
  by code_simp

end
