(* ===== verification/Pool.thy ===== *)
theory Pool
  imports BitMath
begin

text \<open>
  Packed bits (\<^verbatim>\<open>hk/container/BitArray.h\<close>) and the pool allocator that keeps one bit for each object of
  its buffer (\<^verbatim>\<open>hk/util/PoolAllocator.h\<close>). The size of an array and the capacity of a pool are below
  \<open>2 ^ 31\<close>, the range of the indices. Objects take \<open>pool_T\<close> bytes; pointers that are freed lie a whole
  number of objects from the start of the buffer, as the subtraction of pointers requires.
\<close>

section \<open>Bit arrays\<close>

record bitarray =
  ba_Size :: nat
  mStorage :: "u8 list"

definition bitarray_new :: "nat \<Rightarrow> bitarray" where
  "bitarray_new n = \<lparr>ba_Size = n, mStorage = replicate (unat (alignUp (of_nat n) 8) div 8) 0\<rparr>"

definition getByteIdxByBitIdx :: "int \<Rightarrow> nat" where
  "getByteIdxByBitIdx bitIdx = nat (bitIdx div 8)"

definition ba_check :: "int \<Rightarrow> bitarray \<Rightarrow> 'a run \<Rightarrow> 'a run" where
  "ba_check idx b k = abort_unless (idx \<ge> 0 \<and> idx < int (ba_Size b)) ''BitArray: index out of bounds'' k"

definition ba_set :: "int \<Rightarrow> bitarray \<Rightarrow> bitarray run" where
  "ba_set idx b = ba_check idx b
     (let i = getByteIdxByBitIdx idx; bitIdx = nat (idx mod 8) in
      Inr (b\<lparr>mStorage := (mStorage b)[i := mStorage b ! i OR push_bit bitIdx 1]\<rparr>))"

definition ba_unset :: "int \<Rightarrow> bitarray \<Rightarrow> bitarray run" where
  "ba_unset idx b = ba_check idx b
     (let i = getByteIdxByBitIdx idx; bitIdx = nat (idx mod 8) in
      Inr (b\<lparr>mStorage := (mStorage b)[i := mStorage b ! i AND NOT (push_bit bitIdx 1)]\<rparr>))"

definition ba_get :: "int \<Rightarrow> bitarray \<Rightarrow> bool run" where
  "ba_get idx b = ba_check idx b
     (let i = getByteIdxByBitIdx idx; bitIdx = nat (idx mod 8) in
      Inr (mStorage b ! i AND push_bit bitIdx 1 \<noteq> 0))"

definition ba_set_to :: "int \<Rightarrow> bool \<Rightarrow> bitarray \<Rightarrow> bitarray run" where
  "ba_set_to idx v b = (if v then ba_set idx b else ba_unset idx b)"

section \<open>The pool\<close>

record pool =
  mAllocations :: bitarray
  mBuffer :: u64
  pool_T :: nat

definition pool_new :: "nat \<Rightarrow> u64 \<Rightarrow> nat \<Rightarrow> pool" where
  "pool_new capacity buffer n = \<lparr>mAllocations = bitarray_new capacity, mBuffer = buffer, pool_T = n\<rparr>"

definition capacity :: "pool \<Rightarrow> nat" where
  "capacity p = ba_Size (mAllocations p)"

definition getData :: "nat \<Rightarrow> pool \<Rightarrow> u64 run" where
  "getData index p = abort_unless (index < capacity p) ''PoolAllocator: invalid index''
     (Inr (mBuffer p + of_nat (index * pool_T p)))"

text \<open>The loop over the indices from \<open>i\<close> on, of which there are \<open>k\<close>.\<close>

fun allocate_loop :: "nat \<Rightarrow> nat \<Rightarrow> bitarray \<Rightarrow> (int \<times> bitarray) run" where
  "allocate_loop 0 i b = Inr (- 1, b)"
| "allocate_loop (Suc k) i b =
     bindR (ba_get (int i) b) (\<lambda>v.
       if v = False then bindR (ba_set_to (int i) True b) (\<lambda>b. Inr (int i, b))
       else allocate_loop k (i + 1) b)"

definition allocateIdx :: "pool \<Rightarrow> (int \<times> pool) run" where
  "allocateIdx p =
     bindR (allocate_loop (capacity p) 0 (mAllocations p)) (\<lambda>(idx, b). Inr (idx, p\<lparr>mAllocations := b\<rparr>))"

definition allocate :: "pool \<Rightarrow> (u64 \<times> pool) run" where
  "allocate p =
     bindR (allocateIdx p) (\<lambda>(idx, p).
       if idx = - 1 then Inr (0, p) else bindR (getData (nat idx) p) (\<lambda>a. Inr (a, p)))"

definition freeIdx :: "int \<Rightarrow> pool \<Rightarrow> pool run" where
  "freeIdx index p =
     abort_unless (index \<ge> 0 \<and> index < int (capacity p)) ''PoolAllocator: invalid free''
       (bindR (ba_get index (mAllocations p)) (\<lambda>v.
         abort_unless (v = True) ''PoolAllocator: double free''
           (bindR (ba_set_to index False (mAllocations p)) (\<lambda>b. Inr (p\<lparr>mAllocations := b\<rparr>)))))"

definition pool_free :: "u64 \<Rightarrow> pool \<Rightarrow> pool run" where
  "pool_free dat p =
     (let index = nat ((sint (dat - mBuffer p) div int (pool_T p)) mod 2 ^ 64) in
      abort_unless (index < capacity p) ''PoolAllocator: invalid free''
        (bindR (ba_get (int index) (mAllocations p)) (\<lambda>v.
          abort_unless (v = True) ''PoolAllocator: double free'' (freeIdx (int index) p))))"

section \<open>A bit array is a set of indices\<close>

definition ba_ok :: "bitarray \<Rightarrow> bool" where
  "ba_ok b \<longleftrightarrow> ba_Size b \<le> 8 * length (mStorage b)"

definition ba_bit :: "bitarray \<Rightarrow> nat \<Rightarrow> bool" where
  "ba_bit b i \<longleftrightarrow> bit (mStorage b ! (i div 8)) (i mod 8)"

definition ba_members :: "bitarray \<Rightarrow> nat set" where
  "ba_members b = {i. i < ba_Size b \<and> ba_bit b i}"

lemma ba_new_ok:
  assumes "n < 2 ^ 31"
  shows "ba_ok (bitarray_new n)" "ba_members (bitarray_new n) = {}" "ba_Size (bitarray_new n) = n"
proof -
  have n: "unat (of_nat n :: u64) = n" using assms by (simp add: unat_of_nat)
  have "n \<le> unat (alignUp (of_nat n) (2 ^ 3))" "2 ^ 3 dvd unat (alignUp (of_nat n :: u64) (2 ^ 3))"
    using alignUp_bounds(1,2) [of "of_nat n" 3] n assms by simp_all
  then have len: "n \<le> 8 * length (mStorage (bitarray_new n))" by (simp add: bitarray_new_def)
  then show "ba_ok (bitarray_new n)" by (simp add: ba_ok_def bitarray_new_def)
  have "\<not> ba_bit (bitarray_new n) i" if "i < n" for i
  proof -
    have "i div 8 < length (mStorage (bitarray_new n))" using that len by linarith
    then show ?thesis by (simp add: ba_bit_def bitarray_new_def)
  qed
  then show "ba_members (bitarray_new n) = {}" by (auto simp: ba_members_def bitarray_new_def)
qed (simp add: bitarray_new_def)

lemma ba_get_eq:
  "ba_get (int i) b = (if i < ba_Size b then Inr (i \<in> ba_members b) else Inl (Abort ''BitArray: index out of bounds''))"
  by (auto simp: ba_get_def ba_check_def getByteIdxByBitIdx_def Let_def and_exp_eq_0_iff_not_bit ba_members_def ba_bit_def
      nat_div_distrib nat_mod_distrib)

lemma ba_set_to_ok:
  assumes "ba_ok b" "i < ba_Size b"
  obtains c where "ba_set_to (int i) v b = Inr c" "ba_ok c" "ba_Size c = ba_Size b"
    "ba_members c = (if v then insert i (ba_members b) else ba_members b - {i})"
proof -
  let ?w = "mStorage b ! (i div 8)" and ?m = "push_bit (i mod 8) 1 :: u8"
  let ?c = "b\<lparr>mStorage := (mStorage b)[i div 8 := (if v then ?w OR ?m else ?w AND NOT ?m)]\<rparr>"
  have i: "i div 8 < length (mStorage b)" using assms by (simp add: ba_ok_def)
  have bits: "ba_bit ?c j = (if j = i then v else ba_bit b j)" for j
  proof (cases "j div 8 = i div 8")
    case True
    have "j = i \<longleftrightarrow> j mod 8 = i mod 8" using True by (metis div_mult_mod_eq)
    then show ?thesis using i True by (auto simp: ba_bit_def bit_simps)
  next
    case False
    then show ?thesis by (auto simp: ba_bit_def)
  qed
  show ?thesis
  proof (rule that)
    show "ba_set_to (int i) v b = Inr ?c"
      using assms(2) by (auto simp: ba_set_to_def ba_set_def ba_unset_def ba_check_def getByteIdxByBitIdx_def
          Let_def nat_div_distrib nat_mod_distrib)
    show "ba_ok ?c" using assms(1) by (simp add: ba_ok_def)
    show "ba_members ?c = (if v then insert i (ba_members b) else ba_members b - {i})"
      using assms(2) bits by (auto simp: ba_members_def)
  qed simp
qed

section \<open>The interface of an allocator\<close>

text \<open>
  What users of a pool rely on: the live indices, an allocation that takes an index that is not live or
  says that there is none, and a free that is refused unless the index is live.
\<close>

text \<open>
  A session: allocations (\<open>None\<close>) and frees of an index, with the index of each step as its result; and
  the same on a set of live indices, where an allocation takes the least free index, or gives \<open>- 1\<close>.
\<close>

fun session :: "('p \<Rightarrow> (int \<times> 'p) run) \<Rightarrow> (int \<Rightarrow> 'p \<Rightarrow> 'p run) \<Rightarrow> int option list \<Rightarrow> 'p \<Rightarrow> (int list \<times> 'p) run" where
  "session alloc release [] p = Inr ([], p)"
| "session alloc release (None # cs) p =
     bindR (alloc p) (\<lambda>(i, p). bindR (session alloc release cs p) (\<lambda>(is, p). Inr (i # is, p)))"
| "session alloc release (Some i # cs) p =
     bindR (release i p) (\<lambda>p. bindR (session alloc release cs p) (\<lambda>(is, p). Inr (i # is, p)))"

definition least_free :: "nat \<Rightarrow> int set \<Rightarrow> int" where
  "least_free n S = (case List.find (\<lambda>i. int i \<notin> S) [0..<n] of None \<Rightarrow> - 1 | Some i \<Rightarrow> int i)"

fun index_session :: "nat \<Rightarrow> int option list \<Rightarrow> int set \<Rightarrow> (int list \<times> int set) option" where
  "index_session n [] S = Some ([], S)"
| "index_session n (None # cs) S =
     (let i = least_free n S in
      map_option (\<lambda>(is, S). (i # is, S)) (index_session n cs (if i = - 1 then S else insert i S)))"
| "index_session n (Some i # cs) S =
     (if i \<in> S then map_option (\<lambda>(is, S). (i # is, S)) (index_session n cs (S - {i})) else None)"

lemma least_free_none: "least_free n {0..<int n} = - 1"
proof -
  have "List.find (\<lambda>i. int i \<notin> {0..<int n}) [0..<n] = None" by (simp add: find_None_iff)
  then show ?thesis by (simp add: least_free_def)
qed

lemma least_free_some:
  assumes "i \<in> {0..<int n} - S" "\<forall>j\<in>{0..<i}. j \<in> S"
  shows "least_free n S = i"
proof -
  have "List.find (\<lambda>i. int i \<notin> S) [0..<n] = Some (nat i)"
    using assms by (auto simp: find_Some_iff intro!: exI [of _ "nat i"])
  then show ?thesis using assms(1) by (simp add: least_free_def)
qed

locale allocator =
  fixes alloc :: "'p \<Rightarrow> (int \<times> 'p) run" and release :: "int \<Rightarrow> 'p \<Rightarrow> 'p run"
    and live :: "'p \<Rightarrow> int set" and limit :: "'p \<Rightarrow> nat" and ok :: "'p \<Rightarrow> bool"
  assumes live_limit: "ok p \<Longrightarrow> live p \<subseteq> {0..<int (limit p)}"
    and alloc_full: "ok p \<Longrightarrow> live p = {0..<int (limit p)} \<Longrightarrow> alloc p = Inr (- 1, p)"
    and alloc_least: "ok p \<Longrightarrow> live p \<noteq> {0..<int (limit p)} \<Longrightarrow>
      \<exists>i p'. alloc p = Inr (i, p') \<and> ok p' \<and> limit p' = limit p \<and> i \<in> {0..<int (limit p)} - live p \<and>
        (\<forall>j\<in>{0..<i}. j \<in> live p) \<and> live p' = insert i (live p)"
    and release_live: "ok p \<Longrightarrow> i \<in> live p \<Longrightarrow>
      \<exists>p'. release i p = Inr p' \<and> ok p' \<and> limit p' = limit p \<and> live p' = live p - {i}"
    and release_dead: "ok p \<Longrightarrow> i \<notin> live p \<Longrightarrow> \<exists>e. release i p = Inl e"
begin

lemma session_refines:
  assumes "ok p"
  shows "(case index_session (limit p) cs (live p) of
      None \<Rightarrow> \<exists>e. session alloc release cs p = Inl e
    | Some (is, S) \<Rightarrow> \<exists>p'. session alloc release cs p = Inr (is, p') \<and> ok p' \<and> limit p' = limit p \<and> live p' = S)"
  using assms
proof (induction cs arbitrary: p)
  case (Cons c cs)
  show ?case
  proof (cases c)
    case None
    obtain i q where q: "alloc p = Inr (i, q)" "ok q" "limit q = limit p" "i = least_free (limit p) (live p)"
      "live q = (if i = - 1 then live p else insert i (live p))"
    proof (cases "live p = {0..<int (limit p)}")
      case True
      show ?thesis
      proof (rule that)
        show "alloc p = Inr (- 1, p)" by (rule alloc_full [OF Cons.prems True])
        show "- 1 = least_free (limit p) (live p)" by (simp only: True least_free_none)
      qed (simp_all add: Cons.prems)
    next
      case False
      then obtain i q where "alloc p = Inr (i, q)" "ok q" "limit q = limit p" "i \<in> {0..<int (limit p)} - live p"
        "\<forall>j\<in>{0..<i}. j \<in> live p" "live q = insert i (live p)"
        using alloc_least [OF Cons.prems] by blast
      note r = this
      show ?thesis
      proof (rule that)
        show "i = least_free (limit p) (live p)" using r(4,5) by (rule least_free_some [symmetric])
        show "live q = (if i = - 1 then live p else insert i (live p))" using r(4,6) by simp
      qed (fact r)+
    qed
    show ?thesis
      using Cons.IH [OF q(2)] q None by (auto simp: Let_def split: option.splits)
  next
    case (Some i)
    show ?thesis
    proof (cases "i \<in> live p")
      case True
      then obtain q where "release i p = Inr q" "ok q" "limit q = limit p" "live q = live p - {i}"
        using release_live [OF Cons.prems] by blast
      then show ?thesis using Cons.IH [of q] Some True by (auto split: option.splits)
    next
      case False
      then show ?thesis using release_dead [OF Cons.prems False] Some by auto
    qed
  qed
qed simp

end

lemma allocate_loop_result:
  assumes "ba_ok b" "i + k = ba_Size b" "\<forall>j<i. j \<in> ba_members b"
  shows "ba_members b = {0..<ba_Size b} \<Longrightarrow> allocate_loop k i b = Inr (- 1, b)"
    and "ba_members b \<noteq> {0..<ba_Size b} \<Longrightarrow>
      \<exists>n c. allocate_loop k i b = Inr (int n, c) \<and> ba_ok c \<and> ba_Size c = ba_Size b \<and> n < ba_Size b \<and>
        n \<notin> ba_members b \<and> (\<forall>j<n. j \<in> ba_members b) \<and> ba_members c = insert n (ba_members b)"
  using assms
proof (induction k arbitrary: i)
  case 0
  { case 1 then show ?case by simp }
  { case 2 then show ?case by (auto simp: ba_members_def) }
next
  case (Suc k)
  { case 1
    then have "i \<in> ba_members b" "\<forall>j<i + 1. j \<in> ba_members b" by (auto simp: less_Suc_eq)
    then show ?case using Suc.IH(1) [of "i + 1"] 1 by (simp add: ba_get_eq) }
  { case 2
    show ?case
    proof (cases "i \<in> ba_members b")
      case True
      then have "\<forall>j<i + 1. j \<in> ba_members b" using 2 by (auto simp: less_Suc_eq)
      then show ?thesis using Suc.IH(2) [of "i + 1"] 2 True by (simp add: ba_get_eq)
    next
      case False
      obtain c where "ba_set_to (int i) True b = Inr c" "ba_ok c" "ba_Size c = ba_Size b"
        "ba_members c = insert i (ba_members b)"
        using ba_set_to_ok [of b i True] 2 by auto
      then show ?thesis using 2 False by (auto simp: ba_get_eq)
    qed }
qed

section \<open>The pool as an allocator\<close>

definition pool_ok :: "pool \<Rightarrow> bool" where
  "pool_ok p \<longleftrightarrow> ba_ok (mAllocations p)"

definition pool_live :: "pool \<Rightarrow> int set" where
  "pool_live p = int ` ba_members (mAllocations p)"

lemma pool_live_full: "pool_live p = {0..<int (capacity p)} \<longleftrightarrow> ba_members (mAllocations p) = {0..<capacity p}"
  by (simp add: pool_live_def image_int_atLeastLessThan [of 0, simplified, symmetric] inj_image_eq_iff)

lemma freeIdx_eq:
  "freeIdx i p =
    (if i \<in> pool_live p then bindR (ba_set_to i False (mAllocations p)) (\<lambda>b. Inr (p\<lparr>mAllocations := b\<rparr>))
     else if 0 \<le> i \<and> i < int (capacity p) then Inl (Abort ''PoolAllocator: double free'')
     else Inl (Abort ''PoolAllocator: invalid free''))"
proof (cases "0 \<le> i \<and> i < int (capacity p)")
  case True
  then obtain n where "i = int n" "n < capacity p" by (metis nonneg_int_cases of_nat_less_iff)
  then show ?thesis by (auto simp: freeIdx_def pool_live_def ba_get_eq capacity_def image_iff)
next
  case False
  then have "i \<notin> pool_live p" by (auto simp: pool_live_def ba_members_def capacity_def)
  then show ?thesis using False by (auto simp: freeIdx_def abort_unless_def)
qed

interpretation pool: allocator allocateIdx freeIdx pool_live capacity pool_ok
proof
  fix p i
  assume ok: "pool_ok p"
  note loop = allocate_loop_result [of "mAllocations p" 0 "capacity p"]
  show "pool_live p \<subseteq> {0..<int (capacity p)}" by (auto simp: pool_live_def ba_members_def capacity_def)
  show "allocateIdx p = Inr (- 1, p)" if "pool_live p = {0..<int (capacity p)}"
  proof -
    have "ba_members (mAllocations p) = {0..<ba_Size (mAllocations p)}"
      using that by (simp only: pool_live_full) (simp add: capacity_def)
    then show ?thesis using loop(1) ok by (simp add: allocateIdx_def pool_ok_def capacity_def)
  qed
  show "\<exists>i p'. allocateIdx p = Inr (i, p') \<and> pool_ok p' \<and> capacity p' = capacity p \<and>
      i \<in> {0..<int (capacity p)} - pool_live p \<and> (\<forall>j\<in>{0..<i}. j \<in> pool_live p) \<and> pool_live p' = insert i (pool_live p)"
    if "pool_live p \<noteq> {0..<int (capacity p)}"
  proof -
    have "ba_members (mAllocations p) \<noteq> {0..<ba_Size (mAllocations p)}"
      using that by (simp only: pool_live_full) (simp add: capacity_def)
    then obtain n c where "allocate_loop (capacity p) 0 (mAllocations p) = Inr (int n, c)" "ba_ok c"
      "ba_Size c = capacity p" "n < capacity p" "n \<notin> ba_members (mAllocations p)"
      "\<forall>j<n. j \<in> ba_members (mAllocations p)" "ba_members c = insert n (ba_members (mAllocations p))"
      using loop(2) ok by (auto simp: pool_ok_def capacity_def)
    then show ?thesis
      by (intro exI [of _ "int n"] exI [of _ "p\<lparr>mAllocations := c\<rparr>"])
        (auto simp: allocateIdx_def pool_ok_def pool_live_def capacity_def intro!: image_eqI [of _ _ "nat _"])
  qed
  show "\<exists>p'. freeIdx i p = Inr p' \<and> pool_ok p' \<and> capacity p' = capacity p \<and> pool_live p' = pool_live p - {i}"
    if live: "i \<in> pool_live p"
  proof -
    obtain n where n: "i = int n" "n \<in> ba_members (mAllocations p)" using live by (auto simp: pool_live_def)
    obtain c where "ba_set_to (int n) False (mAllocations p) = Inr c" "ba_ok c" "ba_Size c = capacity p"
      "ba_members c = ba_members (mAllocations p) - {n}"
      using ba_set_to_ok [of "mAllocations p" n False] ok n(2) by (auto simp: pool_ok_def ba_members_def capacity_def)
    note c = this
    have "int ` (ba_members (mAllocations p) - {n}) = int ` ba_members (mAllocations p) - {int n}" by auto
    then have "pool_live (p\<lparr>mAllocations := c\<rparr>) = pool_live p - {i}" using c(4) n(1) by (simp add: pool_live_def)
    moreover have "freeIdx i p = Inr (p\<lparr>mAllocations := c\<rparr>)" using live c(1) n(1) by (simp add: freeIdx_eq)
    ultimately show ?thesis using c(2,3) by (auto simp: pool_ok_def capacity_def)
  qed
  show "\<exists>e. freeIdx i p = Inl e" if "i \<notin> pool_live p"
    using that by (auto simp: freeIdx_eq)
qed

section \<open>Properties of the pool\<close>

lemma pool_new_ok:
  assumes "n < 2 ^ 31"
  shows "pool_ok (pool_new n buffer k)" "pool_live (pool_new n buffer k) = {}" "capacity (pool_new n buffer k) = n"
  using ba_new_ok [OF assms] by (simp_all add: pool_ok_def pool_live_def pool_new_def capacity_def)

text \<open>
  C28: A session of allocations and frees on a new pool does what it does on the set of its live
  indices: an allocation gives the least index that is not live, or none when all are, so that no two live
  objects share an index, and a free takes a live index back and aborts for every other.
\<close>

theorem pool_sessions_are_exact:
  assumes "n < 2 ^ 31"
  shows "case index_session n cs {} of
      None \<Rightarrow> \<exists>e. session allocateIdx freeIdx cs (pool_new n buffer k) = Inl e
    | Some (is, S) \<Rightarrow> \<exists>p. session allocateIdx freeIdx cs (pool_new n buffer k) = Inr (is, p) \<and> pool_live p = S"
  using pool.session_refines [of "pool_new n buffer k" cs] pool_new_ok [OF assms, of buffer k]
  by (auto split: option.splits)

lemma pool_sessions_are_exact_witness:
  "(\<exists>p. session allocateIdx freeIdx [None, None, Some 0, None, None] (pool_new 2 0x1000 8) = Inr ([0, 1, 0, 0, - 1], p) \<and>
      pool_live p = {0, 1}) \<and>
   (\<exists>e. session allocateIdx freeIdx [None, Some 1] (pool_new 2 0x1000 8) = Inl e)"
proof -
  have f: "least_free 2 {} = 0" "least_free 2 {0} = 1" "least_free 2 {1} = 0" "least_free 2 {0, 1} = - 1"
    by (simp_all add: least_free_def upt_rec)
  have d: "{0, 1} - {0} = {1 :: int}" "{1, 0} = {0, 1 :: int}" by auto
  have "index_session 2 [None, None, Some 0, None, None] {} = Some ([0, 1, 0, 0, - 1], {0, 1})"
    "index_session 2 [None, Some 1] {} = None"
    by (simp_all add: f d Let_def)
  then show ?thesis
    using pool_sessions_are_exact [of 2 "[None, None, Some 0, None, None]" "0x1000" 8]
      pool_sessions_are_exact [of 2 "[None, Some 1]" "0x1000" 8] by simp
qed

text \<open>Pointers are the indices, counted in objects from the start of the buffer.\<close>

lemma allocate_pointer:
  assumes "pool_ok p"
  shows "allocate p = bindR (allocateIdx p) (\<lambda>(i, p). Inr (if i = - 1 then 0 else mBuffer p + of_int i * of_nat (pool_T p), p))"
proof (cases "pool_live p = {0..<int (capacity p)}")
  case True
  then show ?thesis using pool.alloc_full [OF assms] by (simp add: allocate_def)
next
  case False
  then obtain i q where "allocateIdx p = Inr (i, q)" "capacity q = capacity p" "0 \<le> i" "i < int (capacity p)"
    using pool.alloc_least [OF assms] by auto
  then show ?thesis by (auto simp: allocate_def getData_def)
qed

lemma free_pointer:
  assumes "i < capacity p" "0 < pool_T p" "i * pool_T p < 2 ^ 63"
  shows "pool_free (mBuffer p + of_nat (i * pool_T p)) p = freeIdx (int i) p"
proof -
  have "sint (of_nat (i * pool_T p) :: u64) = int (i * pool_T p)"
    using assms(3) by (simp add: signed_of_nat signed_take_bit_int_eq_self del: of_nat_mult)
  moreover have "i < 2 ^ 64"
  proof -
    have "i * 1 \<le> i * pool_T p" using assms(2) by (intro mult_le_mono2) simp
    then have "i < 2 ^ 63" using assms(3) by (simp only: mult_1_right)
    then show ?thesis by simp
  qed
  ultimately have "nat (sint (mBuffer p + of_nat (i * pool_T p) - mBuffer p) div int (pool_T p) mod 2 ^ 64) = i"
    using assms(2) by (simp add: nat_mod_distrib)
  then show ?thesis
    using assms(1) by (simp add: pool_free_def freeIdx_def Let_def ba_get_eq capacity_def abort_unless_def)
qed

end
