(* ===== verification/Spec2Isabelle.thy ===== *)
theory Spec2Isabelle
  imports TrampolineMain HashMap RtldHashes RtldBind RtldStart HashProps HashElf SailHash HookExec RoProps RoInit SailEnds SailSearch SailRoundtrip IpcProps Pool
begin

text \<open>
  LibHakkun is a library for code patches of programs on the Nintendo Switch. It is loaded into the
  process as a module, links itself against the program (\<^verbatim>\<open>rtld\<close>), finds the functions to be patched by
  name (\<^verbatim>\<open>sail\<close>) or address (\<^verbatim>\<open>hk/ro\<close>), writes branches over their first instructions and
  keeps copies of these instructions that can still be called (\<^verbatim>\<open>hk/hook\<close>). It brings containers,
  algorithms and hash functions of its own (\<^verbatim>\<open>core\<close>), because there is no usable standard library, and
  talks to system services by messages (\<^verbatim>\<open>hk/sf\<close>). A tool on the host, also called \<^verbatim>\<open>sail\<close>, translates
  files of symbols into the database that the library searches on the console. Paths below are relative
  to \<^verbatim>\<open>src/hakkun\<close>, its directories \<^verbatim>\<open>include\<close>, \<^verbatim>\<open>core/include\<close> and \<^verbatim>\<open>src\<close>, or to \<^verbatim>\<open>src/sail\<close>.

  The target is the AArch64 console with 64-bit pointers. \<^verbatim>\<open>HK_ABORT\<close> ends the process and is the value
  \<open>Inl\<close> of the type \<open>run\<close> (theory \<open>HkPrelude\<close>), as is an unchecked access outside an array; result codes are 32-bit words (\<open>HkResult\<close>, from
  \<^verbatim>\<open>hk/Result.h\<close>); a function of the source that may fail to return is a partial function with values
  \<open>None\<close>, and its theorems state that it returns. Machine integers are words of their width and wrap;
  \<^verbatim>\<open>size\<close> is a natural number where the buffers bound it, and a word where the code compares unchecked
  values. Memory is a function from 64-bit addresses to bytes.
\<close>

section \<open>The theories\<close>

text \<open>
  Core library.
  \<open>BitMath\<close> models \<^verbatim>\<open>hk/prim/traits/Integer.h\<close> and \<^verbatim>\<open>hk/util/Math.h\<close>: masks, alignment, bit counting, sign
  extension, the field builder of the assembler and the wildcard patterns of instructions.
  \<open>Algo\<close> models \<^verbatim>\<open>hk/util/Algorithm.h\<close> on buffers, with the order of the loops; it shows that the
  overlapping copies act at once, the sort sorts, and the binary search stops with the element or the place
  where it belongs. \<open>SpanVec\<close> has the span and vector classes as a record of buffer, size and capacity;
  \<open>elems\<close> is the list it stands for, and each operation is shown to be an operation on this list, its
  aborts included. \<open>HashMap\<close> has \<^verbatim>\<open>hk::Map\<close> and \<^verbatim>\<open>hk::Set\<close>, vectors ordered by the hashes of keys,
  which implement a partial function if the hashes are distinct; the locales there are the interface.
  \<open>Pool\<close> has bit arrays and the pool allocator, which act on the set of live indices.
  \<open>Hash\<close>, \<open>HashProps\<close> and \<open>HashElf\<close> are the hash functions of \<^verbatim>\<open>hk/util/hash.h\<close>, with the source's test
  vectors, the injectivity of the mixing steps, and CRC32 and the ELF hash against their standards;
  \<open>SailHash\<close> compares them with the host's (\<^verbatim>\<open>sail/include/hash.h\<close>).

  Instructions.
  \<open>A64Spec\<close> is the only theory without a source: the decoder and the step function of the instructions the
  library emits and relocates, after the architecture's manual. \<open>A64Instr\<close> (\<^verbatim>\<open>hk/hook/a64/Instrs.h\<close>,
  \<^verbatim>\<open>InstrUtil.h\<close>), \<open>A64Asm\<close> (the encoder), \<open>A64Parse\<close> (the parser of assembly text) and \<open>A64Emit\<close> (blocks and
  the emitter of constants and branches) model \<^verbatim>\<open>hk/hook/a64/Assembler.h\<close>. \<open>A64AsmCorrect\<close>,
  \<open>A64ParseProps\<close>, \<open>A64EmitCorrect\<close> and \<open>A64EmitMain\<close> show that encoded words decode to what was asked for,
  that the two runs of the parser agree, and that emitted code does what it is for when it is executed.
  An emitter has a buffer of a fixed number of words; the theorems ask for room for the words
  of one emission: five for a branch, in the variant that stores far targets as literals too, since the
  four that its documentation names are not enough; a copy of one instruction and the branch back need
  at most five. The theorems on single encodings cover everything the encoder accepts: where it
  accepts too much (wide moves of W registers, distances of one bit too many), they say what the word does.

  Trampolines and hooks.
  \<open>Trampoline\<close> models \<^verbatim>\<open>hk/hook/Trampoline.cpp\<close>: an overwritten instruction that reads the program counter
  is rewritten for its new address. \<open>TrampolineCorrect\<close>, \<open>TrampolineSim\<close> and \<open>TrampolineMain\<close> prove that the
  copy has the effect of the original, by simulation, for all instructions of \<open>A64Spec\<close> that are relocated and
  whose operands are in branch range; \<open>copied_as\<close> names the two forms whose copy does something else. A
  call is made from the copy, and a literal load aborts.
  \<open>RoMem\<close> is the memory of the process with its kernel, a record of what the kernel answers, and the second
  mapping through which code is written (\<^verbatim>\<open>hk/hook/MapUtil.cpp\<close>, \<^verbatim>\<open>hk/ro/RoModule.cpp\<close>); \<open>RoInit\<close> and \<open>RoProps\<close>
  have the list of modules, their ranges and the search for free room. \<open>HookInstall\<close> has the hooks
  (\<^verbatim>\<open>Hook.h\<close>, \<^verbatim>\<open>Replace.h\<close>, \<^verbatim>\<open>Trampoline.cpp\<close>, the installation of blocks). \<open>HookMem\<close> states the laws of
  patching as a locale and interprets it on the memory; \<open>HookProps\<close>, \<open>HookMain\<close> and \<open>HookExec\<close> show what
  installations and removals do to memory, alone and in any order, and what the processor then executes,
  which puts the assembler, the trampolines and the memory together.

  Linking.
  \<open>RtldElf\<close>, \<open>Rtld\<close>, \<open>RtldList\<close> and \<open>RtldStart\<close> model \<^verbatim>\<open>hk/ro/ElfUtil.h\<close>, \<^verbatim>\<open>rtld/RoModule.cpp\<close>,
  \<^verbatim>\<open>rtld/RoModuleList.h\<close> and \<^verbatim>\<open>rtld/standalone/main.cpp\<close>: the dynamic section, relocation, the ELF and GNU hash
  tables, the intrusive list of modules and the start, which loads the modules of a memory map in the
  order of their addresses. \<open>RtldLookup\<close>, \<open>RtldHashes\<close>, \<open>RtldMain\<close>
  show that lookups in well-formed tables return and are exact, \<open>RtldRelocate\<close> and \<open>RtldBind\<close> what is written
  where. Well-formed means that chains end, and that slots overlap neither each other nor the tables.

  Symbols.
  \<open>SailParse\<close> has the parsers of the host tool (\<^verbatim>\<open>parser.cpp\<close>, \<^verbatim>\<open>config.cpp\<close>), \<open>SailDb\<close> its symbols and the
  database it generates (\<^verbatim>\<open>fakelib.cpp\<close>), \<open>SailSearch\<close> the search functions generated with it, and \<open>SailRun\<close>
  the evaluation of the database on the console (\<^verbatim>\<open>hk/sail/detail.cpp\<close>, \<^verbatim>\<open>init.cpp\<close>). \<open>SailPrint\<close> and
  \<open>SailRoundtrip\<close> show that printed symbol files are read back; \<open>SailGen\<close>, \<open>SailProps\<close>, \<open>SailResolve\<close> and
  \<open>SailEnds\<close> that every symbol is found in the database by its hash, which candidate is taken, and when an
  evaluation returns: the code has no limit, and a ranking of the symbols, given by the absence of cycles,
  bounds its depth.

  Messages.
  \<open>IpcStream\<close> is \<^verbatim>\<open>hk/util/Stream.h\<close>; \<open>IpcHipc\<close> has the structures of messages with their bit fields
  (\<^verbatim>\<open>hk/sf/hipc.h\<close>, \<^verbatim>\<open>cmif.h\<close>) and the interface by which values are written and read, a locale; \<open>IpcRequest\<close>
  and \<open>IpcResponse\<close> are requests, answers and services (\<^verbatim>\<open>hk/sf/sf.h\<close>, \<^verbatim>\<open>sf.cpp\<close>, \<^verbatim>\<open>utils.h\<close>), with the kernel's
  call as an argument. \<open>IpcLayout\<close> and \<open>IpcAnswer\<close> give the layout of both in the buffer of 256 bytes, and
  \<open>IpcProps\<close> the properties.
\<close>

section \<open>How the parts meet\<close>

text \<open>
  The theorems on single parts rest on each other as the code does. That a trampoline hook works
  (\<open>HookExec\<close>) uses the emitter, the relocation (\<open>TrampolineSim\<close>), \<open>writeRo\<close> and the laws of \<open>HookMem\<close>. What
  binding writes (\<open>RtldBind\<close>) and which module provides a name (\<open>RtldMain\<close>) use the exact lookups of
  \<open>RtldLookup\<close>. The resolution of a symbol (\<open>SailResolve\<close>) goes from the host's list of symbols through the
  generated database to the console's evaluation; the hashes on both sides agree by \<open>SailHash\<close>, and the
  linker's lookups by name and by hashes by \<open>RtldHashes\<close>.

  Where the code does something else than it means to, a lemma shows it on a concrete input, or a theorem
  states what it does: that backward conditional branches are rejected, that symbols for older versions
  resolve to null, that the memory of out pointers is not sent, that a block at offset 0 cannot be removed.
\<close>

section \<open>Not modelled\<close>

text \<open>
  Where the model stands beside the code: the instructions of a trampoline's backup are kept next to the
  memory, and the theorems on running them assume that they are in it; a version index of -1 shifts
  modulo 64, as the processor does and C++ leaves open; an index behind the end of \<^verbatim>\<open>gModules\<close> gives no
  module; the host has a \<^verbatim>\<open>long\<close> of 64 bits.

  The 32-bit ARM half of the hooking code and of the linker; the parts of \<^verbatim>\<open>rtld/elf.h\<close> that nothing uses.
  The debugging aids of builds that are not for release, the texts of messages, logs and \<^verbatim>\<open>hk/diag\<close>: they
  format and print. The templates that only compute types (\<^verbatim>\<open>hk/prim/traits\<close>, \<^verbatim>\<open>Tuple.h\<close>, \<^verbatim>\<open>OneOf.h\<close>,
  \<^verbatim>\<open>ValueOrResult.h\<close>) and lifetimes of objects, which values do not show. The wrappers of system calls in
  \<^verbatim>\<open>hk/svc\<close> and the thread primitives of \<^verbatim>\<open>hk/os\<close>, whose meaning lies in the kernel: the calls that the modelled
  code makes are arguments or fields of the record of the kernel. The clients of the services in
  \<^verbatim>\<open>hk/services\<close>, lists of command numbers, and \<^verbatim>\<open>hk/sf/tipc.h\<close>, which names a field that does not exist and
  does not compile. The add-ons: generated bindings of the graphics library (\<^verbatim>\<open>Nvn\<close>), drawing code, the heap
  taken over from Atmosphere, and the Rust binding. Of the host tool, the assembler text around the entries of
  the database, the call of the compiler and the files. The build scripts.
\<close>

end
